(* ===== verification/Prelude.thy ===== *)
theory Prelude
  imports Main "HOL-Library.AList" "HOL-Library.List_Lexorder" "HOL-Library.Char_ord"
    "HOL-Library.Sublist"
begin

text \<open>
  Shared vocabulary of the development.

  \<^item> Go errors are values of a sum type: \<open>Inl e\<close> is a returned error, \<open>Inr x\<close> a result.
    \<open>bindR\<close> is the \<open>if err != nil { return err }\<close> idiom, \<open>mapR\<close> and \<open>foldR\<close> are the loops
    that stop at the first error.
  \<^item> Go maps are association lists with distinct keys (the invariant is stated where it is
    needed). The order of the list stands for the iteration order the runtime happens to
    choose, so a theorem about a function that iterates holds for every such order.
    Assignment and deletion are the library's \<^const>\<open>AList.update\<close> and \<^const>\<open>AList.delete\<close>.
  \<^item> Go strings are byte sequences, here \<^typ>\<open>string\<close>; \<open>sort.Strings\<close> is \<^const>\<open>sort\<close> for the
    lexicographic order on bytes. The functions of package \<open>strings\<close> the sources call are
    defined here.
\<close>

named_theorems go_simps \<open>unfolding rules of the modelled operations\<close>
named_theorems claim_intros \<open>facts about the claim ledger\<close>

subsection \<open>Errors as values\<close>

definition bindR :: "'e + 'a \<Rightarrow> ('a \<Rightarrow> 'e + 'b) \<Rightarrow> 'e + 'b" where
  "bindR m f = (case m of Inl e \<Rightarrow> Inl e | Inr x \<Rightarrow> f x)"

lemma bindR_simps [simp]: "bindR (Inl e) f = Inl e" "bindR (Inr x) f = f x"
  by (simp_all add: bindR_def)

lemma bindR_Inr_iff: "bindR m f = Inr y \<longleftrightarrow> (\<exists>x. m = Inr x \<and> f x = Inr y)"
  by (cases m) auto

lemma bindR_Inl_iff: "bindR m f = Inl e \<longleftrightarrow> m = Inl e \<or> (\<exists>x. m = Inr x \<and> f x = Inl e)"
  by (cases m) auto

lemma bindR_cong [fundef_cong]:
  assumes "m = m'" and "\<And>x. m' = Inr x \<Longrightarrow> f x = g x"
  shows "bindR m f = bindR m' g"
  using assms by (cases m') auto

fun mapR :: "('a \<Rightarrow> 'e + 'b) \<Rightarrow> 'a list \<Rightarrow> 'e + 'b list" where
  "mapR f [] = Inr []"
| "mapR f (x # xs) = bindR (f x) (\<lambda>y. bindR (mapR f xs) (\<lambda>ys. Inr (y # ys)))"

lemma mapR_cong [fundef_cong]:
  assumes "xs = ys" and "\<And>x. x \<in> set ys \<Longrightarrow> f x = g x"
  shows "mapR f xs = mapR g ys"
  unfolding assms(1) using assms(2) by (induction ys) auto

lemma mapR_Inr_iff: "mapR f xs = Inr ys \<longleftrightarrow> list_all2 (\<lambda>x y. f x = Inr y) xs ys"
proof (induction xs arbitrary: ys)
  case Nil
  then show ?case by auto
next
  case (Cons x xs)
  then show ?case by (cases ys) (auto simp: bindR_Inr_iff)
qed

lemma mapR_all_Inr: "(\<And>x. x \<in> set xs \<Longrightarrow> f x = Inr (g x)) \<Longrightarrow> mapR f xs = Inr (map g xs)"
  by (induction xs) auto

fun foldR :: "('a \<Rightarrow> 's \<Rightarrow> 'e + 's) \<Rightarrow> 'a list \<Rightarrow> 's \<Rightarrow> 'e + 's" where
  "foldR f [] s = Inr s"
| "foldR f (x # xs) s = bindR (f x s) (foldR f xs)"

lemma foldR_cong [fundef_cong]:
  assumes "xs = ys" and "s = t" and "\<And>x a. x \<in> set ys \<Longrightarrow> f x a = g x a"
  shows "foldR f xs s = foldR g ys t"
proof -
  have "foldR f ys a = foldR g ys a" if "\<And>x a. x \<in> set ys \<Longrightarrow> f x a = g x a" for a
    using that by (induction ys arbitrary: a) (auto simp: bindR_def split: sum.splits)
  then show ?thesis using assms by blast
qed

lemma foldR_append: "foldR f (xs @ ys) s = bindR (foldR f xs s) (foldR f ys)"
  by (induction xs arbitrary: s) (auto simp: bindR_def split: sum.splits)

lemma mapR_mem: "mapR f xs = Inr ys \<Longrightarrow> x \<in> set xs \<Longrightarrow> \<exists>y. f x = Inr y"
  by (induction xs arbitrary: ys) (auto simp: bindR_Inr_iff)

lemma mem_enumerate: "x \<in> set xs \<Longrightarrow> \<exists>i. (i, x) \<in> set (List.enumerate n xs)"
  by (induction xs arbitrary: n) auto

lemma list_all2_map_eq: "list_all2 (\<lambda>x y. g y = f x) xs ys \<Longrightarrow> map g ys = map f xs"
  by (induction rule: list_all2_induct) auto

lemma in_enumerate: "ib \<in> set (List.enumerate n xs) \<Longrightarrow> snd ib \<in> set xs"
  by (cases ib) (auto simp: enumerate_eq_zip dest: set_zip_rightD)

lemma foldR_invariant:
  assumes "foldR f xs s = Inr t" and "P s"
    and "\<And>x a b. x \<in> set xs \<Longrightarrow> f x a = Inr b \<Longrightarrow> P a \<Longrightarrow> P b"
  shows "P t"
  using assms
proof (induction xs arbitrary: s)
  case Nil
  then show ?case by simp
next
  case (Cons x xs)
  then show ?case by (auto simp: bindR_Inr_iff)
qed

subsection \<open>Association lists as Go maps\<close>

lemma map_of_update_simp [simp]: "map_of (AList.update k v m) = (map_of m)(k \<mapsto> v)"
  by (rule update_conv')

lemma map_of_delete_simp [simp]: "map_of (AList.delete k m) = (map_of m)(k := None)"
  by (rule delete_conv')

lemma distinct_update_simp [simp]:
  "distinct (map fst m) \<Longrightarrow> distinct (map fst (AList.update k v m))"
  by (rule distinct_update)

lemma distinct_delete_simp [simp]:
  "distinct (map fst m) \<Longrightarrow> distinct (map fst (AList.delete k m))"
  by (rule distinct_delete)

lemma map_of_keys_iff: "k \<in> set (map fst m) \<longleftrightarrow> (\<exists>v. map_of m k = Some v)"
  by (metis domIff dom_map_of_conv_image_fst list.set_map not_None_eq)

lemma update_Nil_iff [simp]: "AList.update k v m \<noteq> []"
  by (cases m) auto

lemma update_fresh: "k \<notin> set (map fst m) \<Longrightarrow> AList.update k v m = m @ [(k, v)]"
  by (induction m) auto

subsection \<open>Package strings\<close>

text \<open>\<open>strings.HasPrefix\<close>, \<open>strings.TrimPrefix\<close>, \<open>strings.Join\<close>.\<close>

definition hasPrefix :: "string \<Rightarrow> string \<Rightarrow> bool" where
  "hasPrefix s pre \<longleftrightarrow> take (length pre) s = pre"

definition trimPrefix :: "string \<Rightarrow> string \<Rightarrow> string" where
  "trimPrefix s pre = (if hasPrefix s pre then drop (length pre) s else s)"

fun joinStr :: "string list \<Rightarrow> string \<Rightarrow> string" where
  "joinStr [] sep = []"
| "joinStr [p] sep = p"
| "joinStr (p # q # ps) sep = p @ sep @ joinStr (q # ps) sep"

lemma hasPrefix_append [simp]: "hasPrefix (pre @ s) pre"
  by (simp add: hasPrefix_def)

lemma hasPrefix_length: "hasPrefix s q \<Longrightarrow> length q \<le> length s"
  by (metis hasPrefix_def nle_le take_all)

lemma hasPrefix_Nil [simp]: "hasPrefix s []"
  by (simp add: hasPrefix_def)

lemma hasPrefix_eq_prefix: "hasPrefix s p \<longleftrightarrow> prefix p s"
  by (auto simp: hasPrefix_def prefix_def) (metis append_take_drop_id)

text \<open>
  The width of the UTF-8 sequence a string starts with, as \<open>utf8.DecodeRuneInString\<close>
  reports it: an ill-formed sequence has width 1.
\<close>

fun runeWidth :: "nat list \<Rightarrow> nat" where
  "runeWidth (a # b # c # d # r) =
     (let cont = (\<lambda>x. 128 \<le> x \<and> x \<le> 191) in
      if 194 \<le> a \<and> a \<le> 223 \<and> cont b then 2
      else if 224 \<le> a \<and> a \<le> 239 \<and> cont c \<and> (if a = 224 then 160 else 128) \<le> b
        \<and> b \<le> (if a = 237 then 159 else 191) then 3
      else if 240 \<le> a \<and> a \<le> 244 \<and> cont c \<and> cont d \<and> (if a = 240 then 144 else 128) \<le> b
        \<and> b \<le> (if a = 244 then 143 else 191) then 4
      else 1)"
| "runeWidth [a, b, c] =
     (let cont = (\<lambda>x. 128 \<le> x \<and> x \<le> 191) in
      if 194 \<le> a \<and> a \<le> 223 \<and> cont b then 2
      else if 224 \<le> a \<and> a \<le> 239 \<and> cont c \<and> (if a = 224 then 160 else 128) \<le> b
        \<and> b \<le> (if a = 237 then 159 else 191) then 3
      else 1)"
| "runeWidth [a, b] = (if 194 \<le> a \<and> a \<le> 223 \<and> 128 \<le> b \<and> b \<le> 191 then 2 else 1)"
| "runeWidth _ = 1"

text \<open>\<open>strings.Split\<close>: an empty separator explodes into UTF-8 sequences.\<close>

function explodeStr :: "string \<Rightarrow> string list" where
  "explodeStr s = (if s = [] then []
     else let w = max 1 (runeWidth (map of_char s)) in take w s # explodeStr (drop w s))"
  by pat_completeness auto
termination
  by (relation "measure length") auto

fun splitOn :: "string \<Rightarrow> string \<Rightarrow> string \<Rightarrow> string list" where
  "splitOn sep [] cur = [rev cur]"
| "splitOn sep (c # cs) cur =
     (if hasPrefix (c # cs) sep then rev cur # splitOn sep (drop (length sep - 1) cs) []
      else splitOn sep cs (c # cur))"

definition splitStr :: "string \<Rightarrow> string \<Rightarrow> string list" where
  "splitStr s sep = (if sep = [] then explodeStr s else splitOn sep s [])"

declare explodeStr.simps [simp del]

text \<open>\<open>strings.ReplaceAll\<close> for a non-empty old string, the only use in the sources.\<close>

fun replaceAll :: "string \<Rightarrow> string \<Rightarrow> string \<Rightarrow> string" where
  "replaceAll [] old new = []"
| "replaceAll (c # cs) old new =
     (if old \<noteq> [] \<and> hasPrefix (c # cs) old then new @ replaceAll (drop (length old - 1) cs) old new
      else c # replaceAll cs old new)"

text \<open>
  \<open>strings.TrimSpace\<close>: the UTF-8 encodings of the characters \<open>unicode.IsSpace\<close> accepts, dropped
  from both ends.
\<close>

definition spaceSeqs :: "string list" where
  "spaceSeqs = map (map char_of) ([[9], [10], [11], [12], [13], [32], [194, 133], [194, 160],
     [225, 154, 128], [226, 128, 168], [226, 128, 169], [226, 128, 175], [226, 129, 159],
     [227, 128, 128]] @ map (\<lambda>b. [226, 128, b]) [128..<139 :: nat])"

function trimLeading :: "string list \<Rightarrow> string \<Rightarrow> string" where
  "trimLeading seqs s =
     (case List.find (\<lambda>q. q \<noteq> [] \<and> hasPrefix s q) seqs of
        None \<Rightarrow> s
      | Some q \<Rightarrow> trimLeading seqs (drop (length q) s))"
  by pat_completeness auto
termination
  by (relation "measure (length o snd)")
    (auto simp: find_Some_iff dest!: hasPrefix_length, metis diff_less length_greater_0_conv order_less_le_trans)

declare trimLeading.simps [simp del]

definition trimSpace :: "string \<Rightarrow> string" where
  "trimSpace s = rev (trimLeading (map rev spaceSeqs) (rev (trimLeading spaceSeqs s)))"

text \<open>
  Splitting undoes joining as long as no part holds the separator's first byte: a scan
  over such a part cannot start a match early.
\<close>

lemma splitOn_skip:
  assumes "sep \<noteq> []" and "hd sep \<notin> set p"
  shows "splitOn sep (p @ r) cur = splitOn sep r (rev p @ cur)"
  using assms
proof (induction p arbitrary: cur)
  case Nil
  then show ?case by simp
next
  case (Cons c cs)
  then have "\<not> hasPrefix (c # cs @ r) sep"
    by (cases sep) (auto simp: hasPrefix_def)
  with Cons show ?case by simp
qed

lemma splitOn_joinStr:
  assumes "sep \<noteq> []" and "ps \<noteq> []" and "\<forall>p\<in>set ps. hd sep \<notin> set p"
  shows "splitOn sep (joinStr ps sep) [] = ps"
  using assms(2,3)
proof (induction ps)
  case (Cons p ps)
  show ?case
  proof (cases ps)
    case Nil
    with Cons splitOn_skip[OF assms(1), of p "[]" "[]"] show ?thesis by simp
  next
    case (Cons q qs)
    obtain c cs where sep: "sep = c # cs" using assms(1) by (cases sep) auto
    have "splitOn sep (sep @ joinStr ps sep) (rev p) = p # splitOn sep (joinStr ps sep) []"
      by (simp add: sep hasPrefix_def)
    with Cons.IH Cons.prems Cons show ?thesis
      by (simp add: splitOn_skip[OF assms(1)])
  qed
qed simp

lemma splitStr_joinStr:
  "sep \<noteq> [] \<Longrightarrow> ps \<noteq> [] \<Longrightarrow> \<forall>p\<in>set ps. hd sep \<notin> set p \<Longrightarrow> splitStr (joinStr ps sep) sep = ps"
  by (simp add: splitStr_def splitOn_joinStr)

lemma splitOn_nonempty [simp]: "splitOn sep s cur \<noteq> []"
  by (induction sep s cur rule: splitOn.induct) auto

text \<open>Joining the pieces a split produced gives the string back, whatever the separator.\<close>

lemma joinStr_Cons: "ps \<noteq> [] \<Longrightarrow> joinStr (p # ps) sep = p @ sep @ joinStr ps sep"
  by (cases ps) auto

lemma hasPrefix_decompose: "hasPrefix s pre \<Longrightarrow> s = pre @ drop (length pre) s"
  by (metis append_take_drop_id hasPrefix_def)

lemma joinStr_splitOn:
  assumes "sep \<noteq> []"
  shows "joinStr (splitOn sep s cur) sep = rev cur @ s"
  using assms
proof (induction sep s cur rule: splitOn.induct)
  case (1 sep cur)
  then show ?case by simp
next
  case (2 sep c cs cur)
  show ?case
  proof (cases "hasPrefix (c # cs) sep")
    case True
    then have "c # cs = sep @ drop (length sep - 1) cs"
      using hasPrefix_decompose[OF True] "2.prems" by (cases sep) auto
    moreover have "joinStr (splitOn sep (c # cs) cur) sep = rev cur @ sep @ drop (length sep - 1) cs"
      using True "2.IH"(1) "2.prems" by (simp add: joinStr_Cons)
    ultimately show ?thesis by simp
  next
    case False
    with 2 show ?thesis by simp
  qed
qed

subsection \<open>Decimal integers\<close>

text \<open>\<open>strconv.FormatInt(i, 10)\<close> and \<open>strconv.FormatBool\<close>.\<close>

fun showNat :: "nat \<Rightarrow> string" where
  "showNat n = (if n < 10 then [char_of (48 + n)] else showNat (n div 10) @ [char_of (48 + n mod 10)])"

declare showNat.simps [simp del]

definition showInt :: "int \<Rightarrow> string" where
  "showInt i = (if i < 0 then ''-'' @ showNat (nat (- i)) else showNat (nat i))"

definition showBool :: "bool \<Rightarrow> string" where
  "showBool b = (if b then ''true'' else ''false'')"

lemma showBool_inject [simp]: "showBool a = showBool b \<longleftrightarrow> a = b"
  by (simp add: showBool_def)

text \<open>Reading the digits back, to show that the rendering loses nothing.\<close>

definition readNat :: "string \<Rightarrow> nat" where
  "readNat s = foldl (\<lambda>a c. 10 * a + (of_char c - 48)) 0 s"

lemma readNat_snoc: "readNat (s @ [c]) = 10 * readNat s + (of_char c - 48)"
  by (simp add: readNat_def)

lemma of_char_digit: "d < 10 \<Longrightarrow> of_char (char_of (48 + d) :: char) = (48 + d :: nat)"
  by (simp add: of_char_of)

lemma readNat_showNat [simp]: "readNat (showNat n) = n"
proof (induction n rule: showNat.induct)
  case (1 n)
  show ?case
  proof (cases "n < 10")
    case True
    then show ?thesis
      by (subst showNat.simps) (simp add: readNat_def of_char_digit)
  next
    case False
    then show ?thesis
      by (subst showNat.simps) (simp add: readNat_snoc 1 of_char_digit)
  qed
qed

lemma showNat_digits: "c \<in> set (showNat n) \<Longrightarrow> 48 \<le> (of_char c :: nat) \<and> (of_char c :: nat) \<le> 57"
proof (induction n rule: showNat.induct)
  case (1 n)
  then show ?case
    by (subst (asm) showNat.simps) (fastforce simp: of_char_digit split: if_splits)
qed

lemma showNat_neq_minus: "showNat n \<noteq> CHR ''-'' # s"
proof
  assume "showNat n = CHR ''-'' # s"
  then have "CHR ''-'' \<in> set (showNat n)" by simp
  from showNat_digits[OF this] show False by simp
qed

lemma showInt_inject [simp]: "showInt i = showInt j \<longleftrightarrow> i = j"
proof
  assume eq: "showInt i = showInt j"
  have nat_eq: "showNat a = showNat b \<Longrightarrow> a = b" for a b
    by (metis readNat_showNat)
  show "i = j"
    using eq showNat_neq_minus[of "nat i"] showNat_neq_minus[of "nat j"]
    by (auto simp: showInt_def dest!: nat_eq split: if_splits) metis+
qed simp

end
