(* ===== verification/GoNum.thy ===== *)
theory GoNum
  imports Prelude Complex_Main "HOL-Library.Log_Nat" "HOL-Library.Word"
begin

text \<open>
  Go's numeric types as the engine uses them. A \<open>float64\<close> is its exact rational value, an
  infinity or NaN (the two zeros are identified: nothing in the engine tells them apart).
  \<open>round64\<close> is IEEE 754 rounding to nearest, ties to even, into 53 significant bits with the
  subnormal range and overflow to infinity; conversion from the integer types, and the
  product and quotient of two floats, are the exact result rounded by it. Integers are words
  of their Go width.
\<close>

datatype float64 = Fin rat | PosInf | NegInf | NaN

type_synonym int64 = "64 word"
type_synonym int32 = "32 word"

subsection \<open>Rounding\<close>

definition pow2 :: "int \<Rightarrow> rat" where
  "pow2 e = (if 0 \<le> e then 2 ^ nat e else 1 / 2 ^ nat (- e))"

text \<open>The exponent of the leading binary digit of a positive rational.\<close>

definition ilog2 :: "rat \<Rightarrow> int" where
  "ilog2 q = (let (n, d) = quotient_of q; e = bitlen n - bitlen d
              in if pow2 e \<le> q then e else e - 1)"

definition roundHalfEven :: "rat \<Rightarrow> int" where
  "roundHalfEven q = (let f = \<lfloor>q\<rfloor>; r = q - of_int f
     in if r < 1 / 2 then f else if 1 / 2 < r then f + 1 else if even f then f else f + 1)"

definition round64 :: "rat \<Rightarrow> float64" where
  "round64 q =
     (if q = 0 then Fin 0
      else let u = max (ilog2 \<bar>q\<bar> - 52) (- 1074);
               r = of_int (roundHalfEven (\<bar>q\<bar> / pow2 u)) * pow2 u
           in if 2 ^ 1024 \<le> r then (if 0 < q then PosInf else NegInf)
              else Fin (if 0 < q then r else - r))"

subsection \<open>Conversions and arithmetic\<close>

definition int64_to_float64 :: "int64 \<Rightarrow> float64" where
  "int64_to_float64 w = round64 (of_int (sint w))"

definition int32_to_float64 :: "int32 \<Rightarrow> float64" where
  "int32_to_float64 w = round64 (of_int (sint w))"

fun mul64 :: "float64 \<Rightarrow> float64 \<Rightarrow> float64" where
  "mul64 (Fin a) (Fin b) = round64 (a * b)"
| "mul64 NaN _ = NaN"
| "mul64 _ NaN = NaN"
| "mul64 (Fin a) y = (if a = 0 then NaN else if (0 < a) = (y = PosInf) then PosInf else NegInf)"
| "mul64 x (Fin b) = (if b = 0 then NaN else if (0 < b) = (x = PosInf) then PosInf else NegInf)"
| "mul64 x y = (if x = y then PosInf else NegInf)"

text \<open>
  A finite value over zero is an infinity whose sign depends on the sign of the zero; the
  model takes the positive zero. \<open>NumericScale\<close> rejects a zero factor when it compiles.
\<close>

fun div64 :: "float64 \<Rightarrow> float64 \<Rightarrow> float64" where
  "div64 (Fin a) (Fin b) =
     (if b = 0 then (if a = 0 then NaN else if 0 < a then PosInf else NegInf) else round64 (a / b))"
| "div64 NaN _ = NaN"
| "div64 _ NaN = NaN"
| "div64 (Fin a) _ = Fin 0"
| "div64 x (Fin b) = (if (0 \<le> b) = (x = PosInf) then PosInf else NegInf)"
| "div64 _ _ = NaN"

text \<open>Go's \<open>==\<close> on floats: NaN is not equal to itself.\<close>

definition eq64 :: "float64 \<Rightarrow> float64 \<Rightarrow> bool" where
  "eq64 x y \<longleftrightarrow> x \<noteq> NaN \<and> x = y"

definition truncRat :: "rat \<Rightarrow> int" where
  "truncRat q = (if 0 \<le> q then \<lfloor>q\<rfloor> else - \<lfloor>- q\<rfloor>)"

definition roundRat :: "rat \<Rightarrow> int" where
  "roundRat q = (if 0 \<le> q then \<lfloor>q + 1 / 2\<rfloor> else - \<lfloor>- q + 1 / 2\<rfloor>)"

text \<open>\<open>math.Trunc\<close> and \<open>math.Round\<close> (half away from zero).\<close>

fun trunc64 :: "float64 \<Rightarrow> float64" where
  "trunc64 (Fin q) = Fin (of_int (truncRat q))"
| "trunc64 x = x"

fun roundAway64 :: "float64 \<Rightarrow> float64" where
  "roundAway64 (Fin q) = Fin (of_int (roundRat q))"
| "roundAway64 x = x"

subsection \<open>Facts\<close>

lemma pow2_pos [simp]: "0 < pow2 e"
  by (simp add: pow2_def)

lemma pow2_nonneg: "0 \<le> e \<Longrightarrow> pow2 e = of_int (2 ^ nat e)"
  by (simp add: pow2_def)

lemma pow2_add: "pow2 (a + b) = pow2 a * pow2 b"
proof -
  have powi: "pow2 e = 2 powi e" for e
    by (simp add: pow2_def power_int_def inverse_eq_divide power_divide)
  show ?thesis by (simp add: powi power_int_add)
qed

lemma pow2_mono: "a \<le> b \<Longrightarrow> pow2 a \<le> pow2 b"
proof -
  assume "a \<le> b"
  then have "pow2 b = pow2 a * pow2 (b - a)" by (simp flip: pow2_add)
  moreover have "1 \<le> pow2 (b - a)" using \<open>a \<le> b\<close> by (simp add: pow2_def)
  ultimately show ?thesis using pow2_pos[of a] by (metis mult_le_cancel_left1 not_less_iff_gr_or_eq)
qed

lemma bitlen_pow2_bounds:
  assumes "0 < n"
  shows "pow2 (bitlen n - 1) \<le> of_int n" and "of_int n < pow2 (bitlen n)"
proof -
  have b: "2 ^ nat (bitlen n - 1) \<le> n \<and> n < 2 ^ nat (bitlen n)"
    using assms by (rule bitlen_bounds)
  have pos: "0 < bitlen n" using assms by (simp add: bitlen_def floorlog_def add_pos_nonneg)
  show "pow2 (bitlen n - 1) \<le> of_int n"
    using b pos by (simp only: pow2_nonneg of_int_le_iff)
  show "of_int n < pow2 (bitlen n)"
    using b pos by (simp only: pow2_nonneg of_int_less_iff)
qed

lemma ilog2_lower:
  assumes "0 < q"
  shows "pow2 (ilog2 q) \<le> q"
proof -
  obtain n d where nd: "quotient_of q = (n, d)" by fastforce
  have d: "0 < d" using nd by (rule quotient_of_denom_pos)
  have q: "q = of_int n / of_int d" using nd by (rule quotient_of_div)
  have n: "0 < n" using assms q d by (simp add: zero_less_divide_iff)
  have "pow2 (bitlen n - bitlen d - 1) * of_int d \<le> pow2 (bitlen n - bitlen d - 1) * pow2 (bitlen d)"
    using bitlen_pow2_bounds(2)[OF d] by (simp add: order_less_imp_le)
  also have "\<dots> = pow2 (bitlen n - 1)" by (simp flip: pow2_add)
  also have "\<dots> \<le> of_int n" by (rule bitlen_pow2_bounds(1)[OF n])
  finally have "pow2 (bitlen n - bitlen d - 1) \<le> q"
    using d by (simp add: q pos_le_divide_eq)
  then show ?thesis by (simp add: ilog2_def nd Let_def)
qed

lemma roundHalfEven_int [simp]: "roundHalfEven (of_int i) = i"
  by (simp add: roundHalfEven_def)

lemma round64_exact:
  assumes "\<bar>q\<bar> = of_int i * pow2 (max (ilog2 \<bar>q\<bar> - 52) (- 1074))" and "\<bar>q\<bar> < 2 ^ 1024"
  shows "round64 q = Fin q"
proof (cases "q = 0")
  case False
  define u where "u = max (ilog2 \<bar>q\<bar> - 52) (- 1074)"
  have "\<bar>q\<bar> / pow2 u = of_int i"
    using assms(1) pow2_pos[of u] unfolding u_def by (metis nonzero_mult_div_cancel_right order_less_irrefl)
  then have "of_int (roundHalfEven (\<bar>q\<bar> / pow2 u)) * pow2 u = \<bar>q\<bar>"
    using assms(1) by (simp add: u_def)
  with assms(2) False show ?thesis
    by (auto simp: round64_def Let_def u_def abs_if)
qed (simp add: round64_def)

text \<open>Integers of magnitude below \<open>2^53\<close> are floats.\<close>

lemma round64_of_int:
  assumes "\<bar>i\<bar> < 2 ^ 53"
  shows "round64 (of_int i) = Fin (of_int i)"
proof (cases "i = 0")
  case False
  let ?e = "ilog2 \<bar>of_int i\<bar>"
  have low: "pow2 ?e \<le> of_int \<bar>i\<bar>"
    using False ilog2_lower[of "\<bar>of_int i\<bar>"] by simp
  have e: "?e \<le> 52"
  proof (rule ccontr)
    assume "\<not> ?e \<le> 52"
    then have "pow2 53 \<le> pow2 ?e" by (intro pow2_mono) simp
    then have "(2 ^ 53 :: rat) \<le> of_int \<bar>i\<bar>" using low by (simp add: pow2_def)
    then have "of_int (2 ^ 53) \<le> (of_int \<bar>i\<bar> :: rat)" by simp
    then show False using assms by (simp only: of_int_le_iff)
  qed
  define k where "k = - max (?e - 52) (- 1074)"
  have k: "0 \<le> k" using e by (simp add: k_def)
  have "\<bar>of_int i\<bar> = (of_int (\<bar>i\<bar> * 2 ^ nat k) :: rat) * pow2 (- k)"
    using k by (simp add: pow2_def)
  then have "\<bar>of_int i\<bar> = (of_int (\<bar>i\<bar> * 2 ^ nat k) :: rat) * pow2 (max (?e - 52) (- 1074))"
    by (simp add: k_def)
  moreover have "\<bar>of_int i :: rat\<bar> < 2 ^ 1024"
  proof -
    have "\<bar>i\<bar> < 2 ^ 1024"
      using assms by (rule less_le_trans) simp
    then have "(of_int \<bar>i\<bar> :: rat) < of_int (2 ^ 1024)" by (simp only: of_int_less_iff)
    then show ?thesis by simp
  qed
  ultimately show ?thesis by (rule round64_exact)
qed (simp add: round64_def)

lemma truncRat_of_int [simp]: "truncRat (of_int i) = i"
  by (simp add: truncRat_def flip: of_int_minus)

lemma roundRat_of_int [simp]: "roundRat (of_int i) = i"
  by (auto simp: roundRat_def algebra_simps floor_eq_iff)

lemma truncRat_close: "\<bar>q - of_int (truncRat q)\<bar> < 1"
  by (auto simp: truncRat_def abs_if)
    (use floor_correct[of q] floor_correct[of "- q"] in linarith)+

lemma roundRat_close: "\<bar>q - of_int (roundRat q)\<bar> \<le> 1 / 2"
  by (auto simp: roundRat_def abs_if)
    (use floor_correct[of "q + 1 / 2"] floor_correct[of "1 / 2 - q"] in linarith)+

lemma trunc64_idem [simp]: "trunc64 (trunc64 x) = trunc64 x"
  by (cases x) auto

lemma eq64_trunc_iff: "eq64 x (trunc64 x) \<longleftrightarrow> (case x of Fin q \<Rightarrow> q \<in> \<int> | NaN \<Rightarrow> False | _ \<Rightarrow> True)"
proof (cases x)
  case (Fin q)
  have "q = of_int (truncRat q) \<longleftrightarrow> q \<in> \<int>"
    by (metis Ints_cases Ints_of_int truncRat_of_int)
  then show ?thesis by (simp add: Fin eq64_def)
qed (auto simp: eq64_def)

text \<open>Below one the leading digit is behind the point, so a quotient by \<open>2^53\<close> of a smaller integer is exact.\<close>

lemma ilog2_upper:
  assumes "0 < q" and "q < 1"
  shows "ilog2 q \<le> - 1"
proof (rule ccontr)
  assume "\<not> ilog2 q \<le> - 1"
  then have "pow2 0 \<le> pow2 (ilog2 q)" by (intro pow2_mono) simp
  also have "\<dots> \<le> q" using assms(1) by (rule ilog2_lower)
  finally show False using assms(2) by (simp add: pow2_def)
qed

lemma round64_pow2_53: "round64 (2 ^ 53) = Fin (2 ^ 53)" "round64 (of_int (2 ^ 53 + 1)) = Fin (2 ^ 53)"
  by code_simp+

lemma round64_ratio:
  assumes "0 < n" and "n < (2 :: int) ^ 53"
  shows "round64 (of_int n / 2 ^ 53) = Fin (of_int n / 2 ^ 53)"
proof -
  let ?q = "of_int n / 2 ^ 53 :: rat"
  have q: "0 < ?q" using assms(1) by simp
  have "(of_int n :: rat) < of_int (2 ^ 53)" using assms(2) by (simp only: of_int_less_iff)
  then have lt: "?q < 1" by simp
  define k where "k = - 53 - max (ilog2 ?q - 52) (- 1074)"
  have k: "0 \<le> k" using ilog2_upper[OF q lt] by (simp add: k_def)
  have "pow2 (- 53) = pow2 k * pow2 (max (ilog2 ?q - 52) (- 1074))" by (simp add: k_def flip: pow2_add)
  then have "?q = of_int (n * 2 ^ nat k) * pow2 (max (ilog2 ?q - 52) (- 1074))"
    using k by (simp add: pow2_def[of "-53"] pow2_def[of k] field_simps)
  then have "\<bar>?q\<bar> = of_int (n * 2 ^ nat k) * pow2 (max (ilog2 \<bar>?q\<bar> - 52) (- 1074))" using q by simp
  moreover have "\<bar>?q\<bar> < 2 ^ 1024" using q lt by simp
  ultimately show ?thesis by (rule round64_exact)
qed

end
