(* ===== verification/JsonValue.thy ===== *)
theory JsonValue
  imports GoNum
begin

text \<open>
  The decoded JSON values (\<open>any\<close>) the engine moves around, and the error and message values
  it returns. A Go map is an association list (theory Prelude); a value that satisfies
  \<open>wf_val\<close> has distinct keys in every map. \<open>JInt64\<close>, \<open>JInt\<close> and \<open>JInt32\<close> are the integer types
  the decoders in the code base may produce next to \<open>float64\<close>.
\<close>

datatype jval =
    JNull
  | JBool bool
  | JFloat float64
  | JInt64 int64
  | JInt int64
  | JInt32 int32
  | JStr string
  | JArr "jval list"
  | JObj "(string \<times> jval) list"

type_synonym jobj = "(string \<times> jval) list"
type_synonym FieldPath = "string list"

text \<open>
  An error or diagnostic message is its format string with the arguments it is rendered from;
  a wrapped error (\<open>%w\<close>) is an argument that is a message itself.
\<close>

datatype msg = Fmt string "msg list" | MStr string | MInt int | MVal jval | MPath FieldPath

type_synonym gerr = msg

fun wf_val :: "jval \<Rightarrow> bool" where
  "wf_val (JArr xs) = (\<forall>x\<in>set xs. wf_val x)"
| "wf_val (JObj m) = (distinct (map fst m) \<and> (\<forall>kv\<in>set m. wf_val (snd kv)))"
| "wf_val _ = True"

definition wf_obj :: "jobj \<Rightarrow> bool" where
  "wf_obj m = wf_val (JObj m)"

lemma wf_obj_lookup: "wf_obj m \<Longrightarrow> map_of m k = Some v \<Longrightarrow> wf_val v"
  by (force simp: wf_obj_def dest: map_of_SomeD)

lemma wf_obj_update: "wf_obj m \<Longrightarrow> wf_val v \<Longrightarrow> wf_obj (AList.update k v m)"
proof -
  assume m: "wf_obj m" and v: "wf_val v"
  have "set (AList.update k v m) \<subseteq> insert (k, v) (set m)"
    by (induction m) auto
  with m v show ?thesis by (force simp: wf_obj_def)
qed

lemma wf_obj_delete: "wf_obj m \<Longrightarrow> wf_obj (AList.delete k m)"
  by (auto simp: wf_obj_def AList.delete_eq distinct_map_filter)

lemma wf_obj_Nil [simp]: "wf_obj []"
  by (simp add: wf_obj_def)

subsection \<open>Copying and comparing\<close>

text \<open>\<open>deepCopyValue\<close>; in a model without aliasing it is the identity, which is proved.\<close>

fun deepCopyValue :: "jval \<Rightarrow> jval" where
  "deepCopyValue (JObj m) = JObj (map (\<lambda>kv. (fst kv, deepCopyValue (snd kv))) m)"
| "deepCopyValue (JArr xs) = JArr (map deepCopyValue xs)"
| "deepCopyValue v = v"

lemma deepCopyValue_id [simp]: "deepCopyValue v = v"
  by (induction v rule: deepCopyValue.induct) (auto intro!: map_idI)

text \<open>\<open>reflect.DeepEqual\<close> on decoded values: same dynamic type, maps compared by key.\<close>

fun deepEqual :: "jval \<Rightarrow> jval \<Rightarrow> bool" where
  "deepEqual (JObj m) (JObj n) =
     (length m = length n \<and>
      (\<forall>kv\<in>set m. case map_of n (fst kv) of None \<Rightarrow> False | Some w \<Rightarrow> deepEqual (snd kv) w))"
| "deepEqual (JArr xs) (JArr ys) =
     list_all2 deepEqual xs ys"
| "deepEqual (JFloat x) (JFloat y) = eq64 x y"
| "deepEqual (JObj _) _ = False"
| "deepEqual (JArr _) _ = False"
| "deepEqual (JFloat _) _ = False"
| "deepEqual v w = (v = w)"

definition asInt64 :: "jval \<Rightarrow> int64 option" where
  "asInt64 v = (case v of JInt64 w \<Rightarrow> Some w | JInt w \<Rightarrow> Some w
     | JInt32 w \<Rightarrow> Some (signed w) | _ \<Rightarrow> None)"

definition AsFloat64 :: "jval \<Rightarrow> float64 option" where
  "AsFloat64 v = (case v of JFloat f \<Rightarrow> Some f | JInt64 w \<Rightarrow> Some (int64_to_float64 w)
     | JInt w \<Rightarrow> Some (int64_to_float64 w) | JInt32 w \<Rightarrow> Some (int32_to_float64 w) | _ \<Rightarrow> None)"

definition jsonValuesEqual :: "jval \<Rightarrow> jval \<Rightarrow> bool" where
  "jsonValuesEqual a b =
     (case (asInt64 a, asInt64 b) of
        (Some ai, Some bi) \<Rightarrow> ai = bi
      | _ \<Rightarrow> (case (AsFloat64 a, AsFloat64 b) of
          (Some af, Some bf) \<Rightarrow> eq64 af bf
        | _ \<Rightarrow> deepEqual a b))"

text \<open>NaN is the only thing that makes a well-formed value differ from itself.\<close>

fun nanFree :: "jval \<Rightarrow> bool" where
  "nanFree (JArr xs) = (\<forall>x\<in>set xs. nanFree x)"
| "nanFree (JObj m) = (\<forall>kv\<in>set m. nanFree (snd kv))"
| "nanFree (JFloat f) = (f \<noteq> NaN)"
| "nanFree _ = True"

lemma deepEqual_refl: "wf_val v \<Longrightarrow> nanFree v \<Longrightarrow> deepEqual v v"
proof (induction v rule: wf_val.induct)
  case (1 xs)
  then show ?case by (auto simp: list_all2_same)
next
  case (2 m)
  then show ?case by (auto simp: map_of_eq_Some_iff)
qed (auto simp: eq64_def)

lemma jsonValuesEqual_refl: "wf_val v \<Longrightarrow> nanFree v \<Longrightarrow> jsonValuesEqual v v"
proof -
  assume "wf_val v" and nf: "nanFree v"
  then have "deepEqual v v" by (rule deepEqual_refl)
  then show ?thesis using nf
    by (cases v) (auto simp: jsonValuesEqual_def asInt64_def AsFloat64_def eq64_def)
qed

end
