(* ===== verification/FieldPaths.thy ===== *)
theory FieldPaths
  imports JsonValue
begin

text \<open>
  Field paths and the object store (\<open>pkg/engine/path.go\<close>): parsing and printing of paths, and
  reading, writing, deleting and pruning at a path of a JSON object. The laws of the store are
  an interface (locale \<open>path_store\<close>) that the op and plan proofs are clients of.
\<close>

subsection \<open>Paths\<close>

definition ParsePath :: "string \<Rightarrow> FieldPath" where
  "ParsePath s = (if s = [] then [] else splitStr s ''.'')"

definition unescapeSegment :: "string \<Rightarrow> string" where
  "unescapeSegment s = replaceAll (replaceAll s ''~1'' ''/'') ''~0'' ''~''"

definition FieldPathFromJSONPointer :: "string \<Rightarrow> FieldPath" where
  "FieldPathFromJSONPointer ptr =
     (let p = trimPrefix ptr ''/'' in if p = [] then [] else map unescapeSegment (splitStr p ''/''))"

definition pathString :: "FieldPath \<Rightarrow> string" where
  "pathString p = joinStr p ''.''"

fun pathEqual :: "FieldPath \<Rightarrow> FieldPath \<Rightarrow> bool" where
  "pathEqual [] [] = True"
| "pathEqual (a # p) (b # q) = (if a \<noteq> b then False else pathEqual p q)"
| "pathEqual _ _ = False"

fun pathHasPrefix :: "FieldPath \<Rightarrow> FieldPath \<Rightarrow> bool" where
  "pathHasPrefix p [] = True"
| "pathHasPrefix [] (_ # _) = False"
| "pathHasPrefix (a # p) (b # q) = (if a \<noteq> b then False else pathHasPrefix p q)"

definition lastSegment :: "FieldPath \<Rightarrow> string" where
  "lastSegment p = (if p = [] then [] else last p)"

lemma pathEqual_iff [simp]: "pathEqual p q \<longleftrightarrow> p = q"
  by (induction p q rule: pathEqual.induct) auto

lemma pathHasPrefix_iff: "pathHasPrefix p q \<longleftrightarrow> prefix q p"
  by (induction p q rule: pathHasPrefix.induct) auto

text \<open>
  A segment without dots survives printing and parsing; the empty path and the path with one
  empty segment both print as the empty string.
\<close>

definition plainPath :: "FieldPath \<Rightarrow> bool" where
  "plainPath p \<longleftrightarrow> p \<noteq> [] \<and> p \<noteq> [[]] \<and> (\<forall>s\<in>set p. CHR ''.'' \<notin> set s)"

lemma pathString_empty_iff: "p \<noteq> [] \<Longrightarrow> pathString p = [] \<longleftrightarrow> p = [[]]"
proof (cases p rule: remdups_adj.cases)
  case (3 a b q)
  then show ?thesis by (simp add: pathString_def)
qed (auto simp: pathString_def)

lemma ParsePath_pathString: "plainPath p \<Longrightarrow> ParsePath (pathString p) = p"
  by (simp add: ParsePath_def plainPath_def pathString_empty_iff)
    (simp add: pathString_def splitStr_joinStr)

lemma pathString_inject: "plainPath p \<Longrightarrow> plainPath q \<Longrightarrow> pathString p = pathString q \<Longrightarrow> p = q"
  by (metis ParsePath_pathString)

lemma pathString_ParsePath: "pathString (ParsePath s) = s"
  by (simp add: ParsePath_def pathString_def splitStr_def joinStr_splitOn)

subsection \<open>Reading, writing and deleting\<close>

text \<open>\<open>getFrom\<close> is the loop of \<open>getValue\<close> over the current node.\<close>

fun getFrom :: "jval \<Rightarrow> FieldPath \<Rightarrow> jval option" where
  "getFrom v [] = Some v"
| "getFrom (JObj m) (k # ks) = (case map_of m k of None \<Rightarrow> None | Some v \<Rightarrow> getFrom v ks)"
| "getFrom _ (_ # _) = None"

definition getValue :: "jobj \<Rightarrow> FieldPath \<Rightarrow> jval option" where
  "getValue obj path = getFrom (JObj obj) path"

fun setValue :: "jobj \<Rightarrow> FieldPath \<Rightarrow> jval \<Rightarrow> gerr + jobj" where
  "setValue obj [] val = Inl (Fmt ''setValue: empty path'' [])"
| "setValue obj [k] val = Inr (AList.update k val obj)"
| "setValue obj (k # l # ks) val =
     (case map_of obj k of
        None \<Rightarrow> bindR (setValue [] (l # ks) val) (\<lambda>m. Inr (AList.update k (JObj m) obj))
      | Some (JObj m) \<Rightarrow> bindR (setValue m (l # ks) val) (\<lambda>m'. Inr (AList.update k (JObj m') obj))
      | Some _ \<Rightarrow> Inl (Fmt ''setValue: cannot descend into non-object at %s'' [MStr k]))"

fun deleteValue :: "jobj \<Rightarrow> FieldPath \<Rightarrow> jobj" where
  "deleteValue obj [] = obj"
| "deleteValue obj [k] = AList.delete k obj"
| "deleteValue obj (k # l # ks) =
     (case map_of obj k of
        Some (JObj m) \<Rightarrow> AList.update k (JObj (deleteValue m (l # ks))) obj
      | _ \<Rightarrow> obj)"

text \<open>\<open>pruneUp n\<close> is the loop of \<open>deleteValuePruningEmptyMaps\<close> from \<open>i = n\<close> down to 1.\<close>

fun pruneUp :: "nat \<Rightarrow> jobj \<Rightarrow> FieldPath \<Rightarrow> jobj" where
  "pruneUp 0 obj path = obj"
| "pruneUp (Suc n) obj path =
     (case getValue obj (take (Suc n) path) of
        Some (JObj m) \<Rightarrow>
          (if m = [] then pruneUp n (deleteValue obj (take (Suc n) path)) path else obj)
      | _ \<Rightarrow> obj)"

definition deleteValuePruningEmptyMaps :: "jobj \<Rightarrow> FieldPath \<Rightarrow> jobj" where
  "deleteValuePruningEmptyMaps obj path = pruneUp (length path - 1) (deleteValue obj path) path"

subsection \<open>Laws\<close>

lemma getValue_Nil [simp]: "getValue obj [] = Some (JObj obj)"
  by (simp add: getValue_def)

lemma getValue_Cons:
  "getValue obj (k # ks) = (case map_of obj k of None \<Rightarrow> None | Some v \<Rightarrow> getFrom v ks)"
  by (simp add: getValue_def)

lemma getFrom_append: "getFrom v (p @ q) = (case getFrom v p of None \<Rightarrow> None | Some w \<Rightarrow> getFrom w q)"
  by (induction v p rule: getFrom.induct) (auto split: option.splits)

lemma getValue_append:
  "getValue obj (p @ q) = (case getValue obj p of None \<Rightarrow> None | Some w \<Rightarrow> getFrom w q)"
  by (simp add: getValue_def getFrom_append)

lemma getFrom_non_object: "(\<And>m. v \<noteq> JObj m) \<Longrightarrow> getFrom v (k # ks) = None"
  by (cases v) auto

lemma getFrom_Some_Cons: "getFrom v (k # ks) = Some w \<Longrightarrow> \<exists>m. v = JObj m \<and> getValue m (k # ks) = Some w"
  by (cases v) (auto simp: getValue_def)

lemma getValue_setValue: "setValue obj p v = Inr obj' \<Longrightarrow> getValue obj' p = Some v"
proof (induction obj p v arbitrary: obj' rule: setValue.induct)
  case (3 obj k l ks val)
  then show ?case
    by (auto simp: bindR_Inr_iff getValue_def split: option.splits jval.splits)
qed (auto simp: getValue_def)

lemma getValue_setValue_below:
  "setValue obj p v = Inr obj' \<Longrightarrow> getValue obj' (p @ q) = getFrom v q"
  by (simp add: getValue_append getValue_setValue)

lemma parallel_Cons_Cons: "parallel (k # p) (l # q) \<longleftrightarrow> k \<noteq> l \<or> parallel p q"
  by (auto simp: parallel_def)

lemma not_parallel_Nil [simp]: "\<not> parallel [] q" "\<not> parallel p []"
  by (auto simp: parallel_def)

lemma getValue_setValue_parallel:
  "setValue obj p v = Inr obj' \<Longrightarrow> parallel p q \<Longrightarrow> getValue obj' q = getValue obj q"
proof (induction obj p v arbitrary: obj' q rule: setValue.induct)
  case (2 obj k val)
  then show ?case by (cases q) (auto simp: getValue_Cons parallel_Cons_Cons)
next
  case (3 obj k l ks val)
  then obtain k' q' where q: "q = k' # q'" by (cases q) auto
  show ?case
  proof (cases "k' = k")
    case False
    with 3(3) q show ?thesis
      by (auto simp: bindR_Inr_iff getValue_Cons split: option.splits jval.splits)
  next
    case True
    with "3.prems" q have par: "parallel (l # ks) q'" by (simp add: parallel_Cons_Cons)
    then obtain k'' q'' where q': "q' = k'' # q''" by (cases q') auto
    show ?thesis
    proof (cases "map_of obj k")
      case None
      then obtain m where "setValue [] (l # ks) val = Inr m" and "obj' = AList.update k (JObj m) obj"
        using "3.prems"(1) by (auto simp: bindR_Inr_iff)
      with "3.IH"(1)[OF None _ par] None q q' True show ?thesis
        by (simp add: getValue_def)
    next
      case (Some w)
      then obtain m m' where w: "w = JObj m" and "setValue m (l # ks) val = Inr m'"
        and "obj' = AList.update k (JObj m') obj"
        using "3.prems"(1) by (auto simp: bindR_Inr_iff split: jval.splits)
      with "3.IH"(2)[OF Some w _ par] Some q True show ?thesis
        by (simp add: getValue_def)
    qed
  qed
qed simp

lemma setValue_fresh: "p \<noteq> [] \<Longrightarrow> \<exists>m. setValue [] p v = Inr m"
proof (induction p rule: induct_list012)
  case (3 k l p)
  then show ?case by auto
qed auto

text \<open>
  A write succeeds exactly when no proper ancestor of the path holds a value that is not an
  object.
\<close>

definition settable :: "jobj \<Rightarrow> FieldPath \<Rightarrow> bool" where
  "settable obj p \<longleftrightarrow> p \<noteq> [] \<and>
     (\<forall>r. strict_prefix r p \<longrightarrow> (case getValue obj r of None \<Rightarrow> True | Some (JObj _) \<Rightarrow> True | _ \<Rightarrow> False))"

lemma settable_Cons:
  "settable obj (k # l # ks) \<longleftrightarrow>
     (case map_of obj k of None \<Rightarrow> True | Some (JObj m) \<Rightarrow> settable m (l # ks) | _ \<Rightarrow> False)"
proof -
  have sp: "strict_prefix r (k # l # ks) \<longleftrightarrow> r = [] \<or> (\<exists>r'. r = k # r' \<and> strict_prefix r' (l # ks))" for r
    by (cases r) auto
  have "settable obj (k # l # ks) \<longleftrightarrow>
      (\<forall>r. strict_prefix r (l # ks) \<longrightarrow>
        (case getValue obj (k # r) of None \<Rightarrow> True | Some (JObj _) \<Rightarrow> True | _ \<Rightarrow> False))"
    unfolding settable_def sp by auto
  also have "\<dots> \<longleftrightarrow> (case map_of obj k of None \<Rightarrow> True | Some (JObj m) \<Rightarrow> settable m (l # ks) | _ \<Rightarrow> False)"
  proof (cases "map_of obj k")
    case None
    then show ?thesis by (simp add: getValue_Cons)
  next
    case (Some w)
    show ?thesis
    proof (cases "\<exists>m. w = JObj m")
      case True
      with Some show ?thesis by (auto simp: getValue_Cons settable_def getValue_def)
    next
      case False
      have "strict_prefix [] (l # ks)" by simp
      with False Some show ?thesis
        by (auto simp: getValue_Cons split: jval.splits intro!: exI[of _ "[]"])
    qed
  qed
  finally show ?thesis .
qed

lemma setValue_ok_iff: "(\<exists>obj'. setValue obj p v = Inr obj') \<longleftrightarrow> settable obj p"
proof (induction obj p v rule: setValue.induct)
  case (1 obj val)
  then show ?case by (simp add: settable_def)
next
  case (2 obj k val)
  have "strict_prefix r [k] \<longleftrightarrow> r = []" for r by (cases r) auto
  then show ?case by (auto simp: settable_def)
next
  case (3 obj k l ks val)
  then show ?case
    using setValue_fresh[of "l # ks" val]
    by (auto simp: settable_Cons bindR_Inr_iff split: option.splits jval.splits)
qed

lemma settable_single [simp]: "settable obj [k]"
  using setValue_ok_iff[of obj "[k]" JNull] by simp

lemma settable_parallel:
  assumes "settable obj q" and "setValue obj p v = Inr obj'" and "parallel p q"
  shows "settable obj' q"
proof -
  have anc: "case getValue obj' r of None \<Rightarrow> True | Some (JObj _) \<Rightarrow> True | _ \<Rightarrow> False"
    if r: "strict_prefix r q" for r
  proof (cases "prefix r p")
    case True
    with assms(3) r have "strict_prefix r p"
      by (metis parallel_def prefix_order.le_imp_less_or_eq prefix_order.less_imp_le)
    then obtain s where s: "p = r @ s" "s \<noteq> []" by (auto simp: strict_prefix_def prefix_def)
    have "getValue obj' p = Some v" using assms(2) by (rule getValue_setValue)
    then obtain w where w: "getValue obj' r = Some w" "getFrom w s = Some v"
      by (auto simp: s getValue_append split: option.splits)
    then obtain m where "w = JObj m" using s(2) by (cases s) (auto dest: getFrom_Some_Cons)
    with w show ?thesis by simp
  next
    case False
    show ?thesis
    proof (cases "prefix p r")
      case True
      with r have "prefix p q" by (metis prefix_order.less_imp_le prefix_order.trans)
      with assms(3) show ?thesis by (simp add: parallel_def)
    next
      case False
      with \<open>\<not> prefix r p\<close> have "parallel p r" by (simp add: parallel_def)
      with assms(1,2) r show ?thesis
        by (simp add: getValue_setValue_parallel settable_def)
    qed
  qed
  then show ?thesis using assms(1) by (simp add: settable_def)
qed

lemma wf_obj_update_obj: "wf_obj m \<Longrightarrow> wf_obj sub \<Longrightarrow> wf_obj (AList.update k (JObj sub) m)"
  by (rule wf_obj_update) (simp_all only: wf_obj_def)

lemma wf_obj_lookup_obj: "wf_obj m \<Longrightarrow> map_of m k = Some (JObj sub) \<Longrightarrow> wf_obj sub"
  by (drule (1) wf_obj_lookup) (simp only: wf_obj_def)

lemma wf_setValue: "wf_obj obj \<Longrightarrow> wf_val v \<Longrightarrow> setValue obj p v = Inr obj' \<Longrightarrow> wf_obj obj'"
proof (induction obj p v arbitrary: obj' rule: setValue.induct)
  case (3 obj k l ks val)
  show ?case
  proof (cases "map_of obj k")
    case None
    with "3.prems"(3) obtain m where "setValue [] (l # ks) val = Inr m"
      and obj': "obj' = AList.update k (JObj m) obj" by (auto simp: bindR_Inr_iff)
    with 3 None have "wf_obj m" by simp
    with "3.prems"(1) show ?thesis unfolding obj' by (rule wf_obj_update_obj)
  next
    case (Some w)
    with "3.prems"(3) obtain n m where w: "w = JObj n" and m: "setValue n (l # ks) val = Inr m"
      and obj': "obj' = AList.update k (JObj m) obj"
      by (auto simp: bindR_Inr_iff split: jval.splits)
    from "3.prems"(1) Some w have "wf_obj n" by (auto dest: wf_obj_lookup_obj)
    from "3.IH"(2)[OF Some w this "3.prems"(2) m] have "wf_obj m" .
    with "3.prems"(1) show ?thesis unfolding obj' by (rule wf_obj_update_obj)
  qed
qed (auto intro: wf_obj_update)

subsection \<open>Deleting\<close>

lemma getValue_deleteValue: "p \<noteq> [] \<Longrightarrow> getValue (deleteValue obj p) p = None"
  by (induction obj p rule: deleteValue.induct)
    (auto simp: getValue_def split: option.splits jval.splits)

lemma getValue_deleteValue_parallel:
  "parallel p q \<Longrightarrow> getValue (deleteValue obj p) q = getValue obj q"
proof (induction obj p arbitrary: q rule: deleteValue.induct)
  case (2 obj k)
  then show ?case by (cases q) (auto simp: getValue_Cons parallel_Cons_Cons)
next
  case (3 obj k l ks)
  then obtain k' q' where q: "q = k' # q'" by (cases q) auto
  show ?case
  proof (cases "\<exists>m. map_of obj k = Some (JObj m)")
    case True
    then obtain m where m: "map_of obj k = Some (JObj m)" by blast
    show ?thesis
    proof (cases "k' = k")
      case True
      with 3 q have "parallel (l # ks) q'" by (simp add: parallel_Cons_Cons)
      with "3.IH"[OF m refl] m q True show ?thesis by (simp add: getValue_def)
    next
      case False
      with m q show ?thesis by (simp add: getValue_def)
    qed
  next
    case False
    then show ?thesis by (auto split: option.splits jval.splits)
  qed
qed simp

text \<open>
  Undoing a write that created its path: deleting and pruning gives the object back, unless
  the object already carried an empty map on the way, which pruning would also take.
\<close>

lemma update_same [simp]: "map_of m k = Some v \<Longrightarrow> AList.update k v m = m"
  by (induction m) auto

lemma delete_fresh [simp]: "map_of m k = None \<Longrightarrow> AList.delete k m = m"
  by (induction m) (auto simp: AList.delete_eq split: if_splits)

lemma update_update [simp]: "AList.update k v (AList.update k w m) = AList.update k v m"
  by (induction m) auto

lemma delete_update_same [simp]: "AList.delete k (AList.update k v m) = AList.delete k m"
  by (induction m) (auto simp: AList.delete_eq)

lemma getValue_deleteValue_parent:
  "p \<noteq> [] \<Longrightarrow> getValue obj p = Some v \<Longrightarrow> \<exists>m. getValue (deleteValue obj p) (butlast p) = Some (JObj m)"
proof (induction obj p rule: deleteValue.induct)
  case (3 obj k l ks)
  then obtain m where m: "map_of obj k = Some (JObj m)" and "getValue m (l # ks) = Some v"
    by (auto simp: getValue_Cons dest: getFrom_Some_Cons split: option.splits)
  with "3.IH"[OF m refl] show ?case by (auto simp: m getValue_def)
qed auto

lemma pruneUp_Cons:
  assumes "map_of obj k = Some (JObj m)" and "n \<le> length q"
    and "\<exists>x. getValue m (take n q) = Some (JObj x)"
  shows "pruneUp (Suc n) obj (k # q) =
    (let m' = pruneUp n m q in if m' = [] then AList.delete k obj else AList.update k (JObj m') obj)"
  using assms
proof (induction n arbitrary: m obj)
  case 0
  then show ?case by (simp add: getValue_def)
next
  case (Suc n)
  then obtain x where x: "getValue m (take (Suc n) q) = Some (JObj x)" by blast
  from Suc.prems(2) have ne: "take (Suc n) q \<noteq> []" and bl: "butlast (take (Suc n) q) = take n q"
    by (auto simp: butlast_take)
  have gv: "getValue obj (take (Suc (Suc n)) (k # q)) = Some (JObj x)"
    using Suc.prems(1) x by (simp add: getValue_def)
  show ?case
  proof (cases "x = []")
    case False
    have "m \<noteq> []" using x ne by (cases "take (Suc n) q") (auto simp: getValue_Cons)
    with False gv x Suc.prems(1) show ?thesis by simp
  next
    case True
    define m1 where "m1 = deleteValue m (take (Suc n) q)"
    define obj1 where "obj1 = AList.update k (JObj m1) obj"
    have del: "deleteValue obj (take (Suc (Suc n)) (k # q)) = obj1"
      using Suc.prems(1) ne by (cases "take (Suc n) q") (auto simp: obj1_def m1_def)
    have "\<exists>y. getValue m1 (take n q) = Some (JObj y)"
      using getValue_deleteValue_parent[OF ne x] by (simp add: m1_def bl)
    then have "pruneUp (Suc n) obj1 (k # q) =
        (let m' = pruneUp n m1 q in if m' = [] then AList.delete k obj1 else AList.update k (JObj m') obj1)"
      using Suc.prems(2) by (intro Suc.IH) (auto simp: obj1_def)
    moreover have "pruneUp (Suc n) m q = pruneUp n m1 q" using True x by (simp add: m1_def)
    moreover have "pruneUp (Suc (Suc n)) obj (k # q) = pruneUp (Suc n) obj1 (k # q)"
      using True gv del by simp
    ultimately show ?thesis by (simp add: obj1_def Let_def del: pruneUp.simps)
  qed
qed

lemma prune_Cons:
  assumes "map_of obj k = Some (JObj m)" and "getValue m (l # ks) = Some v"
  shows "deleteValuePruningEmptyMaps obj (k # l # ks) =
    (let m' = deleteValuePruningEmptyMaps m (l # ks)
     in if m' = [] then AList.delete k obj else AList.update k (JObj m') obj)"
proof -
  let ?m1 = "deleteValue m (l # ks)"
  have "\<exists>x. getValue ?m1 (take (length ks) (l # ks)) = Some (JObj x)"
    using getValue_deleteValue_parent[OF _ assms(2)] by (simp add: butlast_conv_take)
  then have "pruneUp (Suc (length ks)) (AList.update k (JObj ?m1) obj) (k # l # ks) =
      (let m' = pruneUp (length ks) ?m1 (l # ks)
       in if m' = [] then AList.delete k (AList.update k (JObj ?m1) obj)
          else AList.update k (JObj m') (AList.update k (JObj ?m1) obj))"
    by (intro pruneUp_Cons) auto
  then show ?thesis
    using assms(1) by (simp add: deleteValuePruningEmptyMaps_def Let_def del: pruneUp.simps)
qed

lemma prune_setValue:
  assumes "setValue obj p v = Inr obj'" and "getValue obj p = None"
    and "\<forall>r. strict_prefix r p \<longrightarrow> r \<noteq> [] \<longrightarrow> getValue obj r \<noteq> Some (JObj [])"
  shows "deleteValuePruningEmptyMaps obj' p = obj"
  using assms
proof (induction obj p v arbitrary: obj' rule: setValue.induct)
  case (2 obj k val)
  then have "map_of obj k = None" by (auto simp: getValue_Cons split: option.splits)
  with 2 show ?case by (auto simp: deleteValuePruningEmptyMaps_def)
next
  case (3 obj k l ks val)
  show ?case
  proof (cases "map_of obj k")
    case None
    with "3.prems"(1) obtain m where m: "setValue [] (l # ks) val = Inr m"
      and obj': "obj' = AList.update k (JObj m) obj" by (auto simp: bindR_Inr_iff)
    have "getValue [] r = None" if "r \<noteq> []" for r using that by (cases r) (auto simp: getValue_Cons)
    with "3.IH"(1)[OF None m] have "deleteValuePruningEmptyMaps m (l # ks) = []" by simp
    with None getValue_setValue[OF m] show ?thesis
      by (simp add: obj' prune_Cons[where m = m and v = val])
  next
    case (Some w)
    with "3.prems"(1) obtain n m where w: "w = JObj n" and m: "setValue n (l # ks) val = Inr m"
      and obj': "obj' = AList.update k (JObj m) obj"
      by (auto simp: bindR_Inr_iff split: jval.splits)
    have "getValue n (l # ks) = None" using "3.prems"(2) Some w by (simp add: getValue_def)
    moreover have "\<forall>r. strict_prefix r (l # ks) \<longrightarrow> r \<noteq> [] \<longrightarrow> getValue n r \<noteq> Some (JObj [])"
    proof (intro allI impI)
      fix r assume "strict_prefix r (l # ks)" and "r \<noteq> []"
      then have "strict_prefix (k # r) (k # l # ks)" by simp
      then have "getValue obj (k # r) \<noteq> Some (JObj [])" using "3.prems"(3) by blast
      then show "getValue n r \<noteq> Some (JObj [])" using Some w by (simp add: getValue_def)
    qed
    ultimately have "deleteValuePruningEmptyMaps m (l # ks) = n"
      by (rule "3.IH"(2)[OF Some w m])
    moreover have "n \<noteq> []" using "3.prems"(3)[rule_format, of "[k]"] Some w by (simp add: getValue_def)
    ultimately show ?thesis using Some w getValue_setValue[OF m]
      by (simp add: obj' prune_Cons[where m = m and v = val])
  qed
qed simp

lemma getValue_pruneUp_parallel:
  "parallel p q \<Longrightarrow> getValue (pruneUp n obj p) q = getValue obj q"
proof (induction n arbitrary: obj)
  case (Suc n)
  let ?r = "take (Suc n) p"
  have del: "getValue (deleteValue obj ?r) q = getValue obj q" if e: "getValue obj ?r = Some (JObj [])"
  proof (cases "parallel ?r q")
    case True
    then show ?thesis by (rule getValue_deleteValue_parallel)
  next
    case False
    have "\<not> prefix q ?r" using Suc.prems by (metis parallel_def prefix_order.trans take_is_prefix)
    with False have "prefix ?r q" by (auto simp: parallel_def)
    then obtain t where t: "q = ?r @ t" by (auto simp: prefix_def)
    with \<open>\<not> prefix q ?r\<close> have "t \<noteq> []" by auto
    moreover have "?r \<noteq> []" using Suc.prems by auto
    moreover have "getValue obj (?r @ t) = getFrom (JObj []) t" by (simp add: getValue_append e)
    moreover have "getValue (deleteValue obj ?r) (?r @ t) = None"
      using \<open>?r \<noteq> []\<close> by (simp add: getValue_append getValue_deleteValue)
    ultimately show ?thesis by (subst (1 2) t) (cases t; simp)
  qed
  then show ?case using Suc by (auto split: option.splits jval.splits)
qed simp

lemma getValue_prune_parallel:
  "parallel p q \<Longrightarrow> getValue (deleteValuePruningEmptyMaps obj p) q = getValue obj q"
  by (simp add: deleteValuePruningEmptyMaps_def getValue_pruneUp_parallel getValue_deleteValue_parallel)

subsection \<open>The store as an interface\<close>

text \<open>
  What an operation that runs over the output object relies on: a write is read back, and
  leaves every independent path alone. A sequence of writes to pairwise independent paths is
  then read back as a whole, whatever the order of the writes.
\<close>

locale path_store =
  fixes get :: "'o \<Rightarrow> 'p \<Rightarrow> 'v option"
    and put :: "'o \<Rightarrow> 'p \<Rightarrow> 'v \<Rightarrow> 'e + 'o"
    and remove :: "'o \<Rightarrow> 'p \<Rightarrow> 'o"
    and indep :: "'p \<Rightarrow> 'p \<Rightarrow> bool"
  assumes get_put: "put s p v = Inr s' \<Longrightarrow> get s' p = Some v"
    and get_put_indep: "put s p v = Inr s' \<Longrightarrow> indep p q \<Longrightarrow> get s' q = get s q"
    and get_remove_indep: "indep p q \<Longrightarrow> get (remove s p) q = get s q"
    and indep_sym: "indep p q \<Longrightarrow> indep q p"
begin

lemma puts_frame:
  assumes "foldR (\<lambda>(p, v) t. put t p v) ws s = Inr s'" and "\<forall>(p, v)\<in>set ws. indep p q"
  shows "get s' q = get s q"
  by (rule foldR_invariant[OF assms(1), where P = "\<lambda>t. get t q = get s q"])
    (use assms(2) in \<open>auto simp: get_put_indep\<close>)

lemma puts_read_back:
  assumes "foldR (\<lambda>(p, v) t. put t p v) ws s = Inr s'" and "(p, v) \<in> set ws"
    and "\<And>a b. a @ (p, v) # b = ws \<Longrightarrow> \<forall>(q, w)\<in>set b. indep q p"
  shows "get s' p = Some v"
proof -
  obtain a b where ws: "ws = a @ (p, v) # b" using assms(2) by (auto dest: split_list)
  then obtain t t' where "put t p v = Inr t'" and rest: "foldR (\<lambda>(p, v) t. put t p v) b t' = Inr s'"
    using assms(1) by (auto simp: foldR_append bindR_Inr_iff)
  then have "get t' p = Some v" by (intro get_put)
  moreover have "get s' p = get t' p" using puts_frame[OF rest] assms(3) ws by blast
  ultimately show ?thesis by simp
qed

end

interpretation objects: path_store getValue setValue deleteValue parallel
  by unfold_locales
    (auto intro: getValue_setValue getValue_setValue_parallel getValue_deleteValue_parallel
      simp: parallel_def)

end
