(* ===== verification/GoLib.thy ===== *)
theory GoLib
  imports FieldPaths
begin

text \<open>
  The engine calls text codecs and third-party packages whose code is not part of the
  repository. Each is a parameter: a field of the record \<open>golib\<close>, which every definition that
  uses one takes as an argument. What a theorem relies on about a field is a named hypothesis
  of the theorem. A compiled regular expression, template or CEL program is represented by
  its source text, a decoded JSON patch by its operations.

  \<^item> \<open>encoding/json\<close>: \<open>lib_Marshal\<close>, \<open>lib_Unmarshal\<close>;
  \<^item> \<open>strconv\<close>: \<open>lib_ParseFloat\<close>, \<open>lib_FormatFloat\<close> (format \<open>'f'\<close>, shortest), and \<open>fmt\<close>:
    \<open>lib_SprintTV\<close> (\<open>"%T:%v"\<close>);
  \<^item> the implementation-defined result of converting an out-of-range float to \<open>int64\<close>:
    \<open>lib_ConvOutOfRange\<close>;
  \<^item> \<open>regexp\<close>, \<open>text/template\<close>, \<open>time\<close>: \<open>lib_Regexp*\<close>, \<open>lib_Template*\<close>, \<open>lib_*Duration*\<close>;
  \<^item> \<open>evanphx/json-patch\<close>, \<open>cel-go\<close>, \<open>k8s.io/apimachinery\<close>: the remaining fields.
\<close>

record JSONPatchOp =
  jpOp :: string
  jpPath :: string
  jpFrom :: string
  jpValue :: jval

record golib =
  lib_Marshal :: "jval \<Rightarrow> gerr + string"
  lib_Unmarshal :: "string \<Rightarrow> gerr + jval"
  lib_ParseFloat :: "string \<Rightarrow> gerr + float64"
  lib_FormatFloat :: "float64 \<Rightarrow> string"
  lib_SprintTV :: "jval \<Rightarrow> string"
  lib_ConvOutOfRange :: "float64 \<Rightarrow> int64"
  lib_RegexpCompile :: "string \<Rightarrow> gerr + unit"
  lib_RegexpNames :: "string \<Rightarrow> string list"
  lib_RegexpMatch :: "string \<Rightarrow> string \<Rightarrow> string list option"
  lib_TemplateParse :: "string \<Rightarrow> gerr + unit"
  lib_TemplateExecute :: "string \<Rightarrow> jobj \<Rightarrow> gerr + string"
  lib_ParseDuration :: "string \<Rightarrow> gerr + int64"
  lib_DurationString :: "int64 \<Rightarrow> string"
  lib_DecodePatch :: "JSONPatchOp list \<Rightarrow> gerr + unit"
  lib_ApplyPatch :: "JSONPatchOp list \<Rightarrow> string \<Rightarrow> gerr + string"
  lib_CelCompile :: "string \<Rightarrow> gerr + unit"
  lib_CelEval :: "string \<Rightarrow> jobj \<Rightarrow> gerr + jval"
  lib_CelNative :: "jval \<Rightarrow> gerr + jval"
  lib_QuantityMilli :: "string \<Rightarrow> gerr + int64"
  lib_MilliQuantityString :: "int64 \<Rightarrow> string"
  lib_IsQualifiedName :: "string \<Rightarrow> string list"
  lib_IsValidLabelValue :: "string \<Rightarrow> string list"

text \<open>Go's conversion \<open>int64(f)\<close>: truncation, implementation-defined where it does not fit.\<close>

definition float64_to_int64 :: "golib \<Rightarrow> float64 \<Rightarrow> int64" where
  "float64_to_int64 lib f =
     (case f of
        Fin q \<Rightarrow> (if - (2 ^ 63) \<le> truncRat q \<and> truncRat q < 2 ^ 63 then word_of_int (truncRat q)
                  else lib_ConvOutOfRange lib f)
      | _ \<Rightarrow> lib_ConvOutOfRange lib f)"

lemma sint_float64_to_int64:
  assumes "- (2 ^ 63) \<le> i" and "i < 2 ^ 63"
  shows "sint (float64_to_int64 lib (Fin (of_int i))) = i"
proof -
  have "signed_take_bit 63 i = i"
    by (rule signed_take_bit_int_eq_self) (use assms in simp_all)
  then show ?thesis using assms by (simp add: float64_to_int64_def sint_sbintrunc')
qed

text \<open>A library in which every codec fails, for evaluating code that calls none of them.\<close>

definition nolib :: golib where
  "nolib = \<lparr>lib_Marshal = (\<lambda>_. Inl (MStr [])), lib_Unmarshal = (\<lambda>_. Inl (MStr [])),
     lib_ParseFloat = (\<lambda>_. Inl (MStr [])), lib_FormatFloat = (\<lambda>_. []), lib_SprintTV = (\<lambda>_. []),
     lib_ConvOutOfRange = (\<lambda>_. 0), lib_RegexpCompile = (\<lambda>_. Inl (MStr [])),
     lib_RegexpNames = (\<lambda>_. []), lib_RegexpMatch = (\<lambda>_ _. None),
     lib_TemplateParse = (\<lambda>_. Inl (MStr [])), lib_TemplateExecute = (\<lambda>_ _. Inl (MStr [])),
     lib_ParseDuration = (\<lambda>_. Inl (MStr [])), lib_DurationString = (\<lambda>_. []),
     lib_DecodePatch = (\<lambda>_. Inl (MStr [])), lib_ApplyPatch = (\<lambda>_ _. Inl (MStr [])),
     lib_CelCompile = (\<lambda>_. Inl (MStr [])), lib_CelEval = (\<lambda>_ _. Inl (MStr [])),
     lib_CelNative = (\<lambda>_. Inl (MStr [])), lib_QuantityMilli = (\<lambda>_. Inl (MStr [])),
     lib_MilliQuantityString = (\<lambda>_. []), lib_IsQualifiedName = (\<lambda>_. []),
     lib_IsValidLabelValue = (\<lambda>_. [])\<rparr>"

end
