(* ===== verification/Coerce.thy ===== *)
theory Coerce
  imports GoLib
begin

text \<open>
  Scalar coercion (\<open>pkg/engine/coerce.go\<close>) and the canonical key of an enum value
  (\<open>enumKey\<close> of \<open>ops.go\<close>). \<open>FieldKind\<close> is the enumeration of \<open>schema.go\<close>; policies are strings,
  as in the source, because configurations may carry any text there.
\<close>

datatype FieldKind =
    FieldKindString | FieldKindInteger | FieldKindNumber | FieldKindBoolean
  | FieldKindArray | FieldKindObject | FieldKindUnknown

type_synonym FractionalIntegerPolicy = string

abbreviation FractionalIntegerError :: FractionalIntegerPolicy where
  "FractionalIntegerError \<equiv> ''Error''"
abbreviation FractionalIntegerTruncate :: FractionalIntegerPolicy where
  "FractionalIntegerTruncate \<equiv> ''Truncate''"
abbreviation FractionalIntegerRound :: FractionalIntegerPolicy where
  "FractionalIntegerRound \<equiv> ''Round''"

definition normalizeFractionalPolicy :: "FractionalIntegerPolicy \<Rightarrow> FractionalIntegerPolicy" where
  "normalizeFractionalPolicy p = (if p = [] then FractionalIntegerError else p)"

fun isCoercibleScalar :: "FieldKind \<Rightarrow> bool" where
  "isCoercibleScalar FieldKindString = True"
| "isCoercibleScalar FieldKindInteger = True"
| "isCoercibleScalar FieldKindNumber = True"
| "isCoercibleScalar FieldKindBoolean = True"
| "isCoercibleScalar _ = False"

definition rejectNonFinite :: "float64 \<Rightarrow> gerr option" where
  "rejectNonFinite f =
     (if f = NaN \<or> f = PosInf \<or> f = NegInf
      then Some (Fmt ''cannot coerce non-finite number %v'' [MVal (JFloat f)]) else None)"

definition applyFractionalInteger :: "float64 \<Rightarrow> FractionalIntegerPolicy \<Rightarrow> gerr + float64" where
  "applyFractionalInteger f pol =
     (if eq64 f (trunc64 f) then Inr f
      else if pol = FractionalIntegerTruncate then Inr (trunc64 f)
      else if pol = FractionalIntegerRound then Inr (roundAway64 f)
      else Inl (Fmt ''cannot coerce %v to integer: fractional part is not allowed (onFractionalInteger=Error)''
        [MVal (JFloat f)]))"

definition absLess1e15 :: "float64 \<Rightarrow> bool" where
  "absLess1e15 f = (case f of Fin q \<Rightarrow> \<bar>q\<bar> < 10 ^ 15 | _ \<Rightarrow> False)"

definition formatNumber :: "golib \<Rightarrow> float64 \<Rightarrow> string" where
  "formatNumber lib f =
     (if eq64 f (trunc64 f) \<and> f \<noteq> PosInf \<and> f \<noteq> NegInf \<and> absLess1e15 f
      then showInt (sint (float64_to_int64 lib f)) else lib_FormatFloat lib f)"

definition numericAsFloat64 :: "golib \<Rightarrow> jval \<Rightarrow> gerr + float64" where
  "numericAsFloat64 lib v =
     (case AsFloat64 v of
        Some f \<Rightarrow> (case rejectNonFinite f of Some e \<Rightarrow> Inl e | None \<Rightarrow> Inr f)
      | None \<Rightarrow>
          (case v of
             JStr t \<Rightarrow>
               (case lib_ParseFloat lib (trimSpace t) of
                  Inl e \<Rightarrow> Inl (Fmt ''cannot coerce %q to a number: %w'' [MStr t, e])
                | Inr f \<Rightarrow> (case rejectNonFinite f of
                     Some e \<Rightarrow> Inl (Fmt ''cannot coerce %q to a number: %w'' [MStr t, e])
                   | None \<Rightarrow> Inr f))
           | JBool t \<Rightarrow> Inr (if t then Fin 1 else Fin 0)
           | _ \<Rightarrow> Inl (Fmt ''cannot coerce %T to a number'' [MVal v])))"

text \<open>\<open>strconv.ParseBool\<close>.\<close>

definition parseBool :: "string \<Rightarrow> bool option" where
  "parseBool s =
     (if s \<in> set [''1'', ''t'', ''T'', ''TRUE'', ''true'', ''True''] then Some True
      else if s \<in> set [''0'', ''f'', ''F'', ''FALSE'', ''false'', ''False''] then Some False
      else None)"

definition coerceToString :: "golib \<Rightarrow> jval \<Rightarrow> gerr + jval" where
  "coerceToString lib v =
     (case v of
        JStr t \<Rightarrow> Inr (JStr t)
      | JBool t \<Rightarrow> Inr (JStr (showBool t))
      | JInt64 w \<Rightarrow> Inr (JStr (showInt (sint w)))
      | JInt w \<Rightarrow> Inr (JStr (showInt (sint w)))
      | JInt32 w \<Rightarrow> Inr (JStr (showInt (sint w)))
      | _ \<Rightarrow> (case AsFloat64 v of
            Some f \<Rightarrow> Inr (JStr (formatNumber lib f))
          | None \<Rightarrow> Inl (Fmt ''cannot coerce %T to string'' [MVal v])))"

definition coerceToBool :: "jval \<Rightarrow> gerr + jval" where
  "coerceToBool v =
     (case v of
        JBool t \<Rightarrow> Inr (JBool t)
      | JStr t \<Rightarrow> (case parseBool (trimSpace t) of
            Some b \<Rightarrow> Inr (JBool b)
          | None \<Rightarrow> Inl (Fmt ''cannot coerce %q to boolean: %w'' [MStr t, MStr ''invalid syntax'']))
      | _ \<Rightarrow> Inl (Fmt ''cannot coerce %T to boolean'' [MVal v]))"

definition coerceScalarValueWithPolicy ::
    "golib \<Rightarrow> jval \<Rightarrow> FieldKind \<Rightarrow> FractionalIntegerPolicy \<Rightarrow> gerr + jval" where
  "coerceScalarValueWithPolicy lib v to pol0 =
     (let pol = normalizeFractionalPolicy pol0 in
      case to of
        FieldKindString \<Rightarrow> coerceToString lib v
      | FieldKindInteger \<Rightarrow>
          bindR (numericAsFloat64 lib v) (\<lambda>f. bindR (applyFractionalInteger f pol) (\<lambda>g. Inr (JFloat g)))
      | FieldKindNumber \<Rightarrow> bindR (numericAsFloat64 lib v) (\<lambda>f. Inr (JFloat f))
      | FieldKindBoolean \<Rightarrow> coerceToBool v
      | _ \<Rightarrow> Inl (Fmt ''unsupported coercion target kind %q'' []))"

definition coerceScalarValue :: "golib \<Rightarrow> jval \<Rightarrow> FieldKind \<Rightarrow> gerr + jval" where
  "coerceScalarValue lib v to = coerceScalarValueWithPolicy lib v to FractionalIntegerError"

definition enumKey :: "golib \<Rightarrow> jval \<Rightarrow> string" where
  "enumKey lib v =
     (case v of
        JStr t \<Rightarrow> ''s:'' @ t
      | JBool t \<Rightarrow> ''b:'' @ showBool t
      | JInt64 w \<Rightarrow> ''n:'' @ showInt (sint w)
      | JInt w \<Rightarrow> ''n:'' @ showInt (sint w)
      | JInt32 w \<Rightarrow> ''n:'' @ showInt (sint w)
      | _ \<Rightarrow> (case AsFloat64 v of
            Some f \<Rightarrow> ''n:'' @ formatNumber lib f
          | None \<Rightarrow> ''x:'' @ lib_SprintTV lib v))"

lemmas coerce_defs = coerceScalarValue_def coerceScalarValueWithPolicy_def coerceToString_def
  coerceToBool_def numericAsFloat64_def normalizeFractionalPolicy_def

subsection \<open>What coercion guarantees\<close>

lemma formatNumber_int:
  assumes "\<bar>i\<bar> < 10 ^ 15"
  shows "formatNumber lib (Fin (of_int i)) = showInt i"
proof -
  have "sint (float64_to_int64 lib (Fin (of_int i))) = i"
    by (rule sint_float64_to_int64) (use assms in auto)
  moreover have "\<bar>of_int i :: rat\<bar> < 10 ^ 15"
  proof -
    have "(of_int \<bar>i\<bar> :: rat) < of_int (10 ^ 15)" using assms by (simp only: of_int_less_iff)
    then show ?thesis by simp
  qed
  ultimately show ?thesis by (simp add: formatNumber_def eq64_def absLess1e15_def)
qed

text \<open>
  Every successful coercion to an integer field yields a finite whole float, whatever the
  value and the policy; under the default policy a fractional number is an error.
\<close>

lemma applyFractionalInteger_whole:
  assumes "applyFractionalInteger (Fin q) pol = Inr g"
  shows "\<exists>i. g = Fin (of_int i) \<and> \<bar>q - of_int i\<bar> < 1"
proof -
  have r: "\<bar>q - of_int (roundRat q)\<bar> < 1"
    using roundRat_close[of q] by linarith
  have "eq64 (Fin q) (trunc64 (Fin q)) \<Longrightarrow> q = of_int (truncRat q)" by (simp add: eq64_def)
  then show ?thesis
    using assms truncRat_close[of q] r
    by (auto simp: applyFractionalInteger_def split: if_splits)
qed

lemma numericAsFloat64_finite: "numericAsFloat64 lib v = Inr f \<Longrightarrow> \<exists>q. f = Fin q"
  by (cases f) (auto simp: numericAsFloat64_def rejectNonFinite_def
      split: option.splits jval.splits sum.splits if_splits)

end
