(* ===== verification/SchemaModel.thy ===== *)
theory SchemaModel
  imports Coerce
begin

text \<open>
  OpenAPI schemas as the engine reads them (\<open>pkg/engine/schema.go\<close>). \<open>schema\<close> holds the fields of
  \<open>JSONSchemaProps\<close> that some function of the package looks at; \<open>sItems\<close> is \<open>Items.Schema\<close> (the
  sources always test \<open>Items\<close> and \<open>Items.Schema\<close> together) and \<open>sAddl\<close> is \<open>AdditionalProperties\<close>
  with its \<open>Allows\<close> and \<open>Schema\<close>. A nil and an empty map of properties are the same. An \<open>enum\<close>
  entry is its raw text; \<open>sOther\<close> lists the names of the set fields no function looks into.

  The lemmas show that the leaves \<open>flattenSchema\<close> reports are addressable by \<open>lookupPath\<close> and that
  no leaf lies below another one.
\<close>

datatype schema = Schema
  (sType: string)
  (sProps: "(string \<times> schema) list")
  (sRequired: "string list")
  (sAddl: "(bool \<times> schema option) option")
  (sItems: "schema option")
  (sMaxItems: "int option")
  (sPreserve: "bool option")
  (sRef: "string option")
  (sAllOf: "schema list")
  (sOneOf: "schema list")
  (sAnyOf: "schema list")
  (sDefault: "jval option")
  (sNullable: bool)
  (sEnum: "string list")
  (sDefs: "(string \<times> schema) list")
  (sOther: "string list")

abbreviation objectSchema :: "(string \<times> schema) list \<Rightarrow> string list \<Rightarrow> schema" where
  "objectSchema props req \<equiv> Schema ''object'' props req None None None None None [] [] [] None False [] [] []"

abbreviation leafSchema :: "string \<Rightarrow> schema" where
  "leafSchema ty \<equiv> Schema ty [] [] None None None None None [] [] [] None False [] [] []"

abbreviation mapSchema :: schema where
  "mapSchema \<equiv> Schema ''object'' [] [] (Some (True, None)) None None None None [] [] [] None False [] [] []"

abbreviation arraySchema :: "schema \<Rightarrow> int option \<Rightarrow> schema" where
  "arraySchema item mx \<equiv> Schema ''array'' [] [] None (Some item) mx None None [] [] [] None False [] [] []"

record VersionSchema =
  vsName :: string
  vsSchema :: schema
  vsServed :: bool
  vsStorage :: bool

record LeafField =
  lfPath :: FieldPath
  lfKind :: FieldKind
  lfSchema :: schema
  lfOpaque :: bool
  lfConstruct :: string
  lfRequired :: bool

subsection \<open>Classification and flattening\<close>

definition classify :: "schema \<Rightarrow> FieldKind \<times> bool" where
  "classify s =
     (if sPreserve s = Some True then (FieldKindObject, True)
      else if sType s = ''object'' then
        (if sProps s \<noteq> [] then (FieldKindObject, False)
         else if sAddl s \<noteq> None then (FieldKindObject, True)
         else (FieldKindObject, False))
      else if sType s = ''array'' then
        (if sItems s = None then (FieldKindArray, True) else (FieldKindArray, False))
      else if sType s = ''string'' then (FieldKindString, False)
      else if sType s = ''integer'' then (FieldKindInteger, False)
      else if sType s = ''number'' then (FieldKindNumber, False)
      else if sType s = ''boolean'' then (FieldKindBoolean, False)
      else (FieldKindUnknown, True))"

definition isStructuralNode :: "FieldKind \<Rightarrow> bool \<Rightarrow> bool" where
  "isStructuralNode kind opaque \<longleftrightarrow> \<not> opaque \<and> kind \<noteq> FieldKindUnknown"

definition unresolvedConstruct :: "schema \<Rightarrow> string" where
  "unresolvedConstruct s =
     (if sRef s \<noteq> None \<and> sRef s \<noteq> Some [] then ''$ref''
      else if sAllOf s \<noteq> [] then ''allOf'' else [])"

definition unionConstruct :: "schema \<Rightarrow> string" where
  "unionConstruct s = (if sOneOf s \<noteq> [] then ''oneOf'' else if sAnyOf s \<noteq> [] then ''anyOf'' else [])"

definition leafOf :: "schema \<Rightarrow> FieldPath \<Rightarrow> string list \<Rightarrow> bool \<Rightarrow> string \<Rightarrow> LeafField" where
  "leafOf s path req opaque constr =
     \<lparr>lfPath = path, lfKind = fst (classify s), lfSchema = s, lfOpaque = opaque,
      lfConstruct = constr, lfRequired = lastSegment path \<in> set req\<rparr>"

lemma size_sProps: "(n, p) \<in> set (sProps s) \<Longrightarrow> size p < size s"
proof (cases s)
  case (Schema ty props req ad it mx pr rf al on an df nu en ds ot)
  assume "(n, p) \<in> set (sProps s)"
  then have "Suc (size p) \<le> size_list (size_prod (\<lambda>_. 0) size) props"
    unfolding Schema schema.sel
    by (induction props) auto
  then show ?thesis by (simp add: Schema)
qed

function flattenInto :: "schema \<Rightarrow> FieldPath \<Rightarrow> string list \<Rightarrow> LeafField list" where
  "flattenInto s path req =
     (let kind = fst (classify s); opaque = snd (classify s) in
      if unresolvedConstruct s \<noteq> [] then [leafOf s path req True (unresolvedConstruct s)]
      else if unionConstruct s \<noteq> [] \<and> \<not> isStructuralNode kind opaque
        then [leafOf s path req True (unionConstruct s)]
      else if opaque then [leafOf s path req True []]
      else if kind = FieldKindObject \<and> sProps s = [] then []
      else if kind = FieldKindObject
        then concat (map (\<lambda>np. flattenInto (snd np) (path @ [fst np]) (sRequired s)) (sProps s))
      else [leafOf s path req False []])"
  by pat_completeness auto
termination
  by (relation "measure (\<lambda>(s, _, _). size s)") (auto dest: size_sProps)

declare flattenInto.simps [simp del]

definition flattenSchema :: "schema \<Rightarrow> LeafField list" where
  "flattenSchema s = flattenInto s [] []"

text \<open>\<open>lookupFrom\<close> is the loop of \<open>lookupPath\<close>; \<open>seen\<close> is \<open>path[:i]\<close>.\<close>

fun lookupFrom :: "FieldPath \<Rightarrow> FieldPath \<Rightarrow> schema \<Rightarrow> FieldPath \<Rightarrow> gerr + schema" where
  "lookupFrom path seen cur [] = Inr cur"
| "lookupFrom path seen cur (seg # rest) =
     (if sProps cur = []
      then Inl (Fmt ''path %q: %q has no properties (found at %q)'' [MPath path, MStr seg, MPath seen])
      else case map_of (sProps cur) seg of
        None \<Rightarrow> Inl (Fmt ''path %q: field %q not found under %q'' [MPath path, MStr seg, MPath seen])
      | Some next \<Rightarrow> lookupFrom path (seen @ [seg]) next rest)"

definition lookupPath :: "schema \<Rightarrow> FieldPath \<Rightarrow> gerr + schema" where
  "lookupPath s path = lookupFrom path [] s path"

subsection \<open>Well-formed schemas and their leaves\<close>

function wf_schema :: "schema \<Rightarrow> bool" where
  "wf_schema s \<longleftrightarrow> distinct (map fst (sProps s)) \<and> (\<forall>np\<in>set (sProps s). wf_schema (snd np))"
  by pat_completeness auto
termination
  by (relation "measure size") (auto dest: size_sProps)

declare wf_schema.simps [simp del]

lemma wf_schema_prop: "wf_schema s \<Longrightarrow> map_of (sProps s) k = Some t \<Longrightarrow> wf_schema t"
  by (subst (asm) wf_schema.simps) (force dest: map_of_SomeD)

lemma lookupFrom_Inr_indep:
  "lookupFrom p a s q = Inr t \<longleftrightarrow> lookupFrom p' a' s q = Inr t"
  by (induction q arbitrary: s a a') (auto split: option.splits)

lemma lookupPath_Cons:
  "lookupPath s (k # q) = Inr t \<longleftrightarrow> (\<exists>u. map_of (sProps s) k = Some u \<and> lookupPath u q = Inr t)"
  by (auto simp: lookupPath_def split: option.splits intro: lookupFrom_Inr_indep[THEN iffD1])

lemma lookupPath_Nil [simp]: "lookupPath s [] = Inr s"
  by (simp add: lookupPath_def)

lemma flattenInto_lookup:
  assumes "l \<in> set (flattenInto s path req)" and "wf_schema s"
  shows "\<exists>q. lfPath l = path @ q \<and> lookupPath s q = Inr (lfSchema l)"
  using assms
proof (induction s path req arbitrary: l rule: flattenInto.induct)
  case (1 s path req)
  note l = "1.prems"(1)
  have leaf: "l = leafOf s path req b c \<Longrightarrow> ?case" for b c
    by (intro exI[of _ "[]"]) (simp add: leafOf_def)
  show ?case
  proof (cases "\<exists>b c. l = leafOf s path req b c")
    case True
    then show ?thesis using leaf by blast
  next
    case False
    with l have u: "unresolvedConstruct s = []"
        "\<not> (unionConstruct s \<noteq> [] \<and> \<not> isStructuralNode (fst (classify s)) (snd (classify s)))"
        "\<not> snd (classify s)" "fst (classify s) = FieldKindObject" "sProps s \<noteq> []"
      by (subst (asm) flattenInto.simps; auto simp: Let_def split: if_splits)+
    then obtain np where np: "np \<in> set (sProps s)"
        and ln: "l \<in> set (flattenInto (snd np) (path @ [fst np]) (sRequired s))"
      using l by (subst (asm) flattenInto.simps) (auto simp: Let_def)
    obtain k t where kt: "np = (k, t)" by (cases np)
    have mo: "map_of (sProps s) k = Some t"
      using np "1.prems"(2) by (subst (asm) wf_schema.simps) (auto simp: kt)
    have wt: "wf_schema t" using "1.prems"(2) mo by (rule wf_schema_prop)
    obtain q where "lfPath l = (path @ [k]) @ q" and "lookupPath t q = Inr (lfSchema l)"
      using "1.IH"[OF refl refl _ _ _ _ _ np, of l] u ln wt kt by (auto simp: Let_def)
    then show ?thesis
      using mo by (intro exI[of _ "k # q"]) (simp add: lookupPath_Cons)
  qed
qed

lemma flattenSchema_lookup:
  "l \<in> set (flattenSchema s) \<Longrightarrow> wf_schema s \<Longrightarrow> lookupPath s (lfPath l) = Inr (lfSchema l)"
  using flattenInto_lookup[of l s "[]" "[]"] by (auto simp: flattenSchema_def)

lemma sorted_wrt_concat:
  assumes "\<And>xs. xs \<in> set xss \<Longrightarrow> sorted_wrt R xs"
    and "sorted_wrt (\<lambda>xs ys. \<forall>x\<in>set xs. \<forall>y\<in>set ys. R x y) xss"
  shows "sorted_wrt R (concat xss)"
  using assms by (induction xss) (auto simp: sorted_wrt_append)

lemma parallel_branch: "k \<noteq> k' \<Longrightarrow> parallel (p @ k # q) (p @ k' # q')"
  by (auto simp: parallel_def)

lemma flattenInto_prefix: "l \<in> set (flattenInto s path req) \<Longrightarrow> wf_schema s \<Longrightarrow> \<exists>q. lfPath l = path @ q"
  using flattenInto_lookup by blast

lemma flattenInto_parallel:
  assumes "wf_schema s"
  shows "sorted_wrt parallel (map lfPath (flattenInto s path req))"
  using assms
proof (induction s path req rule: flattenInto.induct)
  case (1 s path req)
  show ?case
  proof (cases "\<exists>ls. flattenInto s path req = ls \<and> length ls \<le> 1")
    case True
    then show ?thesis by (cases "flattenInto s path req") auto
  next
    case False
    then have u: "unresolvedConstruct s = []"
        "\<not> (unionConstruct s \<noteq> [] \<and> \<not> isStructuralNode (fst (classify s)) (snd (classify s)))"
        "\<not> snd (classify s)" "fst (classify s) = FieldKindObject" "sProps s \<noteq> []"
      by (subst (asm) flattenInto.simps; auto simp: Let_def split: if_splits)+
    let ?sub = "\<lambda>np. flattenInto (snd np) (path @ [fst np]) (sRequired s)"
    have wf: "distinct (map fst (sProps s))" "\<And>np. np \<in> set (sProps s) \<Longrightarrow> wf_schema (snd np)"
      using "1.prems" by (subst (asm) wf_schema.simps, auto)+
    have sub: "sorted_wrt parallel (map lfPath (?sub np))" if "np \<in> set (sProps s)" for np
      using "1.IH"[OF refl refl _ _ _ _ _ that] u wf(2)[OF that] by (auto simp: Let_def)
    have cross: "sorted_wrt (\<lambda>xs ys. \<forall>x\<in>set xs. \<forall>y\<in>set ys. parallel x y)
        (map (map lfPath o ?sub) (sProps s))"
    proof -
      have par: "parallel (lfPath x) (lfPath y)"
        if "np \<in> set (sProps s)" "mp \<in> set (sProps s)" "fst np \<noteq> fst mp"
          "x \<in> set (?sub np)" "y \<in> set (?sub mp)" for np mp x y
        using flattenInto_prefix[OF that(4) wf(2)[OF that(1)]]
          flattenInto_prefix[OF that(5) wf(2)[OF that(2)]] that(3)
        by (auto intro: parallel_branch)
      have neq: "sorted_wrt (\<lambda>np mp. fst np \<noteq> fst mp) (sProps s)"
        using wf(1) by (simp add: distinct_map distinct_conv_nth sorted_wrt_iff_nth_less inj_on_def)
      have "sorted_wrt (\<lambda>np mp. \<forall>x\<in>set (?sub np). \<forall>y\<in>set (?sub mp). parallel (lfPath x) (lfPath y))
          (sProps s)"
        by (rule sorted_wrt_mono_rel[OF _ neq]) (use par in blast)
      then show ?thesis by (simp add: sorted_wrt_map)
    qed
    have "flattenInto s path req = concat (map ?sub (sProps s))"
      using u by (subst flattenInto.simps) (auto simp: Let_def)
    moreover have "sorted_wrt parallel (concat (map (map lfPath o ?sub) (sProps s)))"
      using cross sub by (intro sorted_wrt_concat) auto
    ultimately show ?thesis by (simp add: map_concat)
  qed
qed

lemma flattenSchema_parallel: "wf_schema s \<Longrightarrow> sorted_wrt parallel (map lfPath (flattenSchema s))"
  by (simp add: flattenSchema_def flattenInto_parallel)

end
