(* ===== verification/Passthrough.thy ===== *)
theory Passthrough
  imports SchemaModel
begin

text \<open>
  The catch-all that carries fields no schema declares (\<open>pkg/engine/passthrough.go\<close>). A
  \<open>knownTree\<close> is the declared shape of a schema; \<open>collectUnknown\<close> lists the subtrees of an object
  the tree does not know, as the calls of \<open>emit\<close> in order.

  The lemmas characterise the emitted list: it holds exactly the values at undeclared keys
  below a declared, structured and non-root node (\<open>undeclaredAt\<close>), at pairwise independent
  paths, and none of them touches a field the tree declares (\<open>declaredLeaf\<close>).
\<close>

datatype knownTree = KT (ktChildren: "(string \<times> knownTree) list")

function buildKnownTree :: "schema \<Rightarrow> knownTree" where
  "buildKnownTree s =
     (let kind = fst (classify s); opaque = snd (classify s) in
      if opaque \<or> kind \<noteq> FieldKindObject \<or> sProps s = [] then KT []
      else KT (map (\<lambda>np. (fst np, buildKnownTree (snd np))) (sProps s)))"
  by pat_completeness auto
termination
  by (relation "measure size") (auto dest: size_sProps)

declare buildKnownTree.simps [simp del]

text \<open>
  The loop over the children of \<open>b\<close> updates the copy of the children of \<open>a\<close> in place and adds
  the new keys; keys are distinct, so each is visited once.
\<close>

fun mergeKnownTrees :: "knownTree \<Rightarrow> knownTree \<Rightarrow> knownTree" where
  "mergeKnownTrees (KT as) (KT bs) =
     (if as = [] \<or> bs = [] then KT []
      else KT (map (\<lambda>kc. (fst kc, case map_of bs (fst kc) of
                             Some cb \<Rightarrow> mergeKnownTrees (snd kc) cb
                           | None \<Rightarrow> snd kc)) as
               @ filter (\<lambda>kc. fst kc \<notin> fst ` set as) bs))"

fun collectUnknown :: "knownTree \<Rightarrow> jval \<Rightarrow> FieldPath \<Rightarrow> (FieldPath \<times> jval) list" where
  "collectUnknown t (JObj src) pre =
     concat (map (\<lambda>kv.
       (case map_of (ktChildren t) (fst kv) of
          None \<Rightarrow> (if pre = [] then [] else [(pre @ [fst kv], snd kv)])
        | Some child \<Rightarrow>
            (if ktChildren child = [] then [] else collectUnknown child (snd kv) (pre @ [fst kv]))))
       src)"
| "collectUnknown t _ pre = []"

declare collectUnknown.simps(1) [simp del]

definition applyPassthrough :: "knownTree \<Rightarrow> jobj \<Rightarrow> jobj \<Rightarrow> gerr + jobj" where
  "applyPassthrough t inp out =
     foldR (\<lambda>(p, v) o'. setValue o' p (deepCopyValue v)) (collectUnknown t (JObj inp) []) out"

subsection \<open>Declared and undeclared paths\<close>

fun walk :: "knownTree \<Rightarrow> FieldPath \<Rightarrow> knownTree option" where
  "walk t [] = Some t"
| "walk t (k # ks) = (case map_of (ktChildren t) k of None \<Rightarrow> None | Some c \<Rightarrow> walk c ks)"

text \<open>A path the tree declares and that it does not describe further.\<close>

definition declaredLeaf :: "knownTree \<Rightarrow> FieldPath \<Rightarrow> bool" where
  "declaredLeaf t q \<longleftrightarrow> walk t q = Some (KT [])"

text \<open>A key the tree does not know, under a node it describes; \<open>d\<close> is the depth of \<open>t\<close>.\<close>

fun undeclaredFrom :: "nat \<Rightarrow> knownTree \<Rightarrow> FieldPath \<Rightarrow> bool" where
  "undeclaredFrom d t [] = False"
| "undeclaredFrom d t (k # ks) =
     (case map_of (ktChildren t) k of
        None \<Rightarrow> 0 < d \<and> ks = []
      | Some c \<Rightarrow> ktChildren c \<noteq> [] \<and> undeclaredFrom (Suc d) c ks)"

definition undeclaredAt :: "knownTree \<Rightarrow> FieldPath \<Rightarrow> bool" where
  "undeclaredAt t p = undeclaredFrom 0 t p"

lemma collectUnknown_iff:
  assumes "wf_val v"
  shows "(p, w) \<in> set (collectUnknown t v pre) \<longleftrightarrow>
    (\<exists>q. p = pre @ q \<and> undeclaredFrom (length pre) t q \<and> getFrom v q = Some w)"
  using assms
proof (induction t v pre arbitrary: p w rule: collectUnknown.induct)
  case (1 t src pre)
  have lookup: "kv \<in> set src \<longleftrightarrow> map_of src (fst kv) = Some (snd kv)" for kv
    using "1.prems" by (cases kv) simp
  have sub: "(p, w) \<in> set (collectUnknown c (snd kv) (pre @ [fst kv])) \<longleftrightarrow>
      (\<exists>q. p = pre @ fst kv # q \<and> undeclaredFrom (Suc (length pre)) c q \<and> getFrom (snd kv) q = Some w)"
    if "kv \<in> set src" "map_of (ktChildren t) (fst kv) = Some c" "ktChildren c \<noteq> []" for kv c
    using "1.IH"[OF that] "1.prems" that(1) by simp
  have "(p, w) \<in> set (collectUnknown t (JObj src) pre) \<longleftrightarrow>
      (\<exists>kv\<in>set src. (p, w) \<in> set (case map_of (ktChildren t) (fst kv) of
         None \<Rightarrow> (if pre = [] then [] else [(pre @ [fst kv], snd kv)])
       | Some c \<Rightarrow> (if ktChildren c = [] then [] else collectUnknown c (snd kv) (pre @ [fst kv]))))"
    by (simp only: collectUnknown.simps set_concat set_map UN_iff bex_simps)
  also have "\<dots> \<longleftrightarrow> (\<exists>kv\<in>set src. case map_of (ktChildren t) (fst kv) of
         None \<Rightarrow> pre \<noteq> [] \<and> p = pre @ [fst kv] \<and> w = snd kv
       | Some c \<Rightarrow> ktChildren c \<noteq> [] \<and> (p, w) \<in> set (collectUnknown c (snd kv) (pre @ [fst kv])))"
    by (rule bex_cong[OF refl]) (auto split: option.splits)
  also have "\<dots> \<longleftrightarrow> (\<exists>kv\<in>set src. \<exists>q. p = pre @ fst kv # q \<and>
      undeclaredFrom (length pre) t (fst kv # q) \<and> getFrom (snd kv) q = Some w)"
  proof (rule bex_cong[OF refl])
    fix kv assume kv: "kv \<in> set src"
    show "(case map_of (ktChildren t) (fst kv) of
         None \<Rightarrow> pre \<noteq> [] \<and> p = pre @ [fst kv] \<and> w = snd kv
       | Some c \<Rightarrow> ktChildren c \<noteq> [] \<and> (p, w) \<in> set (collectUnknown c (snd kv) (pre @ [fst kv]))) \<longleftrightarrow>
      (\<exists>q. p = pre @ fst kv # q \<and> undeclaredFrom (length pre) t (fst kv # q) \<and> getFrom (snd kv) q = Some w)"
    proof (cases "map_of (ktChildren t) (fst kv)")
      case None
      then show ?thesis by auto
    next
      case (Some c)
      with sub[OF kv Some] show ?thesis by (cases "ktChildren c = []") auto
    qed
  qed
  also have "\<dots> \<longleftrightarrow> (\<exists>q. p = pre @ q \<and> undeclaredFrom (length pre) t q \<and> getFrom (JObj src) q = Some w)"
  proof
    assume "\<exists>q. p = pre @ q \<and> undeclaredFrom (length pre) t q \<and> getFrom (JObj src) q = Some w"
    then obtain k ks where "p = pre @ k # ks" "undeclaredFrom (length pre) t (k # ks)"
        "getFrom (JObj src) (k # ks) = Some w"
      by (metis list.exhaust undeclaredFrom.simps(1))
    then show "\<exists>kv\<in>set src. \<exists>q. p = pre @ fst kv # q \<and>
        undeclaredFrom (length pre) t (fst kv # q) \<and> getFrom (snd kv) q = Some w"
      by (auto simp del: undeclaredFrom.simps split: option.splits)
        (metis (no_types, lifting) fst_conv lookup snd_conv)
  qed (force simp: lookup)
  finally show ?case .
qed (auto simp: getFrom_non_object dest!: getFrom_Some_Cons elim!: undeclaredFrom.elims)

lemma undeclaredFrom_parallel:
  "undeclaredFrom d t p \<Longrightarrow> undeclaredFrom d t q \<Longrightarrow> p \<noteq> q \<Longrightarrow> parallel p q"
proof (induction d t p arbitrary: q rule: undeclaredFrom.induct)
  case (2 d t k ks)
  then obtain l ls where q: "q = l # ls" by (cases q) auto
  show ?case
  proof (cases "k = l")
    case True
    with 2 q show ?thesis by (auto simp: parallel_Cons_Cons split: option.splits)
  qed (simp add: q parallel_Cons_Cons)
qed simp

lemma undeclared_parallel_declaredLeaf:
  "undeclaredFrom d t p \<Longrightarrow> walk t q = Some (KT []) \<Longrightarrow> ktChildren t \<noteq> [] \<Longrightarrow> parallel p q"
proof (induction d t p arbitrary: q rule: undeclaredFrom.induct)
  case (2 d t k ks)
  then obtain l ls where q: "q = l # ls" by (cases q) auto
  show ?case
  proof (cases "k = l")
    case True
    with 2 q show ?thesis by (auto simp: parallel_Cons_Cons split: option.splits)
  qed (simp add: q parallel_Cons_Cons)
qed simp

lemma map_fst_concat_distinct:
  assumes "distinct xs" and "\<And>x. x \<in> set xs \<Longrightarrow> distinct (f x)"
    and "\<And>x y. x \<in> set xs \<Longrightarrow> y \<in> set xs \<Longrightarrow> x \<noteq> y \<Longrightarrow> set (f x) \<inter> set (f y) = {}"
  shows "distinct (concat (map f xs))"
  using assms by (induction xs) auto

lemma collectUnknown_distinct:
  assumes "wf_val v"
  shows "distinct (map fst (collectUnknown t v pre))"
  using assms
proof (induction t v pre rule: collectUnknown.induct)
  case (1 t src pre)
  let ?f = "\<lambda>kv. case map_of (ktChildren t) (fst kv) of
      None \<Rightarrow> (if pre = [] then [] else [(pre @ [fst kv], snd kv)])
    | Some c \<Rightarrow> (if ktChildren c = [] then [] else collectUnknown c (snd kv) (pre @ [fst kv]))"
  have wf: "wf_val (snd kv)" if "kv \<in> set src" for kv using "1.prems" that by simp
  have pre: "\<exists>q. fst pv = pre @ fst kv # q" if "kv \<in> set src" "pv \<in> set (?f kv)" for kv pv
    using that wf[OF that(1)]
    by (cases pv) (auto simp: collectUnknown_iff split: option.splits if_splits)
  have "distinct (concat (map (map fst o ?f) src))"
  proof (rule map_fst_concat_distinct)
    show "distinct src" using "1.prems" by (auto simp: distinct_map)
    show "distinct ((map fst o ?f) kv)" if "kv \<in> set src" for kv
      using 1 that by (auto split: option.splits)
    show "set ((map fst o ?f) x) \<inter> set ((map fst o ?f) y) = {}"
      if "x \<in> set src" "y \<in> set src" "x \<noteq> y" for x y
    proof -
      have "fst x \<noteq> fst y" using that "1.prems" by (auto simp: distinct_map inj_on_def)
      have "fst pv \<noteq> fst pw" if "pv \<in> set (?f x)" "pw \<in> set (?f y)" for pv pw
        using pre[OF \<open>x \<in> set src\<close> that(1)] pre[OF \<open>y \<in> set src\<close> that(2)] \<open>fst x \<noteq> fst y\<close> by auto
      then show ?thesis by (auto simp only: o_apply set_map disjoint_iff)
    qed
  qed
  then show ?case by (simp add: map_concat collectUnknown.simps)
qed simp_all

subsection \<open>Correctness of the passthrough\<close>

lemma applyPassthrough_unfold:
  "applyPassthrough t inp out = foldR (\<lambda>(p, v) o'. setValue o' p v) (collectUnknown t (JObj inp) []) out"
  by (simp add: applyPassthrough_def)

lemma collectUnknown_top_iff:
  "wf_obj inp \<Longrightarrow>
    (p, w) \<in> set (collectUnknown t (JObj inp) []) \<longleftrightarrow> undeclaredAt t p \<and> getValue inp p = Some w"
  by (simp add: collectUnknown_iff wf_obj_def undeclaredAt_def getValue_def
      del: wf_val.simps)

lemma applyPassthrough_copies:
  assumes "wf_obj inp" and ok: "applyPassthrough t inp out = Inr out'"
    and p: "undeclaredAt t p" and v: "getValue inp p = Some v"
  shows "getValue out' p = Some v"
proof (rule objects.puts_read_back[OF ok[unfolded applyPassthrough_unfold]])
  show "(p, v) \<in> set (collectUnknown t (JObj inp) [])"
    using assms by (simp add: collectUnknown_top_iff)
next
  fix a b assume ab: "a @ (p, v) # b = collectUnknown t (JObj inp) []"
  have d: "distinct (map fst (a @ (p, v) # b))"
    using assms(1) unfolding ab by (intro collectUnknown_distinct) (simp add: wf_obj_def)
  show "\<forall>(q, w)\<in>set b. parallel q p"
  proof clarify
    fix q w assume qw: "(q, w) \<in> set b"
    then have "q \<in> set (map fst b)" by (metis fst_conv image_eqI list.set_map)
    then have "q \<noteq> p" using d by (auto simp del: set_map)
    moreover have "undeclaredAt t q"
    proof -
      have "(q, w) \<in> set (collectUnknown t (JObj inp) [])" using qw by (simp flip: ab)
      then show ?thesis using assms(1) by (simp add: collectUnknown_top_iff)
    qed
    ultimately show "parallel q p"
      using p by (auto simp: undeclaredAt_def intro: undeclaredFrom_parallel)
  qed
qed

lemma applyPassthrough_keeps_declared:
  assumes "wf_obj inp" and ok: "applyPassthrough t inp out = Inr out'" and q: "declaredLeaf t q"
  shows "getValue out' q = getValue out q"
proof (rule objects.puts_frame[OF ok[unfolded applyPassthrough_unfold]], clarify)
  fix p w assume "(p, w) \<in> set (collectUnknown t (JObj inp) [])"
  then have p: "undeclaredAt t p" using assms(1) by (simp add: collectUnknown_top_iff)
  then have "ktChildren t \<noteq> []" by (cases p) (auto simp: undeclaredAt_def split: option.splits)
  with p q show "parallel p q"
    by (auto simp: undeclaredAt_def declaredLeaf_def intro: undeclared_parallel_declaredLeaf)
qed

end
