(* ===== verification/Ops.thy ===== *)
theory Ops
  imports Passthrough
begin

text \<open>
  The compiled conversion steps (\<open>pkg/engine/ops.go\<close>, \<open>mapkeyrename.go\<close>, \<open>k8sunits.go\<close>, \<open>cel.go\<close>).
  \<open>op\<close> has one constructor per \<open>Op\<close> implementation, with the fields of the Go struct in their
  order; each \<open>apply\<close> method is one definition here, from the input object and the output object
  built so far to the new output or an error. \<open>applyOp\<close> dispatches on the constructor and
  \<open>applyOps\<close> runs a list of operations the way \<open>Convert\<close>, \<open>forEachOp\<close> and \<open>branchMapOp\<close> do.
\<close>

type_synonym UnknownKeyPolicy = string

abbreviation UnknownKeyError :: UnknownKeyPolicy where "UnknownKeyError \<equiv> ''Error''"
abbreviation UnknownKeyDrop :: UnknownKeyPolicy where "UnknownKeyDrop \<equiv> ''Drop''"

datatype op =
    IdentityOp FieldPath
  | RenameOp FieldPath FieldPath
  | WrapScalarOp FieldPath FieldPath string jobj
  | UnwrapScalarOp FieldPath FieldPath string
  | ArrayFirstToObjectOp FieldPath FieldPath
  | ObjectToSingletonArrayOp FieldPath FieldPath
  | CollapseToMapOp "FieldPath list" FieldPath "(string \<times> string) list"
  | ExpandFromMapOp FieldPath "FieldPath list" "(string \<times> string) list" UnknownKeyPolicy
  | StashAnnotationOp FieldPath string string string
  | RestoreAnnotationOp FieldPath string string string
  | RemapEnumOp FieldPath "(string \<times> jval) list" UnknownKeyPolicy
  | InjectDefaultOp FieldPath jval
  | DropFieldOp
  | StripMetadataKeyOp string string
  | InjectConstantOp FieldPath jval
  | JsonPatchApplyOp "JSONPatchOp list" "FieldPath list"
  | ForEachOp FieldPath FieldPath "op list"
  | WhenOp FieldPath jval op
  | CoerceOp FieldPath FieldKind FractionalIntegerPolicy
  | SplitFieldOp FieldPath string "(string \<times> FieldPath) list" "(string \<times> FieldKind) list"
  | JoinFieldsOp "(string \<times> FieldPath) list" FieldPath string
  | ArrayToMapByKeyOp FieldPath FieldPath string
  | MapToArrayByKeyOp FieldPath FieldPath string
  | NumericScaleOp FieldPath FieldPath float64 bool bool
  | JoinListOp FieldPath FieldPath string
  | SplitListOp FieldPath FieldPath string FieldKind
  | BranchMapOp FieldPath FieldPath string "compiledBranch list"
  | QuantityOp FieldPath FieldPath bool
  | DurationOp FieldPath FieldPath bool
  | MapKeyRenameOp FieldPath FieldPath "(string \<times> string) list"
  | CelOp string "FieldPath list"
  | PassthroughUnknownOp knownTree
and compiledBranch =
    CompiledBranch (srcBranch: string) (dstBranch: string) (dstDiscriminator: string)
      (nestedOps: "op list")

type_synonym step = "jobj \<Rightarrow> jobj \<Rightarrow> gerr + jobj"

subsection \<open>Copies, wrapping, singletons\<close>

text \<open>The prologue every operation shares: a missing source value is not an error.\<close>

definition withSource :: "FieldPath \<Rightarrow> (jval \<Rightarrow> jobj \<Rightarrow> gerr + jobj) \<Rightarrow> step" where
  "withSource p f inp out = (case getValue inp p of None \<Rightarrow> Inr out | Some v \<Rightarrow> f v out)"

definition applyIdentity :: "FieldPath \<Rightarrow> step" where
  "applyIdentity path = withSource path (\<lambda>v out. setValue out path (deepCopyValue v))"

definition applyRename :: "FieldPath \<Rightarrow> FieldPath \<Rightarrow> step" where
  "applyRename src dst = withSource src (\<lambda>v out. setValue out dst (deepCopyValue v))"

definition applyWrapScalar :: "FieldPath \<Rightarrow> FieldPath \<Rightarrow> string \<Rightarrow> jobj \<Rightarrow> step" where
  "applyWrapScalar scalarPath objectPath key defaults = withSource scalarPath (\<lambda>v out.
     setValue out objectPath
       (JObj (AList.update key (deepCopyValue v) (map (\<lambda>(k, d). (k, deepCopyValue d)) defaults))))"

definition applyUnwrapScalar :: "FieldPath \<Rightarrow> FieldPath \<Rightarrow> string \<Rightarrow> step" where
  "applyUnwrapScalar objectPath scalarPath key = withSource objectPath (\<lambda>v out.
     (case v of
        JObj m \<Rightarrow> (case map_of m key of
            None \<Rightarrow> Inr out
          | Some val \<Rightarrow> setValue out scalarPath (deepCopyValue val))
      | _ \<Rightarrow> Inr out))"

definition applyArrayFirstToObject :: "FieldPath \<Rightarrow> FieldPath \<Rightarrow> step" where
  "applyArrayFirstToObject arrayPath objectPath = withSource arrayPath (\<lambda>v out.
     (case v of
        JArr (x # _) \<Rightarrow> setValue out objectPath (deepCopyValue x)
      | _ \<Rightarrow> Inr out))"

definition applyObjectToSingletonArray :: "FieldPath \<Rightarrow> FieldPath \<Rightarrow> step" where
  "applyObjectToSingletonArray objectPath arrayPath =
     withSource objectPath (\<lambda>v out. setValue out arrayPath (JArr [deepCopyValue v]))"

subsection \<open>Several fields and one map\<close>

definition mapKeyFor :: "(string \<times> string) list \<Rightarrow> FieldPath \<Rightarrow> string" where
  "mapKeyFor keyNames fp =
     (case map_of keyNames (pathString fp) of
        Some k \<Rightarrow> (if k = [] then lastSegment fp else k)
      | None \<Rightarrow> lastSegment fp)"

fun collapseFields :: "(string \<times> string) list \<Rightarrow> jobj \<Rightarrow> FieldPath list \<Rightarrow> jobj \<Rightarrow> jobj" where
  "collapseFields keyNames inp [] m = m"
| "collapseFields keyNames inp (fp # fps) m =
     collapseFields keyNames inp fps
       (case getValue inp fp of
          None \<Rightarrow> m
        | Some v \<Rightarrow> AList.update (mapKeyFor keyNames fp) (deepCopyValue v) m)"

definition applyCollapseToMap ::
    "FieldPath list \<Rightarrow> FieldPath \<Rightarrow> (string \<times> string) list \<Rightarrow> step" where
  "applyCollapseToMap fieldPaths mapPath keyNames inp out =
     (if \<forall>fp\<in>set fieldPaths. getValue inp fp = None then Inr out
      else setValue out mapPath (JObj (collapseFields keyNames inp fieldPaths [])))"

definition applyExpandFromMap ::
    "FieldPath \<Rightarrow> FieldPath list \<Rightarrow> (string \<times> string) list \<Rightarrow> UnknownKeyPolicy \<Rightarrow> step" where
  "applyExpandFromMap mapPath fieldPaths keyNames onUnknownKey = withSource mapPath (\<lambda>v out.
     (case v of
        JObj m \<Rightarrow>
          bindR (foldR (\<lambda>fp o'. case map_of m (mapKeyFor keyNames fp) of
                     None \<Rightarrow> Inr o'
                   | Some val \<Rightarrow> setValue o' fp (deepCopyValue val)) fieldPaths out)
            (\<lambda>out'.
               if onUnknownKey = UnknownKeyError then
                 (case List.find (\<lambda>k. k \<notin> mapKeyFor keyNames ` set fieldPaths) (map fst m) of
                    Some k \<Rightarrow> Inl (Fmt ''expandFromMap: unexpected key %q at %q'' [MStr k, MPath mapPath])
                  | None \<Rightarrow> Inr out')
               else Inr out')
      | _ \<Rightarrow> Inl (Fmt ''expandFromMap: value at %q is not an object'' [MPath mapPath])))"

subsection \<open>Metadata annotations and labels\<close>

definition stashString :: "golib \<Rightarrow> FieldPath \<Rightarrow> string \<Rightarrow> jval \<Rightarrow> gerr + string" where
  "stashString lib hubPath serialization v =
     (if serialization = ''String'' then
        (case v of
           JStr s \<Rightarrow> Inr s
         | _ \<Rightarrow> Inl (Fmt ''stashAnnotation: value at %q is not a string but serialization=String'' [MPath hubPath]))
      else (case lib_Marshal lib v of
           Inl e \<Rightarrow> Inl (Fmt ''stashAnnotation: marshal %q: %w'' [MPath hubPath, e])
         | Inr b \<Rightarrow> Inr b))"

definition checkLabel :: "golib \<Rightarrow> string \<Rightarrow> string \<Rightarrow> string \<Rightarrow> gerr option" where
  "checkLabel lib metadataField key strVal =
     (if metadataField = ''labels'' then
        (if lib_IsQualifiedName lib key \<noteq> [] then
           Some (Fmt ''stashAnnotation: label key %q is invalid: %s''
             [MStr key, MStr (joinStr (lib_IsQualifiedName lib key) ''; '')])
         else if lib_IsValidLabelValue lib strVal \<noteq> [] then
           Some (Fmt ''stashAnnotation: label value for key %q is invalid: %s''
             [MStr key, MStr (joinStr (lib_IsValidLabelValue lib strVal) ''; '')])
         else None)
      else None)"

definition applyStashAnnotation :: "golib \<Rightarrow> FieldPath \<Rightarrow> string \<Rightarrow> string \<Rightarrow> string \<Rightarrow> step" where
  "applyStashAnnotation lib hubPath metadataField key serialization = withSource hubPath (\<lambda>v out.
     bindR (stashString lib hubPath serialization v) (\<lambda>strVal.
       (case checkLabel lib metadataField key strVal of
          Some e \<Rightarrow> Inl e
        | None \<Rightarrow> setValue out [''metadata'', metadataField, key] (JStr strVal))))"

definition restoreVal :: "golib \<Rightarrow> string \<Rightarrow> string \<Rightarrow> string \<Rightarrow> string \<Rightarrow> gerr + jval" where
  "restoreVal lib metadataField key serialization strVal =
     (if serialization = ''String'' then Inr (JStr strVal)
      else (case lib_Unmarshal lib strVal of
           Inl e \<Rightarrow> Inl (Fmt ''restoreAnnotation: unmarshal metadata.%s.%s: %w'' [MStr metadataField, MStr key, e])
         | Inr v \<Rightarrow> Inr v))"

definition applyRestoreAnnotation :: "golib \<Rightarrow> FieldPath \<Rightarrow> string \<Rightarrow> string \<Rightarrow> string \<Rightarrow> step" where
  "applyRestoreAnnotation lib hubPath metadataField key serialization =
     withSource [''metadata'', metadataField, key] (\<lambda>raw out.
       (case raw of
          JStr strVal \<Rightarrow>
            bindR (restoreVal lib metadataField key serialization strVal) (\<lambda>val.
              bindR (setValue out hubPath val) (\<lambda>out'.
                Inr (deleteValuePruningEmptyMaps out' [''metadata'', metadataField, key])))
        | _ \<Rightarrow> Inl (Fmt ''restoreAnnotation: value at metadata.%s.%s is not a string''
                 [MStr metadataField, MStr key])))"

definition applyStripMetadataKey :: "string \<Rightarrow> string \<Rightarrow> step" where
  "applyStripMetadataKey metadataField key inp out =
     Inr (deleteValuePruningEmptyMaps out [''metadata'', metadataField, key])"

subsection \<open>Scalars\<close>

definition applyRemapEnum ::
    "golib \<Rightarrow> FieldPath \<Rightarrow> (string \<times> jval) list \<Rightarrow> UnknownKeyPolicy \<Rightarrow> step" where
  "applyRemapEnum lib path table onUnmapped = withSource path (\<lambda>v out.
     (case map_of table (enumKey lib v) of
        None \<Rightarrow>
          (if onUnmapped = UnknownKeyError
           then Inl (Fmt ''remapEnum: unmapped value %v at %q'' [MVal v, MPath path]) else Inr out)
      | Some mapped \<Rightarrow> setValue out path mapped))"

definition applyInject :: "FieldPath \<Rightarrow> jval \<Rightarrow> step" where
  "applyInject path value inp out = setValue out path (deepCopyValue value)"

definition applyCoerce :: "golib \<Rightarrow> FieldPath \<Rightarrow> FieldKind \<Rightarrow> FractionalIntegerPolicy \<Rightarrow> step" where
  "applyCoerce lib path toKind pol = withSource path (\<lambda>v out.
     (case coerceScalarValueWithPolicy lib v toKind pol of
        Inl e \<Rightarrow> Inl (Fmt ''typeCoerce: %q: %w'' [MPath path, e])
      | Inr coerced \<Rightarrow> setValue out path coerced))"

definition applyNumericScale :: "FieldPath \<Rightarrow> FieldPath \<Rightarrow> float64 \<Rightarrow> bool \<Rightarrow> bool \<Rightarrow> step" where
  "applyNumericScale fromPath toPath factor mult rnd = withSource fromPath (\<lambda>v out.
     (case AsFloat64 v of
        None \<Rightarrow> Inl (Fmt ''numericScale: value at %q is not numeric'' [MPath fromPath])
      | Some f \<Rightarrow>
          (let r = (if mult then mul64 f factor else div64 f factor)
           in setValue out toPath (JFloat (if rnd then roundAway64 r else r)))))"

definition applyQuantity :: "golib \<Rightarrow> FieldPath \<Rightarrow> FieldPath \<Rightarrow> bool \<Rightarrow> step" where
  "applyQuantity lib src dst toInteger = withSource src (\<lambda>v out.
     if toInteger then
       (case v of
          JStr s \<Rightarrow> (case lib_QuantityMilli lib s of
              Inl e \<Rightarrow> Inl (Fmt ''quantity: parse %q: %w'' [MStr s, e])
            | Inr n \<Rightarrow> setValue out dst (JFloat (int64_to_float64 n)))
        | _ \<Rightarrow> Inl (Fmt ''quantity: value at %q is not a string'' [MPath src]))
     else
       (case AsFloat64 v of
          None \<Rightarrow> Inl (Fmt ''quantity: value at %q is not numeric'' [MPath src])
        | Some f \<Rightarrow> setValue out dst (JStr (lib_MilliQuantityString lib (float64_to_int64 lib f)))))"

text \<open>Durations are \<open>int64\<close> nanoseconds: the product with a second wraps around.\<close>

definition applyDuration :: "golib \<Rightarrow> FieldPath \<Rightarrow> FieldPath \<Rightarrow> bool \<Rightarrow> step" where
  "applyDuration lib src dst toInteger = withSource src (\<lambda>v out.
     if toInteger then
       (case v of
          JStr s \<Rightarrow> (case lib_ParseDuration lib s of
              Inl e \<Rightarrow> Inl (Fmt ''duration: parse %q: %w'' [MStr s, e])
            | Inr d \<Rightarrow>
                (if sint d mod 1000000000 \<noteq> 0
                 then Inl (Fmt ''duration: %q is not a whole number of seconds'' [MStr s])
                 else setValue out dst (JFloat (int64_to_float64 (word_of_int (sint d div 1000000000))))))
        | _ \<Rightarrow> Inl (Fmt ''duration: value at %q is not a string'' [MPath src]))
     else
       (case AsFloat64 v of
          None \<Rightarrow> Inl (Fmt ''duration: value at %q is not numeric'' [MPath src])
        | Some f \<Rightarrow> setValue out dst (JStr (lib_DurationString lib (float64_to_int64 lib f * 1000000000)))))"

subsection \<open>Escape hatches: JSON patch, regular expressions, templates, CEL\<close>

definition applyJsonPatch :: "golib \<Rightarrow> JSONPatchOp list \<Rightarrow> FieldPath list \<Rightarrow> step" where
  "applyJsonPatch lib patch touchedPaths inp out =
     (case lib_Marshal lib (JObj inp) of
        Inl e \<Rightarrow> Inl (Fmt ''jsonPatch: marshal input: %w'' [e])
      | Inr b \<Rightarrow>
     (case lib_ApplyPatch lib patch b of
        Inl e \<Rightarrow> Inl (Fmt ''jsonPatch: apply: %w'' [e])
      | Inr patched \<Rightarrow>
     (case (case lib_Unmarshal lib patched of
              Inr (JObj m) \<Rightarrow> Inr m
            | Inr JNull \<Rightarrow> Inr []
            | Inr v \<Rightarrow> Inl (Fmt ''json: cannot unmarshal into map'' [MVal v])
            | Inl e \<Rightarrow> Inl e) of
        Inl e \<Rightarrow> Inl (Fmt ''jsonPatch: unmarshal patched input: %w'' [e])
      | Inr full \<Rightarrow>
          foldR (\<lambda>p o'.
            (case getValue full p of
               Some v \<Rightarrow> (case setValue o' p (deepCopyValue v) of
                   Inl e \<Rightarrow> Inl (Fmt ''jsonPatch: writing %q: %w'' [MPath p, e])
                 | Inr o'' \<Rightarrow> Inr o'')
             | None \<Rightarrow> Inr (deleteValue o' p))) touchedPaths out)))"

definition captures :: "string list \<Rightarrow> string list \<Rightarrow> (string \<times> string) list" where
  "captures names match =
     fold (\<lambda>(n, s) m. if n = [] then m else AList.update n s m) (zip names match) []"

definition applySplitField ::
    "golib \<Rightarrow> FieldPath \<Rightarrow> string \<Rightarrow> (string \<times> FieldPath) list \<Rightarrow> (string \<times> FieldKind) list \<Rightarrow> step" where
  "applySplitField lib sourcePath pattern destFields destKinds = withSource sourcePath (\<lambda>v out.
     (case v of
        JStr s \<Rightarrow>
          (case lib_RegexpMatch lib pattern s of
             None \<Rightarrow> Inl (Fmt ''splitField: value %q at %q does not match pattern %q''
                 [MStr s, MPath sourcePath, MStr pattern])
           | Some match \<Rightarrow>
               foldR (\<lambda>(name, destPath) o'.
                 (case map_of (captures (lib_RegexpNames lib pattern) match) name of
                    None \<Rightarrow> Inl (Fmt ''splitField: pattern has no capture group named %q'' [MStr name])
                  | Some raw \<Rightarrow>
                      (case coerceScalarValue lib (JStr raw)
                          (case map_of destKinds name of Some k \<Rightarrow> k | None \<Rightarrow> FieldKindUnknown) of
                         Inl e \<Rightarrow> Inl (Fmt ''splitField: group %q: %w'' [MStr name, e])
                       | Inr coerced \<Rightarrow> setValue o' destPath coerced))) destFields out)
      | _ \<Rightarrow> Inl (Fmt ''splitField: value at %q is not a string'' [MPath sourcePath])))"

definition applyJoinFields :: "golib \<Rightarrow> (string \<times> FieldPath) list \<Rightarrow> FieldPath \<Rightarrow> string \<Rightarrow> step" where
  "applyJoinFields lib srcFields destPath tmpl inp out =
     (let data = List.map_filter (\<lambda>(name, p). map_option (Pair name) (getValue inp p)) srcFields
      in if data = [] then Inr out
         else (case lib_TemplateExecute lib tmpl data of
             Inl e \<Rightarrow> Inl (Fmt ''joinFields: template execution: %w'' [e])
           | Inr s \<Rightarrow> setValue out destPath (JStr s)))"

definition lookupCELResult :: "jobj \<Rightarrow> FieldPath \<Rightarrow> jval option" where
  "lookupCELResult m path =
     (case getValue m path of Some v \<Rightarrow> Some v | None \<Rightarrow> map_of m (pathString path))"

definition applyCel :: "golib \<Rightarrow> string \<Rightarrow> FieldPath list \<Rightarrow> step" where
  "applyCel lib prg dests inp out =
     (case lib_CelEval lib prg inp of
        Inl e \<Rightarrow> Inl (Fmt ''cel: %w'' [e])
      | Inr res \<Rightarrow>
     (case lib_CelNative lib res of
        Inl e \<Rightarrow> Inl (Fmt ''cel: result must be a map: %w'' [e])
      | Inr (JObj m) \<Rightarrow>
          foldR (\<lambda>p o'. (case lookupCELResult m p of None \<Rightarrow> Inr o' | Some v \<Rightarrow> setValue o' p v)) dests out
      | Inr v \<Rightarrow> Inl (Fmt ''cel: result must be a map, got %T'' [MVal v])))"

subsection \<open>Lists and keyed maps\<close>

definition keyedElement :: "FieldPath \<Rightarrow> string \<Rightarrow> nat \<Rightarrow> jval \<Rightarrow> gerr + (string \<times> jobj)" where
  "keyedElement arrayPath keyField i elem =
     (case elem of
        JObj m \<Rightarrow>
          (case map_of m keyField of
             None \<Rightarrow> Inl (Fmt ''arrayToMapByKey: element %d at %q is missing key field %q''
                 [MInt (int i), MPath arrayPath, MStr keyField])
           | Some (JStr keyStr) \<Rightarrow>
               Inr (keyStr, map (\<lambda>(k, vv). (k, deepCopyValue vv)) (AList.delete keyField m))
           | Some _ \<Rightarrow> Inl (Fmt ''arrayToMapByKey: element %d at %q: key field %q is not a string''
                 [MInt (int i), MPath arrayPath, MStr keyField]))
      | _ \<Rightarrow> Inl (Fmt ''arrayToMapByKey: element %d at %q is not an object'' [MInt (int i), MPath arrayPath]))"

fun arrayToMapLoop :: "FieldPath \<Rightarrow> string \<Rightarrow> nat \<Rightarrow> jval list \<Rightarrow> jobj \<Rightarrow> gerr + jobj" where
  "arrayToMapLoop arrayPath keyField i [] out = Inr out"
| "arrayToMapLoop arrayPath keyField i (e # es) out =
     bindR (keyedElement arrayPath keyField i e) (\<lambda>(keyStr, rest).
       if map_of out keyStr \<noteq> None
       then Inl (Fmt ''arrayToMapByKey: duplicate key %q at %q'' [MStr keyStr, MPath arrayPath])
       else arrayToMapLoop arrayPath keyField (Suc i) es (AList.update keyStr (JObj rest) out))"

definition applyArrayToMapByKey :: "FieldPath \<Rightarrow> FieldPath \<Rightarrow> string \<Rightarrow> step" where
  "applyArrayToMapByKey arrayPath mapPath keyField = withSource arrayPath (\<lambda>v out.
     (case v of
        JArr es \<Rightarrow> bindR (arrayToMapLoop arrayPath keyField 0 es []) (\<lambda>m. setValue out mapPath (JObj m))
      | _ \<Rightarrow> Inl (Fmt ''arrayToMapByKey: value at %q is not an array'' [MPath arrayPath])))"

definition insertKey :: "string \<Rightarrow> string \<Rightarrow> jobj \<Rightarrow> jobj" where
  "insertKey keyField k valMap =
     fold (\<lambda>(kk, vv) e. AList.update kk (deepCopyValue vv) e) valMap [(keyField, JStr k)]"

definition applyMapToArrayByKey :: "FieldPath \<Rightarrow> FieldPath \<Rightarrow> string \<Rightarrow> step" where
  "applyMapToArrayByKey mapPath arrayPath keyField = withSource mapPath (\<lambda>v out.
     (case v of
        JObj m \<Rightarrow>
          bindR (mapR (\<lambda>k. case map_of m k of
                    Some (JObj valMap) \<Rightarrow> Inr (JObj (insertKey keyField k valMap))
                  | _ \<Rightarrow> Inl (Fmt ''mapToArrayByKey: value at %q[%q] is not an object'' [MPath mapPath, MStr k]))
                 (sort (map fst m)))
            (\<lambda>es. setValue out arrayPath (JArr es))
      | _ \<Rightarrow> Inl (Fmt ''mapToArrayByKey: value at %q is not an object'' [MPath mapPath])))"

definition joinElement :: "golib \<Rightarrow> nat \<times> jval \<Rightarrow> gerr + string" where
  "joinElement lib ie =
     (case coerceScalarValue lib (snd ie) FieldKindString of
        Inl e \<Rightarrow> Inl (Fmt ''listJoin: element %d: %w'' [MInt (int (fst ie)), e])
      | Inr (JStr s) \<Rightarrow> Inr s
      | Inr v \<Rightarrow> Inl (Fmt ''listJoin: element %d coerced to %T, not string'' [MInt (int (fst ie)), MVal v]))"

definition applyJoinList :: "golib \<Rightarrow> FieldPath \<Rightarrow> FieldPath \<Rightarrow> string \<Rightarrow> step" where
  "applyJoinList lib arrayPath stringPath separator = withSource arrayPath (\<lambda>v out.
     (case v of
        JArr es \<Rightarrow> bindR (mapR (joinElement lib) (enumerate 0 es))
                    (\<lambda>parts. setValue out stringPath (JStr (joinStr parts separator)))
      | _ \<Rightarrow> Inl (Fmt ''listJoin: value at %q is not an array'' [MPath arrayPath])))"

definition splitElement :: "golib \<Rightarrow> FieldKind \<Rightarrow> nat \<times> string \<Rightarrow> gerr + jval" where
  "splitElement lib itemKind ip =
     (case coerceScalarValue lib (JStr (snd ip)) itemKind of
        Inl e \<Rightarrow> Inl (Fmt ''listSplit: element %d: %w'' [MInt (int (fst ip)), e])
      | Inr v \<Rightarrow> Inr v)"

definition applySplitList :: "golib \<Rightarrow> FieldPath \<Rightarrow> FieldPath \<Rightarrow> string \<Rightarrow> FieldKind \<Rightarrow> step" where
  "applySplitList lib stringPath arrayPath separator itemKind = withSource stringPath (\<lambda>v out.
     (case v of
        JStr s \<Rightarrow>
          bindR (mapR (splitElement lib itemKind) (enumerate 0 (if s = [] then [] else splitStr s separator)))
            (\<lambda>es. setValue out arrayPath (JArr es))
      | _ \<Rightarrow> Inl (Fmt ''listSplit: value at %q is not a string'' [MPath stringPath])))"

fun renameKeys :: "(string \<times> string) list \<Rightarrow> FieldPath \<Rightarrow> jobj \<Rightarrow> jobj \<Rightarrow> gerr + jobj" where
  "renameKeys renames dst [] out = Inr out"
| "renameKeys renames dst (kv # kvs) out =
     (let dk = (case map_of renames (fst kv) of Some mapped \<Rightarrow> mapped | None \<Rightarrow> fst kv)
      in if map_of out dk \<noteq> None
         then Inl (Fmt ''mapKeyRename: destination key %q collision at %q'' [MStr dk, MPath dst])
         else renameKeys renames dst kvs (AList.update dk (snd kv) out))"

definition applyMapKeyRename :: "FieldPath \<Rightarrow> FieldPath \<Rightarrow> (string \<times> string) list \<Rightarrow> step" where
  "applyMapKeyRename src dst renames = withSource src (\<lambda>v out.
     (case v of
        JObj m \<Rightarrow> bindR (renameKeys renames dst m []) (\<lambda>m'. setValue out dst (JObj m'))
      | _ \<Rightarrow> Inl (Fmt ''mapKeyRename: value at %q is not an object'' [MPath src])))"

subsection \<open>Operations with nested operations\<close>

fun forEachElems :: "FieldPath \<Rightarrow> (jobj \<Rightarrow> gerr + jobj) \<Rightarrow> nat \<Rightarrow> jval list \<Rightarrow> gerr + jval list" where
  "forEachElems srcItemsPath run i [] = Inr []"
| "forEachElems srcItemsPath run i (e # es) =
     (case e of
        JObj m \<Rightarrow>
          (case run m of
             Inl err \<Rightarrow> Inl (Fmt ''forEach: element %d: %w'' [MInt (int i), err])
           | Inr m' \<Rightarrow> bindR (forEachElems srcItemsPath run (Suc i) es) (\<lambda>es'. Inr (JObj m' # es')))
      | _ \<Rightarrow> Inl (Fmt ''forEach: element %d at %q is not an object'' [MInt (int i), MPath srcItemsPath]))"

definition applyForEach :: "(jobj \<Rightarrow> gerr + jobj) \<Rightarrow> FieldPath \<Rightarrow> FieldPath \<Rightarrow> step" where
  "applyForEach run srcItemsPath dstItemsPath inp out =
     (case getValue inp srcItemsPath of
        None \<Rightarrow> Inr out
      | Some (JArr arr) \<Rightarrow>
          (case getValue inp dstItemsPath of
             Some (JArr dstArr) \<Rightarrow>
               (if length dstArr \<noteq> length arr
                then Inl (Fmt ''forEach: length mismatch between %q (%d) and %q (%d)''
                  [MPath srcItemsPath, MInt (int (length arr)), MPath dstItemsPath, MInt (int (length dstArr))])
                else bindR (forEachElems srcItemsPath run 0 arr) (\<lambda>es. setValue out dstItemsPath (JArr es)))
           | Some _ \<Rightarrow> Inl (Fmt ''forEach: value at %q is not an array'' [MPath dstItemsPath])
           | None \<Rightarrow> bindR (forEachElems srcItemsPath run 0 arr) (\<lambda>es. setValue out dstItemsPath (JArr es)))
      | Some _ \<Rightarrow> Inl (Fmt ''forEach: value at %q is not an array'' [MPath srcItemsPath]))"

definition branchNames :: "compiledBranch list \<Rightarrow> string list" where
  "branchNames bs = sort (map srcBranch bs)"

definition branchValue ::
    "(compiledBranch \<Rightarrow> jobj \<Rightarrow> gerr + jobj) \<Rightarrow> FieldPath \<Rightarrow> compiledBranch \<Rightarrow> jval \<Rightarrow> gerr + jval" where
  "branchValue run srcPath active value =
     (if nestedOps active \<noteq> [] then
        (case value of
           JObj branchObj \<Rightarrow>
             (case run active branchObj of
                Inl e \<Rightarrow> Inl (Fmt ''branchMap: branch %q: %w'' [MStr (srcBranch active), e])
              | Inr m \<Rightarrow> Inr (JObj m))
         | _ \<Rightarrow> Inl (Fmt ''branchMap: branch %q at %q is not an object, so its nested rules cannot apply''
               [MStr (srcBranch active), MPath srcPath]))
      else Inr (deepCopyValue value))"

definition applyBranchMap ::
    "(compiledBranch \<Rightarrow> jobj \<Rightarrow> gerr + jobj) \<Rightarrow> FieldPath \<Rightarrow> FieldPath \<Rightarrow> string \<Rightarrow> compiledBranch list \<Rightarrow> step" where
  "applyBranchMap run srcPath dstPath discriminator branches = withSource srcPath (\<lambda>v out.
     (case v of
        JObj obj \<Rightarrow>
          (case filter (\<lambda>b. map_of obj (srcBranch b) \<noteq> None) branches of
             [] \<Rightarrow> Inl (Fmt ''branchMap: no branch is set at %q; exactly one of %v must be''
                 (MPath srcPath # map MStr (branchNames branches)))
           | [active] \<Rightarrow>
               bindR (branchValue run srcPath active
                       (case map_of obj (srcBranch active) of Some x \<Rightarrow> x | None \<Rightarrow> JNull)) (\<lambda>value.
               bindR (setValue out (dstPath @ [dstBranch active]) value) (\<lambda>out'.
                 if discriminator \<noteq> []
                 then setValue out' (dstPath @ [discriminator]) (JStr (dstDiscriminator active))
                 else Inr out'))
           | present \<Rightarrow> Inl (Fmt ''branchMap: branches %v are all set at %q; exactly one must be''
                 (MPath srcPath # map MStr (branchNames present))))
      | _ \<Rightarrow> Inl (Fmt ''branchMap: value at %q is not an object'' [MPath srcPath])))"

lemma applyBranchMap_cong [fundef_cong]:
  assumes "srcPath = srcPath'" "dstPath = dstPath'" "disc = disc'" "bs = bs'" "inp = inp'" "out = out'"
    and "\<And>b m. b \<in> set bs' \<Longrightarrow> run b m = run' b m"
  shows "applyBranchMap run srcPath dstPath disc bs inp out
    = applyBranchMap run' srcPath' dstPath' disc' bs' inp' out'"
proof -
  have bv: "b \<in> set bs' \<Longrightarrow> branchValue run p b v = branchValue run' p b v" for b v p
    using assms(7) by (auto simp: branchValue_def split: jval.splits)
  have mem: "filter P bs' = [b] \<Longrightarrow> b \<in> set bs'" for P b
    by (metis filter_is_subset list.set_intros(1) subsetD)
  show ?thesis
    unfolding assms(1-6) applyBranchMap_def withSource_def
    by (auto split: option.splits jval.splits list.splits simp: bv dest!: mem)
qed

text \<open>\<open>whenOp\<close> guards another operation.\<close>

definition applyWhen :: "FieldPath \<Rightarrow> jval \<Rightarrow> step \<Rightarrow> step" where
  "applyWhen path equals inner inp out =
     (case getValue inp path of
        None \<Rightarrow> Inr out
      | Some v \<Rightarrow> if \<not> jsonValuesEqual v equals then Inr out else inner inp out)"

lemma size_nestedOps:
  assumes "b \<in> set bs"
  shows "size_list size (nestedOps b) < Suc (size_list size bs)"
proof -
  have "size_list size (nestedOps b) \<le> size b" by (cases b) simp
  also have "size b \<le> size_list size bs" using assms by (induction bs) auto
  finally show ?thesis by simp
qed

function applyOp :: "golib \<Rightarrow> op \<Rightarrow> step"
  and applyOps :: "golib \<Rightarrow> op list \<Rightarrow> step" where
  "applyOp lib x inp out =
     (case x of
      IdentityOp p \<Rightarrow> applyIdentity p inp out
    | RenameOp p q \<Rightarrow> applyRename p q inp out
    | WrapScalarOp p q k d \<Rightarrow> applyWrapScalar p q k d inp out
    | UnwrapScalarOp p q k \<Rightarrow> applyUnwrapScalar p q k inp out
    | ArrayFirstToObjectOp p q \<Rightarrow> applyArrayFirstToObject p q inp out
    | ObjectToSingletonArrayOp p q \<Rightarrow> applyObjectToSingletonArray p q inp out
    | CollapseToMapOp ps q kn \<Rightarrow> applyCollapseToMap ps q kn inp out
    | ExpandFromMapOp p qs kn pol \<Rightarrow> applyExpandFromMap p qs kn pol inp out
    | StashAnnotationOp p f k s \<Rightarrow> applyStashAnnotation lib p f k s inp out
    | RestoreAnnotationOp p f k s \<Rightarrow> applyRestoreAnnotation lib p f k s inp out
    | RemapEnumOp p t pol \<Rightarrow> applyRemapEnum lib p t pol inp out
    | InjectDefaultOp p v \<Rightarrow> applyInject p v inp out
    | DropFieldOp \<Rightarrow> Inr out
    | StripMetadataKeyOp f k \<Rightarrow> applyStripMetadataKey f k inp out
    | InjectConstantOp p v \<Rightarrow> applyInject p v inp out
    | JsonPatchApplyOp pt tp \<Rightarrow> applyJsonPatch lib pt tp inp out
    | ForEachOp p q nested \<Rightarrow> applyForEach (\<lambda>m. applyOps lib nested m []) p q inp out
    | WhenOp p v inner \<Rightarrow> applyWhen p v (applyOp lib inner) inp out
    | CoerceOp p k pol \<Rightarrow> applyCoerce lib p k pol inp out
    | SplitFieldOp p re ds ks \<Rightarrow> applySplitField lib p re ds ks inp out
    | JoinFieldsOp ss d t \<Rightarrow> applyJoinFields lib ss d t inp out
    | ArrayToMapByKeyOp p q k \<Rightarrow> applyArrayToMapByKey p q k inp out
    | MapToArrayByKeyOp p q k \<Rightarrow> applyMapToArrayByKey p q k inp out
    | NumericScaleOp p q f m r \<Rightarrow> applyNumericScale p q f m r inp out
    | JoinListOp p q s \<Rightarrow> applyJoinList lib p q s inp out
    | SplitListOp p q s k \<Rightarrow> applySplitList lib p q s k inp out
    | BranchMapOp p q d bs \<Rightarrow> applyBranchMap (\<lambda>b m. applyOps lib (nestedOps b) m []) p q d bs inp out
    | QuantityOp p q b \<Rightarrow> applyQuantity lib p q b inp out
    | DurationOp p q b \<Rightarrow> applyDuration lib p q b inp out
    | MapKeyRenameOp p q r \<Rightarrow> applyMapKeyRename p q r inp out
    | CelOp prg ds \<Rightarrow> applyCel lib prg ds inp out
    | PassthroughUnknownOp t \<Rightarrow> applyPassthrough t inp out)"
| "applyOps lib xs inp out =
     (case xs of
        [] \<Rightarrow> Inr out
      | y # ys \<Rightarrow> bindR (applyOp lib y inp out) (\<lambda>out'. applyOps lib ys inp out'))"
  by pat_completeness auto

termination
  by (relation "measure (\<lambda>x. case x of Inl (_, o', _, _) \<Rightarrow> size o' | Inr (_, os, _, _) \<Rightarrow> size_list size os)")
    (auto dest: size_nestedOps)

declare applyOp.simps [simp del] applyOps.simps [simp del]

lemma applyOp_simps [simp]:
  "applyOp lib (IdentityOp p1) inp out = applyIdentity p1 inp out"
  "applyOp lib (RenameOp p2 q2) inp out = applyRename p2 q2 inp out"
  "applyOp lib (WrapScalarOp p3 q3 k3 d3) inp out = applyWrapScalar p3 q3 k3 d3 inp out"
  "applyOp lib (UnwrapScalarOp p4 q4 k4) inp out = applyUnwrapScalar p4 q4 k4 inp out"
  "applyOp lib (ArrayFirstToObjectOp p5 q5) inp out = applyArrayFirstToObject p5 q5 inp out"
  "applyOp lib (ObjectToSingletonArrayOp p6 q6) inp out = applyObjectToSingletonArray p6 q6 inp out"
  "applyOp lib (CollapseToMapOp ps7 q7 kn7) inp out = applyCollapseToMap ps7 q7 kn7 inp out"
  "applyOp lib (ExpandFromMapOp p8 qs8 kn8 pol8) inp out = applyExpandFromMap p8 qs8 kn8 pol8 inp out"
  "applyOp lib (StashAnnotationOp p9 f9 k9 s9) inp out = applyStashAnnotation lib p9 f9 k9 s9 inp out"
  "applyOp lib (RestoreAnnotationOp p10 f10 k10 s10) inp out = applyRestoreAnnotation lib p10 f10 k10 s10 inp out"
  "applyOp lib (RemapEnumOp p11 t11 pol11) inp out = applyRemapEnum lib p11 t11 pol11 inp out"
  "applyOp lib (InjectDefaultOp p12 v12) inp out = applyInject p12 v12 inp out"
  "applyOp lib DropFieldOp inp out = Inr out"
  "applyOp lib (StripMetadataKeyOp f14 k14) inp out = applyStripMetadataKey f14 k14 inp out"
  "applyOp lib (InjectConstantOp p15 v15) inp out = applyInject p15 v15 inp out"
  "applyOp lib (JsonPatchApplyOp pt16 tp16) inp out = applyJsonPatch lib pt16 tp16 inp out"
  "applyOp lib (ForEachOp p17 q17 nested17) inp out = applyForEach (\<lambda>m. applyOps lib nested17 m []) p17 q17 inp out"
  "applyOp lib (WhenOp p18 v18 inner18) inp out = applyWhen p18 v18 (applyOp lib inner18) inp out"
  "applyOp lib (CoerceOp p19 k19 pol19) inp out = applyCoerce lib p19 k19 pol19 inp out"
  "applyOp lib (SplitFieldOp p20 re20 ds20 ks20) inp out = applySplitField lib p20 re20 ds20 ks20 inp out"
  "applyOp lib (JoinFieldsOp ss21 d21 t21) inp out = applyJoinFields lib ss21 d21 t21 inp out"
  "applyOp lib (ArrayToMapByKeyOp p22 q22 k22) inp out = applyArrayToMapByKey p22 q22 k22 inp out"
  "applyOp lib (MapToArrayByKeyOp p23 q23 k23) inp out = applyMapToArrayByKey p23 q23 k23 inp out"
  "applyOp lib (NumericScaleOp p24 q24 f24 m24 r24) inp out = applyNumericScale p24 q24 f24 m24 r24 inp out"
  "applyOp lib (JoinListOp p25 q25 s25) inp out = applyJoinList lib p25 q25 s25 inp out"
  "applyOp lib (SplitListOp p26 q26 s26 k26) inp out = applySplitList lib p26 q26 s26 k26 inp out"
  "applyOp lib (BranchMapOp p27 q27 d27 bs27) inp out = applyBranchMap (\<lambda>b m. applyOps lib (nestedOps b) m []) p27 q27 d27 bs27 inp out"
  "applyOp lib (QuantityOp p28 q28 b28) inp out = applyQuantity lib p28 q28 b28 inp out"
  "applyOp lib (DurationOp p29 q29 b29) inp out = applyDuration lib p29 q29 b29 inp out"
  "applyOp lib (MapKeyRenameOp p30 q30 r30) inp out = applyMapKeyRename p30 q30 r30 inp out"
  "applyOp lib (CelOp prg31 ds31) inp out = applyCel lib prg31 ds31 inp out"
  "applyOp lib (PassthroughUnknownOp t32) inp out = applyPassthrough t32 inp out"
  by (simp_all add: applyOp.simps)

lemma applyOps_simps [simp]:
  "applyOps lib [] inp out = Inr out"
  "applyOps lib (x # xs) inp out = bindR (applyOp lib x inp out) (\<lambda>out'. applyOps lib xs inp out')"
  by (subst applyOps.simps, simp)+

lemma applyOps_foldR: "applyOps lib xs inp out = foldR (\<lambda>x. applyOp lib x inp) xs out"
  by (induction xs arbitrary: out) auto

lemma applyOps_append:
  "applyOps lib (xs @ ys) inp out = bindR (applyOps lib xs inp out) (applyOps lib ys inp)"
  by (simp add: applyOps_foldR[abs_def] foldR_append)

lemma forEachElems_nth:
  "forEachElems src run i arr = Inr es \<Longrightarrow> length es = length arr
    \<and> (\<forall>j<length arr. \<exists>m m'. arr ! j = JObj m \<and> run m = Inr m' \<and> es ! j = JObj m')"
proof (induction arr arbitrary: i es)
  case (Cons e arr)
  then obtain m m' es' where e: "e = JObj m" "run m = Inr m'" "forEachElems src run (Suc i) arr = Inr es'" "es = JObj m' # es'"
    by (auto simp: bindR_Inr_iff split: jval.splits sum.splits)
  show ?case using Cons.IH[OF e(3)] e by (auto simp: nth_Cons split: nat.splits)
qed simp

end
