(* ===== verification/Codec.thy ===== *)
theory Codec
  imports Ops
begin

text \<open>
  What one operation does to an object. Most operations read one source path, translate the value
  and write one destination path: \<open>opCodec\<close> gives their source, destination and value translation,
  and \<open>opCodec_sound\<close> shows that running the operation is exactly that. \<open>opWrites\<close> is the set of paths
  an operation may touch, and \<open>applyOp_frame\<close> shows that it leaves every other path alone.
  The locale \<open>codec\<close> is the contract of a pair of translations, one per direction, and is
  interpreted on the strategies that promise a lossless round trip.
\<close>

subsection \<open>Operations on one field\<close>

definition fieldOp :: "FieldPath \<Rightarrow> FieldPath \<Rightarrow> (jval \<Rightarrow> gerr + jval option) \<Rightarrow> step" where
  "fieldOp src dst f inp out =
     (case getValue inp src of
        None \<Rightarrow> Inr out
      | Some v \<Rightarrow> (case f v of
          Inl e \<Rightarrow> Inl e
        | Inr None \<Rightarrow> Inr out
        | Inr (Some w) \<Rightarrow> setValue out dst w))"

definition liftR :: "gerr + 'a \<Rightarrow> ('a \<Rightarrow> jval) \<Rightarrow> gerr + jval option" where
  "liftR m f = bindR m (\<lambda>x. Inr (Some (f x)))"

definition encWrap :: "string \<Rightarrow> jobj \<Rightarrow> jval \<Rightarrow> gerr + jval option" where
  "encWrap key defaults v = Inr (Some (JObj (AList.update key v defaults)))"

definition encUnwrap :: "string \<Rightarrow> jval \<Rightarrow> gerr + jval option" where
  "encUnwrap key v = (case v of JObj m \<Rightarrow> Inr (map_of m key) | _ \<Rightarrow> Inr None)"

definition encFirst :: "jval \<Rightarrow> gerr + jval option" where
  "encFirst v = (case v of JArr (x # _) \<Rightarrow> Inr (Some x) | _ \<Rightarrow> Inr None)"

definition encSingleton :: "jval \<Rightarrow> gerr + jval option" where
  "encSingleton v = Inr (Some (JArr [v]))"

definition encEnum :: "golib \<Rightarrow> FieldPath \<Rightarrow> (string \<times> jval) list \<Rightarrow> UnknownKeyPolicy \<Rightarrow> jval \<Rightarrow> gerr + jval option" where
  "encEnum lib path table pol v =
     (case map_of table (enumKey lib v) of
        None \<Rightarrow> (if pol = UnknownKeyError then Inl (Fmt ''remapEnum: unmapped value %v at %q'' [MVal v, MPath path])
                 else Inr None)
      | Some w \<Rightarrow> Inr (Some w))"

definition encKeys :: "(string \<times> string) list \<Rightarrow> FieldPath \<Rightarrow> FieldPath \<Rightarrow> jval \<Rightarrow> gerr + jval option" where
  "encKeys renames src dst v =
     (case v of
        JObj m \<Rightarrow> liftR (renameKeys renames dst m []) JObj
      | _ \<Rightarrow> Inl (Fmt ''mapKeyRename: value at %q is not an object'' [MPath src]))"

definition encJoin :: "golib \<Rightarrow> FieldPath \<Rightarrow> string \<Rightarrow> jval \<Rightarrow> gerr + jval option" where
  "encJoin lib arrayPath sep v =
     (case v of
        JArr es \<Rightarrow> liftR (mapR (joinElement lib) (enumerate 0 es)) (\<lambda>parts. JStr (joinStr parts sep))
      | _ \<Rightarrow> Inl (Fmt ''listJoin: value at %q is not an array'' [MPath arrayPath]))"

definition encSplit :: "golib \<Rightarrow> FieldPath \<Rightarrow> string \<Rightarrow> FieldKind \<Rightarrow> jval \<Rightarrow> gerr + jval option" where
  "encSplit lib stringPath sep itemKind v =
     (case v of
        JStr s \<Rightarrow> liftR (mapR (splitElement lib itemKind) (enumerate 0 (if s = [] then [] else splitStr s sep))) JArr
      | _ \<Rightarrow> Inl (Fmt ''listSplit: value at %q is not a string'' [MPath stringPath]))"

definition encKeyed :: "FieldPath \<Rightarrow> string \<Rightarrow> jval \<Rightarrow> gerr + jval option" where
  "encKeyed arrayPath keyField v =
     (case v of
        JArr es \<Rightarrow> liftR (arrayToMapLoop arrayPath keyField 0 es []) JObj
      | _ \<Rightarrow> Inl (Fmt ''arrayToMapByKey: value at %q is not an array'' [MPath arrayPath]))"

definition encUnkeyed :: "FieldPath \<Rightarrow> string \<Rightarrow> jval \<Rightarrow> gerr + jval option" where
  "encUnkeyed mapPath keyField v =
     (case v of
        JObj m \<Rightarrow>
          liftR (mapR (\<lambda>k. case map_of m k of
                    Some (JObj valMap) \<Rightarrow> Inr (JObj (insertKey keyField k valMap))
                  | _ \<Rightarrow> Inl (Fmt ''mapToArrayByKey: value at %q[%q] is not an object'' [MPath mapPath, MStr k]))
                 (sort (map fst m))) JArr
      | _ \<Rightarrow> Inl (Fmt ''mapToArrayByKey: value at %q is not an object'' [MPath mapPath]))"

definition opCodec :: "golib \<Rightarrow> op \<Rightarrow> (FieldPath \<times> FieldPath \<times> (jval \<Rightarrow> gerr + jval option)) option" where
  "opCodec lib x =
     (case x of
        IdentityOp p \<Rightarrow> Some (p, p, \<lambda>v. Inr (Some v))
      | RenameOp p q \<Rightarrow> Some (p, q, \<lambda>v. Inr (Some v))
      | WrapScalarOp p q k d \<Rightarrow> Some (p, q, encWrap k d)
      | UnwrapScalarOp p q k \<Rightarrow> Some (p, q, encUnwrap k)
      | ArrayFirstToObjectOp p q \<Rightarrow> Some (p, q, encFirst)
      | ObjectToSingletonArrayOp p q \<Rightarrow> Some (p, q, encSingleton)
      | RemapEnumOp p t pol \<Rightarrow> Some (p, p, encEnum lib p t pol)
      | MapKeyRenameOp p q r \<Rightarrow> Some (p, q, encKeys r p q)
      | JoinListOp p q s \<Rightarrow> Some (p, q, encJoin lib p s)
      | SplitListOp p q s k \<Rightarrow> Some (p, q, encSplit lib p s k)
      | ArrayToMapByKeyOp p q k \<Rightarrow> Some (p, q, encKeyed p k)
      | MapToArrayByKeyOp p q k \<Rightarrow> Some (p, q, encUnkeyed p k)
      | _ \<Rightarrow> None)"

lemma copy_defaults [simp]: "map (\<lambda>(k, d). (k, deepCopyValue d)) m = m"
  by (induction m) auto

lemmas fieldOp_defs = fieldOp_def withSource_def liftR_def bindR_def

lemma applyIdentity_field: "applyIdentity p = fieldOp p p (\<lambda>v. Inr (Some v))"
  by (intro ext) (simp add: applyIdentity_def  fieldOp_defs split: option.split jval.split list.split sum.split)

lemma applyRename_field: "applyRename p q = fieldOp p q (\<lambda>v. Inr (Some v))"
  by (intro ext) (simp add: applyRename_def  fieldOp_defs split: option.split jval.split list.split sum.split)

lemma applyWrapScalar_field: "applyWrapScalar p q k m = fieldOp p q (encWrap k m)"
  by (intro ext) (simp add: applyWrapScalar_def encWrap_def fieldOp_defs split: option.split jval.split list.split sum.split)

lemma applyUnwrapScalar_field: "applyUnwrapScalar p q k = fieldOp p q (encUnwrap k)"
  by (intro ext) (simp add: applyUnwrapScalar_def encUnwrap_def fieldOp_defs split: option.split jval.split list.split sum.split)

lemma applyArrayFirstToObject_field: "applyArrayFirstToObject p q = fieldOp p q encFirst"
  by (intro ext) (simp add: applyArrayFirstToObject_def encFirst_def fieldOp_defs split: option.split jval.split list.split sum.split)

lemma applyObjectToSingletonArray_field: "applyObjectToSingletonArray p q = fieldOp p q encSingleton"
  by (intro ext) (simp add: applyObjectToSingletonArray_def encSingleton_def fieldOp_defs split: option.split jval.split list.split sum.split)

lemma applyRemapEnum_field: "applyRemapEnum lib p t pol = fieldOp p p (encEnum lib p t pol)"
  by (intro ext) (simp add: applyRemapEnum_def encEnum_def fieldOp_defs split: option.split jval.split list.split sum.split)

lemma applyMapKeyRename_field: "applyMapKeyRename p q r = fieldOp p q (encKeys r p q)"
  by (intro ext) (simp add: applyMapKeyRename_def encKeys_def fieldOp_defs split: option.split jval.split list.split sum.split)

lemma applyJoinList_field: "applyJoinList lib p q sep = fieldOp p q (encJoin lib p sep)"
  by (intro ext) (simp add: applyJoinList_def encJoin_def fieldOp_defs split: option.split jval.split list.split sum.split)

lemma applySplitList_field: "applySplitList lib p q sep kd = fieldOp p q (encSplit lib p sep kd)"
  by (intro ext) (simp add: applySplitList_def encSplit_def fieldOp_defs split: option.split jval.split list.split sum.split)

lemma applyArrayToMapByKey_field: "applyArrayToMapByKey p q k = fieldOp p q (encKeyed p k)"
  by (intro ext) (simp add: applyArrayToMapByKey_def encKeyed_def fieldOp_defs split: option.split jval.split list.split sum.split)

lemma applyMapToArrayByKey_field: "applyMapToArrayByKey p q k = fieldOp p q (encUnkeyed p k)"
  by (intro ext) (simp add: applyMapToArrayByKey_def encUnkeyed_def fieldOp_defs split: option.split jval.split list.split sum.split)

lemmas field_ops = applyMapToArrayByKey_field applyIdentity_field applyRename_field applyWrapScalar_field applyUnwrapScalar_field applyArrayFirstToObject_field applyObjectToSingletonArray_field applyRemapEnum_field applyMapKeyRename_field applyJoinList_field applySplitList_field applyArrayToMapByKey_field

lemma opCodec_sound: "opCodec lib x = Some (s, d, f) \<Longrightarrow> applyOp lib x = fieldOp s d f"
  by (intro ext, cases x) (simp_all add: opCodec_def field_ops)

subsection \<open>What an operation may touch\<close>

definition metaPath :: "string \<Rightarrow> string \<Rightarrow> FieldPath" where
  "metaPath metadataField key = [''metadata'', metadataField, key]"

primrec opWrites :: "op \<Rightarrow> FieldPath list" where
  "opWrites (IdentityOp p) = [p]"
| "opWrites (RenameOp p q) = [q]"
| "opWrites (WrapScalarOp p q k m) = [q]"
| "opWrites (UnwrapScalarOp p q k) = [q]"
| "opWrites (ArrayFirstToObjectOp p q) = [q]"
| "opWrites (ObjectToSingletonArrayOp p q) = [q]"
| "opWrites (CollapseToMapOp ps q kn) = [q]"
| "opWrites (ExpandFromMapOp p qs kn pol) = qs"
| "opWrites (StashAnnotationOp p f k s) = [metaPath f k]"
| "opWrites (RestoreAnnotationOp p f k s) = [p, metaPath f k]"
| "opWrites (RemapEnumOp p t pol) = [p]"
| "opWrites (InjectDefaultOp p v) = [p]"
| "opWrites DropFieldOp = []"
| "opWrites (StripMetadataKeyOp f k) = [metaPath f k]"
| "opWrites (InjectConstantOp p v) = [p]"
| "opWrites (JsonPatchApplyOp pt tp) = tp"
| "opWrites (ForEachOp p q nested) = [q]"
| "opWrites (WhenOp p v inner) = opWrites inner"
| "opWrites (CoerceOp p k pol) = [p]"
| "opWrites (SplitFieldOp p re ds ks) = map snd ds"
| "opWrites (JoinFieldsOp ss d t) = [d]"
| "opWrites (ArrayToMapByKeyOp p q k) = [q]"
| "opWrites (MapToArrayByKeyOp p q k) = [q]"
| "opWrites (NumericScaleOp p q f m r) = [q]"
| "opWrites (JoinListOp p q s) = [q]"
| "opWrites (SplitListOp p q s k) = [q]"
| "opWrites (BranchMapOp p q d bs) = (q @ [d]) # map (\<lambda>b. q @ [dstBranch b]) bs"
| "opWrites (QuantityOp p q b) = [q]"
| "opWrites (DurationOp p q b) = [q]"
| "opWrites (MapKeyRenameOp p q r) = [q]"
| "opWrites (CelOp prg ds) = ds"
| "opWrites (PassthroughUnknownOp t) = []"

text \<open>The passthrough writes wherever the input has undeclared fields; it is treated apart.\<close>

fun isPassthrough :: "op \<Rightarrow> bool" where
  "isPassthrough (PassthroughUnknownOp t) = True"
| "isPassthrough (WhenOp p v inner) = isPassthrough inner"
| "isPassthrough _ = False"

text \<open>A step that keeps the value at a path, whatever else it does.\<close>

definition keeps :: "FieldPath \<Rightarrow> (jobj \<Rightarrow> gerr + jobj) \<Rightarrow> bool" where
  "keeps q st \<longleftrightarrow> (\<forall>out out'. st out = Inr out' \<longrightarrow> getValue out' q = getValue out q)"

lemma keepsI: "(\<And>out out'. st out = Inr out' \<Longrightarrow> getValue out' q = getValue out q) \<Longrightarrow> keeps q st"
  by (simp add: keeps_def)

lemma keeps_Inr [intro]: "keeps q (\<lambda>out. Inr out)" and keeps_Inl [intro]: "keeps q (\<lambda>out. Inl e)"
  by (simp_all add: keeps_def)

lemma keeps_set [intro]: "parallel p q \<Longrightarrow> keeps q (\<lambda>out. setValue out p v)"
  by (auto simp: keeps_def getValue_setValue_parallel)

lemma keeps_delete [intro]: "parallel p q \<Longrightarrow> keeps q (\<lambda>out. Inr (deleteValue out p))"
  by (auto simp: keeps_def getValue_deleteValue_parallel)

lemma keeps_prune [intro]: "parallel p q \<Longrightarrow> keeps q (\<lambda>out. Inr (deleteValuePruningEmptyMaps out p))"
  by (auto simp: keeps_def getValue_prune_parallel)

lemma keeps_bind: "keeps q m \<Longrightarrow> keeps q g \<Longrightarrow> keeps q (\<lambda>out. bindR (m out) g)"
  by (auto simp: keeps_def bindR_Inr_iff)

lemma keeps_bind_const: "(\<And>x. keeps q (g x)) \<Longrightarrow> keeps q (\<lambda>out. bindR m (\<lambda>x. g x out))"
  by (auto simp: keeps_def bindR_Inr_iff)

lemma keeps_foldR: "(\<And>x. x \<in> set xs \<Longrightarrow> keeps q (f x)) \<Longrightarrow> keeps q (foldR f xs)"
proof (induction xs)
  case (Cons x xs)
  have "keeps q (\<lambda>out. bindR (f x out) (foldR f xs))"
    by (rule keeps_bind) (simp_all add: Cons)
  then show ?case by (simp add: keeps_def)
qed (simp add: keeps_def)

lemma keeps_fieldOp: "parallel d q \<Longrightarrow> keeps q (fieldOp s d f inp)"
  by (auto simp: keeps_def fieldOp_def getValue_setValue_parallel split: option.splits sum.splits)

lemma keeps_source:
  "(\<And>v. keeps q (f v)) \<Longrightarrow> keeps q (withSource p f inp)"
  by (auto simp: keeps_def withSource_def split: option.splits)

lemma keeps_if: "keeps q f \<Longrightarrow> keeps q g \<Longrightarrow> keeps q (\<lambda>out. if b then f out else g out)"
  by (simp add: keeps_def)

lemma keeps_option:
  "keeps q f \<Longrightarrow> (\<And>v. x = Some v \<Longrightarrow> keeps q (g v)) \<Longrightarrow> keeps q (\<lambda>out. case x of None \<Rightarrow> f out | Some v \<Rightarrow> g v out)"
  by (cases x) auto

lemma keeps_sum:
  "(\<And>e. keeps q (f e)) \<Longrightarrow> (\<And>v. keeps q (g v)) \<Longrightarrow> keeps q (\<lambda>out. case x of Inl e \<Rightarrow> f e out | Inr v \<Rightarrow> g v out)"
  by (cases x) auto

lemma keeps_list:
  "keeps q f \<Longrightarrow> (\<And>y ys. x = y # ys \<Longrightarrow> keeps q (g y ys)) \<Longrightarrow> keeps q (\<lambda>out. case x of [] \<Rightarrow> f out | y # ys \<Rightarrow> g y ys out)"
  by (cases x) auto

lemma keeps_jval:
  assumes "keeps q f1" "\<And>x. keeps q (f2 x)" "\<And>x. keeps q (f3 x)" "\<And>x. keeps q (f4 x)" "\<And>x. keeps q (f5 x)"
    "\<And>x. keeps q (f6 x)" "\<And>x. keeps q (f7 x)" "\<And>x. keeps q (f8 x)" "\<And>x. keeps q (f9 x)"
  shows "keeps q (\<lambda>out. case v of JNull \<Rightarrow> f1 out | JBool x \<Rightarrow> f2 x out | JFloat x \<Rightarrow> f3 x out
    | JInt64 x \<Rightarrow> f4 x out | JInt x \<Rightarrow> f5 x out | JInt32 x \<Rightarrow> f6 x out | JStr x \<Rightarrow> f7 x out
    | JArr x \<Rightarrow> f8 x out | JObj x \<Rightarrow> f9 x out)"
  using assms by (cases v) auto

lemma keeps_rethrow:
  "keeps q m \<Longrightarrow> keeps q (\<lambda>out. case m out of Inl e \<Rightarrow> Inl (f e) | Inr o' \<Rightarrow> Inr o')"
  by (auto simp: keeps_def split: sum.splits)

lemmas keeps_rules = keeps_Inr keeps_Inl keeps_set keeps_delete keeps_prune keeps_source keeps_option
  keeps_jval keeps_if keeps_rethrow keeps_sum keeps_list keeps_bind_const keeps_foldR

lemma keeps_multi:
  assumes "parallel q' q"
  shows "keeps q (applyCollapseToMap ps q' kn inp)" and "keeps q (applyInject q' v inp)"
    and "keeps q (applyJoinFields lib ss q' t inp)" and "keeps q (applyForEach run p q' inp)"
  unfolding applyCollapseToMap_def applyInject_def applyJoinFields_def applyForEach_def Let_def
  using assms by (intro keeps_rules, simp_all)+

lemma keeps_scalar:
  assumes "parallel q' q"
  shows "keeps q (applyCoerce lib q' kd pol inp)" and "keeps q (applyNumericScale p q' f m r inp)"
    and "keeps q (applyQuantity lib p q' b inp)" and "keeps q (applyDuration lib p q' b inp)"
    and "keeps q (applyMapToArrayByKey p q' key inp)"
  unfolding applyCoerce_def applyNumericScale_def applyQuantity_def applyDuration_def
    applyMapToArrayByKey_def Let_def
  using assms by (intro keeps_rules, simp_all)+

lemma keeps_meta:
  assumes "parallel (metaPath f k) q"
  shows "keeps q (applyStashAnnotation lib p f k s inp)" and "keeps q (applyStripMetadataKey f k inp)"
    and "parallel p q \<Longrightarrow> keeps q (applyRestoreAnnotation lib p f k s inp)"
  unfolding applyStashAnnotation_def applyStripMetadataKey_def applyRestoreAnnotation_def
  using assms by (auto simp: metaPath_def intro!: keeps_rules keeps_bind)

lemma keeps_paths:
  assumes "\<forall>p\<in>set qs. parallel p q"
  shows "keeps q (applyJsonPatch lib pt qs inp)" and "keeps q (applyCel lib prg qs inp)"
  unfolding applyJsonPatch_def applyCel_def
  using assms by (auto intro!: keeps_rules)

lemma keeps_expand:
  assumes "\<forall>p\<in>set qs. parallel p q"
  shows "keeps q (applyExpandFromMap p qs kn pol inp)"
  unfolding applyExpandFromMap_def
  using assms by (auto intro!: keeps_rules keeps_bind)

lemma keeps_split:
  assumes "\<forall>p\<in>set (map snd ds). parallel p q"
  shows "keeps q (applySplitField lib p re ds ks inp)"
  unfolding applySplitField_def
  using assms by (auto intro!: keeps_rules)

lemma filter_Cons_mem: "filter P xs = x # ys \<Longrightarrow> x \<in> set xs"
  by (metis filter_is_subset list.set_intros(1) subsetD)

lemma keeps_branch:
  assumes "parallel (p' @ [d]) q" and "\<forall>b\<in>set bs. parallel (p' @ [dstBranch b]) q"
  shows "keeps q (applyBranchMap run p p' d bs inp)"
  unfolding applyBranchMap_def
  using assms by (auto intro!: keeps_rules keeps_bind dest!: filter_Cons_mem)

text \<open>
  The frame theorem: outside the paths it writes, an operation that succeeds leaves the output
  as it was.
\<close>

lemma applyOp_frame:
  assumes "\<not> isPassthrough x" and "\<forall>w\<in>set (opWrites x). parallel w q"
  shows "keeps q (applyOp lib x inp)"
  using assms
proof (induction x rule: isPassthrough.induct)
  case (2 p v inner)
  then show ?case by (auto simp: keeps_def applyWhen_def split: option.splits if_splits)
qed (simp_all add: applyOp_simps[abs_def] field_ops keeps_fieldOp keeps_multi keeps_scalar keeps_meta keeps_expand
    keeps_paths keeps_split keeps_branch keeps_Inr)

subsection \<open>Pairs of translations\<close>

text \<open>
  The contract of a lossless strategy: what the forward translation produced, the backward one
  turns back into the original value. The client lemma follows one field through both
  directions.
\<close>

locale codec =
  fixes enc dec :: "jval \<Rightarrow> gerr + jval option"
    and ok :: "jval \<Rightarrow> bool"
  assumes decode_encode: "ok v \<Longrightarrow> enc v = Inr (Some w) \<Longrightarrow> dec w = Inr (Some v)"
begin

lemma field_roundtrip:
  assumes "getValue inp s = Some v" and "ok v" and "enc v \<noteq> Inr None"
    and "fieldOp s d enc inp out = Inr mid" and "getValue mid' d = getValue mid d"
    and "fieldOp d s dec mid' out2 = Inr res"
  shows "getValue res s = Some v"
proof -
  from assms(1,3,4) obtain w where w: "enc v = Inr (Some w)" "setValue out d w = Inr mid"
    by (auto simp: fieldOp_def split: sum.splits option.splits)
  then have "getValue mid' d = Some w" using assms(5) by (simp add: getValue_setValue)
  then show ?thesis
    using assms(6) decode_encode[OF assms(2) w(1)] by (auto simp: fieldOp_def getValue_setValue)
qed

end

interpretation copied: codec "\<lambda>v. Inr (Some v)" "\<lambda>v. Inr (Some v)" "\<lambda>_. True"
  by unfold_locales simp

interpretation wrapped: codec "encWrap k m" "encUnwrap k" "\<lambda>_. True" for k m
  by unfold_locales (auto simp: encWrap_def encUnwrap_def)

interpretation boxed: codec encSingleton encFirst "\<lambda>_. True"
  by unfold_locales (auto simp: encSingleton_def encFirst_def)

subsection \<open>Renaming the keys of a map\<close>

definition renamed :: "(string \<times> string) list \<Rightarrow> string \<Rightarrow> string" where
  "renamed r k = (case map_of r k of Some d \<Rightarrow> d | None \<Rightarrow> k)"

definition renameAll :: "(string \<times> string) list \<Rightarrow> jobj \<Rightarrow> jobj" where
  "renameAll r m = map (\<lambda>kv. (renamed r (fst kv), snd kv)) m"

lemma keys_renameAll [simp]: "map fst (renameAll r m) = map (renamed r \<circ> fst) m"
  by (simp add: renameAll_def)

lemma renameKeys_iff:
  "renameKeys r d m out = Inr out' \<longleftrightarrow>
     distinct (map (renamed r \<circ> fst) m) \<and> set (map (renamed r \<circ> fst) m) \<inter> set (map fst out) = {}
     \<and> out' = out @ renameAll r m"
proof (induction m arbitrary: out)
  case (Cons kv m)
  have fresh: "map_of out k = None \<longleftrightarrow> k \<notin> set (map fst out)" for k
    by (simp add: map_of_eq_None_iff)
  have dk: "(case map_of r (fst kv) of None \<Rightarrow> fst kv | Some mapped \<Rightarrow> mapped) = renamed r (fst kv)"
    by (simp add: renamed_def)
  show ?case
  proof (cases "renamed r (fst kv) \<in> set (map fst out)")
    case True
    then show ?thesis using fresh by (auto simp: Let_def dk)
  next
    case False
    then have "renameKeys r d (kv # m) out = renameKeys r d m (out @ [(renamed r (fst kv), snd kv)])"
      using fresh by (simp add: Let_def dk update_fresh)
    with False show ?thesis by (auto simp: Cons.IH renameAll_def)
  qed
qed (auto simp: renameAll_def)

definition keysReturn :: "(string \<times> string) list \<Rightarrow> (string \<times> string) list \<Rightarrow> jval \<Rightarrow> bool" where
  "keysReturn r r' v \<longleftrightarrow>
     (case v of JObj m \<Rightarrow> distinct (map fst m) \<and> (\<forall>k\<in>fst ` set m. renamed r' (renamed r k) = k) | _ \<Rightarrow> True)"

lemma renameAll_inverse:
  "\<forall>k\<in>fst ` set m. renamed r' (renamed r k) = k \<Longrightarrow> renameAll r' (renameAll r m) = m"
  by (induction m) (auto simp: renameAll_def)

lemma renamed_keys_inverse:
  "\<forall>k\<in>fst ` set m. renamed r' (renamed r k) = k \<Longrightarrow> map (renamed r' \<circ> fst) (renameAll r m) = map fst m"
  by (induction m) (auto simp: renameAll_def)

interpretation rekeyed: codec "encKeys r p q" "encKeys r' p' q'" "keysReturn r r'" for r r' p q p' q'
  by unfold_locales (auto simp: encKeys_def liftR_def bindR_Inr_iff renameKeys_iff keysReturn_def
      renamed_keys_inverse renameAll_inverse split: jval.splits)

subsection \<open>Lists as separated strings\<close>

lemma mapR_enumerate:
  "(\<And>i x. x \<in> set xs \<Longrightarrow> f (i, x) = Inr (g x)) \<Longrightarrow> mapR f (enumerate n xs) = Inr (map g xs)"
  by (induction xs arbitrary: n) auto

lemma joinElement_str [simp]: "joinElement lib (i, JStr s) = Inr s"
  by (simp add: joinElement_def coerce_defs)

lemma splitElement_str [simp]: "splitElement lib FieldKindString (i, s) = Inr (JStr s)"
  by (simp add: splitElement_def coerce_defs)

lemma mapR_joinElement [simp]: "mapR (joinElement lib) (enumerate n (map JStr ss)) = Inr ss"
  by (induction ss arbitrary: n) auto

lemma mapR_splitElement [simp]: "mapR (splitElement lib FieldKindString) (enumerate n ss) = Inr (map JStr ss)"
  by (rule mapR_enumerate) simp

lemma joinStr_explodeStr: "joinStr (explodeStr s) [] = s"
proof (induction s rule: explodeStr.induct)
  case (1 s)
  let ?w = "max 1 (runeWidth (map of_char s))"
  have jc: "joinStr (p # ps) [] = p @ joinStr ps []" for p ps
    by (cases ps) auto
  show ?case
    using 1 by (subst explodeStr.simps) (auto simp: Let_def jc)
qed

lemma joinStr_splitStr: "joinStr (splitStr s sep) sep = s"
  by (simp add: splitStr_def joinStr_splitOn joinStr_explodeStr)

definition isStr :: "jval \<Rightarrow> bool" where
  "isStr v = (case v of JStr _ \<Rightarrow> True | _ \<Rightarrow> False)"

interpretation separated: codec "encSplit lib p sep FieldKindString" "encJoin lib q sep" isStr for lib p q sep
  by unfold_locales
    (auto simp: encSplit_def encJoin_def liftR_def isStr_def joinStr_splitStr split: jval.splits)

text \<open>Back from a list, the separator must not begin inside an element and something must be joined.\<close>

definition splittable :: "string \<Rightarrow> jval \<Rightarrow> bool" where
  "splittable sep v =
     (case v of JArr es \<Rightarrow> sep \<noteq> [] \<and> es \<noteq> [JStr []] \<and>
         (\<forall>e\<in>set es. case e of JStr s \<Rightarrow> hd sep \<notin> set s | _ \<Rightarrow> False)
      | _ \<Rightarrow> False)"

lemma splittable_strs:
  "splittable sep v \<Longrightarrow> \<exists>ss. v = JArr (map JStr ss) \<and> sep \<noteq> [] \<and> ss \<noteq> [[]] \<and> (\<forall>s\<in>set ss. hd sep \<notin> set s)"
proof (cases v)
  case (JArr es)
  assume sp: "splittable sep v"
  let ?ss = "map (\<lambda>e. case e of JStr s \<Rightarrow> s) es"
  have es: "es = map JStr ?ss"
    unfolding map_map by (rule map_idI[symmetric]) (use sp JArr in \<open>fastforce simp: splittable_def split: jval.splits\<close>)
  have "\<forall>s\<in>set ?ss. hd sep \<notin> set s"
    using sp JArr by (force simp: splittable_def split: jval.splits)
  moreover have "?ss \<noteq> [[]]" using sp JArr es by (auto simp: splittable_def)
  ultimately show ?thesis using sp JArr es by (auto simp: splittable_def intro!: exI[of _ ?ss])
qed (auto simp: splittable_def)

lemma joinStr_empty: "sep \<noteq> [] \<Longrightarrow> joinStr ss sep = [] \<longleftrightarrow> ss = [] \<or> ss = [[]]"
  by (cases ss rule: remdups_adj.cases) auto

interpretation joined: codec "encJoin lib p sep" "encSplit lib q sep FieldKindString" "splittable sep" for lib p q sep
proof unfold_locales
  fix v w assume sp: "splittable sep v" and enc: "encJoin lib p sep v = Inr (Some w)"
  from splittable_strs[OF sp] obtain ss where ss: "v = JArr (map JStr ss)" "sep \<noteq> []" "ss \<noteq> [[]]"
    "\<forall>s\<in>set ss. hd sep \<notin> set s" by blast
  have w: "w = JStr (joinStr ss sep)" using enc ss(1) by (simp add: encJoin_def liftR_def)
  show "encSplit lib q sep FieldKindString w = Inr (Some v)"
    using ss by (auto simp: w encSplit_def liftR_def joinStr_empty splitStr_joinStr)
qed

subsection \<open>Arrays keyed by a field\<close>

definition keyedBy :: "string \<Rightarrow> jval \<Rightarrow> string \<times> jval \<Rightarrow> bool" where
  "keyedBy kf e kv \<longleftrightarrow>
     (\<exists>m. e = JObj m \<and> map_of m kf = Some (JStr (fst kv)) \<and> snd kv = JObj (AList.delete kf m))"

lemma copy_entries [simp]: "map (\<lambda>(k, vv). (k, deepCopyValue vv)) m = m"
  by (induction m) auto

lemma keyedElement_Inr_iff:
  "keyedElement p kf i e = Inr (k, rest) \<longleftrightarrow> keyedBy kf e (k, JObj rest)"
  by (auto simp: keyedElement_def keyedBy_def split: jval.splits option.splits)

lemma arrayToMapLoop_iff:
  "arrayToMapLoop p kf i es out = Inr m \<longleftrightarrow>
     (\<exists>kvs. m = out @ kvs \<and> list_all2 (keyedBy kf) es kvs \<and> distinct (map fst kvs)
        \<and> set (map fst kvs) \<inter> set (map fst out) = {})"
proof (induction es arbitrary: i out)
  case (Cons e es)
  show ?case
  proof
    assume "arrayToMapLoop p kf i (e # es) out = Inr m"
    then obtain k rest where k: "keyedBy kf e (k, JObj rest)" "map_of out k = None"
      and m: "arrayToMapLoop p kf (Suc i) es (out @ [(k, JObj rest)]) = Inr m"
      by (auto simp: bindR_Inr_iff keyedElement_Inr_iff update_fresh map_of_eq_None_iff split: if_splits)
    from m obtain kvs where "m = out @ (k, JObj rest) # kvs" "list_all2 (keyedBy kf) es kvs"
      "distinct (map fst kvs)" "set (map fst kvs) \<inter> insert k (set (map fst out)) = {}"
      unfolding Cons.IH by auto
    with k show "\<exists>kvs. m = out @ kvs \<and> list_all2 (keyedBy kf) (e # es) kvs \<and> distinct (map fst kvs)
        \<and> set (map fst kvs) \<inter> set (map fst out) = {}"
      by (intro exI[of _ "(k, JObj rest) # kvs"]) (auto simp: map_of_eq_None_iff)
  next
    assume "\<exists>kvs. m = out @ kvs \<and> list_all2 (keyedBy kf) (e # es) kvs \<and> distinct (map fst kvs)
        \<and> set (map fst kvs) \<inter> set (map fst out) = {}"
    then obtain k v kvs where kvs: "m = out @ (k, v) # kvs" "keyedBy kf e (k, v)"
      "list_all2 (keyedBy kf) es kvs" "distinct (k # map fst kvs)" "set (k # map fst kvs) \<inter> set (map fst out) = {}"
      by (auto simp: list_all2_Cons1)
    then obtain rest where v: "v = JObj rest" by (auto simp: keyedBy_def)
    have "arrayToMapLoop p kf (Suc i) es (out @ [(k, JObj rest)]) = Inr m"
      unfolding Cons.IH using kvs v by (intro exI[of _ kvs]) auto
    moreover have "keyedElement p kf i e = Inr (k, rest)" using kvs(2) v by (simp add: keyedElement_Inr_iff)
    moreover have "map_of out k = None" using kvs(5) by (simp add: map_of_eq_None_iff)
    ultimately show "arrayToMapLoop p kf i (e # es) out = Inr m"
      using kvs(5) by (simp add: update_fresh)
  qed
qed auto

lemma insertKey_fresh:
  assumes "distinct (map fst m)" and "kf \<notin> set (map fst m)"
  shows "insertKey kf k m = (kf, JStr k) # m"
proof -
  have "fold (\<lambda>(kk, vv) e. AList.update kk (deepCopyValue vv) e) m acc = acc @ m"
    if "distinct (map fst acc @ map fst m)" for acc
    using that
  proof (induction m arbitrary: acc)
    case (Cons kv m)
    then show ?case by (cases kv) (simp add: update_fresh)
  qed simp
  then show ?thesis using assms by (simp add: insertKey_def)
qed

text \<open>
  A map of objects, none of which uses the key field itself, comes back from the array with
  the same entries; the array is in key order.
\<close>

definition keyable :: "string \<Rightarrow> jobj \<Rightarrow> bool" where
  "keyable kf m \<longleftrightarrow> distinct (map fst m) \<and>
     (\<forall>kv\<in>set m. case snd kv of JObj vm \<Rightarrow> distinct (map fst vm) \<and> kf \<notin> set (map fst vm) | _ \<Rightarrow> False)"

lemma keyable_lookup:
  assumes "keyable kf m" and "k \<in> set (map fst m)"
  shows "\<exists>vm. map_of m k = Some (JObj vm) \<and> distinct (map fst vm) \<and> kf \<notin> set (map fst vm)"
proof -
  from assms(2) obtain v where v: "map_of m k = Some v" unfolding map_of_keys_iff by blast
  from bspec[OF conjunct2[OF assms(1)[unfolded keyable_def]] map_of_SomeD[OF v]]
  have "case v of JObj vm \<Rightarrow> distinct (map fst vm) \<and> kf \<notin> set (map fst vm) | _ \<Rightarrow> False"
    by (simp only: snd_conv)
  then show ?thesis using v by (cases v) auto
qed

lemma encUnkeyed_ok:
  assumes "keyable kf m"
  shows "encUnkeyed p kf (JObj m) = Inr (Some (JArr
    (map (\<lambda>k. case map_of m k of Some (JObj vm) \<Rightarrow> JObj ((kf, JStr k) # vm) | _ \<Rightarrow> JNull) (sort (map fst m)))))"
proof -
  have "mapR (\<lambda>k. case map_of m k of
          Some (JObj valMap) \<Rightarrow> Inr (JObj (insertKey kf k valMap))
        | _ \<Rightarrow> Inl (Fmt ''mapToArrayByKey: value at %q[%q] is not an object'' [MPath p, MStr k]))
      (sort (map fst m))
    = Inr (map (\<lambda>k. case map_of m k of Some (JObj vm) \<Rightarrow> JObj ((kf, JStr k) # vm) | _ \<Rightarrow> JNull) (sort (map fst m)))"
    by (rule mapR_all_Inr) (use keyable_lookup[OF assms] in \<open>fastforce simp: insertKey_fresh\<close>)
  then show ?thesis by (simp add: encUnkeyed_def liftR_def)
qed

lemma keyed_roundtrip:
  assumes "keyable kf m" and "encUnkeyed p kf (JObj m) = Inr (Some w)"
  shows "\<exists>m'. encKeyed q kf w = Inr (Some (JObj m')) \<and> map_of m' = map_of m \<and> map fst m' = sort (map fst m)"
proof -
  let ?ks = "sort (map fst m)"
  let ?m' = "map (\<lambda>k. (k, the (map_of m k))) ?ks"
  let ?el = "\<lambda>k. case map_of m k of Some (JObj vm) \<Rightarrow> JObj ((kf, JStr k) # vm) | _ \<Rightarrow> JNull"
  have w: "w = JArr (map ?el ?ks)" using encUnkeyed_ok[OF assms(1), of p] assms(2) by simp
  have "keyedBy kf (?el k) (k, the (map_of m k))" if "k \<in> set ?ks" for k
    using keyable_lookup[OF assms(1), of k] that by (auto simp: keyedBy_def)
  then have "list_all2 (keyedBy kf) (map ?el ?ks) ?m'"
    by (auto simp: list_all2_map1 list_all2_map2 intro!: list.rel_refl_strong)
  moreover have ks: "map fst ?m' = ?ks" by (simp add: comp_def)
  moreover have "distinct ?ks" using assms(1) by (simp add: keyable_def)
  ultimately have "arrayToMapLoop q kf 0 (map ?el ?ks) [] = Inr ?m'"
    unfolding arrayToMapLoop_iff by auto
  then have "encKeyed q kf w = Inr (Some (JObj ?m'))" by (simp add: w encKeyed_def liftR_def)
  moreover have "map_of ?m' = map_of m"
  proof
    fix k show "map_of ?m' k = map_of m k"
      using map_of_keys_iff[of k m]
      by (cases "map_of m k") (simp_all add: map_of_map_restrict restrict_map_def)
  qed
  ultimately show ?thesis using ks by blast
qed

subsection \<open>Stashing in metadata\<close>

lemma getValue_None_below: "getValue obj r = None \<Longrightarrow> prefix r p \<Longrightarrow> getValue obj p = None"
  by (auto simp: prefix_def getValue_append)

lemma getValue_pruneUp_None: "getValue obj p = None \<Longrightarrow> n < length p \<Longrightarrow> getValue (pruneUp n obj p) p = None"
proof (induction n arbitrary: obj)
  case (Suc n)
  have "take (Suc n) p \<noteq> []" using Suc.prems(2) by auto
  then have "getValue (deleteValue obj (take (Suc n) p)) p = None"
    by (rule getValue_None_below[OF getValue_deleteValue take_is_prefix])
  then show ?case using Suc by (auto split: option.split jval.split)
qed simp

lemma getValue_prune: "p \<noteq> [] \<Longrightarrow> getValue (deleteValuePruningEmptyMaps obj p) p = None"
  by (simp add: deleteValuePruningEmptyMaps_def getValue_pruneUp_None getValue_deleteValue)

definition stashable :: "golib \<Rightarrow> string \<Rightarrow> jval \<Rightarrow> bool" where
  "stashable lib ser v \<longleftrightarrow> ser = ''String'' \<or> (\<forall>b. lib_Marshal lib v = Inr b \<longrightarrow> lib_Unmarshal lib b = Inr v)"

lemma stash_restore_value:
  "stashable lib ser v \<Longrightarrow> stashString lib p ser v = Inr s \<Longrightarrow> restoreVal lib f k ser s = Inr v"
  by (auto simp: stashable_def stashString_def restoreVal_def split: if_splits jval.splits sum.splits)

lemma stash_restore:
  assumes "getValue inp p = Some v" and "stashable lib ser v"
    and "applyStashAnnotation lib p f k ser inp out = Inr mid"
    and "getValue mid' (metaPath f k) = getValue mid (metaPath f k)"
    and "settable out2 p" and "parallel p (metaPath f k)"
  shows "\<exists>res. applyRestoreAnnotation lib p f k ser mid' out2 = Inr res
    \<and> getValue res p = Some v \<and> getValue res (metaPath f k) = None"
proof -
  from assms(1,3) obtain s where s: "stashString lib p ser v = Inr s"
    and set: "setValue out (metaPath f k) (JStr s) = Inr mid"
    by (auto simp: applyStashAnnotation_def withSource_def bindR_Inr_iff metaPath_def split: option.splits)
  have meta: "getValue mid' (metaPath f k) = Some (JStr s)"
    using getValue_setValue[OF set] assms(4) by simp
  obtain out3 where out3: "setValue out2 p v = Inr out3" using assms(5) setValue_ok_iff by blast
  let ?res = "deleteValuePruningEmptyMaps out3 (metaPath f k)"
  have "applyRestoreAnnotation lib p f k ser mid' out2 = Inr ?res"
    using meta stash_restore_value[OF assms(2) s] out3
    by (simp add: applyRestoreAnnotation_def withSource_def metaPath_def)
  moreover have "getValue ?res p = Some v"
    using getValue_prune_parallel[of "metaPath f k" p out3] assms(6) getValue_setValue[OF out3]
    by (metis parallel_commute)
  moreover have "getValue ?res (metaPath f k) = None" by (rule getValue_prune) (simp add: metaPath_def)
  ultimately show ?thesis by blast
qed

subsection \<open>Several fields in one map\<close>

lemma collapseFields_keep:
  "k \<notin> mapKeyFor kn ` set fps \<Longrightarrow> map_of (collapseFields kn inp fps m) k = map_of m k"
  by (induction fps arbitrary: m) (auto split: option.split)

lemma collapseFields_lookup:
  assumes "inj_on (mapKeyFor kn) (set fps)" and "fp \<in> set fps" and "distinct fps"
    and "mapKeyFor kn fp \<notin> set (map fst m)"
  shows "map_of (collapseFields kn inp fps m) (mapKeyFor kn fp) = getValue inp fp"
  using assms
proof (induction fps arbitrary: m)
  case (Cons a fps)
  show ?case
  proof (cases "fp = a")
    case True
    have "mapKeyFor kn a \<notin> mapKeyFor kn ` set fps" using Cons.prems(1,3) by auto
    then show ?thesis
      using True Cons.prems(4) by (auto simp: collapseFields_keep map_of_eq_None_iff split: option.split)
  next
    case False
    then have "mapKeyFor kn fp \<noteq> mapKeyFor kn a" using Cons.prems(1,2) by (auto simp: inj_on_def)
    then show ?thesis using False Cons.prems by (auto split: option.split intro!: Cons.IH simp: dom_update)
  qed
qed simp

lemma collapseFields_keys:
  "fst ` set (collapseFields kn inp fps m) \<subseteq> fst ` set m \<union> mapKeyFor kn ` set fps"
proof (induction fps arbitrary: m)
  case (Cons fp fps)
  let ?m = "case getValue inp fp of None \<Rightarrow> m | Some v \<Rightarrow> AList.update (mapKeyFor kn fp) (deepCopyValue v) m"
  have "fst ` set ?m \<subseteq> insert (mapKeyFor kn fp) (fst ` set m)"
    by (cases "getValue inp fp") (auto simp: dom_update)
  then show ?case using Cons[of ?m] by simp blast
qed simp

lemma find_None_keys: "fst ` set m \<subseteq> S \<Longrightarrow> List.find (\<lambda>k. k \<notin> S) (map fst m) = None"
  by (induction m) auto

lemma expand_fold:
  assumes "sorted_wrt parallel fps" and "\<forall>fp\<in>set fps. settable out fp \<and> getValue out fp = None"
  shows "\<exists>res. foldR (\<lambda>fp o'. case g fp of None \<Rightarrow> Inr o' | Some val \<Rightarrow> setValue o' fp val) fps out = Inr res
    \<and> (\<forall>fp\<in>set fps. getValue res fp = g fp) \<and> (\<forall>q. (\<forall>fp\<in>set fps. parallel fp q) \<longrightarrow> getValue res q = getValue out q)"
  using assms
proof (induction fps arbitrary: out)
  case (Cons fp fps)
  let ?step = "case g fp of None \<Rightarrow> Inr out | Some val \<Rightarrow> setValue out fp val"
  obtain out' where out': "?step = Inr out'"
    using Cons.prems(2) setValue_ok_iff[of out fp] by (cases "g fp") auto
  have at: "getValue out' fp = g fp"
    using out' Cons.prems(2) by (auto simp: getValue_setValue split: option.splits)
  have frame: "getValue out' q = getValue out q" if "parallel fp q" for q
    using out' that by (auto simp: getValue_setValue_parallel split: option.splits)
  have "\<forall>fp'\<in>set fps. settable out' fp' \<and> getValue out' fp' = None"
    using Cons.prems out' frame settable_parallel by (auto split: option.splits)
  then obtain res where res: "foldR (\<lambda>fp o'. case g fp of None \<Rightarrow> Inr o' | Some val \<Rightarrow> setValue o' fp val) fps out' = Inr res"
    "\<forall>fp\<in>set fps. getValue res fp = g fp" "\<forall>q. (\<forall>fp\<in>set fps. parallel fp q) \<longrightarrow> getValue res q = getValue out' q"
    using Cons.IH[of out'] Cons.prems(1) by auto
  have "getValue res fp = getValue out' fp"
    using res(3) Cons.prems(1) by (auto simp: parallel_commute)
  then show ?case using out' res at frame by (intro exI[of _ res]) auto
qed simp

text \<open>
  Collapsing fields into a map and expanding the map again restores every field, present or
  absent, when the fields get different keys and lie at independent paths.
\<close>

lemma collapse_expand:
  assumes "inj_on (mapKeyFor kn) (set fps)" and "sorted_wrt parallel fps"
    and "applyCollapseToMap fps q kn inp out = Inr mid" and "getValue out q = None"
    and "getValue mid' q = getValue mid q"
    and "\<forall>fp\<in>set fps. settable out2 fp \<and> getValue out2 fp = None"
  shows "\<exists>res. applyExpandFromMap q fps kn pol mid' out2 = Inr res
    \<and> (\<forall>fp\<in>set fps. getValue res fp = getValue inp fp)"
proof (cases "\<forall>fp\<in>set fps. getValue inp fp = None")
  case True
  then have "getValue mid' q = None" using assms(3-5) by (simp add: applyCollapseToMap_def)
  then show ?thesis using True assms(6) by (simp add: applyExpandFromMap_def withSource_def)
next
  case False
  let ?m = "collapseFields kn inp fps []"
  have dist: "distinct fps" using assms(2) by (induction fps) (auto simp: parallel_def)
  have mid: "getValue mid' q = Some (JObj ?m)"
    using False assms(3,5) by (auto simp: applyCollapseToMap_def getValue_setValue split: if_splits)
  have look: "map_of ?m (mapKeyFor kn fp) = getValue inp fp" if "fp \<in> set fps" for fp
    by (rule collapseFields_lookup) (use assms(1) that dist in auto)
  from expand_fold[OF assms(2,6), of "\<lambda>fp. map_of ?m (mapKeyFor kn fp)"] obtain res where
    "foldR (\<lambda>fp o'. case map_of ?m (mapKeyFor kn fp) of None \<Rightarrow> Inr o' | Some val \<Rightarrow> setValue o' fp val) fps out2 = Inr res"
    "\<forall>fp\<in>set fps. getValue res fp = map_of ?m (mapKeyFor kn fp)" by blast
  moreover have "List.find (\<lambda>k. k \<notin> mapKeyFor kn ` set fps) (map fst ?m) = None"
    by (rule find_None_keys) (use collapseFields_keys[of kn inp fps "[]"] in simp)
  ultimately show ?thesis
    using mid look unfolding applyExpandFromMap_def deepCopyValue_id by (simp add: withSource_def)
qed

end
