(* ===== verification/Convert.thy ===== *)
theory Convert
  imports Codec
begin

text \<open>
  Plans, \<open>Convert\<close> and the hub-and-spoke router (\<open>pkg/engine/plan.go\<close>, \<open>convert.go\<close>). A nil plan is
  \<open>None\<close>. The lemmas say what a conversion leaves alone and what its output starts from; theory
  RoundTrip follows values through whole plans.
\<close>

datatype Direction = HubToSpoke | SpokeToHub

definition directionString :: "Direction \<Rightarrow> string" where
  "directionString d = (if d = HubToSpoke then ''hub_to_spoke'' else ''spoke_to_hub'')"

record Plan =
  HubVersion :: string
  SpokeVersion :: string
  planHubToSpoke :: "op list"
  planSpokeToHub :: "op list"

definition planOps :: "Plan \<Rightarrow> Direction \<Rightarrow> op list" where
  "planOps p dir = (if dir = HubToSpoke then planHubToSpoke p else planSpokeToHub p)"

text \<open>What every conversion starts from: the kind, and the metadata or an empty object for it.\<close>

definition baseline :: "jobj \<Rightarrow> jobj" where
  "baseline obj =
     (let out0 = (case map_of obj ''kind'' of Some k \<Rightarrow> [(''kind'', k)] | None \<Rightarrow> [])
      in case map_of obj ''metadata'' of
           Some md \<Rightarrow> (if md \<noteq> JNull then AList.update ''metadata'' (deepCopyValue md) out0
                       else AList.update ''metadata'' (JObj []) out0)
         | None \<Rightarrow> AList.update ''metadata'' (JObj []) out0)"

definition Convert :: "golib \<Rightarrow> Plan option \<Rightarrow> Direction \<Rightarrow> jobj \<Rightarrow> gerr + jobj" where
  "Convert lib plan dir obj =
     (case plan of
        None \<Rightarrow> Inl (Fmt ''convert: nil plan'' [])
      | Some p \<Rightarrow>
          (case applyOps lib (planOps p dir) obj (baseline obj) of
             Inl e \<Rightarrow> Inl (Fmt ''convert (%s): %w'' [MStr (directionString dir), e])
           | Inr out \<Rightarrow> Inr out))"

record Router =
  routerHub :: string
  routerPlans :: "(string \<times> Plan option) list"

definition toHub :: "golib \<Rightarrow> Router \<Rightarrow> jobj \<Rightarrow> string \<Rightarrow> gerr + jobj" where
  "toHub lib r obj from =
     (if from \<noteq> routerHub r then
        (case map_of (routerPlans r) from of
           None \<Rightarrow> Inl (Fmt ''router: no compiled plan for version %q'' [MStr from])
         | Some plan \<Rightarrow>
             (case Convert lib plan SpokeToHub obj of
                Inl e \<Rightarrow> Inl (Fmt ''router: %s->hub: %w'' [MStr from, e])
              | Inr converted \<Rightarrow> Inr converted))
      else Inr obj)"

definition routerConvert :: "golib \<Rightarrow> Router \<Rightarrow> jobj \<Rightarrow> string \<Rightarrow> string \<Rightarrow> gerr + jobj" where
  "routerConvert lib r obj from to =
     (if from = to then Inr obj
      else bindR (toHub lib r obj from) (\<lambda>hubObj.
        if to = routerHub r then Inr hubObj
        else (case map_of (routerPlans r) to of
           None \<Rightarrow> Inl (Fmt ''router: no compiled plan for version %q'' [MStr to])
         | Some plan \<Rightarrow>
             (case Convert lib plan HubToSpoke hubObj of
                Inl e \<Rightarrow> Inl (Fmt ''router: hub->%s: %w'' [MStr to, e])
              | Inr converted \<Rightarrow> Inr converted))))"

subsection \<open>A value through a plan\<close>

lemma Convert_Inr_iff:
  "Convert lib (Some p) dir obj = Inr out \<longleftrightarrow> applyOps lib (planOps p dir) obj (baseline obj) = Inr out"
  by (auto simp: Convert_def split: sum.splits)

lemma applyOps_frame:
  assumes "applyOps lib xs inp out = Inr out'" and "\<forall>x\<in>set xs. \<not> isPassthrough x \<and> (\<forall>w\<in>set (opWrites x). parallel w q)"
  shows "getValue out' q = getValue out q"
  by (rule foldR_invariant[OF assms(1)[unfolded applyOps_foldR], where P = "\<lambda>t. getValue t q = getValue out q"])
    (use assms(2) applyOp_frame in \<open>auto simp: keeps_def\<close>)

lemma baseline_other: "k \<noteq> ''kind'' \<Longrightarrow> k \<noteq> ''metadata'' \<Longrightarrow> getValue (baseline obj) (k # ks) = None"
  by (auto simp: baseline_def Let_def getValue_Cons split: option.splits)

lemma settable_baseline:
  assumes "k \<noteq> ''kind''" and "k \<noteq> ''metadata''"
  shows "settable (baseline obj) (k # ks)"
proof (cases ks)
  case Nil
  then show ?thesis using setValue_ok_iff[of "baseline obj" "[k]"] by auto
next
  case (Cons l ls)
  have "map_of (baseline obj) k = None"
    using baseline_other[OF assms, of obj "[]"] by (simp add: getValue_Cons split: option.splits)
  then show ?thesis using Cons by (simp add: settable_Cons)
qed

text \<open>A path below the payload: neither the kind nor the metadata, which conversion starts from.\<close>

definition payloadPath :: "FieldPath \<Rightarrow> bool" where
  "payloadPath p \<longleftrightarrow> p \<noteq> [] \<and> hd p \<noteq> ''kind'' \<and> hd p \<noteq> ''metadata''"

lemma payload_baseline:
  "payloadPath p \<Longrightarrow> getValue (baseline obj) p = None"
  "payloadPath p \<Longrightarrow> settable (baseline obj) p"
  by (cases p; simp add: payloadPath_def baseline_other settable_baseline)+

subsection \<open>The router\<close>

text \<open>
  Converting from or to a version that is not the hub and has no compiled plan never returns an
  object.
\<close>

lemma router_unknown_version:
  assumes "v \<noteq> w" and "v \<noteq> routerHub r \<and> map_of (routerPlans r) v = None \<or> w \<noteq> routerHub r \<and> map_of (routerPlans r) w = None"
  shows "\<exists>e. routerConvert lib r obj v w = Inl e"
  using assms by (auto simp: routerConvert_def toHub_def bindR_def split: sum.splits option.splits)

end
