(* ===== verification/Rules.thy ===== *)
theory Rules
  imports Convert
begin

text \<open>
  The rules a configuration is made of (\<open>pkg/engine/rules.go\<close>). \<open>ruleParams\<close> has one constructor per
  params struct, with the fields in the order of the struct; \<open>NoParams\<close> is an unset or unknown
  \<open>Params\<close> interface value. Rules, \<open>ForEach\<close> and \<open>BranchMap\<close> parameters nest.
\<close>

type_synonym Strategy = string

abbreviation StrategyToAnnotation :: Strategy where "StrategyToAnnotation \<equiv> ''ToAnnotation''"
abbreviation StrategyToLabel :: Strategy where "StrategyToLabel \<equiv> ''ToLabel''"
abbreviation StrategyFromAnnotation :: Strategy where "StrategyFromAnnotation \<equiv> ''FromAnnotation''"
abbreviation StrategyFromLabel :: Strategy where "StrategyFromLabel \<equiv> ''FromLabel''"
abbreviation StrategyFieldRename :: Strategy where "StrategyFieldRename \<equiv> ''FieldRename''"
abbreviation StrategyEnumRemap :: Strategy where "StrategyEnumRemap \<equiv> ''EnumRemap''"
abbreviation StrategyMapKeyRename :: Strategy where "StrategyMapKeyRename \<equiv> ''MapKeyRename''"
abbreviation StrategyForEach :: Strategy where "StrategyForEach \<equiv> ''ForEach''"
abbreviation StrategyScalarToFields :: Strategy where "StrategyScalarToFields \<equiv> ''ScalarToFields''"
abbreviation StrategyFieldsToScalar :: Strategy where "StrategyFieldsToScalar \<equiv> ''FieldsToScalar''"
abbreviation StrategyDelete :: Strategy where "StrategyDelete \<equiv> ''Delete''"

type_synonym UnmappedFieldPolicy = string

abbreviation UnmappedFieldPolicyError :: UnmappedFieldPolicy where "UnmappedFieldPolicyError \<equiv> ''Error''"
abbreviation UnmappedFieldPolicyWarn :: UnmappedFieldPolicy where "UnmappedFieldPolicyWarn \<equiv> ''Warn''"

type_synonym Side = string

abbreviation SideHub :: Side where "SideHub \<equiv> ''Hub''"
abbreviation SideSpoke :: Side where "SideSpoke \<equiv> ''Spoke''"

record RuleWhen =
  whenPath :: FieldPath
  whenEquals :: jval

record EnumValueMapping =
  evHub :: jval
  evSpoke :: jval

datatype rule = Rule
  (ruleStrategy: Strategy)
  (ruleParams: ruleParams)
  (ruleAcknowledgeLossy: bool)
  (ruleReason: string)
  (ruleSourceIndex: int)
  (ruleWhen: "RuleWhen option")
and ruleParams =
    FieldRenameParams FieldPath FieldPath
  | ScalarToObjectParams FieldPath FieldPath string jobj
  | ObjectToScalarParams FieldPath FieldPath string jobj
  | SingletonArrayToObjectParams FieldPath FieldPath
  | ObjectToSingletonArrayParams FieldPath FieldPath
  | FieldsToMapParams "FieldPath list" FieldPath "(string \<times> string) list" UnknownKeyPolicy
  | MapToFieldsParams FieldPath "FieldPath list" "(string \<times> string) list" UnknownKeyPolicy
  | ToMetadataParams FieldPath string string bool
  | FromMetadataParams FieldPath string string bool
  | EnumRemapParams FieldPath "EnumValueMapping list" UnknownKeyPolicy UnknownKeyPolicy
  | DefaultValueParams FieldPath Side jval
  | ConstantParams FieldPath Side jval
  | DeleteParams FieldPath Side
  | JSONPatchParams "JSONPatchOp list" "JSONPatchOp list" bool
  | ForEachParams FieldPath FieldPath "rule list"
  | TypeCoerceParams FieldPath FractionalIntegerPolicy
  | ScalarToFieldsParams FieldPath string "(string \<times> FieldPath) list" string bool
  | FieldsToScalarParams "(string \<times> FieldPath) list" string FieldPath string bool
  | ArrayToMapByKeyParams FieldPath FieldPath string
  | MapToArrayByKeyParams FieldPath FieldPath string
  | NumericScaleParams FieldPath FieldPath float64
  | ListJoinParams FieldPath FieldPath string
  | ListSplitParams FieldPath FieldPath string
  | QuantityParams FieldPath FieldPath
  | DurationParams FieldPath FieldPath
  | MapKeyRenameParams FieldPath FieldPath "(string \<times> string) list"
  | CELParams "FieldPath list" "FieldPath list" string string
  | BranchMapParams FieldPath FieldPath string "branchMapping list"
  | NoParams
and branchMapping = BranchMapping
  (hubBranch: string)
  (spokeBranch: string)
  (hubDiscriminatorValue: string)
  (spokeDiscriminatorValue: string)
  (branchRules: "rule list")

record RuleSet =
  rsHubVersion :: string
  rsSpokeVersion :: string
  rsRules :: "rule list"
  rsUnmappedFieldPolicy :: UnmappedFieldPolicy

text \<open>The rule lists directly below a rule: what compiling it recurses into.\<close>

definition nestedRules :: "ruleParams \<Rightarrow> rule list list" where
  "nestedRules p =
     (case p of
        ForEachParams hp sp rs \<Rightarrow> [rs]
      | BranchMapParams hp sp d bs \<Rightarrow> map branchRules bs
      | _ \<Rightarrow> [])"

lemma size_branchRules: "b \<in> set bs \<Longrightarrow> size_list size (branchRules b) < Suc (size_list size bs)"
proof -
  assume b: "b \<in> set bs"
  have "size_list size (branchRules b) \<le> size b" by (cases b) simp
  also have "size b \<le> size_list size bs" using b by (induction bs) auto
  finally show ?thesis by simp
qed

lemma size_nestedRules: "rs \<in> set (nestedRules (ruleParams r)) \<Longrightarrow> size_list size rs < size r"
proof (cases r)
  case (Rule st p ak re si wh)
  assume "rs \<in> set (nestedRules (ruleParams r))"
  then show ?thesis using Rule size_branchRules
    by (cases p) (fastforce simp: nestedRules_def)+
qed

lemma size_nestedRules_list:
  assumes "r \<in> set xs" and "rs \<in> set (nestedRules (ruleParams r))"
  shows "size_list size rs < size_list size xs"
proof -
  have "size r \<le> size_list size xs" using assms(1) by (induction xs) auto
  then show ?thesis using size_nestedRules[OF assms(2)] by simp
qed

end
