(* ===== verification/Diagnostics.thy ===== *)
theory Diagnostics
  imports Rules
begin

text \<open>
  Diagnostics, verdicts and reports (\<open>pkg/engine/diagnostics.go\<close>). A message is kept as its format
  string with its arguments; everything else of a diagnostic is as in the source.
\<close>

type_synonym Severity = string

abbreviation SeverityError :: Severity where "SeverityError \<equiv> ''Error''"
abbreviation SeverityWarning :: Severity where "SeverityWarning \<equiv> ''Warning''"

type_synonym UncoveredSide = string

abbreviation UncoveredSideHub :: UncoveredSide where "UncoveredSideHub \<equiv> ''hub''"
abbreviation UncoveredSideSpoke :: UncoveredSide where "UncoveredSideSpoke \<equiv> ''spoke''"

record Diagnostic =
  dSeverity :: Severity
  dCode :: string
  dMessage :: msg
  dRuleIndex :: int
  dFieldPath :: string
  dUncoveredSide :: UncoveredSide

definition errorf :: "int \<Rightarrow> string \<Rightarrow> msg list \<Rightarrow> Diagnostic" where
  "errorf ruleIndex fmt args =
     \<lparr>dSeverity = SeverityError, dCode = [], dMessage = Fmt fmt args, dRuleIndex = ruleIndex,
      dFieldPath = [], dUncoveredSide = []\<rparr>"

definition warnf :: "int \<Rightarrow> string \<Rightarrow> msg list \<Rightarrow> Diagnostic" where
  "warnf ruleIndex fmt args =
     \<lparr>dSeverity = SeverityWarning, dCode = [], dMessage = Fmt fmt args, dRuleIndex = ruleIndex,
      dFieldPath = [], dUncoveredSide = []\<rparr>"

definition isError :: "Diagnostic \<Rightarrow> bool" where
  "isError d \<longleftrightarrow> dSeverity d = SeverityError"

definition uncoveredFieldDiag :: "Severity \<Rightarrow> UncoveredSide \<Rightarrow> string \<Rightarrow> string \<Rightarrow> Diagnostic" where
  "uncoveredFieldDiag sev side path constr =
     (let note = (if constr \<noteq> []
                  then Fmt '' (sits inside a %s schema construct the engine treats opaquely)'' [MStr constr]
                  else MStr []);
          m = (if side = UncoveredSideHub then
                 Fmt ''hub field %q is not covered by any rule and has no identical counterpart in the spoke schema%s'' [MStr path, note]
               else if side = UncoveredSideSpoke then
                 Fmt ''spoke field %q is not covered by any rule and has no identical counterpart in the hub schema%s'' [MStr path, note]
               else Fmt ''field %q is not covered by any rule%s'' [MStr path, note])
      in \<lparr>dSeverity = sev, dCode = [], dMessage = m, dRuleIndex = -1, dFieldPath = path, dUncoveredSide = side\<rparr>)"

record LosslessVerdict =
  lossH2S :: bool
  lossS2H :: bool

abbreviation verdict :: "bool \<Rightarrow> bool \<Rightarrow> LosslessVerdict" where
  "verdict h s \<equiv> \<lparr>lossH2S = h, lossS2H = s\<rparr>"

definition verdictAnd :: "LosslessVerdict \<Rightarrow> LosslessVerdict \<Rightarrow> LosslessVerdict" where
  "verdictAnd v w = \<lparr>lossH2S = lossH2S v \<and> lossH2S w, lossS2H = lossS2H v \<and> lossS2H w\<rparr>"

record RuleResult =
  rrIndex :: int
  rrStrategy :: Strategy
  rrHubPaths :: "string list"
  rrSpokePaths :: "string list"
  rrLossless :: LosslessVerdict
  rrErrors :: "msg list"
  rrWarnings :: "msg list"

record FieldCoverage =
  UncoveredHub :: "string list"
  UncoveredSpoke :: "string list"

record SpokeReport =
  srVersion :: string
  srLossless :: LosslessVerdict
  srUncovered :: FieldCoverage
  srRuleResults :: "RuleResult list"
  srErrors :: "Diagnostic list"
  srWarnings :: "Diagnostic list"
  srCompiledPlan :: "Plan option"

record AnalyzeReport =
  arResourceGeneration :: int
  arSpokeReports :: "SpokeReport list"

definition OverallLossless :: "AnalyzeReport \<Rightarrow> bool" where
  "OverallLossless r = list_all (\<lambda>s. lossH2S (srLossless s) \<and> lossS2H (srLossless s)) (arSpokeReports r)"

definition HasErrors :: "AnalyzeReport \<Rightarrow> bool" where
  "HasErrors r = list_ex (\<lambda>s. srErrors s \<noteq> []) (arSpokeReports r)"

definition kindString :: "FieldKind \<Rightarrow> string" where
  "kindString k = (case k of FieldKindString \<Rightarrow> ''string'' | FieldKindInteger \<Rightarrow> ''integer''
     | FieldKindNumber \<Rightarrow> ''number'' | FieldKindBoolean \<Rightarrow> ''boolean'' | FieldKindObject \<Rightarrow> ''object''
     | FieldKindArray \<Rightarrow> ''array'' | FieldKindUnknown \<Rightarrow> ''unknown'')"

lemma isError_simps [simp]:
  "isError (errorf i f a)" "\<not> isError (warnf i f a)"
  "isError (uncoveredFieldDiag sev side p c) \<longleftrightarrow> sev = SeverityError"
  by (simp_all add: isError_def errorf_def warnf_def uncoveredFieldDiag_def Let_def)

end
