(* ===== verification/Resolve.thy ===== *)
theory Resolve
  imports Diagnostics
begin

text \<open>
  The resolvers of \<open>pkg/engine/compile.go\<close> that do not recurse: each checks one rule against the
  two schemas and returns the operation of each direction, the verdict and, in the order the code
  performs them, its effects on the shared bookkeeping: reporting a diagnostic or claiming a field.
  The effects of a resolver are a list of \<open>effect\<close>s; \<open>Ledger\<close> runs them on the claimed sets. No
  resolver reads the claimed sets other than through \<open>claim\<close>, so nothing else depends on them.
\<close>

datatype claimSide = OnHub | OnSpoke

datatype effect = Report Diagnostic | Claim claimSide FieldPath string

record resolved =
  rH2s :: "op option"
  rS2h :: "op option"
  rVerdict :: LosslessVerdict
  rEffects :: "effect list"

type_synonym resolver = "int \<Rightarrow> ruleParams \<Rightarrow> schema \<Rightarrow> schema \<Rightarrow> resolved"

subsection \<open>Shared pieces\<close>

definition errorIf :: "bool \<Rightarrow> int \<Rightarrow> string \<Rightarrow> msg list \<Rightarrow> effect list" where
  "errorIf b idx fmt args = (if b then [Report (errorf idx fmt args)] else [])"

text \<open>Report a failed lookup; \<open>args\<close> come between the rule index and the error.\<close>

definition lookupError :: "gerr + schema \<Rightarrow> int \<Rightarrow> string \<Rightarrow> msg list \<Rightarrow> effect list" where
  "lookupError node idx fmt args =
     (case node of Inl e \<Rightarrow> [Report (errorf idx fmt (MInt idx # args @ [e]))] | Inr _ \<Rightarrow> [])"

definition nodeKind :: "gerr + schema \<Rightarrow> FieldKind" where
  "nodeKind node = (case node of Inl _ \<Rightarrow> FieldKindUnknown | Inr s \<Rightarrow> fst (classify s))"

definition claimSubtree :: "claimSide \<Rightarrow> FieldPath \<Rightarrow> gerr + schema \<Rightarrow> string \<Rightarrow> effect list" where
  "claimSubtree side pre node label =
     Claim side pre label #
     (case node of
        Inl _ \<Rightarrow> []
      | Inr s \<Rightarrow> map (\<lambda>l. Claim side (pre @ lfPath l) label) (filter (\<lambda>l. lfPath l \<noteq> []) (flattenSchema s)))"

definition claimBoth :: "FieldPath \<Rightarrow> FieldPath \<Rightarrow> effect list" where
  "claimBoth hp sp = [Claim OnHub hp ''hub'', Claim OnSpoke sp ''spoke'']"

definition isRight :: "'a + 'b \<Rightarrow> bool" where
  "isRight x = (case x of Inl _ \<Rightarrow> False | Inr _ \<Rightarrow> True)"

definition policyOr :: "UnknownKeyPolicy \<Rightarrow> UnknownKeyPolicy" where
  "policyOr p = (if p = [] then UnknownKeyError else p)"

subsection \<open>Renames, wrapping, singletons\<close>

definition resolveFieldRename :: "int \<Rightarrow> FieldPath \<Rightarrow> FieldPath \<Rightarrow> schema \<Rightarrow> schema \<Rightarrow> resolved" where
  "resolveFieldRename idx hp sp hub spoke =
     (let hubNode = lookupPath hub hp; spokeNode = lookupPath spoke sp in
      \<lparr>rH2s = Some (RenameOp hp sp), rS2h = Some (RenameOp sp hp), rVerdict = verdict True True,
       rEffects =
         lookupError hubNode idx ''rule %d (FieldRename): %v'' []
         @ lookupError spokeNode idx ''rule %d (FieldRename): %v'' []
         @ errorIf (isRight hubNode \<and> isRight spokeNode \<and> nodeKind hubNode \<noteq> nodeKind spokeNode) idx
             ''rule %d (FieldRename): type mismatch: hub %q is %s, spoke %q is %s''
             [MInt idx, MPath hp, MStr (kindString (nodeKind hubNode)), MPath sp, MStr (kindString (nodeKind spokeNode))]
         @ claimBoth hp sp\<rparr>)"

definition extraKeys :: "schema \<Rightarrow> string \<Rightarrow> string list" where
  "extraKeys s exclude = filter (\<lambda>k. k \<noteq> exclude) (map fst (sProps s))"

definition hasExtra :: "gerr + schema \<Rightarrow> string \<Rightarrow> bool" where
  "hasExtra node key = (case node of Inl _ \<Rightarrow> False | Inr s \<Rightarrow> extraKeys s key \<noteq> [])"

definition resolveScalarToObject :: "int \<Rightarrow> FieldPath \<Rightarrow> FieldPath \<Rightarrow> string \<Rightarrow> jobj \<Rightarrow> schema \<Rightarrow> schema \<Rightarrow> resolved" where
  "resolveScalarToObject idx hp sp key defaults hub spoke =
     (let spokeNode = lookupPath spoke sp in
      \<lparr>rH2s = Some (WrapScalarOp hp sp key defaults), rS2h = Some (UnwrapScalarOp sp hp key),
       rVerdict = verdict True (\<not> hasExtra spokeNode key),
       rEffects =
         lookupError (lookupPath hub hp) idx ''rule %d (ScalarToObject): hub: %v'' []
         @ lookupError spokeNode idx ''rule %d (ScalarToObject): spoke: %v'' []
         @ [Claim OnHub hp ''hub'']
         @ claimSubtree OnSpoke sp spokeNode ''spoke''\<rparr>)"

definition resolveObjectToScalar :: "int \<Rightarrow> FieldPath \<Rightarrow> FieldPath \<Rightarrow> string \<Rightarrow> jobj \<Rightarrow> schema \<Rightarrow> schema \<Rightarrow> resolved" where
  "resolveObjectToScalar idx hp sp key defaults hub spoke =
     (let hubNode = lookupPath hub hp in
      \<lparr>rH2s = Some (UnwrapScalarOp hp sp key), rS2h = Some (WrapScalarOp sp hp key defaults),
       rVerdict = verdict (\<not> hasExtra hubNode key) True,
       rEffects =
         lookupError hubNode idx ''rule %d (ObjectToScalar): hub: %v'' []
         @ lookupError (lookupPath spoke sp) idx ''rule %d (ObjectToScalar): spoke: %v'' []
         @ claimSubtree OnHub hp hubNode ''hub''
         @ [Claim OnSpoke sp ''spoke'']\<rparr>)"

definition atMostOne :: "gerr + schema \<Rightarrow> bool" where
  "atMostOne node =
     (case node of Inl _ \<Rightarrow> False | Inr s \<Rightarrow> (case sMaxItems s of Some n \<Rightarrow> n \<le> 1 | None \<Rightarrow> False))"

definition resolveSingletonArrayToObject ::
    "int \<Rightarrow> FieldPath \<Rightarrow> FieldPath \<Rightarrow> schema \<Rightarrow> schema \<Rightarrow> bool \<Rightarrow> resolved" where
  "resolveSingletonArrayToObject idx arrayPath objectPath arrayRoot objectRoot arrayIsHub =
     (let arrayNode = lookupPath arrayRoot arrayPath; objectNode = lookupPath objectRoot objectPath;
          arraySide = (if arrayIsHub then OnHub else OnSpoke);
          objectSide = (if arrayIsHub then OnSpoke else OnHub);
          effs = lookupError arrayNode idx ''rule %d: array side: %v'' []
            @ lookupError objectNode idx ''rule %d: object side: %v'' []
            @ [Claim arraySide arrayPath ''array-side'']
            @ claimSubtree objectSide objectPath objectNode ''object-side'';
          a2o = ArrayFirstToObjectOp arrayPath objectPath;
          o2a = ObjectToSingletonArrayOp objectPath arrayPath
      in if arrayIsHub
         then \<lparr>rH2s = Some a2o, rS2h = Some o2a, rVerdict = verdict (atMostOne arrayNode) True, rEffects = effs\<rparr>
         else \<lparr>rH2s = Some o2a, rS2h = Some a2o, rVerdict = verdict True (atMostOne arrayNode), rEffects = effs\<rparr>)"

subsection \<open>Fields and maps\<close>

definition resolveFieldsToMap ::
    "int \<Rightarrow> FieldPath list \<Rightarrow> FieldPath \<Rightarrow> (string \<times> string) list \<Rightarrow> UnknownKeyPolicy \<Rightarrow> schema \<Rightarrow> schema \<Rightarrow> resolved" where
  "resolveFieldsToMap idx hubPaths spokeMapPath keyNames onUnknown hub spoke =
     (let mapNode = lookupPath spoke spokeMapPath; pol = policyOr onUnknown in
      \<lparr>rH2s = Some (CollapseToMapOp hubPaths spokeMapPath keyNames),
       rS2h = Some (ExpandFromMapOp spokeMapPath hubPaths keyNames pol),
       rVerdict = verdict True (pol = UnknownKeyError),
       rEffects =
         concat (map (\<lambda>hp. lookupError (lookupPath hub hp) idx ''rule %d (FieldsToMap): %v'' []
                           @ [Claim OnHub hp ''hub'']) hubPaths)
         @ lookupError mapNode idx ''rule %d (FieldsToMap): %v'' []
         @ claimSubtree OnSpoke spokeMapPath mapNode ''spoke''\<rparr>)"

definition resolveMapToFields ::
    "int \<Rightarrow> FieldPath \<Rightarrow> FieldPath list \<Rightarrow> (string \<times> string) list \<Rightarrow> UnknownKeyPolicy \<Rightarrow> schema \<Rightarrow> schema \<Rightarrow> resolved" where
  "resolveMapToFields idx hubMapPath spokePaths keyNames onUnknown hub spoke =
     (let mapNode = lookupPath hub hubMapPath; pol = policyOr onUnknown in
      \<lparr>rH2s = Some (ExpandFromMapOp hubMapPath spokePaths keyNames pol),
       rS2h = Some (CollapseToMapOp spokePaths hubMapPath keyNames),
       rVerdict = verdict (pol = UnknownKeyError) True,
       rEffects =
         lookupError mapNode idx ''rule %d (MapToFields): %v'' []
         @ claimSubtree OnHub hubMapPath mapNode ''hub''
         @ concat (map (\<lambda>sp. lookupError (lookupPath spoke sp) idx ''rule %d (MapToFields): %v'' []
                             @ [Claim OnSpoke sp ''spoke'']) spokePaths)\<rparr>)"

subsection \<open>Metadata\<close>

definition badLabelKey :: "golib \<Rightarrow> string \<Rightarrow> int \<Rightarrow> Strategy \<Rightarrow> string \<Rightarrow> effect list" where
  "badLabelKey lib metadataField idx st key =
     errorIf (metadataField = ''labels'' \<and> lib_IsQualifiedName lib key \<noteq> []) idx
       ''rule %d (%s): invalid label key %q: %s''
       [MInt idx, MStr st, MStr key, MStr (joinStr (lib_IsQualifiedName lib key) ''; '')]"

definition resolveToMetadata ::
    "golib \<Rightarrow> int \<Rightarrow> Strategy \<Rightarrow> FieldPath \<Rightarrow> string \<Rightarrow> string \<Rightarrow> bool \<Rightarrow> schema \<Rightarrow> resolved" where
  "resolveToMetadata lib idx st hp key ser restoreOnReverse hub =
     (let hubNode = lookupPath hub hp;
          metadataField = (if st = StrategyToLabel then ''labels'' else ''annotations'');
          serialization = (if ser = [] then ''JSON'' else ser)
      in \<lparr>rH2s = Some (StashAnnotationOp hp metadataField key serialization),
          rS2h = Some (if restoreOnReverse then RestoreAnnotationOp hp metadataField key serialization
                       else StripMetadataKeyOp metadataField key),
          rVerdict = verdict True restoreOnReverse,
          rEffects =
            lookupError hubNode idx ''rule %d (%s): %v'' [MStr st]
            @ claimSubtree OnHub hp hubNode ''hub''
            @ badLabelKey lib metadataField idx st key\<rparr>)"

definition resolveFromMetadata ::
    "golib \<Rightarrow> int \<Rightarrow> Strategy \<Rightarrow> FieldPath \<Rightarrow> string \<Rightarrow> string \<Rightarrow> bool \<Rightarrow> schema \<Rightarrow> resolved" where
  "resolveFromMetadata lib idx st sp key ser stashOnReverse spoke =
     (let spokeNode = lookupPath spoke sp;
          metadataField = (if st = StrategyFromLabel then ''labels'' else ''annotations'');
          serialization = (if ser = [] then (if st = StrategyFromLabel then ''String'' else ''JSON'') else ser)
      in \<lparr>rH2s = Some (RestoreAnnotationOp sp metadataField key serialization),
          rS2h = Some (if stashOnReverse then StashAnnotationOp sp metadataField key serialization
                       else StripMetadataKeyOp metadataField key),
          rVerdict = verdict True stashOnReverse,
          rEffects =
            lookupError spokeNode idx ''rule %d (%s): %v'' [MStr st]
            @ claimSubtree OnSpoke sp spokeNode ''spoke''
            @ errorIf (st = StrategyFromLabel \<and> ser = ''JSON'') idx
                ''rule %d (FromLabel): serialization=JSON is not supported for labels; use String'' [MInt idx]
            @ badLabelKey lib metadataField idx st key\<rparr>)"

subsection \<open>Enumerations, defaults, constants, deletion\<close>

definition enumTable :: "golib \<Rightarrow> (EnumValueMapping \<Rightarrow> jval) \<Rightarrow> (EnumValueMapping \<Rightarrow> jval) \<Rightarrow> EnumValueMapping list \<Rightarrow> (string \<times> jval) list" where
  "enumTable lib from to ms = fold (\<lambda>m t. AList.update (enumKey lib (from m)) (to m) t) ms []"

definition resolveEnumRemap ::
    "golib \<Rightarrow> int \<Rightarrow> FieldPath \<Rightarrow> EnumValueMapping list \<Rightarrow> UnknownKeyPolicy \<Rightarrow> UnknownKeyPolicy \<Rightarrow> schema \<Rightarrow> schema \<Rightarrow> resolved" where
  "resolveEnumRemap lib idx p ms onHub onSpoke hub spoke =
     (let injective = distinct (map (\<lambda>m. enumKey lib (evSpoke m)) ms);
          onUnmappedHub = policyOr onHub; onUnmappedSpoke = policyOr onSpoke
      in \<lparr>rH2s = Some (RemapEnumOp p (enumTable lib evHub evSpoke ms) onUnmappedHub),
          rS2h = Some (RemapEnumOp p (enumTable lib evSpoke evHub ms) onUnmappedSpoke),
          rVerdict = verdict (onUnmappedHub = UnknownKeyError) (onUnmappedSpoke = UnknownKeyError \<and> injective),
          rEffects =
            lookupError (lookupPath hub p) idx ''rule %d (EnumRemap): hub: %v'' []
            @ lookupError (lookupPath spoke p) idx ''rule %d (EnumRemap): spoke: %v'' []
            @ claimBoth p p
            @ (if injective then [] else [Report (warnf idx
                ''rule %d (EnumRemap): mapping is not injective (multiple hub values map to the same spoke value); spoke->hub is ambiguous''
                [MInt idx])])\<rparr>)"

definition resolveDefaultValue :: "int \<Rightarrow> FieldPath \<Rightarrow> Side \<Rightarrow> jval \<Rightarrow> schema \<Rightarrow> schema \<Rightarrow> resolved" where
  "resolveDefaultValue idx p existsOn dflt hub spoke =
     (let onSpoke = (existsOn = SideSpoke);
          effs = lookupError (lookupPath (if onSpoke then spoke else hub) p) idx ''rule %d (DefaultValue): %v'' []
            @ [if onSpoke then Claim OnSpoke p ''spoke'' else Claim OnHub p ''hub'']
      in if onSpoke
         then \<lparr>rH2s = Some (InjectDefaultOp p dflt), rS2h = Some DropFieldOp, rVerdict = verdict True False, rEffects = effs\<rparr>
         else \<lparr>rH2s = Some DropFieldOp, rS2h = Some (InjectDefaultOp p dflt), rVerdict = verdict False True, rEffects = effs\<rparr>)"

definition resolveConstant :: "int \<Rightarrow> FieldPath \<Rightarrow> Side \<Rightarrow> jval \<Rightarrow> schema \<Rightarrow> schema \<Rightarrow> resolved" where
  "resolveConstant idx p existsOn val hub spoke =
     (let onSpoke = (existsOn = SideSpoke);
          effs = lookupError (lookupPath (if onSpoke then spoke else hub) p) idx ''rule %d (Constant): %v'' []
            @ [if onSpoke then Claim OnSpoke p ''spoke'' else Claim OnHub p ''hub'']
      in if onSpoke
         then \<lparr>rH2s = Some (InjectConstantOp p val), rS2h = Some DropFieldOp, rVerdict = verdict True False, rEffects = effs\<rparr>
         else \<lparr>rH2s = Some DropFieldOp, rS2h = Some (InjectConstantOp p val), rVerdict = verdict False True, rEffects = effs\<rparr>)"

text \<open>The claim of a deletion tests for \<open>SideSpoke\<close>, its verdict for \<open>SideHub\<close>.\<close>

definition resolveDelete :: "int \<Rightarrow> FieldPath \<Rightarrow> Side \<Rightarrow> schema \<Rightarrow> schema \<Rightarrow> resolved" where
  "resolveDelete idx p existsOn hub spoke =
     (let onSpoke = (existsOn = SideSpoke) in
      \<lparr>rH2s = Some DropFieldOp, rS2h = Some DropFieldOp,
       rVerdict = (if existsOn = SideHub then verdict False True else verdict True False),
       rEffects =
         lookupError (lookupPath (if onSpoke then spoke else hub) p) idx ''rule %d (Delete): %v'' []
         @ [if onSpoke then Claim OnSpoke p ''spoke'' else Claim OnHub p ''hub'']\<rparr>)"

subsection \<open>JSON patches\<close>

definition rawPatchOp :: "JSONPatchOp \<Rightarrow> jval" where
  "rawPatchOp o' = JObj ([(''op'', JStr (jpOp o')), (''path'', JStr (jpPath o'))]
     @ (if jpFrom o' \<noteq> [] then [(''from'', JStr (jpFrom o'))] else [])
     @ (if jpValue o' \<noteq> JNull then [(''value'', jpValue o')] else []))"

text \<open>The pointers in order of first occurrence, as the \<open>seen\<close> maps of the source keep them.\<close>

fun firstUses :: "string list \<Rightarrow> string list \<Rightarrow> string list" where
  "firstUses seen [] = []"
| "firstUses seen (x # xs) = (if x \<in> set seen then firstUses seen xs else x # firstUses (x # seen) xs)"

definition parsePatch :: "golib \<Rightarrow> JSONPatchOp list \<Rightarrow> JSONPatchOp list \<times> FieldPath list \<times> FieldPath list \<times> gerr option" where
  "parsePatch lib ops =
     (if ops = [] then ([], [], [], None)
      else
        (let destPaths = map FieldPathFromJSONPointer (firstUses [] (map jpPath ops));
             allPaths = map FieldPathFromJSONPointer
               (firstUses [] (filter (\<lambda>ptr. ptr \<noteq> []) (concat (map (\<lambda>o'. [jpPath o', jpFrom o']) ops))))
         in case lib_Marshal lib (JArr (map rawPatchOp ops)) of
              Inl e \<Rightarrow> ([], [], [], Some e)
            | Inr _ \<Rightarrow> (case lib_DecodePatch lib ops of
                  Inl e \<Rightarrow> ([], destPaths, allPaths, Some e)
                | Inr _ \<Rightarrow> (ops, destPaths, allPaths, None))))"

definition patchError :: "gerr option \<Rightarrow> int \<Rightarrow> string \<Rightarrow> effect list" where
  "patchError err idx fmt = (case err of None \<Rightarrow> [] | Some e \<Rightarrow> [Report (errorf idx fmt [MInt idx, e])])"

fun claimOnce :: "string list \<Rightarrow> FieldPath list \<Rightarrow> effect list" where
  "claimOnce seen [] = []"
| "claimOnce seen (p # ps) =
     (if pathString p \<in> set seen then claimOnce seen ps else claimBoth p p @ claimOnce (pathString p # seen) ps)"

definition resolveJSONPatch :: "golib \<Rightarrow> int \<Rightarrow> JSONPatchOp list \<Rightarrow> JSONPatchOp list \<Rightarrow> bool \<Rightarrow> resolved" where
  "resolveJSONPatch lib idx h2s s2h losslessOverride =
     (case (parsePatch lib h2s, parsePatch lib s2h) of
        ((h2sPatch, h2sDest, h2sAll, herr), (s2hPatch, s2hDest, s2hAll, serr)) \<Rightarrow>
          \<lparr>rH2s = Some (JsonPatchApplyOp h2sPatch h2sDest), rS2h = Some (JsonPatchApplyOp s2hPatch s2hDest),
           rVerdict = verdict losslessOverride losslessOverride,
           rEffects =
             patchError herr idx ''rule %d (JSONPatch): hubToSpoke: %v''
             @ patchError serr idx ''rule %d (JSONPatch): spokeToHub: %v''
             @ [Report (warnf idx ''rule %d (JSONPatch): the engine cannot verify what this patch actually does; correctness and coverage are the author's responsibility'' [MInt idx])]
             @ claimOnce [] (h2sAll @ s2hAll)\<rparr>)"

subsection \<open>Scalars\<close>

definition coercibleError :: "gerr + schema \<Rightarrow> int \<Rightarrow> string \<Rightarrow> msg list \<Rightarrow> effect list" where
  "coercibleError node idx fmt args =
     errorIf (isRight node \<and> \<not> isCoercibleScalar (nodeKind node)) idx fmt (MInt idx # args @ [MStr (kindString (nodeKind node))])"

definition resolveTypeCoerce :: "int \<Rightarrow> FieldPath \<Rightarrow> FractionalIntegerPolicy \<Rightarrow> schema \<Rightarrow> schema \<Rightarrow> resolved" where
  "resolveTypeCoerce idx p onFrac hub spoke =
     (let hubNode = lookupPath hub p; spokeNode = lookupPath spoke p;
          hubKind = nodeKind hubNode; spokeKind = nodeKind spokeNode;
          pol = normalizeFractionalPolicy onFrac
      in \<lparr>rH2s = Some (CoerceOp p spokeKind pol), rS2h = Some (CoerceOp p hubKind pol),
          rVerdict = verdict (\<not> (pol \<noteq> FractionalIntegerError \<and> spokeKind = FieldKindInteger))
                             (\<not> (pol \<noteq> FractionalIntegerError \<and> hubKind = FieldKindInteger)),
          rEffects =
            lookupError hubNode idx ''rule %d (TypeCoerce): hub: %v'' []
            @ coercibleError hubNode idx ''rule %d (TypeCoerce): hub field %q is %s, not a coercible scalar type'' [MPath p]
            @ lookupError spokeNode idx ''rule %d (TypeCoerce): spoke: %v'' []
            @ coercibleError spokeNode idx ''rule %d (TypeCoerce): spoke field %q is %s, not a coercible scalar type'' [MPath p]
            @ claimBoth p p
            @ errorIf (pol \<noteq> FractionalIntegerError \<and> pol \<noteq> FractionalIntegerTruncate \<and> pol \<noteq> FractionalIntegerRound) idx
                ''rule %d (TypeCoerce): onFractionalInteger must be Error, Truncate, or Round, got %q'' [MInt idx, MStr onFrac]\<rparr>)"

definition numericError :: "gerr + schema \<Rightarrow> int \<Rightarrow> string \<Rightarrow> FieldPath \<Rightarrow> effect list" where
  "numericError node idx fmt p =
     errorIf (isRight node \<and> nodeKind node \<noteq> FieldKindInteger \<and> nodeKind node \<noteq> FieldKindNumber) idx fmt
       [MInt idx, MPath p, MStr (kindString (nodeKind node))]"

definition resolveNumericScale :: "int \<Rightarrow> FieldPath \<Rightarrow> FieldPath \<Rightarrow> float64 \<Rightarrow> schema \<Rightarrow> schema \<Rightarrow> resolved" where
  "resolveNumericScale idx hp sp factor hub spoke =
     (let hubNode = lookupPath hub hp; spokeNode = lookupPath spoke sp;
          hubKind = nodeKind hubNode; spokeKind = nodeKind spokeNode
      in \<lparr>rH2s = Some (NumericScaleOp hp sp factor False (spokeKind = FieldKindInteger)),
          rS2h = Some (NumericScaleOp sp hp factor True (hubKind = FieldKindInteger)),
          rVerdict = verdict (spokeKind = FieldKindNumber) (hubKind = FieldKindNumber),
          rEffects =
            errorIf (eq64 factor (Fin 0)) idx ''rule %d (NumericScale): factor must not be zero'' [MInt idx]
            @ lookupError hubNode idx ''rule %d (NumericScale): hub: %v'' []
            @ numericError hubNode idx ''rule %d (NumericScale): hub field %q is %s, not numeric'' hp
            @ lookupError spokeNode idx ''rule %d (NumericScale): spoke: %v'' []
            @ numericError spokeNode idx ''rule %d (NumericScale): spoke field %q is %s, not numeric'' sp
            @ claimBoth hp sp\<rparr>)"

text \<open>Quantity and Duration: exactly one side is the string, the other the integer.\<close>

definition resolveStringIntegerPair ::
    "int \<Rightarrow> string \<Rightarrow> FieldPath \<Rightarrow> FieldPath \<Rightarrow> schema \<Rightarrow> schema \<Rightarrow> (FieldPath \<Rightarrow> FieldPath \<Rightarrow> bool \<Rightarrow> op) \<Rightarrow> resolved" where
  "resolveStringIntegerPair idx name hp sp hub spoke makeOp =
     (let hubNode = lookupPath hub hp; spokeNode = lookupPath spoke sp;
          hubKind = nodeKind hubNode; spokeKind = nodeKind spokeNode;
          hubStr = (hubKind = FieldKindString); hubInt = (hubKind = FieldKindInteger);
          spokeStr = (spokeKind = FieldKindString); spokeInt = (spokeKind = FieldKindInteger);
          effs = lookupError hubNode idx ''rule %d (%s): hub: %v'' [MStr name]
            @ lookupError spokeNode idx ''rule %d (%s): spoke: %v'' [MStr name]
            @ errorIf ((\<not> hubStr \<or> \<not> spokeInt) \<and> (\<not> hubInt \<or> \<not> spokeStr)) idx
                ''rule %d (%s): one side must be a string and the other an integer (hub %q is %s, spoke %q is %s)''
                [MInt idx, MStr name, MPath hp, MStr (kindString hubKind), MPath sp, MStr (kindString spokeKind)]
            @ claimBoth hp sp
      in if hubStr \<and> spokeInt then
           \<lparr>rH2s = Some (makeOp hp sp True), rS2h = Some (makeOp sp hp False), rVerdict = verdict True False, rEffects = effs\<rparr>
         else if hubInt \<and> spokeStr then
           \<lparr>rH2s = Some (makeOp hp sp False), rS2h = Some (makeOp sp hp True), rVerdict = verdict False True, rEffects = effs\<rparr>
         else \<lparr>rH2s = None, rS2h = None, rVerdict = verdict False False, rEffects = effs\<rparr>)"

definition resolveQuantity :: "int \<Rightarrow> FieldPath \<Rightarrow> FieldPath \<Rightarrow> schema \<Rightarrow> schema \<Rightarrow> resolved" where
  "resolveQuantity idx hp sp hub spoke = resolveStringIntegerPair idx ''Quantity'' hp sp hub spoke QuantityOp"

definition resolveDuration :: "int \<Rightarrow> FieldPath \<Rightarrow> FieldPath \<Rightarrow> schema \<Rightarrow> schema \<Rightarrow> resolved" where
  "resolveDuration idx hp sp hub spoke = resolveStringIntegerPair idx ''Duration'' hp sp hub spoke DurationOp"

subsection \<open>Patterns and templates\<close>

record splitJoin =
  sjPattern :: "string option"
  sjTemplate :: "string option"
  sjKinds :: "(string \<times> FieldKind) list"
  sjEffects :: "effect list"

definition fieldEffects :: "int \<Rightarrow> Strategy \<Rightarrow> schema \<Rightarrow> claimSide \<Rightarrow> string \<Rightarrow> FieldPath \<Rightarrow> effect list" where
  "fieldEffects idx st rootSchema side label path =
     (let node = lookupPath rootSchema path in
      if \<not> isRight node then lookupError node idx ''rule %d (%s): %s: %v'' [MStr st, MStr label]
      else coercibleError node idx ''rule %d (%s): %s field %q is %s, not a coercible scalar type'' [MStr st, MStr label, MPath path]
        @ [Claim side path label])"

definition compileSplitJoin ::
    "golib \<Rightarrow> int \<Rightarrow> Strategy \<Rightarrow> string \<Rightarrow> string \<Rightarrow> (string \<times> FieldPath) list \<Rightarrow> schema \<Rightarrow> claimSide \<Rightarrow> string \<Rightarrow> splitJoin" where
  "compileSplitJoin lib idx st pattern joinTemplate fieldMap rootSchema side label =
     (let re = lib_RegexpCompile lib pattern; tm = lib_TemplateParse lib joinTemplate;
          declared = filter (\<lambda>n. n \<noteq> []) (lib_RegexpNames lib pattern)
      in \<lparr>sjPattern = (if isRight re then Some pattern else None),
          sjTemplate = (if isRight tm then Some joinTemplate else None),
          sjKinds = map (\<lambda>(n, path). (n, nodeKind (lookupPath rootSchema path)))
                      (filter (\<lambda>(n, path). isRight (lookupPath rootSchema path)) fieldMap),
          sjEffects =
            (case re of Inl e \<Rightarrow> [Report (errorf idx ''rule %d (%s): invalid pattern: %v'' [MInt idx, MStr st, e])] | Inr _ \<Rightarrow> [])
            @ (case tm of Inl e \<Rightarrow> [Report (errorf idx ''rule %d (%s): invalid joinTemplate: %v'' [MInt idx, MStr st, e])] | Inr _ \<Rightarrow> [])
            @ concat (map (\<lambda>(n, path). errorIf (isRight re \<and> n \<notin> set declared) idx
                 ''rule %d (%s): field %q has no matching named capture group in pattern'' [MInt idx, MStr st, MStr n]) fieldMap)
            @ concat (map (\<lambda>(n, path). fieldEffects idx st rootSchema side label path) fieldMap)\<rparr>)"

definition resolveScalarToFields ::
    "golib \<Rightarrow> int \<Rightarrow> FieldPath \<Rightarrow> string \<Rightarrow> (string \<times> FieldPath) list \<Rightarrow> string \<Rightarrow> bool \<Rightarrow> schema \<Rightarrow> schema \<Rightarrow> resolved" where
  "resolveScalarToFields lib idx hp pattern spokeFields joinTemplate losslessOverride hub spoke =
     (let sj = compileSplitJoin lib idx StrategyScalarToFields pattern joinTemplate spokeFields spoke OnSpoke ''spoke'' in
      \<lparr>rH2s = map_option (\<lambda>re. SplitFieldOp hp re spokeFields (sjKinds sj)) (sjPattern sj),
       rS2h = map_option (\<lambda>t. JoinFieldsOp spokeFields hp t) (sjTemplate sj),
       rVerdict = verdict losslessOverride losslessOverride,
       rEffects =
         lookupError (lookupPath hub hp) idx ''rule %d (ScalarToFields): hub: %v'' []
         @ [Claim OnHub hp ''hub'']
         @ sjEffects sj
         @ [Report (warnf idx ''rule %d (ScalarToFields): the engine cannot verify pattern/joinTemplate are true inverses; correctness and coverage are the author's responsibility'' [MInt idx])]\<rparr>)"

definition resolveFieldsToScalar ::
    "golib \<Rightarrow> int \<Rightarrow> (string \<times> FieldPath) list \<Rightarrow> string \<Rightarrow> FieldPath \<Rightarrow> string \<Rightarrow> bool \<Rightarrow> schema \<Rightarrow> schema \<Rightarrow> resolved" where
  "resolveFieldsToScalar lib idx hubFields pattern sp joinTemplate losslessOverride hub spoke =
     (let sj = compileSplitJoin lib idx StrategyFieldsToScalar pattern joinTemplate hubFields hub OnHub ''hub'' in
      \<lparr>rH2s = map_option (\<lambda>t. JoinFieldsOp hubFields sp t) (sjTemplate sj),
       rS2h = map_option (\<lambda>re. SplitFieldOp sp re hubFields (sjKinds sj)) (sjPattern sj),
       rVerdict = verdict losslessOverride losslessOverride,
       rEffects =
         lookupError (lookupPath spoke sp) idx ''rule %d (FieldsToScalar): spoke: %v'' []
         @ [Claim OnSpoke sp ''spoke'']
         @ sjEffects sj
         @ [Report (warnf idx ''rule %d (FieldsToScalar): the engine cannot verify pattern/joinTemplate are true inverses; correctness and coverage are the author's responsibility'' [MInt idx])]\<rparr>)"

subsection \<open>Keyed arrays and separated lists\<close>

definition resolveArrayToMapByKey :: "int \<Rightarrow> FieldPath \<Rightarrow> FieldPath \<Rightarrow> string \<Rightarrow> schema \<Rightarrow> schema \<Rightarrow> resolved" where
  "resolveArrayToMapByKey idx hp sp keyField hub spoke =
     \<lparr>rH2s = Some (ArrayToMapByKeyOp hp sp keyField), rS2h = Some (MapToArrayByKeyOp sp hp keyField),
      rVerdict = verdict True False,
      rEffects =
        lookupError (lookupPath hub hp) idx ''rule %d (ArrayToMapByKey): hub: %v'' []
        @ lookupError (lookupPath spoke sp) idx ''rule %d (ArrayToMapByKey): spoke: %v'' []
        @ claimBoth hp sp\<rparr>"

definition resolveMapToArrayByKey :: "int \<Rightarrow> FieldPath \<Rightarrow> FieldPath \<Rightarrow> string \<Rightarrow> schema \<Rightarrow> schema \<Rightarrow> resolved" where
  "resolveMapToArrayByKey idx hp sp keyField hub spoke =
     \<lparr>rH2s = Some (MapToArrayByKeyOp hp sp keyField), rS2h = Some (ArrayToMapByKeyOp sp hp keyField),
      rVerdict = verdict False True,
      rEffects =
        lookupError (lookupPath hub hp) idx ''rule %d (MapToArrayByKey): hub: %v'' []
        @ lookupError (lookupPath spoke sp) idx ''rule %d (MapToArrayByKey): spoke: %v'' []
        @ claimBoth hp sp\<rparr>"

definition itemSchema :: "gerr + schema \<Rightarrow> schema option" where
  "itemSchema node =
     (case node of Inl _ \<Rightarrow> None
      | Inr s \<Rightarrow> (if fst (classify s) \<noteq> FieldKindArray then None else sItems s))"

definition itemKindOf :: "gerr + schema \<Rightarrow> FieldKind" where
  "itemKindOf node = (case itemSchema node of None \<Rightarrow> FieldKindUnknown | Some s \<Rightarrow> fst (classify s))"

definition listErrors :: "gerr + schema \<Rightarrow> int \<Rightarrow> string \<Rightarrow> string \<Rightarrow> FieldPath \<Rightarrow> effect list" where
  "listErrors node idx fmtArray fmtItems p =
     errorIf (isRight node \<and> itemSchema node = None) idx fmtArray [MInt idx, MPath p]
     @ errorIf (itemSchema node \<noteq> None \<and> \<not> isCoercibleScalar (itemKindOf node)) idx fmtItems
         [MInt idx, MPath p, MStr (kindString (itemKindOf node))]"

definition notString :: "gerr + schema \<Rightarrow> int \<Rightarrow> string \<Rightarrow> FieldPath \<Rightarrow> effect list" where
  "notString node idx fmt p =
     errorIf (isRight node \<and> nodeKind node \<noteq> FieldKindString) idx fmt
       [MInt idx, MPath p, MStr (kindString (nodeKind node))]"

definition resolveListJoin :: "int \<Rightarrow> FieldPath \<Rightarrow> FieldPath \<Rightarrow> string \<Rightarrow> schema \<Rightarrow> schema \<Rightarrow> resolved" where
  "resolveListJoin idx hp sp separator hub spoke =
     (let hubNode = lookupPath hub hp; spokeNode = lookupPath spoke sp in
      \<lparr>rH2s = Some (JoinListOp hp sp separator), rS2h = Some (SplitListOp sp hp separator (itemKindOf hubNode)),
       rVerdict = verdict True True,
       rEffects =
         lookupError hubNode idx ''rule %d (ListJoin): hub: %v'' []
         @ listErrors hubNode idx ''rule %d (ListJoin): hub field %q must be an array with a known item schema''
             ''rule %d (ListJoin): hub array %q items are %s, not a coercible scalar type'' hp
         @ lookupError spokeNode idx ''rule %d (ListJoin): spoke: %v'' []
         @ notString spokeNode idx ''rule %d (ListJoin): spoke field %q is %s, not a string'' sp
         @ claimBoth hp sp\<rparr>)"

definition resolveListSplit :: "int \<Rightarrow> FieldPath \<Rightarrow> FieldPath \<Rightarrow> string \<Rightarrow> schema \<Rightarrow> schema \<Rightarrow> resolved" where
  "resolveListSplit idx hp sp separator hub spoke =
     (let hubNode = lookupPath hub hp; spokeNode = lookupPath spoke sp in
      \<lparr>rH2s = Some (SplitListOp hp sp separator (itemKindOf spokeNode)), rS2h = Some (JoinListOp sp hp separator),
       rVerdict = verdict True True,
       rEffects =
         lookupError hubNode idx ''rule %d (ListSplit): hub: %v'' []
         @ notString hubNode idx ''rule %d (ListSplit): hub field %q is %s, not a string'' hp
         @ lookupError spokeNode idx ''rule %d (ListSplit): spoke: %v'' []
         @ listErrors spokeNode idx ''rule %d (ListSplit): spoke field %q must be an array with a known item schema''
             ''rule %d (ListSplit): spoke array %q items are %s, not a coercible scalar type'' sp
         @ claimBoth hp sp\<rparr>)"

subsection \<open>Map keys and CEL\<close>

definition requireOpaqueMap :: "int \<Rightarrow> string \<Rightarrow> string \<Rightarrow> FieldPath \<Rightarrow> schema \<Rightarrow> effect list" where
  "requireOpaqueMap idx name label path rootSchema =
     (case lookupPath rootSchema path of
        Inl e \<Rightarrow> [Report (errorf idx ''rule %d (%s): %s: %v'' [MInt idx, MStr name, MStr label, e])]
      | Inr node \<Rightarrow>
          errorIf (fst (classify node) \<noteq> FieldKindObject \<or> \<not> snd (classify node)) idx
            ''rule %d (%s): %s field %q must be a free-form map (object with additionalProperties), got %s''
            [MInt idx, MStr name, MStr label, MPath path, MStr (kindString (fst (classify node)))])"

fun invertLoop :: "int \<Rightarrow> string \<Rightarrow> (string \<times> string) list \<Rightarrow> (string \<times> string) list \<Rightarrow> (string \<times> string) list \<times> effect list" where
  "invertLoop idx name [] rev' = (rev', [])"
| "invertLoop idx name ((hubKey, spokeKey) # rs) rev' =
     (if hubKey = [] \<or> spokeKey = [] then
        (case invertLoop idx name rs rev' of (r, es) \<Rightarrow>
          (r, Report (errorf idx ''rule %d (%s): rename keys must be non-empty'' [MInt idx, MStr name]) # es))
      else if map_of rev' spokeKey \<noteq> None then
        (case invertLoop idx name rs rev' of (r, es) \<Rightarrow>
          (r, Report (errorf idx ''rule %d (%s): spoke key %q is the destination of more than one hub key (renames must be injective)''
                [MInt idx, MStr name, MStr spokeKey]) # es))
      else invertLoop idx name rs (AList.update spokeKey hubKey rev'))"

definition invertRenames :: "int \<Rightarrow> string \<Rightarrow> (string \<times> string) list \<Rightarrow> (string \<times> string) list \<times> effect list" where
  "invertRenames idx name renames =
     (if renames = [] then ([], [Report (errorf idx ''rule %d (%s): renames must list at least one key'' [MInt idx, MStr name])])
      else invertLoop idx name renames [])"

definition resolveMapKeyRename :: "int \<Rightarrow> FieldPath \<Rightarrow> FieldPath \<Rightarrow> (string \<times> string) list \<Rightarrow> schema \<Rightarrow> schema \<Rightarrow> resolved" where
  "resolveMapKeyRename idx hp sp renames hub spoke =
     (case invertRenames idx ''MapKeyRename'' renames of (rev', renameEffs) \<Rightarrow>
      \<lparr>rH2s = Some (MapKeyRenameOp hp sp renames), rS2h = Some (MapKeyRenameOp sp hp rev'),
       rVerdict = verdict True True,
       rEffects =
         requireOpaqueMap idx ''MapKeyRename'' ''hub'' hp hub
         @ requireOpaqueMap idx ''MapKeyRename'' ''spoke'' sp spoke
         @ renameEffs
         @ claimBoth hp sp\<rparr>)"

definition compileCELProgram :: "golib \<Rightarrow> string \<Rightarrow> gerr + string" where
  "compileCELProgram lib expr = (case lib_CelCompile lib expr of Inl e \<Rightarrow> Inl e | Inr _ \<Rightarrow> Inr expr)"

definition resolveCEL ::
    "golib \<Rightarrow> int \<Rightarrow> FieldPath list \<Rightarrow> FieldPath list \<Rightarrow> string \<Rightarrow> string \<Rightarrow> schema \<Rightarrow> schema \<Rightarrow> resolved" where
  "resolveCEL lib idx hubPaths spokePaths h2sExpr s2hExpr hub spoke =
     (let h2sPrg = compileCELProgram lib h2sExpr; s2hPrg = compileCELProgram lib s2hExpr in
      \<lparr>rH2s = (if h2sExpr = [] then None else case h2sPrg of Inl _ \<Rightarrow> None | Inr prg \<Rightarrow> Some (CelOp prg spokePaths)),
       rS2h = (if s2hExpr = [] then None else case s2hPrg of Inl _ \<Rightarrow> None | Inr prg \<Rightarrow> Some (CelOp prg hubPaths)),
       rVerdict = verdict False False,
       rEffects =
         errorIf (hubPaths = []) idx ''rule %d (CEL): hubPaths must list at least one path'' [MInt idx]
         @ errorIf (spokePaths = []) idx ''rule %d (CEL): spokePaths must list at least one path'' [MInt idx]
         @ errorIf (h2sExpr = []) idx ''rule %d (CEL): hubToSpoke expression is required'' [MInt idx]
         @ errorIf (s2hExpr = []) idx ''rule %d (CEL): spokeToHub expression is required'' [MInt idx]
         @ concat (map (\<lambda>hp. lookupError (lookupPath hub hp) idx ''rule %d (CEL): hub: %v'' [] @ [Claim OnHub hp ''hub'']) hubPaths)
         @ concat (map (\<lambda>sp. lookupError (lookupPath spoke sp) idx ''rule %d (CEL): spoke: %v'' [] @ [Claim OnSpoke sp ''spoke'']) spokePaths)
         @ (if h2sExpr = [] then [] else case h2sPrg of
              Inl e \<Rightarrow> [Report (errorf idx ''rule %d (CEL): hubToSpoke: %v'' [MInt idx, e])] | Inr _ \<Rightarrow> [])
         @ (if s2hExpr = [] then [] else case s2hPrg of
              Inl e \<Rightarrow> [Report (errorf idx ''rule %d (CEL): spokeToHub: %v'' [MInt idx, e])] | Inr _ \<Rightarrow> [])\<rparr>)"

subsection \<open>Tables\<close>

text \<open>An enumeration table holds, for each key, the last mapping with that key.\<close>

lemma enumTable_lookup:
  "map_of (enumTable lib f t ms) k =
     (case rev (filter (\<lambda>m. enumKey lib (f m) = k) ms) of [] \<Rightarrow> None | m # _ \<Rightarrow> Some (t m))"
proof -
  have "map_of (fold (\<lambda>m t'. AList.update (enumKey lib (f m)) (t m) t') ms t0) k =
     (case rev (filter (\<lambda>m. enumKey lib (f m) = k) ms) of [] \<Rightarrow> map_of t0 k | m # _ \<Rightarrow> Some (t m))" for t0
  proof (induction ms arbitrary: t0)
    case (Cons m ms)
    show ?case
      by (cases "rev (filter (\<lambda>m. enumKey lib (f m) = k) ms)") (auto simp: Cons.IH)
  qed simp
  from this[of "[]"] show ?thesis by (simp add: enumTable_def split: list.splits)
qed

lemma enumTable_Some:
  assumes "map_of (enumTable lib f t ms) k = Some w"
  shows "\<exists>m\<in>set ms. enumKey lib (f m) = k \<and> t m = w"
proof -
  obtain m r where m: "rev (filter (\<lambda>m. enumKey lib (f m) = k) ms) = m # r" and w: "t m = w"
    using assms unfolding enumTable_lookup by (auto split: list.splits)
  have "m \<in> set (rev (filter (\<lambda>m. enumKey lib (f m) = k) ms))" unfolding m by simp
  then show ?thesis using w by auto
qed

lemma enumTable_mem:
  "m \<in> set ms \<Longrightarrow> \<exists>w. map_of (enumTable lib f t ms) (enumKey lib (f m)) = Some w"
  unfolding enumTable_lookup
  by (cases "rev (filter (\<lambda>m'. enumKey lib (f m') = enumKey lib (f m)) ms)") (auto simp: filter_empty_conv)

text \<open>Where no two mappings share a key, the table is the mapping itself.\<close>

lemma enumTable_injective:
  assumes "distinct (map (\<lambda>m. enumKey lib (f m)) ms)" and "m \<in> set ms"
  shows "map_of (enumTable lib f t ms) (enumKey lib (f m)) = Some (t m)"
proof -
  obtain w where "map_of (enumTable lib f t ms) (enumKey lib (f m)) = Some w" using enumTable_mem[OF assms(2)] by blast
  moreover from this obtain m' where "m' \<in> set ms" "enumKey lib (f m') = enumKey lib (f m)" "t m' = w"
    using enumTable_Some by blast
  ultimately show ?thesis using assms by (auto simp: distinct_map inj_on_def)
qed

text \<open>Inverting renames that compile without error gives the inverse of the listed renames.\<close>

lemma invertLoop_clean:
  assumes "invertLoop idx name rs acc = (r, [])"
  shows "(\<forall>hs\<in>set rs. map_of r (snd hs) = Some (fst hs)) \<and> (\<forall>k h. map_of acc k = Some h \<longrightarrow> map_of r k = Some h)
    \<and> (\<forall>k h. map_of r k = Some h \<longrightarrow> map_of acc k = Some h \<or> (h, k) \<in> set rs)"
  using assms
proof (induction idx name rs acc arbitrary: r rule: invertLoop.induct)
  case (2 idx name hubKey spokeKey rs acc)
  have ne: "\<not> (hubKey = [] \<or> spokeKey = [])"
  proof
    assume "hubKey = [] \<or> spokeKey = []"
    then show False using "2.prems" by (cases "invertLoop idx name rs acc") simp
  qed
  have fresh: "map_of acc spokeKey = None"
  proof (rule ccontr)
    assume "map_of acc spokeKey \<noteq> None"
    then show False using ne "2.prems" by (cases "invertLoop idx name rs acc") simp
  qed
  have rest: "invertLoop idx name rs (AList.update spokeKey hubKey acc) = (r, [])"
    using ne fresh "2.prems" by simp
  from "2.IH"(3)[OF ne _ rest] fresh
  have IH: "\<forall>hs\<in>set rs. map_of r (snd hs) = Some (fst hs)"
    "\<And>k h. map_of (AList.update spokeKey hubKey acc) k = Some h \<Longrightarrow> map_of r k = Some h"
    "\<And>k h. map_of r k = Some h \<Longrightarrow> map_of (AList.update spokeKey hubKey acc) k = Some h \<or> (h, k) \<in> set rs"
    by simp_all
  have "map_of r spokeKey = Some hubKey" by (rule IH(2)) simp
  moreover have "map_of r k = Some h" if "map_of acc k = Some h" for k h
    by (rule IH(2)) (use that fresh in auto)
  moreover have "map_of acc k = Some h \<or> (h, k) \<in> set ((hubKey, spokeKey) # rs)" if "map_of r k = Some h" for k h
    using IH(3)[OF that] by (auto split: if_splits)
  ultimately show ?case using IH(1) by simp
qed simp

end
