(* ===== verification/Compile.thy ===== *)
theory Compile
  imports Resolve
begin

text \<open>
  Compilation of a rule list (\<open>resolveAndBuildOps\<close> and the recursive resolvers of
  \<open>pkg/engine/compile.go\<close>). The claimed fields of each side are a set of printed paths, as in the
  source; \<open>claim\<close> is the only operation on them. \<open>resolveForEach\<close> and \<open>resolveBranchMap\<close> take the
  compilation of a nested rule list as an argument, and \<open>resolveAndBuildOps\<close> ties the knot: it
  terminates because nested lists are smaller.
\<close>

subsection \<open>The ledger of claimed fields\<close>

record ledger =
  claimedHub :: "string set"
  claimedSpoke :: "string set"

definition claim :: "string set \<Rightarrow> FieldPath \<Rightarrow> int \<Rightarrow> string \<Rightarrow> string set \<times> Diagnostic option" where
  "claim claimed path idx label =
     (let key = pathString path in
      if key \<in> claimed
      then (claimed, Some (errorf idx ''rule %d: %s field %q is already claimed by another rule''
             [MInt idx, MStr label, MStr key]))
      else (insert key claimed, None))"

fun runEffect :: "int \<Rightarrow> effect \<Rightarrow> ledger \<times> Diagnostic list \<Rightarrow> ledger \<times> Diagnostic list" where
  "runEffect idx (Report d) (L, ds) = (L, ds @ [d])"
| "runEffect idx (Claim side path label) (L, ds) =
     (case side of
        OnHub \<Rightarrow> (case claim (claimedHub L) path idx label of (c, d) \<Rightarrow>
          (L\<lparr>claimedHub := c\<rparr>, ds @ (case d of None \<Rightarrow> [] | Some x \<Rightarrow> [x])))
      | OnSpoke \<Rightarrow> (case claim (claimedSpoke L) path idx label of (c, d) \<Rightarrow>
          (L\<lparr>claimedSpoke := c\<rparr>, ds @ (case d of None \<Rightarrow> [] | Some x \<Rightarrow> [x]))))"

definition runEffects :: "int \<Rightarrow> effect list \<Rightarrow> ledger \<Rightarrow> ledger \<times> Diagnostic list" where
  "runEffects idx es L = fold (runEffect idx) es (L, [])"

subsection \<open>Recursive resolvers\<close>

record built =
  bH2s :: "op list"
  bS2h :: "op list"
  bResults :: "RuleResult list"
  bDiags :: "Diagnostic list"
  bVerdict :: LosslessVerdict

type_synonym compiler = "rule list \<Rightarrow> schema \<Rightarrow> schema \<Rightarrow> UnmappedFieldPolicy \<Rightarrow> nat \<Rightarrow> built"

definition MaxForEachDepth :: nat where
  "MaxForEachDepth = 2"

definition qualifyUnderItemsPath :: "FieldPath \<Rightarrow> string \<Rightarrow> string" where
  "qualifyUnderItemsPath itemsPath relative =
     (if relative = [] then pathString itemsPath
      else if itemsPath = [] then relative
      else pathString itemsPath @ ''.'' @ relative)"

definition nestDiag :: "(msg \<Rightarrow> msg) \<Rightarrow> FieldPath \<Rightarrow> FieldPath \<Rightarrow> Diagnostic \<Rightarrow> effect" where
  "nestDiag wrap hubBase spokeBase d =
     Report (d\<lparr>dMessage := wrap (dMessage d),
       dFieldPath := (if dUncoveredSide d = UncoveredSideHub then qualifyUnderItemsPath hubBase (dFieldPath d)
                      else if dUncoveredSide d = UncoveredSideSpoke then qualifyUnderItemsPath spokeBase (dFieldPath d)
                      else dFieldPath d)\<rparr>)"

definition itemsOf :: "gerr + schema \<Rightarrow> schema option" where
  "itemsOf node = (case node of Inl _ \<Rightarrow> None | Inr s \<Rightarrow> sItems s)"

definition resolveForEach ::
    "compiler \<Rightarrow> int \<Rightarrow> FieldPath \<Rightarrow> FieldPath \<Rightarrow> rule list \<Rightarrow> schema \<Rightarrow> schema \<Rightarrow> UnmappedFieldPolicy \<Rightarrow> nat \<Rightarrow> resolved" where
  "resolveForEach nested idx hp sp rules hub spoke policy depth =
     (if depth \<ge> MaxForEachDepth then
        \<lparr>rH2s = None, rS2h = None, rVerdict = verdict True True,
         rEffects = [Report (errorf idx ''rule %d (ForEach): nesting depth exceeds the supported maximum of %d''
           [MInt idx, MInt (int MaxForEachDepth)])]\<rparr>
      else
        (let hubArray = lookupPath hub hp; spokeArray = lookupPath spoke sp;
             effs = lookupError hubArray idx ''rule %d (ForEach): hub: %v'' []
               @ lookupError spokeArray idx ''rule %d (ForEach): spoke: %v'' []
               @ claimBoth hp sp
         in case itemsOf hubArray of
              None \<Rightarrow> \<lparr>rH2s = None, rS2h = None, rVerdict = verdict True True,
                rEffects = effs @ [Report (errorf idx ''rule %d (ForEach): both items paths must resolve to arrays with a known item schema'' [MInt idx])]\<rparr>
            | Some hubItem \<Rightarrow> (case itemsOf spokeArray of
              None \<Rightarrow> \<lparr>rH2s = None, rS2h = None, rVerdict = verdict True True,
                rEffects = effs @ [Report (errorf idx ''rule %d (ForEach): both items paths must resolve to arrays with a known item schema'' [MInt idx])]\<rparr>
            | Some spokeItem \<Rightarrow>
                (let b = nested rules hubItem spokeItem policy (Suc depth) in
                 \<lparr>rH2s = Some (ForEachOp hp sp (bH2s b)), rS2h = Some (ForEachOp sp hp (bS2h b)),
                  rVerdict = bVerdict b,
                  rEffects = effs @ map (nestDiag (\<lambda>m. Fmt ''rule %d (ForEach) item: %s'' [MInt idx, m]) hp sp) (bDiags b)\<rparr>))))"

definition discriminatorValue :: "string \<Rightarrow> string \<Rightarrow> string" where
  "discriminatorValue explicit branch = (if explicit \<noteq> [] then explicit else branch)"

record branchAcc =
  baHubSeen :: "string list"
  baSpokeSeen :: "string list"
  baLossless :: LosslessVerdict
  baEffects :: "effect list"
  baH2s :: "compiledBranch list"
  baS2h :: "compiledBranch list"

definition emptyBuilt :: built where
  "emptyBuilt = \<lparr>bH2s = [], bS2h = [], bResults = [], bDiags = [], bVerdict = verdict True True\<rparr>"

definition branchNested ::
    "compiler \<Rightarrow> branchMapping \<Rightarrow> schema \<Rightarrow> schema \<Rightarrow> UnmappedFieldPolicy \<Rightarrow> nat \<Rightarrow> built" where
  "branchNested nested b hubBranchS spokeBranchS policy depth =
     (if branchRules b = [] then emptyBuilt else nested (branchRules b) hubBranchS spokeBranchS policy depth)"

definition branchStep ::
    "compiler \<Rightarrow> int \<Rightarrow> FieldPath \<Rightarrow> FieldPath \<Rightarrow> schema \<Rightarrow> schema \<Rightarrow> UnmappedFieldPolicy \<Rightarrow> nat \<Rightarrow> nat \<times> branchMapping \<Rightarrow> branchAcc \<Rightarrow> branchAcc" where
  "branchStep nested idx hp sp hubNode spokeNode policy depth ib acc =
     (let bi = int (fst ib); b = snd ib;
          hubB = map_of (sProps hubNode) (hubBranch b); spokeB = map_of (sProps spokeNode) (spokeBranch b);
          firstHub = (hubBranch b \<notin> set (baHubSeen acc)); firstSpoke = (spokeBranch b \<notin> set (baSpokeSeen acc));
          acc1 = acc\<lparr>baHubSeen := hubBranch b # baHubSeen acc, baSpokeSeen := spokeBranch b # baSpokeSeen acc,
            baLossless := verdict (lossH2S (baLossless acc) \<and> firstHub) (lossS2H (baLossless acc) \<and> firstSpoke),
            baEffects := baEffects acc
              @ errorIf (hubB = None) idx ''rule %d (BranchMap): branch %d: %q is not a declared property of the hub union at %q''
                  [MInt idx, MInt bi, MStr (hubBranch b), MPath hp]
              @ errorIf (spokeB = None) idx ''rule %d (BranchMap): branch %d: %q is not a declared property of the spoke union at %q''
                  [MInt idx, MInt bi, MStr (spokeBranch b), MPath sp]\<rparr>
      in case hubB of None \<Rightarrow> acc1 | Some hubBranchS \<Rightarrow>
        (case spokeB of None \<Rightarrow> acc1 | Some spokeBranchS \<Rightarrow>
           (let hubPath = hp @ [hubBranch b]; spokePath = sp @ [spokeBranch b];
                nb = branchNested nested b hubBranchS spokeBranchS policy depth
            in acc1\<lparr>baLossless := verdictAnd (baLossless acc1) (bVerdict nb),
                 baEffects := baEffects acc1
                   @ (if firstHub then claimSubtree OnHub hubPath (Inr hubBranchS) ''hub'' else [])
                   @ (if firstSpoke then claimSubtree OnSpoke spokePath (Inr spokeBranchS) ''spoke'' else [])
                   @ map (nestDiag (\<lambda>m. Fmt ''rule %d (BranchMap) branch %q: %s'' [MInt idx, MStr (hubBranch b), m]) hubPath spokePath) (bDiags nb),
                 baH2s := baH2s acc1 @ (if firstHub then
                     [CompiledBranch (hubBranch b) (spokeBranch b)
                       (discriminatorValue (spokeDiscriminatorValue b) (spokeBranch b)) (bH2s nb)] else []),
                 baS2h := baS2h acc1 @ (if firstSpoke then
                     [CompiledBranch (spokeBranch b) (hubBranch b)
                       (discriminatorValue (hubDiscriminatorValue b) (hubBranch b)) (bS2h nb)] else [])\<rparr>)))"

definition discriminatorErrors :: "int \<Rightarrow> string \<Rightarrow> schema \<Rightarrow> string \<Rightarrow> FieldPath \<Rightarrow> effect list" where
  "discriminatorErrors idx disc node label path =
     errorIf (disc \<noteq> [] \<and> map_of (sProps node) disc = None) idx
       ''rule %d (BranchMap): discriminator %q is not a declared property of the %s union at %q''
       [MInt idx, MStr disc, MStr label, MPath path]"

definition resolveBranchMap ::
    "compiler \<Rightarrow> int \<Rightarrow> FieldPath \<Rightarrow> FieldPath \<Rightarrow> string \<Rightarrow> branchMapping list \<Rightarrow> schema \<Rightarrow> schema \<Rightarrow> UnmappedFieldPolicy \<Rightarrow> nat \<Rightarrow> resolved" where
  "resolveBranchMap nested idx hp sp disc branches hub spoke policy depth =
     (let hubLook = lookupPath hub hp; spokeLook = lookupPath spoke sp;
          effs0 = lookupError hubLook idx ''rule %d (BranchMap): hub: %v'' []
            @ lookupError spokeLook idx ''rule %d (BranchMap): spoke: %v'' []
            @ errorIf (branches = []) idx ''rule %d (BranchMap): at least one branch mapping is required'' [MInt idx];
          giveUp = (\<lambda>es. \<lparr>rH2s = None, rS2h = None, rVerdict = verdict True True, rEffects = es\<rparr>)
      in case hubLook of Inl _ \<Rightarrow> giveUp effs0 | Inr hubNode \<Rightarrow>
        (case spokeLook of Inl _ \<Rightarrow> giveUp effs0 | Inr spokeNode \<Rightarrow>
          if sProps hubNode = [] \<or> sProps spokeNode = [] then
            giveUp (effs0 @ [Report (errorf idx ''rule %d (BranchMap): both paths must resolve to objects with declared properties; a union whose branches are not declared properties is not something the engine can address'' [MInt idx])])
          else
            (let acc0 = \<lparr>baHubSeen = [], baSpokeSeen = [], baLossless = verdict True True,
                   baEffects = effs0 @ discriminatorErrors idx disc hubNode ''hub'' hp
                     @ discriminatorErrors idx disc spokeNode ''spoke'' sp,
                   baH2s = [], baS2h = []\<rparr>;
                 acc = fold (branchStep nested idx hp sp hubNode spokeNode policy depth) (enumerate 0 branches) acc0;
                 effs = baEffects acc @ (if disc \<noteq> [] then claimBoth (hp @ [disc]) (sp @ [disc]) else [])
             in if baH2s acc = [] then \<lparr>rH2s = None, rS2h = None, rVerdict = baLossless acc, rEffects = effs\<rparr>
                else \<lparr>rH2s = Some (BranchMapOp hp sp disc (baH2s acc)), rS2h = Some (BranchMapOp sp hp disc (baS2h acc)),
                      rVerdict = baLossless acc, rEffects = effs\<rparr>)))"

subsection \<open>One rule\<close>

definition noParams :: "int \<Rightarrow> resolved" where
  "noParams idx = \<lparr>rH2s = None, rS2h = None, rVerdict = verdict False False,
     rEffects = [Report (errorf idx ''rule %d: unknown or unset strategy params'' [MInt idx])]\<rparr>"

definition resolveRule ::
    "golib \<Rightarrow> compiler \<Rightarrow> int \<Rightarrow> rule \<Rightarrow> schema \<Rightarrow> schema \<Rightarrow> UnmappedFieldPolicy \<Rightarrow> nat \<Rightarrow> resolved" where
  "resolveRule lib nested idx r hub spoke policy depth =
     (case ruleParams r of
        FieldRenameParams hp sp \<Rightarrow> resolveFieldRename idx hp sp hub spoke
      | ScalarToObjectParams hp sp k d \<Rightarrow> resolveScalarToObject idx hp sp k d hub spoke
      | ObjectToScalarParams hp sp k d \<Rightarrow> resolveObjectToScalar idx hp sp k d hub spoke
      | SingletonArrayToObjectParams hp sp \<Rightarrow> resolveSingletonArrayToObject idx hp sp hub spoke True
      | ObjectToSingletonArrayParams hp sp \<Rightarrow> resolveSingletonArrayToObject idx sp hp spoke hub False
      | FieldsToMapParams hps sp kn pol \<Rightarrow> resolveFieldsToMap idx hps sp kn pol hub spoke
      | MapToFieldsParams hp sps kn pol \<Rightarrow> resolveMapToFields idx hp sps kn pol hub spoke
      | ToMetadataParams hp k ser b \<Rightarrow> resolveToMetadata lib idx (ruleStrategy r) hp k ser b hub
      | FromMetadataParams sp k ser b \<Rightarrow> resolveFromMetadata lib idx (ruleStrategy r) sp k ser b spoke
      | EnumRemapParams p ms oh os \<Rightarrow> resolveEnumRemap lib idx p ms oh os hub spoke
      | DefaultValueParams p sd v \<Rightarrow> resolveDefaultValue idx p sd v hub spoke
      | ConstantParams p sd v \<Rightarrow> resolveConstant idx p sd v hub spoke
      | DeleteParams p sd \<Rightarrow> resolveDelete idx p sd hub spoke
      | JSONPatchParams h2s s2h b \<Rightarrow> resolveJSONPatch lib idx h2s s2h b
      | ForEachParams hp sp rs \<Rightarrow> resolveForEach nested idx hp sp rs hub spoke policy depth
      | TypeCoerceParams p pol \<Rightarrow> resolveTypeCoerce idx p pol hub spoke
      | ScalarToFieldsParams hp pt fs t b \<Rightarrow> resolveScalarToFields lib idx hp pt fs t b hub spoke
      | FieldsToScalarParams fs pt sp t b \<Rightarrow> resolveFieldsToScalar lib idx fs pt sp t b hub spoke
      | ArrayToMapByKeyParams hp sp k \<Rightarrow> resolveArrayToMapByKey idx hp sp k hub spoke
      | MapToArrayByKeyParams hp sp k \<Rightarrow> resolveMapToArrayByKey idx hp sp k hub spoke
      | NumericScaleParams hp sp f \<Rightarrow> resolveNumericScale idx hp sp f hub spoke
      | ListJoinParams hp sp sep \<Rightarrow> resolveListJoin idx hp sp sep hub spoke
      | ListSplitParams hp sp sep \<Rightarrow> resolveListSplit idx hp sp sep hub spoke
      | QuantityParams hp sp \<Rightarrow> resolveQuantity idx hp sp hub spoke
      | DurationParams hp sp \<Rightarrow> resolveDuration idx hp sp hub spoke
      | MapKeyRenameParams hp sp rn \<Rightarrow> resolveMapKeyRename idx hp sp rn hub spoke
      | CELParams hps sps e1 e2 \<Rightarrow> resolveCEL lib idx hps sps e1 e2 hub spoke
      | BranchMapParams hp sp d bs \<Rightarrow> resolveBranchMap nested idx hp sp d bs hub spoke policy depth
      | NoParams \<Rightarrow> noParams idx)"

definition sortedPathStrings :: "(string \<times> FieldPath) list \<Rightarrow> string list" where
  "sortedPathStrings m = sort (map (\<lambda>np. pathString (snd np)) m)"

text \<open>The paths a rule reports (\<open>rr.HubPaths\<close> and \<open>rr.SpokePaths\<close>).\<close>

definition reportedPaths :: "ruleParams \<Rightarrow> string list \<times> string list" where
  "reportedPaths p =
     (let one = (\<lambda>q. [pathString q]); pair = (\<lambda>hp sp. ([pathString hp], [pathString sp])) in
      case p of
        FieldRenameParams hp sp \<Rightarrow> pair hp sp
      | ScalarToObjectParams hp sp k d \<Rightarrow> pair hp sp
      | ObjectToScalarParams hp sp k d \<Rightarrow> pair hp sp
      | SingletonArrayToObjectParams hp sp \<Rightarrow> pair hp sp
      | ObjectToSingletonArrayParams hp sp \<Rightarrow> pair hp sp
      | FieldsToMapParams hps sp kn pol \<Rightarrow> (map pathString hps, one sp)
      | MapToFieldsParams hp sps kn pol \<Rightarrow> (one hp, map pathString sps)
      | ToMetadataParams hp k ser b \<Rightarrow> (one hp, [])
      | FromMetadataParams sp k ser b \<Rightarrow> ([], one sp)
      | EnumRemapParams q ms oh os \<Rightarrow> pair q q
      | DefaultValueParams q sd v \<Rightarrow> pair q q
      | ConstantParams q sd v \<Rightarrow> pair q q
      | DeleteParams q sd \<Rightarrow> pair q q
      | JSONPatchParams h2s s2h b \<Rightarrow> ([], [])
      | ForEachParams hp sp rs \<Rightarrow> pair hp sp
      | TypeCoerceParams q pol \<Rightarrow> pair q q
      | ScalarToFieldsParams hp pt fs t b \<Rightarrow> (one hp, sortedPathStrings fs)
      | FieldsToScalarParams fs pt sp t b \<Rightarrow> (sortedPathStrings fs, one sp)
      | ArrayToMapByKeyParams hp sp k \<Rightarrow> pair hp sp
      | MapToArrayByKeyParams hp sp k \<Rightarrow> pair hp sp
      | NumericScaleParams hp sp f \<Rightarrow> pair hp sp
      | ListJoinParams hp sp sep \<Rightarrow> pair hp sp
      | ListSplitParams hp sp sep \<Rightarrow> pair hp sp
      | QuantityParams hp sp \<Rightarrow> pair hp sp
      | DurationParams hp sp \<Rightarrow> pair hp sp
      | MapKeyRenameParams hp sp rn \<Rightarrow> pair hp sp
      | CELParams hps sps e1 e2 \<Rightarrow> (map pathString hps, map pathString sps)
      | BranchMapParams hp sp d bs \<Rightarrow> pair hp sp
      | NoParams \<Rightarrow> ([], []))"

definition lossyErrors :: "int \<Rightarrow> rule \<Rightarrow> LosslessVerdict \<Rightarrow> Diagnostic list" where
  "lossyErrors idx r v =
     (if \<not> lossH2S v \<and> \<not> ruleAcknowledgeLossy r
      then [errorf idx ''rule %d (%s): hub->spoke conversion is lossy but acknowledgeLossy is not set'' [MInt idx, MStr (ruleStrategy r)]] else [])
     @ (if \<not> lossS2H v \<and> \<not> ruleAcknowledgeLossy r
        then [errorf idx ''rule %d (%s): spoke->hub conversion is lossy but acknowledgeLossy is not set'' [MInt idx, MStr (ruleStrategy r)]] else [])"

text \<open>The \<open>when\<close> clause: its diagnostics, and whether the operations are guarded by it.\<close>

definition whenErrors :: "int \<Rightarrow> rule \<Rightarrow> RuleWhen \<Rightarrow> schema \<Rightarrow> schema \<Rightarrow> Diagnostic list" where
  "whenErrors idx r w hub spoke =
     (if whenPath w = [] then [errorf idx ''rule %d (%s): when.path is required'' [MInt idx, MStr (ruleStrategy r)]]
      else (case lookupPath hub (whenPath w) of
              Inl e \<Rightarrow> [errorf idx ''rule %d (%s): when.path on hub: %v'' [MInt idx, MStr (ruleStrategy r), e]] | Inr _ \<Rightarrow> [])
         @ (case lookupPath spoke (whenPath w) of
              Inl e \<Rightarrow> [errorf idx ''rule %d (%s): when.path on spoke: %v'' [MInt idx, MStr (ruleStrategy r), e]] | Inr _ \<Rightarrow> []))"

definition applyWhenClause ::
    "int \<Rightarrow> rule \<Rightarrow> schema \<Rightarrow> schema \<Rightarrow> op option \<times> op option \<Rightarrow> (op option \<times> op option) \<times> Diagnostic list" where
  "applyWhenClause idx r hub spoke ops =
     (case ruleWhen r of
        None \<Rightarrow> (ops, [])
      | Some w \<Rightarrow>
          (let errs = whenErrors idx r w hub spoke; guard = WhenOp (whenPath w) (whenEquals w) in
           if errs \<noteq> [] then (ops, errs)
           else ((map_option guard (fst ops), map_option guard (snd ops)),
                 [warnf idx ''rule %d (%s): applies only when %q equals %#v; coverage of its target paths is partial''
                   [MInt idx, MStr (ruleStrategy r), MPath (whenPath w), MVal (whenEquals w)]])))"

definition ruleIndex :: "nat \<Rightarrow> rule \<Rightarrow> int" where
  "ruleIndex i r = (if ruleSourceIndex r = 0 \<and> i \<noteq> 0 then int i else ruleSourceIndex r)"

definition compileStep ::
    "golib \<Rightarrow> compiler \<Rightarrow> schema \<Rightarrow> schema \<Rightarrow> UnmappedFieldPolicy \<Rightarrow> nat \<Rightarrow> nat \<times> rule \<Rightarrow> ledger \<times> built \<Rightarrow> ledger \<times> built" where
  "compileStep lib nested hub spoke policy depth ir LB =
     (let i = fst ir; r = snd ir; idx = int i; B = snd LB;
          res = resolveRule lib nested idx r hub spoke policy depth;
          ran = runEffects idx (rEffects res) (fst LB);
          guarded = applyWhenClause idx r hub spoke (rH2s res, rS2h res);
          ruleDiags = snd ran @ lossyErrors idx r (rVerdict res) @ snd guarded;
          rr = \<lparr>rrIndex = ruleIndex i r, rrStrategy = ruleStrategy r,
                rrHubPaths = fst (reportedPaths (ruleParams r)), rrSpokePaths = snd (reportedPaths (ruleParams r)),
                rrLossless = rVerdict res,
                rrErrors = map dMessage (filter isError ruleDiags),
                rrWarnings = map dMessage (filter (\<lambda>d. \<not> isError d) ruleDiags)\<rparr>
      in (fst ran,
          \<lparr>bH2s = bH2s B @ (case fst (fst guarded) of None \<Rightarrow> [] | Some x \<Rightarrow> [x]),
           bS2h = bS2h B @ (case snd (fst guarded) of None \<Rightarrow> [] | Some x \<Rightarrow> [x]),
           bResults = bResults B @ [rr],
           bDiags = bDiags B @ ruleDiags,
           bVerdict = verdictAnd (bVerdict B) (rVerdict res)\<rparr>))"

subsection \<open>Leftover fields\<close>

definition leafKey :: "LeafField \<Rightarrow> string" where
  "leafKey l = pathString (lfPath l)"

definition leavesByPath :: "LeafField list \<Rightarrow> string \<Rightarrow> LeafField option" where
  "leavesByPath ls = map_of (rev (map (\<lambda>l. (leafKey l, l)) ls))"

definition sameShape :: "LeafField \<Rightarrow> LeafField \<Rightarrow> bool" where
  "sameShape a b \<longleftrightarrow> lfKind a = lfKind b \<and> lfOpaque a = lfOpaque b \<and> lfConstruct a = lfConstruct b"

definition uncoveredSeverity :: "UnmappedFieldPolicy \<Rightarrow> Severity" where
  "uncoveredSeverity policy = (if policy = UnmappedFieldPolicyWarn then SeverityWarning else SeverityError)"

definition hubLeftover ::
    "(string \<Rightarrow> LeafField option) \<Rightarrow> UnmappedFieldPolicy \<Rightarrow> LeafField \<Rightarrow> ledger \<times> built \<Rightarrow> ledger \<times> built" where
  "hubLeftover spokeByPath policy hl LB =
     (let L = fst LB; B = snd LB; key = leafKey hl in
      if key \<in> claimedHub L then LB
      else if key \<notin> claimedSpoke L \<and> (case spokeByPath key of None \<Rightarrow> False | Some sl \<Rightarrow> sameShape sl hl)
      then (\<lparr>claimedHub = insert key (claimedHub L), claimedSpoke = insert key (claimedSpoke L)\<rparr>,
            B\<lparr>bH2s := bH2s B @ [IdentityOp (lfPath hl)], bS2h := bS2h B @ [IdentityOp (lfPath hl)]\<rparr>)
      else (L, B\<lparr>bDiags := bDiags B @ [uncoveredFieldDiag (uncoveredSeverity policy) UncoveredSideHub key (lfConstruct hl)],
                 bVerdict := (if policy = UnmappedFieldPolicyWarn then bVerdict B else (bVerdict B)\<lparr>lossH2S := False\<rparr>)\<rparr>))"

definition spokeLeftover :: "UnmappedFieldPolicy \<Rightarrow> LeafField \<Rightarrow> ledger \<times> built \<Rightarrow> ledger \<times> built" where
  "spokeLeftover policy sl LB =
     (let L = fst LB; B = snd LB; key = leafKey sl in
      if key \<in> claimedSpoke L then LB
      else (L, B\<lparr>bDiags := bDiags B @ [uncoveredFieldDiag (uncoveredSeverity policy) UncoveredSideSpoke key (lfConstruct sl)],
                 bVerdict := (if policy = UnmappedFieldPolicyWarn then bVerdict B else (bVerdict B)\<lparr>lossS2H := False\<rparr>)\<rparr>))"

definition leftoverScan :: "schema \<Rightarrow> schema \<Rightarrow> UnmappedFieldPolicy \<Rightarrow> ledger \<times> built \<Rightarrow> ledger \<times> built" where
  "leftoverScan hub spoke policy LB =
     fold (spokeLeftover policy) (flattenSchema spoke)
       (fold (hubLeftover (leavesByPath (flattenSchema spoke)) policy) (flattenSchema hub) LB)"

definition addPassthrough :: "schema \<Rightarrow> schema \<Rightarrow> built \<Rightarrow> built" where
  "addPassthrough hub spoke B =
     (let t = mergeKnownTrees (buildKnownTree hub) (buildKnownTree spoke) in
      B\<lparr>bH2s := bH2s B @ [PassthroughUnknownOp t], bS2h := bS2h B @ [PassthroughUnknownOp t]\<rparr>)"

definition noClaims :: ledger where
  "noClaims = \<lparr>claimedHub = {}, claimedSpoke = {}\<rparr>"

subsection \<open>The whole rule list\<close>

lemma enumerate_snd: "ix \<in> set (enumerate n xs) \<Longrightarrow> snd ix \<in> set xs"
  by (cases ix) (auto simp: enumerate_eq_zip dest: set_zip_rightD)

lemma resolveRule_cong:
  assumes "\<And>rs h s p d. rs \<in> set (nestedRules (ruleParams r)) \<Longrightarrow> nested rs h s p d = nested' rs h s p d"
  shows "resolveRule lib nested idx r hub spoke policy depth = resolveRule lib nested' idx r hub spoke policy depth"
proof (cases "ruleParams r")
  case (ForEachParams hp sp rs)
  then have n: "nested rs = nested' rs" by (intro ext assms) (simp add: nestedRules_def)
  show ?thesis unfolding resolveRule_def ForEachParams ruleParams.case resolveForEach_def n ..
next
  case (BranchMapParams hp sp dc bs)
  have "branchStep nested idx hp sp hn sn policy depth ib = branchStep nested' idx hp sp hn sn policy depth ib"
    if "ib \<in> set (enumerate 0 bs)" for ib hn sn
  proof -
    have "snd ib \<in> set bs" using that by (rule enumerate_snd)
    then have n: "branchNested nested (snd ib) = branchNested nested' (snd ib)"
      using assms BranchMapParams by (intro ext) (auto simp: branchNested_def nestedRules_def)
    show ?thesis unfolding branchStep_def Let_def n ..
  qed
  then have n: "fold (branchStep nested idx hp sp hn sn policy depth) (enumerate 0 bs)
      = fold (branchStep nested' idx hp sp hn sn policy depth) (enumerate 0 bs)" for hn sn
    by (intro ext fold_cong) auto
  show ?thesis unfolding resolveRule_def BranchMapParams ruleParams.case resolveBranchMap_def n ..
qed (simp_all add: resolveRule_def)

lemma compileStep_cong [fundef_cong]:
  assumes "lib = lib'" "hub = hub'" "spoke = spoke'" "policy = policy'" "depth = depth'" "ir = ir'"
    and "\<And>rs h s p d. rs \<in> set (nestedRules (ruleParams (snd ir'))) \<Longrightarrow> nested rs h s p d = nested' rs h s p d"
  shows "compileStep lib nested hub spoke policy depth ir = compileStep lib' nested' hub' spoke' policy' depth' ir'"
proof -
  have n: "resolveRule lib nested i (snd ir') = resolveRule lib nested' i (snd ir')" for i
    by (intro ext resolveRule_cong assms)
  show ?thesis unfolding compileStep_def assms(1-6)[symmetric] Let_def
    using n assms(1-6) by simp
qed

function resolveAndBuildOps ::
    "golib \<Rightarrow> rule list \<Rightarrow> schema \<Rightarrow> schema \<Rightarrow> UnmappedFieldPolicy \<Rightarrow> nat \<Rightarrow> built" where
  "resolveAndBuildOps lib rules hub spoke policy depth =
     addPassthrough hub spoke (snd (leftoverScan hub spoke policy
       (fold (\<lambda>ir LB. compileStep lib (\<lambda>rs h s p d. resolveAndBuildOps lib rs h s p d) hub spoke policy depth ir LB)
         (enumerate 0 rules) (noClaims, emptyBuilt))))"
  by pat_completeness auto
termination
  by (relation "measure (\<lambda>(_, rs, _). size_list size rs)")
    (auto dest: enumerate_snd intro: size_nestedRules_list)

declare resolveAndBuildOps.simps [simp del]

definition effectivePolicy :: "UnmappedFieldPolicy \<Rightarrow> UnmappedFieldPolicy" where
  "effectivePolicy p = (if p = [] then UnmappedFieldPolicyError else p)"

text \<open>\<open>Compile\<close>, from the point where both schemas have been normalised.\<close>

definition compileNormalized :: "golib \<Rightarrow> RuleSet \<Rightarrow> schema \<Rightarrow> schema \<Rightarrow> Plan \<times> Diagnostic list" where
  "compileNormalized lib rules hub spoke =
     (let b = resolveAndBuildOps lib (rsRules rules) hub spoke (effectivePolicy (rsUnmappedFieldPolicy rules)) 0
      in (\<lparr>HubVersion = rsHubVersion rules, SpokeVersion = rsSpokeVersion rules,
           planHubToSpoke = bH2s b, planSpokeToHub = bS2h b\<rparr>, bDiags b))"

end
