(* ===== verification/Coverage.thy ===== *)
theory Coverage
  imports Compile
begin

text \<open>
  What a compilation without errors guarantees: no two rules claim the same field, every declared
  field of either side is claimed by a rule or copied unchanged, every lossy rule is acknowledged,
  and nesting stays within the supported depth. The locale \<open>claim_ledger\<close> says how a sequence of
  effects is accounted for; the model's \<open>runEffect\<close> is its instance.
\<close>

subsection \<open>Sequences of effects\<close>

locale claim_ledger =
  fixes owned :: "'s \<Rightarrow> 'k set"
    and clean :: "'s \<Rightarrow> bool"
    and perform :: "'e \<Rightarrow> 's \<Rightarrow> 's"
    and keyOf :: "'e \<Rightarrow> 'k option"
    and bad :: "'e \<Rightarrow> bool"
  assumes owned_perform: "owned (perform e s) = owned s \<union> set_option (keyOf e)"
    and clean_perform: "clean (perform e s) \<longleftrightarrow> clean s \<and> \<not> bad e \<and> set_option (keyOf e) \<inter> owned s = {}"
begin

lemma owned_fold: "owned (fold perform es s) = owned s \<union> set (List.map_filter keyOf es)"
proof (induction es arbitrary: s)
  case (Cons e es)
  then show ?case by (cases "keyOf e") (simp_all add: owned_perform map_filter_simps)
qed (simp add: map_filter_simps)

lemma clean_fold:
  "clean (fold perform es s) \<longleftrightarrow>
     clean s \<and> list_all (\<lambda>e. \<not> bad e) es \<and> distinct (List.map_filter keyOf es)
     \<and> set (List.map_filter keyOf es) \<inter> owned s = {}"
proof (induction es arbitrary: s)
  case (Cons e es)
  then show ?case by (cases "keyOf e") (auto simp: owned_perform clean_perform map_filter_simps)
qed (simp add: map_filter_simps)

end

definition errorFree :: "Diagnostic list \<Rightarrow> bool" where
  "errorFree ds \<longleftrightarrow> list_all (\<lambda>d. \<not> isError d) ds"

lemma errorFree_simps [simp]:
  "errorFree []" "errorFree (d # ds) \<longleftrightarrow> \<not> isError d \<and> errorFree ds"
  "errorFree (ds @ es) \<longleftrightarrow> errorFree ds \<and> errorFree es"
  by (auto simp: errorFree_def)

definition ownedKeys :: "ledger \<Rightarrow> (claimSide \<times> string) set" where
  "ownedKeys L = {OnHub} \<times> claimedHub L \<union> {OnSpoke} \<times> claimedSpoke L"

fun effectKey :: "effect \<Rightarrow> (claimSide \<times> string) option" where
  "effectKey (Report d) = None"
| "effectKey (Claim sd p label) = Some (sd, pathString p)"

fun effectError :: "effect \<Rightarrow> bool" where
  "effectError (Report d) = isError d"
| "effectError (Claim sd p label) = False"

interpretation claims: claim_ledger
  "\<lambda>st. ownedKeys (fst st)" "\<lambda>st. errorFree (snd st)" "runEffect idx" effectKey effectError
  for idx
proof unfold_locales
  fix e and st :: "ledger \<times> Diagnostic list"
  obtain L ds where st: "st = (L, ds)" by (cases st)
  show "ownedKeys (fst (runEffect idx e st)) = ownedKeys (fst st) \<union> set_option (effectKey e)"
  proof (cases e)
    case (Claim sd p l)
    then show ?thesis by (cases sd) (auto simp: st ownedKeys_def claim_def Let_def)
  qed (simp add: st)
  show "errorFree (snd (runEffect idx e st)) \<longleftrightarrow>
      errorFree (snd st) \<and> \<not> effectError e \<and> set_option (effectKey e) \<inter> ownedKeys (fst st) = {}"
  proof (cases e)
    case (Claim sd p l)
    then show ?thesis by (cases sd) (auto simp: st ownedKeys_def claim_def Let_def)
  qed (simp add: st)
qed

text \<open>All the fields a list of effects claims, in order.\<close>

definition claimedBy :: "effect list \<Rightarrow> (claimSide \<times> string) list" where
  "claimedBy es = List.map_filter effectKey es"

lemma runEffects_owned: "ownedKeys (fst (runEffects idx es L)) = ownedKeys L \<union> set (claimedBy es)"
  using claims.owned_fold[of idx es "(L, [])"] by (simp add: runEffects_def claimedBy_def)

lemma runEffects_clean:
  "errorFree (snd (runEffects idx es L)) \<longleftrightarrow>
     list_all (\<lambda>e. \<not> effectError e) es \<and> distinct (claimedBy es) \<and> set (claimedBy es) \<inter> ownedKeys L = {}"
  using claims.clean_fold[of idx es "(L, [])"] by (simp add: runEffects_def claimedBy_def)

subsection \<open>The rules of a list\<close>

text \<open>What resolving rule \<open>i\<close> of a list gives; resolving does not depend on the other rules.\<close>

definition ruleResolved ::
    "golib \<Rightarrow> rule list \<Rightarrow> schema \<Rightarrow> schema \<Rightarrow> UnmappedFieldPolicy \<Rightarrow> nat \<Rightarrow> nat \<Rightarrow> resolved" where
  "ruleResolved lib rules hub spoke policy depth i =
     resolveRule lib (resolveAndBuildOps lib) (int i) (rules ! i) hub spoke policy depth"

definition afterRules ::
    "golib \<Rightarrow> rule list \<Rightarrow> schema \<Rightarrow> schema \<Rightarrow> UnmappedFieldPolicy \<Rightarrow> nat \<Rightarrow> ledger \<times> built" where
  "afterRules lib rules hub spoke policy depth =
     fold (compileStep lib (resolveAndBuildOps lib) hub spoke policy depth) (enumerate 0 rules) (noClaims, emptyBuilt)"

lemma resolveAndBuildOps_unfold:
  "resolveAndBuildOps lib rules hub spoke policy depth =
     addPassthrough hub spoke (snd (leftoverScan hub spoke policy (afterRules lib rules hub spoke policy depth)))"
  by (subst resolveAndBuildOps.simps) (simp add: afterRules_def)

text \<open>
  One pass over the rules: the fields claimed so far are those of the rules so far, and the
  diagnostics are free of errors just when each rule is sound on its own and no field is
  claimed twice.
\<close>

definition ruleSound :: "rule \<Rightarrow> schema \<Rightarrow> schema \<Rightarrow> resolved \<Rightarrow> bool" where
  "ruleSound r hub spoke res \<longleftrightarrow>
     list_all (\<lambda>e. \<not> effectError e) (rEffects res) \<and> distinct (claimedBy (rEffects res))
   \<and> (ruleAcknowledgeLossy r \<or> lossH2S (rVerdict res) \<and> lossS2H (rVerdict res))
   \<and> (case ruleWhen r of None \<Rightarrow> True | Some w \<Rightarrow> whenErrors 0 r w hub spoke = [])"

lemma whenErrors_idx: "whenErrors i r w hub spoke = [] \<longleftrightarrow> whenErrors j r w hub spoke = []"
  by (auto simp: whenErrors_def split: sum.splits)

lemma whenErrors_errors: "errorFree (whenErrors i r w hub spoke) \<longleftrightarrow> whenErrors i r w hub spoke = []"
  by (auto simp: whenErrors_def split: sum.splits)

lemma applyWhenClause_errorFree:
  "errorFree (snd (applyWhenClause i r hub spoke ops)) \<longleftrightarrow>
     (case ruleWhen r of None \<Rightarrow> True | Some w \<Rightarrow> whenErrors 0 r w hub spoke = [])"
  using whenErrors_idx[of i r _ hub spoke 0]
  by (auto simp: applyWhenClause_def Let_def whenErrors_errors split: option.splits)

lemma lossyErrors_errorFree:
  "errorFree (lossyErrors i r v) \<longleftrightarrow> ruleAcknowledgeLossy r \<or> lossH2S v \<and> lossS2H v"
  by (auto simp: lossyErrors_def)

lemma compileStep_ledger:
  fixes nested
  assumes "res = resolveRule lib nested (int i) r hub spoke policy depth"
  shows "ownedKeys (fst (compileStep lib nested hub spoke policy depth (i, r) LB)) = ownedKeys (fst LB) \<union> set (claimedBy (rEffects res))"
    and "errorFree (bDiags (snd (compileStep lib nested hub spoke policy depth (i, r) LB))) \<longleftrightarrow>
      errorFree (bDiags (snd LB)) \<and> ruleSound r hub spoke res \<and> set (claimedBy (rEffects res)) \<inter> ownedKeys (fst LB) = {}"
    and "bVerdict (snd (compileStep lib nested hub spoke policy depth (i, r) LB)) = verdictAnd (bVerdict (snd LB)) (rVerdict res)"
  unfolding assms
  by (auto simp: compileStep_def Let_def runEffects_owned runEffects_clean ruleSound_def
      lossyErrors_errorFree applyWhenClause_errorFree)

lemma fold_compileStep:
  fixes nested lib hub spoke policy depth
  defines "f \<equiv> \<lambda>ir. resolveRule lib nested (int (fst ir)) (snd ir) hub spoke policy depth"
  defines "cl \<equiv> \<lambda>irs. concat (map (\<lambda>ir. claimedBy (rEffects (f ir))) irs)"
  shows "ownedKeys (fst (fold (compileStep lib nested hub spoke policy depth) irs LB)) = ownedKeys (fst LB) \<union> set (cl irs)"
    and "errorFree (bDiags (snd (fold (compileStep lib nested hub spoke policy depth) irs LB))) \<longleftrightarrow>
      errorFree (bDiags (snd LB)) \<and> (\<forall>ir\<in>set irs. ruleSound (snd ir) hub spoke (f ir))
      \<and> distinct (cl irs) \<and> set (cl irs) \<inter> ownedKeys (fst LB) = {}"
    and "bVerdict (snd (fold (compileStep lib nested hub spoke policy depth) irs LB)) =
      fold (\<lambda>ir v. verdictAnd v (rVerdict (f ir))) irs (bVerdict (snd LB))"
proof (induction irs arbitrary: LB)
  case (Cons ir irs)
  let ?step = "compileStep lib nested hub spoke policy depth ir"
  have f: "f ir = resolveRule lib nested (int (fst ir)) (snd ir) hub spoke policy depth" by (simp add: f_def)
  have one: "ownedKeys (fst (?step LB)) = ownedKeys (fst LB) \<union> set (claimedBy (rEffects (f ir)))"
    "errorFree (bDiags (snd (?step LB))) \<longleftrightarrow> errorFree (bDiags (snd LB)) \<and> ruleSound (snd ir) hub spoke (f ir)
      \<and> set (claimedBy (rEffects (f ir))) \<inter> ownedKeys (fst LB) = {}"
    "bVerdict (snd (?step LB)) = verdictAnd (bVerdict (snd LB)) (rVerdict (f ir))" for LB
    using compileStep_ledger[OF f] by simp_all
  have sound: "ruleSound (snd ir) hub spoke (f ir) \<Longrightarrow> distinct (claimedBy (rEffects (f ir)))"
    by (simp add: ruleSound_def)
  have cl: "cl (ir # irs) = claimedBy (rEffects (f ir)) @ cl irs" by (simp add: cl_def)
  {
    case 1
    show ?case unfolding fold_simps Cons.IH(1) one(1) cl by auto
  next
    case 2
    show ?case unfolding fold_simps Cons.IH(2) one(1,2) cl using sound by auto
  next
    case 3
    show ?case unfolding fold_simps Cons.IH(3) one(3) ..
  }
qed (simp_all add: cl_def)

lemma map_enumerate: "map g (enumerate 0 xs) = map (\<lambda>i. g (i, xs ! i)) [0..<length xs]"
  by (rule nth_equalityI) (simp_all add: nth_enumerate_eq)

lemma ball_enumerate: "(\<forall>ix\<in>set (enumerate 0 xs). P ix) \<longleftrightarrow> (\<forall>i<length xs. P (i, xs ! i))"
  by (auto simp: in_set_enumerate_eq)

definition allClaims ::
    "golib \<Rightarrow> rule list \<Rightarrow> schema \<Rightarrow> schema \<Rightarrow> UnmappedFieldPolicy \<Rightarrow> nat \<Rightarrow> (claimSide \<times> string) list" where
  "allClaims lib rules hub spoke policy depth =
     concat (map (\<lambda>i. claimedBy (rEffects (ruleResolved lib rules hub spoke policy depth i))) [0..<length rules])"

lemma fold_verdictAnd:
  "lossH2S (fold (\<lambda>x v. verdictAnd v (g x)) xs v) \<longleftrightarrow> lossH2S v \<and> (\<forall>x\<in>set xs. lossH2S (g x))"
  "lossS2H (fold (\<lambda>x v. verdictAnd v (g x)) xs v) \<longleftrightarrow> lossS2H v \<and> (\<forall>x\<in>set xs. lossS2H (g x))"
  by (induction xs arbitrary: v) (auto simp: verdictAnd_def)

lemma ownedKeys_noClaims [simp]: "ownedKeys noClaims = {}"
  by (simp add: ownedKeys_def noClaims_def)

lemma afterRules_ledger:
  "ownedKeys (fst (afterRules lib rules hub spoke policy depth)) = set (allClaims lib rules hub spoke policy depth)"
  "errorFree (bDiags (snd (afterRules lib rules hub spoke policy depth))) \<longleftrightarrow>
     (\<forall>i<length rules. ruleSound (rules ! i) hub spoke (ruleResolved lib rules hub spoke policy depth i))
     \<and> distinct (allClaims lib rules hub spoke policy depth)"
  "lossH2S (bVerdict (snd (afterRules lib rules hub spoke policy depth))) \<longleftrightarrow>
     (\<forall>i<length rules. lossH2S (rVerdict (ruleResolved lib rules hub spoke policy depth i)))"
  "lossS2H (bVerdict (snd (afterRules lib rules hub spoke policy depth))) \<longleftrightarrow>
     (\<forall>i<length rules. lossS2H (rVerdict (ruleResolved lib rules hub spoke policy depth i)))"
  unfolding afterRules_def allClaims_def ruleResolved_def
  by (simp_all add: fold_compileStep map_enumerate ball_enumerate fold_verdictAnd emptyBuilt_def)

subsection \<open>The leftover scan\<close>

text \<open>
  A scan that ends without errors adds no diagnostics: whatever it newly marks as claimed, it
  copies unchanged in both directions.
\<close>

definition copiedBoth :: "(string \<Rightarrow> LeafField option) \<Rightarrow> LeafField list \<Rightarrow> built \<Rightarrow> string \<Rightarrow> bool" where
  "copiedBoth look ls B k \<longleftrightarrow>
     (\<exists>l\<in>set ls. leafKey l = k \<and> IdentityOp (lfPath l) \<in> set (bH2s B) \<and> IdentityOp (lfPath l) \<in> set (bS2h B)
        \<and> (\<exists>sl. look k = Some sl \<and> sameShape sl l))"

definition scanned :: "(string \<Rightarrow> LeafField option) \<Rightarrow> LeafField list \<Rightarrow> ledger \<times> built \<Rightarrow> ledger \<times> built \<Rightarrow> bool" where
  "scanned look ls LB LB' \<longleftrightarrow>
     bDiags (snd LB') = bDiags (snd LB) \<and> bVerdict (snd LB') = bVerdict (snd LB)
   \<and> set (bH2s (snd LB)) \<subseteq> set (bH2s (snd LB')) \<and> set (bS2h (snd LB)) \<subseteq> set (bS2h (snd LB'))
   \<and> ownedKeys (fst LB) \<subseteq> ownedKeys (fst LB')
   \<and> (\<forall>x\<in>ownedKeys (fst LB') - ownedKeys (fst LB). copiedBoth look ls (snd LB') (snd x))
   \<and> (\<forall>l\<in>set ls. (OnHub, leafKey l) \<in> ownedKeys (fst LB'))"

lemma scanned_Nil [simp]: "scanned look [] LB LB"
  by (simp add: scanned_def)

lemma copiedBoth_mono:
  "copiedBoth look ls B k \<Longrightarrow> set ls \<subseteq> set ls' \<Longrightarrow> set (bH2s B) \<subseteq> set (bH2s B') \<Longrightarrow> set (bS2h B) \<subseteq> set (bS2h B')
    \<Longrightarrow> copiedBoth look ls' B' k"
  unfolding copiedBoth_def by blast

lemma scanned_trans:
  assumes "scanned look ls A B" and "scanned look ls' B C"
  shows "scanned look (ls @ ls') A C"
proof -
  have "copiedBoth look (ls @ ls') (snd C) (snd x)" if "x \<in> ownedKeys (fst C) - ownedKeys (fst A)" for x
  proof (cases "x \<in> ownedKeys (fst B)")
    case True
    then have "copiedBoth look ls (snd B) (snd x)" using assms(1) that by (simp add: scanned_def)
    then show ?thesis by (rule copiedBoth_mono) (use assms(2) in \<open>auto simp: scanned_def\<close>)
  next
    case False
    then have "copiedBoth look ls' (snd C) (snd x)" using assms(2) that by (simp add: scanned_def)
    then show ?thesis by (rule copiedBoth_mono) auto
  qed
  then show ?thesis using assms unfolding scanned_def by auto
qed

lemma hubLeftover_step:
  assumes "policy \<noteq> UnmappedFieldPolicyWarn" and "errorFree (bDiags (snd (hubLeftover look policy l LB)))"
  shows "scanned look [l] LB (hubLeftover look policy l LB)"
  using assms
  by (auto simp: hubLeftover_def Let_def scanned_def copiedBoth_def ownedKeys_def uncoveredSeverity_def
      split: if_splits option.splits)

lemma hubLeftover_errors: "errorFree (bDiags (snd (hubLeftover look policy l LB))) \<Longrightarrow> errorFree (bDiags (snd LB))"
  by (auto simp: hubLeftover_def Let_def split: if_splits)

lemma hubLeftover_fold_errors:
  "errorFree (bDiags (snd (fold (hubLeftover look policy) ls LB))) \<Longrightarrow> errorFree (bDiags (snd LB))"
proof (induction ls arbitrary: LB)
  case (Cons l ls)
  show ?case by (rule hubLeftover_errors, rule Cons.IH) (use Cons.prems in simp)
qed simp

lemma hubLeftover_fold:
  assumes "policy \<noteq> UnmappedFieldPolicyWarn" and "errorFree (bDiags (snd (fold (hubLeftover look policy) ls LB)))"
  shows "scanned look ls LB (fold (hubLeftover look policy) ls LB)"
  using assms(2)
proof (induction ls arbitrary: LB)
  case (Cons l ls)
  let ?LB = "hubLeftover look policy l LB"
  have "errorFree (bDiags (snd ?LB))" using Cons.prems hubLeftover_fold_errors by simp
  from scanned_trans[OF hubLeftover_step[OF assms(1) this] Cons.IH] Cons.prems show ?case by simp
qed simp

lemma spokeLeftover_errors: "errorFree (bDiags (snd (spokeLeftover policy l LB))) \<Longrightarrow> errorFree (bDiags (snd LB))"
  by (auto simp: spokeLeftover_def Let_def split: if_splits)

lemma spokeLeftover_fold_errors:
  "errorFree (bDiags (snd (fold (spokeLeftover policy) ls LB))) \<Longrightarrow> errorFree (bDiags (snd LB))"
proof (induction ls arbitrary: LB)
  case (Cons l ls)
  show ?case by (rule spokeLeftover_errors, rule Cons.IH) (use Cons.prems in simp)
qed simp

lemma spokeLeftover_fold:
  assumes "policy \<noteq> UnmappedFieldPolicyWarn" and "errorFree (bDiags (snd (fold (spokeLeftover policy) ls LB)))"
  shows "fold (spokeLeftover policy) ls LB = LB \<and> (\<forall>l\<in>set ls. (OnSpoke, leafKey l) \<in> ownedKeys (fst LB))"
  using assms(2)
proof (induction ls arbitrary: LB)
  case (Cons l ls)
  have "errorFree (bDiags (snd (spokeLeftover policy l LB)))"
    by (rule spokeLeftover_fold_errors) (use Cons.prems in simp)
  then have key: "leafKey l \<in> claimedSpoke (fst LB)"
    using assms(1) by (auto simp: spokeLeftover_def Let_def uncoveredSeverity_def split: if_splits)
  then have "spokeLeftover policy l LB = LB" by (simp add: spokeLeftover_def Let_def)
  then show ?case using Cons key by (simp add: ownedKeys_def)
qed simp

text \<open>The whole scan.\<close>

lemma leftoverScan_clean:
  assumes "policy \<noteq> UnmappedFieldPolicyWarn" and "errorFree (bDiags (snd (leftoverScan hub spoke policy LB)))"
  shows "scanned (leavesByPath (flattenSchema spoke)) (flattenSchema hub) LB (leftoverScan hub spoke policy LB)"
    and "\<forall>l\<in>set (flattenSchema spoke). (OnSpoke, leafKey l) \<in> ownedKeys (fst (leftoverScan hub spoke policy LB))"
proof -
  let ?H = "fold (hubLeftover (leavesByPath (flattenSchema spoke)) policy) (flattenSchema hub) LB"
  have S: "leftoverScan hub spoke policy LB = ?H" "\<forall>l\<in>set (flattenSchema spoke). (OnSpoke, leafKey l) \<in> ownedKeys (fst ?H)"
    using spokeLeftover_fold[OF assms(1), of "flattenSchema spoke" ?H] assms(2) by (simp_all add: leftoverScan_def)
  show "scanned (leavesByPath (flattenSchema spoke)) (flattenSchema hub) LB (leftoverScan hub spoke policy LB)"
    using hubLeftover_fold[OF assms(1), of "leavesByPath (flattenSchema spoke)" "flattenSchema hub" LB] assms(2) S(1) by simp
  show "\<forall>l\<in>set (flattenSchema spoke). (OnSpoke, leafKey l) \<in> ownedKeys (fst (leftoverScan hub spoke policy LB))"
    using S by simp
qed

lemma leftoverScan_errors:
  "errorFree (bDiags (snd (leftoverScan hub spoke policy LB))) \<Longrightarrow> errorFree (bDiags (snd LB))"
  unfolding leftoverScan_def by (drule spokeLeftover_fold_errors) (rule hubLeftover_fold_errors)

lemma addPassthrough_simps [simp]:
  "bDiags (addPassthrough hub spoke B) = bDiags B" "bVerdict (addPassthrough hub spoke B) = bVerdict B"
  "set (bH2s B) \<subseteq> set (bH2s (addPassthrough hub spoke B))" "set (bS2h B) \<subseteq> set (bS2h (addPassthrough hub spoke B))"
  by (auto simp: addPassthrough_def Let_def)

subsection \<open>What an error-free compilation guarantees\<close>

lemma clean_rules:
  assumes "errorFree (bDiags (resolveAndBuildOps lib rules hub spoke policy depth))"
  shows "\<forall>i<length rules. ruleSound (rules ! i) hub spoke (ruleResolved lib rules hub spoke policy depth i)"
    and "distinct (allClaims lib rules hub spoke policy depth)"
proof -
  have "errorFree (bDiags (snd (afterRules lib rules hub spoke policy depth)))"
    by (rule leftoverScan_errors) (use assms in \<open>simp add: resolveAndBuildOps_unfold\<close>)
  then show "\<forall>i<length rules. ruleSound (rules ! i) hub spoke (ruleResolved lib rules hub spoke policy depth i)"
    and "distinct (allClaims lib rules hub spoke policy depth)"
    unfolding afterRules_ledger(2) by blast+
qed

lemma clean_scan:
  assumes "errorFree (bDiags (resolveAndBuildOps lib rules hub spoke policy depth))"
    and "policy \<noteq> UnmappedFieldPolicyWarn"
  shows "scanned (leavesByPath (flattenSchema spoke)) (flattenSchema hub) (afterRules lib rules hub spoke policy depth)
      (leftoverScan hub spoke policy (afterRules lib rules hub spoke policy depth))"
    and "\<forall>l\<in>set (flattenSchema spoke). (OnSpoke, leafKey l) \<in>
      ownedKeys (fst (leftoverScan hub spoke policy (afterRules lib rules hub spoke policy depth)))"
  using leftoverScan_clean[OF assms(2)] assms(1) by (simp_all add: resolveAndBuildOps_unfold)

lemma leavesByPath_Some: "leavesByPath ls k = Some l \<Longrightarrow> l \<in> set ls \<and> leafKey l = k"
  by (auto simp: leavesByPath_def dest!: map_of_SomeD)

lemma clean_coverage:
  assumes "errorFree (bDiags (resolveAndBuildOps lib rules hub spoke policy depth))"
    and "policy \<noteq> UnmappedFieldPolicyWarn"
  defines "b \<equiv> resolveAndBuildOps lib rules hub spoke policy depth"
  defines "copied \<equiv> copiedBoth (leavesByPath (flattenSchema spoke)) (flattenSchema hub) b"
  shows "\<forall>l\<in>set (flattenSchema hub). (OnHub, leafKey l) \<in> set (allClaims lib rules hub spoke policy depth) \<or> copied (leafKey l)"
    and "\<forall>l\<in>set (flattenSchema spoke). (OnSpoke, leafKey l) \<in> set (allClaims lib rules hub spoke policy depth) \<or> copied (leafKey l)"
proof -
  let ?A = "afterRules lib rules hub spoke policy depth"
  let ?S = "leftoverScan hub spoke policy ?A"
  note scan = clean_scan[OF assms(1,2)]
  have b: "b = addPassthrough hub spoke (snd ?S)" by (simp add: b_def resolveAndBuildOps_unfold)
  have new: "x \<in> ownedKeys (fst ?A) \<or> copied (snd x)" if "x \<in> ownedKeys (fst ?S)" for x
  proof -
    have "x \<in> ownedKeys (fst ?A) \<or> copiedBoth (leavesByPath (flattenSchema spoke)) (flattenSchema hub) (snd ?S) (snd x)"
      using scan(1) that by (auto simp: scanned_def)
    moreover have "set (bH2s (snd ?S)) \<subseteq> set (bH2s b)" "set (bS2h (snd ?S)) \<subseteq> set (bS2h b)"
      unfolding b by simp_all
    ultimately show ?thesis unfolding copied_def by (blast intro: copiedBoth_mono)
  qed
  show "\<forall>l\<in>set (flattenSchema hub). (OnHub, leafKey l) \<in> set (allClaims lib rules hub spoke policy depth) \<or> copied (leafKey l)"
    using scan(1) new afterRules_ledger(1) by (fastforce simp: scanned_def)
  show "\<forall>l\<in>set (flattenSchema spoke). (OnSpoke, leafKey l) \<in> set (allClaims lib rules hub spoke policy depth) \<or> copied (leafKey l)"
    using scan(2) new afterRules_ledger(1) by fastforce
qed

lemma clean_verdict:
  assumes "errorFree (bDiags (resolveAndBuildOps lib rules hub spoke policy depth))"
    and "policy \<noteq> UnmappedFieldPolicyWarn"
  shows "lossH2S (bVerdict (resolveAndBuildOps lib rules hub spoke policy depth)) \<longleftrightarrow>
      (\<forall>i<length rules. lossH2S (rVerdict (ruleResolved lib rules hub spoke policy depth i)))"
    and "lossS2H (bVerdict (resolveAndBuildOps lib rules hub spoke policy depth)) \<longleftrightarrow>
      (\<forall>i<length rules. lossS2H (rVerdict (ruleResolved lib rules hub spoke policy depth i)))"
  using clean_scan(1)[OF assms] afterRules_ledger(3,4)[of lib rules hub spoke policy depth]
  by (simp_all add: resolveAndBuildOps_unfold scanned_def)

subsection \<open>Nesting\<close>

text \<open>How deep \<open>ForEach\<close> rules nest; a \<open>BranchMap\<close> does not count.\<close>

function forEachNesting :: "rule list \<Rightarrow> nat" where
  "forEachNesting rs = foldr max (map (\<lambda>r.
     (case ruleParams r of ForEachParams hp sp x \<Rightarrow> 1 | _ \<Rightarrow> 0)
     + foldr max (map forEachNesting (nestedRules (ruleParams r))) 0) rs) 0"
  by pat_completeness auto
termination
  by (relation "measure (size_list size)") (auto intro: size_nestedRules_list)

declare forEachNesting.simps [simp del]

lemma foldr_max_le: "foldr max (xs :: nat list) 0 \<le> n \<longleftrightarrow> (\<forall>x\<in>set xs. x \<le> n)"
  by (induction xs) auto

lemma forEachNesting_le:
  "forEachNesting rs \<le> n \<longleftrightarrow>
     (\<forall>r\<in>set rs. case ruleParams r of
        ForEachParams hp sp x \<Rightarrow> Suc (forEachNesting x) \<le> n
      | BranchMapParams hp sp d bs \<Rightarrow> (\<forall>b\<in>set bs. forEachNesting (branchRules b) \<le> n)
      | _ \<Rightarrow> True)"
  by (subst forEachNesting.simps)
    (simp add: foldr_max_le nestedRules_def split: ruleParams.split)

lemma isError_nestDiag [simp]: "effectError (nestDiag w hb sb d) \<longleftrightarrow> isError d"
  by (simp add: nestDiag_def isError_def)

lemma list_all_nestDiag: "list_all (\<lambda>e. \<not> effectError e) (map (nestDiag w hb sb) ds) \<longleftrightarrow> errorFree ds"
  by (simp add: errorFree_def list_all_iff)

lemma forEach_clean:
  assumes "list_all (\<lambda>e. \<not> effectError e) (rEffects (resolveForEach nested idx hp sp rs hub spoke policy depth))"
  shows "depth < MaxForEachDepth \<and> (\<exists>hi si. errorFree (bDiags (nested rs hi si policy (Suc depth))))"
  using assms
  by (auto simp: resolveForEach_def Let_def list_all_nestDiag not_le split: if_splits option.splits)

lemma branchStep_effects:
  "\<exists>es. baEffects (branchStep nested idx hp sp hn sn policy depth ib acc) = baEffects acc @ es"
  by (auto simp: branchStep_def Let_def split: option.splits)

lemma branchFold_effects:
  "\<exists>es. baEffects (fold (branchStep nested idx hp sp hn sn policy depth) ibs acc) = baEffects acc @ es"
proof (induction ibs arbitrary: acc)
  case (Cons ib ibs)
  then show ?case using branchStep_effects by (metis append.assoc fold_simps(2))
qed simp

lemma branchStep_clean:
  assumes "list_all (\<lambda>e. \<not> effectError e) (baEffects (branchStep nested idx hp sp hn sn policy depth ib acc))"
  shows "\<exists>hb sb. errorFree (bDiags (branchNested nested (snd ib) hb sb policy depth))"
  using assms by (auto simp: branchStep_def Let_def errorIf_def list_all_nestDiag split: option.splits if_splits)

lemma branchFold_clean:
  assumes "list_all (\<lambda>e. \<not> effectError e) (baEffects (fold (branchStep nested idx hp sp hn sn policy depth) ibs acc))"
  shows "\<forall>ib\<in>set ibs. \<exists>hb sb. errorFree (bDiags (branchNested nested (snd ib) hb sb policy depth))"
  using assms
proof (induction ibs arbitrary: acc)
  case (Cons ib ibs)
  let ?acc = "branchStep nested idx hp sp hn sn policy depth ib acc"
  from Cons.prems have "list_all (\<lambda>e. \<not> effectError e) (baEffects ?acc)"
    using branchFold_effects[of nested idx hp sp hn sn policy depth ibs ?acc] by auto
  then show ?case using branchStep_clean Cons.IH[of ?acc] Cons.prems by (metis fold_simps(2) set_ConsD)
qed simp

lemma branchMap_clean:
  assumes "list_all (\<lambda>e. \<not> effectError e) (rEffects (resolveBranchMap nested idx hp sp d bs hub spoke policy depth))"
    and "b \<in> set bs"
  shows "\<exists>hb sb. errorFree (bDiags (branchNested nested b hb sb policy depth))"
proof -
  obtain i where i: "(i, b) \<in> set (enumerate 0 bs)"
    using assms(2) unfolding in_set_conv_nth[of b] by (auto simp: in_set_enumerate_eq)
  obtain hn sn acc where "list_all (\<lambda>e. \<not> effectError e)
      (baEffects (fold (branchStep nested idx hp sp hn sn policy depth) (enumerate 0 bs) acc))"
    using assms by (auto simp: resolveBranchMap_def Let_def lookupError_def errorIf_def
        split: sum.splits if_splits)
  from bspec[OF branchFold_clean[OF this] i] show ?thesis by simp
qed

lemma clean_depth:
  "errorFree (bDiags (resolveAndBuildOps lib rules hub spoke policy depth)) \<Longrightarrow> depth \<le> MaxForEachDepth
    \<Longrightarrow> forEachNesting rules \<le> MaxForEachDepth - depth"
proof (induction rules arbitrary: hub spoke depth rule: measure_induct_rule[of "size_list size"])
  case (less rules)
  have nested: "forEachNesting rs \<le> MaxForEachDepth - d"
    if "r \<in> set rules" "rs \<in> set (nestedRules (ruleParams r))"
      "errorFree (bDiags (resolveAndBuildOps lib rs h s policy d))" "d \<le> MaxForEachDepth" for r rs h s d
    using less.IH[OF size_nestedRules_list[OF that(1,2)] that(3,4)] .
  show ?case
  proof (rule forEachNesting_le[THEN iffD2], rule ballI)
    fix r assume r: "r \<in> set rules"
    then obtain i where i: "i < length rules" "rules ! i = r" by (auto simp: in_set_conv_nth)
    then have clean: "list_all (\<lambda>e. \<not> effectError e) (rEffects (resolveRule lib (resolveAndBuildOps lib) (int i) r hub spoke policy depth))"
      using clean_rules(1)[OF less.prems(1)] by (auto simp: ruleSound_def ruleResolved_def)
    show "case ruleParams r of
        ForEachParams hp sp x \<Rightarrow> Suc (forEachNesting x) \<le> MaxForEachDepth - depth
      | BranchMapParams hp sp d bs \<Rightarrow> (\<forall>b\<in>set bs. forEachNesting (branchRules b) \<le> MaxForEachDepth - depth)
      | _ \<Rightarrow> True"
    proof (cases "ruleParams r")
      case (ForEachParams hp sp rs)
      from forEach_clean[of "resolveAndBuildOps lib" "int i" hp sp rs hub spoke policy depth] clean
      obtain hi si where "depth < MaxForEachDepth" "errorFree (bDiags (resolveAndBuildOps lib rs hi si policy (Suc depth)))"
        by (auto simp: resolveRule_def ForEachParams)
      then show ?thesis using nested[OF r, of rs hi si "Suc depth"] by (simp add: ForEachParams nestedRules_def)
    next
      case (BranchMapParams hp sp d bs)
      have "forEachNesting (branchRules b) \<le> MaxForEachDepth - depth" if "b \<in> set bs" for b
      proof (cases "branchRules b = []")
        case True
        then show ?thesis by (simp add: forEachNesting.simps)
      next
        case False
        from branchMap_clean[of "resolveAndBuildOps lib" "int i" hp sp d bs hub spoke policy depth b] clean that
        obtain hb sb where "errorFree (bDiags (resolveAndBuildOps lib (branchRules b) hb sb policy depth))"
          using False by (auto simp: resolveRule_def BranchMapParams branchNested_def)
        then show ?thesis using nested[OF r, of "branchRules b" hb sb depth] that less.prems(2)
          by (simp add: BranchMapParams nestedRules_def)
      qed
      then show ?thesis by (simp add: BranchMapParams)
    qed simp_all
  qed
qed

end
