(* ===== verification/Platform.thy ===== *)
theory Platform
  imports Coverage "HOL-Library.Product_Lexorder" "HOL-Library.Multiset"
begin

text \<open>
  Paths the platform injects into the served schema (\<open>pkg/engine/platform.go\<close>), and the stable
  order of diagnostics. The lemmas show that sorting loses and invents nothing and depends on
  the input order only among diagnostics with the same key.
\<close>

record PlatformInjectedPaths =
  pipPlatform :: string
  pipPaths :: "FieldPath list"
  pipUncertain :: bool
  pipUncertainReason :: string

definition noPlatform :: PlatformInjectedPaths where
  "noPlatform = \<lparr>pipPlatform = [], pipPaths = [], pipUncertain = False, pipUncertainReason = []\<rparr>"

abbreviation CodeAuthoredFieldShadowedByPlatform :: string where
  "CodeAuthoredFieldShadowedByPlatform \<equiv> ''AuthoredFieldShadowedByPlatform''"
abbreviation CodeRuleTargetsInjectedPath :: string where
  "CodeRuleTargetsInjectedPath \<equiv> ''RuleTargetsInjectedPath''"

definition platformName :: "PlatformInjectedPaths \<Rightarrow> string" where
  "platformName p = (if pipPlatform p = [] then ''the platform'' else pipPlatform p)"

definition platformSeverity :: "PlatformInjectedPaths \<Rightarrow> Severity" where
  "platformSeverity p = (if pipUncertain p then SeverityWarning else SeverityError)"

definition uncertaintyNote :: "PlatformInjectedPaths \<Rightarrow> msg" where
  "uncertaintyNote p =
     (if \<not> pipUncertain p then MStr []
      else if pipUncertainReason p = []
      then MStr '' (reported as a warning rather than an error: the applicable injected-field set could not be determined, so this is the union of every candidate and may not apply)''
      else Fmt '' (reported as a warning rather than an error: %s, so this is the union of every candidate set and may not apply)'' [MStr (pipUncertainReason p)])"

fun schemaDeclaresPath :: "schema \<Rightarrow> FieldPath \<Rightarrow> bool" where
  "schemaDeclaresPath node [] = True"
| "schemaDeclaresPath node (seg # rest) =
     (case map_of (sProps node) seg of None \<Rightarrow> False | Some next \<Rightarrow> schemaDeclaresPath next rest)"

definition checkAuthoredShadowing :: "PlatformInjectedPaths \<Rightarrow> schema \<Rightarrow> string \<Rightarrow> string \<Rightarrow> Diagnostic list" where
  "checkAuthoredShadowing p s version side =
     map (\<lambda>path. \<lparr>dSeverity = platformSeverity p, dCode = CodeAuthoredFieldShadowedByPlatform,
        dMessage = Fmt ''the %s version %q schema declares %q, which %s injects into the served schema over the top of it -- the authored declaration never exists at runtime, so rules and coverage analysis against it are meaningless. Rename the field%s''
          [MStr side, MStr version, MStr (pathString path), MStr (platformName p), uncertaintyNote p],
        dRuleIndex = -1, dFieldPath = pathString path, dUncoveredSide = []\<rparr>)
       (filter (schemaDeclaresPath s) (pipPaths p))"

definition owns :: "PlatformInjectedPaths \<Rightarrow> FieldPath \<Rightarrow> FieldPath option" where
  "owns p path = List.find (\<lambda>base. base \<noteq> [] \<and> pathHasPrefix path base) (pipPaths p)"

definition targetDiags :: "PlatformInjectedPaths \<Rightarrow> RuleResult \<Rightarrow> string \<Rightarrow> string list \<Rightarrow> Diagnostic list" where
  "targetDiags p rr side paths =
     concat (map (\<lambda>raw. case owns p (ParsePath raw) of
         None \<Rightarrow> []
       | Some injected \<Rightarrow> [\<lparr>dSeverity = platformSeverity p, dCode = CodeRuleTargetsInjectedPath,
          dMessage = Fmt ''rule %d (%s) targets %s path %q, which is inside %q -- %s owns that subtree and the engine already passes it through untouched in both directions, so converting it is never correct%s''
            [MInt (rrIndex rr), MStr (rrStrategy rr), MStr side, MStr raw, MPath injected, MStr (platformName p), uncertaintyNote p],
          dRuleIndex = rrIndex rr, dFieldPath = raw, dUncoveredSide = []\<rparr>]) paths)"

definition checkRuleTargets :: "PlatformInjectedPaths \<Rightarrow> RuleResult list \<Rightarrow> Diagnostic list" where
  "checkRuleTargets p results =
     (if pipPaths p = [] then []
      else concat (map (\<lambda>rr. targetDiags p rr ''hub'' (rrHubPaths rr) @ targetDiags p rr ''spoke'' (rrSpokePaths rr)) results))"

subsection \<open>Order of diagnostics\<close>

definition diagKey :: "Diagnostic \<Rightarrow> int \<times> string" where
  "diagKey d = (dRuleIndex d, dFieldPath d)"

definition sortDiagnostics :: "Diagnostic list \<Rightarrow> Diagnostic list" where
  "sortDiagnostics ds = sort_key diagKey ds"

lemma set_sortDiagnostics [simp]: "set (sortDiagnostics ds) = set ds"
  by (simp add: sortDiagnostics_def)

lemma mset_sortDiagnostics: "mset (sortDiagnostics ds) = mset ds"
  by (simp add: sortDiagnostics_def)

lemma errorFree_sort [simp]: "errorFree (sortDiagnostics ds) \<longleftrightarrow> errorFree ds"
  by (simp add: errorFree_def list_all_iff)

lemma sortDiagnostics_stable:
  "sorted (map diagKey (sortDiagnostics ds))"
  "filter (\<lambda>d. diagKey d = k) (sortDiagnostics ds) = filter (\<lambda>d. diagKey d = k) ds"
  by (simp_all add: sortDiagnostics_def sort_key_stable)

lemma sortDiagnostics_unique:
  assumes "mset ds = mset es" and "distinct (map diagKey ds)"
  shows "sortDiagnostics ds = sortDiagnostics es"
proof -
  have set: "set es = set ds" using mset_eq_setD[OF assms(1)] by simp
  have "mset (map diagKey es) = mset (map diagKey ds)" using assms(1) by simp
  then have dist: "distinct (map diagKey es)" using assms(2) mset_eq_imp_distinct_iff by blast
  have keys: "mset (map diagKey (sortDiagnostics xs)) = mset (map diagKey xs)" for xs
    by (simp add: mset_sortDiagnostics)
  show ?thesis
  proof (rule map_sorted_distinct_set_unique)
    show "inj_on diagKey (set (sortDiagnostics ds) \<union> set (sortDiagnostics es))"
      using assms(2) set by (simp add: distinct_map)
    show "distinct (map diagKey (sortDiagnostics ds))" "distinct (map diagKey (sortDiagnostics es))"
      using keys assms(2) dist mset_eq_imp_distinct_iff by blast+
  qed (simp_all add: sortDiagnostics_stable set)
qed

end
