(* ===== verification/Required.thy ===== *)
theory Required
  imports Platform
begin

text \<open>
  Required destination fields (\<open>pkg/engine/required.go\<close>): which leaves every converted object must
  carry, and how strong a guarantee the rules give for each. The verdicts are ordered by strength
  as the constants of the source are; the lemmas show that \<open>bestVerdict\<close> is their minimum and what
  the absence of errors means.
\<close>

abbreviation CodeRequiredFieldUnsatisfiable :: string where
  "CodeRequiredFieldUnsatisfiable \<equiv> ''RequiredFieldUnsatisfiable''"
abbreviation CodeRequiredFieldConditional :: string where
  "CodeRequiredFieldConditional \<equiv> ''RequiredFieldConditional''"
abbreviation CodeRequiredFieldUnprovable :: string where
  "CodeRequiredFieldUnprovable \<equiv> ''RequiredFieldUnprovable''"

datatype requiredSatisfaction =
  satisfiedAlways | satisfiedUnprovably | satisfiedConditionally | satisfiedNever

fun satRank :: "requiredSatisfaction \<Rightarrow> nat" where
  "satRank satisfiedAlways = 0"
| "satRank satisfiedUnprovably = 1"
| "satRank satisfiedConditionally = 2"
| "satRank satisfiedNever = 3"

lemma satRank_inj: "satRank x = satRank y \<longleftrightarrow> x = y"
  by (cases x; cases y) auto

instantiation requiredSatisfaction :: linorder
begin

definition less_eq_requiredSatisfaction :: "requiredSatisfaction \<Rightarrow> requiredSatisfaction \<Rightarrow> bool" where
  "x \<le> y \<longleftrightarrow> satRank x \<le> satRank y"

definition less_requiredSatisfaction :: "requiredSatisfaction \<Rightarrow> requiredSatisfaction \<Rightarrow> bool" where
  "x < y \<longleftrightarrow> satRank x < satRank y"

instance
  by standard (auto simp: less_eq_requiredSatisfaction_def less_requiredSatisfaction_def satRank_inj)

end

definition unprovableStrategies :: "Strategy list" where
  "unprovableStrategies = [''CEL'', ''JSONPatch'', ''ScalarToFields'']"

definition destOf :: "string \<Rightarrow> RuleResult \<Rightarrow> string list" where
  "destOf destSide rr = (if destSide = ''hub'' then rrHubPaths rr else rrSpokePaths rr)"

definition srcOf :: "string \<Rightarrow> RuleResult \<Rightarrow> string list" where
  "srcOf destSide rr = (if destSide = ''hub'' then rrSpokePaths rr else rrHubPaths rr)"

definition verdictForRule ::
    "rule \<Rightarrow> RuleResult \<Rightarrow> string list \<Rightarrow> string \<Rightarrow> requiredSatisfaction \<times> msg" where
  "verdictForRule r rr srcRequired destSide =
     (if ruleWhen r \<noteq> None then
        (satisfiedConditionally, Fmt ''the only rule writing it, rule %d (%s), carries a `when` clause and may not fire''
           [MInt (rrIndex rr), MStr (rrStrategy rr)])
      else if rrStrategy rr \<in> set unprovableStrategies then
        (satisfiedUnprovably, Fmt ''rule %d (%s)'' [MInt (rrIndex rr), MStr (rrStrategy rr)])
      else if rrStrategy rr = ''Constant'' \<or> rrStrategy rr = ''DefaultValue'' then (satisfiedAlways, MStr [])
      else (case List.find (\<lambda>s. s \<notin> set srcRequired) (srcOf destSide rr) of
          Some s \<Rightarrow> (satisfiedConditionally,
             Fmt ''rule %d (%s) writes it from %q, which is itself optional, so an input omitting that field converts to an object missing a required one''
               [MInt (rrIndex rr), MStr (rrStrategy rr), MStr s])
        | None \<Rightarrow> (satisfiedAlways, MStr [])))"

definition zeroRule :: rule where
  "zeroRule = Rule [] NoParams False [] 0 None"

definition ruleFor :: "rule list \<Rightarrow> RuleResult \<Rightarrow> rule" where
  "ruleFor rules rr =
     (case List.find (\<lambda>r. ruleSourceIndex r = rrIndex rr) rules of Some r \<Rightarrow> r | None \<Rightarrow> zeroRule)"

fun bestLoop ::
    "rule list \<Rightarrow> RuleResult list \<Rightarrow> string list \<Rightarrow> string \<Rightarrow> nat list \<Rightarrow> requiredSatisfaction \<times> msg \<times> int \<Rightarrow> requiredSatisfaction \<times> msg \<times> int" where
  "bestLoop rules results srcRequired destSide [] best = best"
| "bestLoop rules results srcRequired destSide (i # is) best =
     (let rr = results ! i; vw = verdictForRule (ruleFor rules rr) rr srcRequired destSide in
      bestLoop rules results srcRequired destSide is
        (if fst vw < fst best then (fst vw, snd vw, rrIndex rr) else best))"

definition bestVerdict ::
    "nat list \<Rightarrow> rule list \<Rightarrow> RuleResult list \<Rightarrow> string list \<Rightarrow> string \<Rightarrow> requiredSatisfaction \<times> msg \<times> int" where
  "bestVerdict idxs rules results srcRequired destSide =
     bestLoop rules results srcRequired destSide idxs
       (satisfiedNever, MStr ''no rule writing it guarantees a value'', -1)"

subsection \<open>Which leaves are required\<close>

definition anyHasPrefix :: "string list \<Rightarrow> string \<Rightarrow> bool" where
  "anyHasPrefix paths pre = list_ex (\<lambda>p. hasPrefix p pre) paths"

text \<open>\<open>ancestorsLoop\<close> is the loop of \<open>ancestorsPresent\<close>; \<open>seen\<close> is \<open>path[:i]\<close>.\<close>

fun ancestorsLoop :: "schema \<Rightarrow> FieldPath \<Rightarrow> FieldPath \<Rightarrow> string list \<Rightarrow> bool \<Rightarrow> bool \<times> bool" where
  "ancestorsLoop node seen (seg # l # rest) written wholesale =
     (let ancestor = pathString (seen @ [seg]);
          declared = seg \<in> set (sRequired node);
          into = anyHasPrefix written (ancestor @ ''.'');
          whole = ancestor \<in> set written
      in if \<not> declared \<and> \<not> into \<and> \<not> whole then (False, False)
         else (case map_of (sProps node) seg of
             None \<Rightarrow> (False, False)
           | Some next \<Rightarrow> ancestorsLoop next (seen @ [seg]) (l # rest) written
               (wholesale \<or> (\<not> declared \<and> \<not> into \<and> whole))))"
| "ancestorsLoop node seen _ written wholesale = (True, wholesale)"

definition ancestorsPresent :: "schema \<Rightarrow> FieldPath \<Rightarrow> string list \<Rightarrow> bool \<times> bool" where
  "ancestorsPresent s path written = ancestorsLoop s [] path written False"

record requiredLeaf =
  rlLeaf :: LeafField
  rlWholesale :: bool

definition unconditionallyRequiredLeaves :: "schema \<Rightarrow> string list \<Rightarrow> requiredLeaf list" where
  "unconditionallyRequiredLeaves s written =
     sort_key (\<lambda>l. leafKey (rlLeaf l))
       (map (\<lambda>l. \<lparr>rlLeaf = l, rlWholesale = snd (ancestorsPresent s (lfPath l) written)\<rparr>)
         (filter (\<lambda>l. lfRequired l \<and> fst (ancestorsPresent s (lfPath l) written)) (flattenSchema s)))"

definition writersOf :: "string \<Rightarrow> RuleResult list \<Rightarrow> string \<Rightarrow> nat list" where
  "writersOf destSide results path =
     concat (map (\<lambda>irr. map (\<lambda>_. fst irr) (filter (\<lambda>p. p = path) (destOf destSide (snd irr)))) (enumerate 0 results))"

definition requiredDiag :: "Severity \<Rightarrow> string \<Rightarrow> int \<Rightarrow> string \<Rightarrow> string \<Rightarrow> msg list \<Rightarrow> Diagnostic" where
  "requiredDiag sev code idx path fmt args =
     \<lparr>dSeverity = sev, dCode = code, dMessage = Fmt fmt args, dRuleIndex = idx, dFieldPath = path, dUncoveredSide = []\<rparr>"

definition unwrittenDiags :: "string list \<Rightarrow> string \<Rightarrow> requiredLeaf \<Rightarrow> Diagnostic list" where
  "unwrittenDiags srcRequired destSide l =
     (let path = leafKey (rlLeaf l) in
      if path \<in> set srcRequired then []
      else if rlWholesale l then [requiredDiag SeverityWarning CodeRequiredFieldUnprovable (-1) path
        ''%s field %q is required, and the object containing it is produced whole by a rule rather than written into; whether that rule supplies this key cannot be determined from the plan. Verify empirically with `convctl test --validate-output` or `--fuzz`''
        [MStr destSide, MStr path]]
      else [requiredDiag SeverityError CodeRequiredFieldUnsatisfiable (-1) path
        ''%s field %q is required but no rule writes it and no source field of the same name is required; conversions in this direction produce objects the apiserver will reject''
        [MStr destSide, MStr path]])"

definition writtenDiags :: "string \<Rightarrow> string \<Rightarrow> requiredSatisfaction \<times> msg \<times> int \<Rightarrow> Diagnostic list" where
  "writtenDiags destSide path vwi =
     (case vwi of (v, why, ruleIdx) \<Rightarrow>
       (case v of
          satisfiedAlways \<Rightarrow> []
        | satisfiedUnprovably \<Rightarrow> [requiredDiag SeverityWarning CodeRequiredFieldUnprovable ruleIdx path
            ''%s field %q is required and is written by %s, whose output the engine cannot predict; verify empirically with `convctl test --validate-output` or `--fuzz`'' [MStr destSide, MStr path, why]]
        | satisfiedConditionally \<Rightarrow> [requiredDiag SeverityError CodeRequiredFieldConditional ruleIdx path
            ''%s field %q is required but %s; the conversion succeeds for some inputs and produces an object the apiserver rejects for others. Make the rule unconditional, give the field a schema default, or acknowledge it on the rule'' [MStr destSide, MStr path, why]]
        | satisfiedNever \<Rightarrow> [requiredDiag SeverityError CodeRequiredFieldUnsatisfiable ruleIdx path
            ''%s field %q is required but %s'' [MStr destSide, MStr path, why]]))"

definition requiredLeafDiags ::
    "rule list \<Rightarrow> RuleResult list \<Rightarrow> string list \<Rightarrow> string \<Rightarrow> requiredLeaf \<Rightarrow> Diagnostic list" where
  "requiredLeafDiags rules results srcRequired destSide l =
     (let path = leafKey (rlLeaf l) in
      if sDefault (lfSchema (rlLeaf l)) \<noteq> None then []
      else if writersOf destSide results path = [] then unwrittenDiags srcRequired destSide l
      else writtenDiags destSide path
        (bestVerdict (writersOf destSide results path) rules results srcRequired destSide))"

definition sourceRequired :: "schema \<Rightarrow> string list" where
  "sourceRequired s = map leafKey (filter lfRequired (flattenSchema s))"

definition analyzeRequiredFields ::
    "schema \<Rightarrow> schema \<Rightarrow> rule list \<Rightarrow> RuleResult list \<Rightarrow> string \<Rightarrow> Diagnostic list" where
  "analyzeRequiredFields destSchema srcSchema rules results destSide =
     sortDiagnostics (concat (map (requiredLeafDiags rules results (sourceRequired srcSchema) destSide)
       (unconditionallyRequiredLeaves destSchema (concat (map (destOf destSide) results)))))"

subsection \<open>The strongest guarantee wins\<close>

lemma bestLoop_le:
  "fst (bestLoop rules results sr ds is best) = Min (insert (fst best)
     ((\<lambda>i. fst (verdictForRule (ruleFor rules (results ! i)) (results ! i) sr ds)) ` set is))"
proof (induction "is" arbitrary: best)
  case (Cons i "is")
  let ?v = "\<lambda>i. fst (verdictForRule (ruleFor rules (results ! i)) (results ! i) sr ds)"
  have fin: "finite (?v ` set is)" by simp
  have "fst (bestLoop rules results sr ds (i # is) best) = Min (insert (min (?v i) (fst best)) (?v ` set is))"
  proof -
    have m: "fst (if ?v i < fst best then (?v i, w, x) else best) = min (?v i) (fst best)" for w :: msg and x :: int
      by (auto simp: min_def)
    show ?thesis unfolding bestLoop.simps Let_def Cons.IH m ..
  qed
  also have "\<dots> = Min (insert (fst best) (?v ` set (i # is)))"
    using fin by (cases "set is = {}") (simp_all add: min.assoc min.left_commute min.commute)
  finally show ?case .
qed simp

lemma bestVerdict_Min:
  "fst (bestVerdict idxs rules results sr ds) = Min (insert satisfiedNever
     ((\<lambda>i. fst (verdictForRule (ruleFor rules (results ! i)) (results ! i) sr ds)) ` set idxs))"
  by (simp add: bestVerdict_def bestLoop_le)

lemma requiredDiag_isError [simp]: "isError (requiredDiag sev c i p f a) \<longleftrightarrow> sev = SeverityError"
  by (simp add: requiredDiag_def isError_def)

lemma concat_errorFree: "errorFree (concat (map f xs)) \<longleftrightarrow> (\<forall>x\<in>set xs. errorFree (f x))"
  by (induction xs) auto

text \<open>
  Without errors, every leaf that must be there has a default, or is written by a rule that is
  unconditional (or at least of unpredictable output), or is required in the source under the
  same path, or lies in an object some rule produces whole.
\<close>

lemma required_clean:
  assumes "errorFree (analyzeRequiredFields dst src rules results ds)"
    and "l \<in> set (flattenSchema dst)" and "lfRequired l"
    and "fst (ancestorsPresent dst (lfPath l) (concat (map (destOf ds) results)))"
    and "sDefault (lfSchema l) = None"
  defines "ws \<equiv> writersOf ds results (leafKey l)"
  shows "(\<exists>i\<in>set ws. fst (verdictForRule (ruleFor rules (results ! i)) (results ! i) (sourceRequired src) ds) \<le> satisfiedUnprovably)
    \<or> ws = [] \<and> (leafKey l \<in> set (sourceRequired src) \<or> snd (ancestorsPresent dst (lfPath l) (concat (map (destOf ds) results))))"
proof -
  let ?w = "concat (map (destOf ds) results)"
  let ?l = "\<lparr>rlLeaf = l, rlWholesale = snd (ancestorsPresent dst (lfPath l) ?w)\<rparr>"
  let ?v = "\<lambda>i. fst (verdictForRule (ruleFor rules (results ! i)) (results ! i) (sourceRequired src) ds)"
  have "?l \<in> set (unconditionallyRequiredLeaves dst ?w)"
    using assms(2-4) by (auto simp: unconditionallyRequiredLeaves_def)
  then have clean: "errorFree (requiredLeafDiags rules results (sourceRequired src) ds ?l)"
    using assms(1) by (simp add: analyzeRequiredFields_def concat_errorFree)
  show ?thesis
  proof (cases "ws = []")
    case True
    then show ?thesis using clean assms(5)
      by (auto simp: requiredLeafDiags_def unwrittenDiags_def Let_def ws_def split: if_splits)
  next
    case False
    obtain v why ix where b: "bestVerdict ws rules results (sourceRequired src) ds = (v, why, ix)"
      by (cases "bestVerdict ws rules results (sourceRequired src) ds")
    have "v = satisfiedAlways \<or> v = satisfiedUnprovably"
      using clean False assms(5) b
      by (cases v) (auto simp: requiredLeafDiags_def writtenDiags_def Let_def ws_def)
    then have v: "v \<le> satisfiedUnprovably" "v \<noteq> satisfiedNever" by (auto simp: less_eq_requiredSatisfaction_def)
    have "v = Min (insert satisfiedNever (?v ` set ws))" using bestVerdict_Min[of ws rules results "sourceRequired src" ds] b by simp
    then have "v \<in> insert satisfiedNever (?v ` set ws)" using Min_in[of "insert satisfiedNever (?v ` set ws)"] by simp
    then show ?thesis using v by auto
  qed
qed

subsection \<open>What the check says about the rules\<close>

text \<open>
  The parents of a path are there: each is required by the object it lies in, or a rule writes it or
  something below it. A parent may be written itself, as a whole.
\<close>

definition parentsPresent :: "schema \<Rightarrow> FieldPath \<Rightarrow> string list \<Rightarrow> bool" where
  "parentsPresent s path written \<longleftrightarrow> (\<forall>i. Suc i < length path \<longrightarrow>
     (\<exists>node. lookupPath s (take i path) = Inr node \<and> path ! i \<in> set (sRequired node))
     \<or> (\<exists>w\<in>set written. w = pathString (take (Suc i) path) \<or> hasPrefix w (pathString (take (Suc i) path) @ ''.'')))"

definition parentWritten :: "FieldPath \<Rightarrow> string list \<Rightarrow> bool" where
  "parentWritten path written \<longleftrightarrow> (\<exists>i. Suc i < length path \<and> pathString (take (Suc i) path) \<in> set written)"

lemma ancestorsLoop_present:
  assumes "lookupPath node path = Inr t"
    and "\<forall>i. Suc i < length path \<longrightarrow> (\<exists>nd. lookupPath node (take i path) = Inr nd \<and> path ! i \<in> set (sRequired nd))
      \<or> (\<exists>w\<in>set written. w = pathString (seen @ take (Suc i) path) \<or> hasPrefix w (pathString (seen @ take (Suc i) path) @ ''.''))"
  shows "fst (ancestorsLoop node seen path written wholesale)"
  using assms
proof (induction node seen path written wholesale rule: ancestorsLoop.induct)
  case (1 node seen seg l rest written wholesale)
  obtain u where u: "map_of (sProps node) seg = Some u" "lookupPath u (l # rest) = Inr t"
    using "1.prems"(1) lookupPath_Cons by blast
  have next_present: "(\<exists>nd. lookupPath u (take i (l # rest)) = Inr nd \<and> (l # rest) ! i \<in> set (sRequired nd))
      \<or> (\<exists>w\<in>set written. w = pathString ((seen @ [seg]) @ take (Suc i) (l # rest)) \<or> hasPrefix w (pathString ((seen @ [seg]) @ take (Suc i) (l # rest)) @ ''.''))"
    if "Suc i < length (l # rest)" for i
    using that "1.prems"(2)[rule_format, of "Suc i"] u(1) by (simp add: lookupPath_Cons)
  have "\<not> (seg \<notin> set (sRequired node) \<and> \<not> anyHasPrefix written (pathString (seen @ [seg]) @ ''.'') \<and> pathString (seen @ [seg]) \<notin> set written)"
    using "1.prems"(2)[rule_format, of 0] by (auto simp: anyHasPrefix_def list_ex_iff)
  with "1.IH"[OF refl refl refl refl _ u(1,2)] next_present show ?case
    by (simp only: ancestorsLoop.simps Let_def u(1) option.case if_False) blast
qed simp_all

lemma ancestorsLoop_wholesale:
  "snd (ancestorsLoop node seen path written wholesale) \<Longrightarrow> wholesale \<or> (\<exists>i. Suc i < length path \<and> pathString (seen @ take (Suc i) path) \<in> set written)"
proof (induction node seen path written wholesale rule: ancestorsLoop.induct)
  case (1 node seen seg l rest written wholesale)
  let ?goal = "\<exists>i. Suc i < length (seg # l # rest) \<and> pathString (seen @ take (Suc i) (seg # l # rest)) \<in> set written"
  obtain u where u: "map_of (sProps node) seg = Some u"
    and step: "snd (ancestorsLoop u (seen @ [seg]) (l # rest) written
      (wholesale \<or> (seg \<notin> set (sRequired node) \<and> \<not> anyHasPrefix written (pathString (seen @ [seg]) @ ''.'') \<and> pathString (seen @ [seg]) \<in> set written)))"
    and ok: "\<not> (seg \<notin> set (sRequired node) \<and> \<not> anyHasPrefix written (pathString (seen @ [seg]) @ ''.'') \<and> pathString (seen @ [seg]) \<notin> set written)"
    using "1.prems" by (auto simp: Let_def split: if_splits option.splits)
  have here: ?goal if "pathString (seen @ [seg]) \<in> set written" using that by (intro exI[of _ 0]) simp
  have below: ?goal if "Suc i < length (l # rest)" "pathString ((seen @ [seg]) @ take (Suc i) (l # rest)) \<in> set written" for i
    using that by (intro exI[of _ "Suc i"]) simp
  from "1.IH"[OF refl refl refl refl ok u step] show ?case using here below by blast
qed simp_all

lemma ancestors_spec:
  assumes "lookupPath s path = Inr t"
  shows "parentsPresent s path written \<Longrightarrow> fst (ancestorsPresent s path written)"
    and "snd (ancestorsPresent s path written) \<Longrightarrow> parentWritten path written"
  using ancestorsLoop_present[OF assms, of written "[]"] ancestorsLoop_wholesale[of s "[]" path written False]
  by (simp_all add: ancestorsPresent_def parentsPresent_def parentWritten_def)

lemma verdictForRule_strong:
  "fst (verdictForRule r rr srcRequired ds) \<le> satisfiedUnprovably \<longleftrightarrow>
     ruleWhen r = None \<and> (rrStrategy rr \<in> {''CEL'', ''JSONPatch'', ''ScalarToFields'', ''Constant'', ''DefaultValue''}
       \<or> (\<forall>p\<in>set (if ds = ''hub'' then rrSpokePaths rr else rrHubPaths rr). p \<in> set srcRequired))"
  by (auto simp: verdictForRule_def unprovableStrategies_def srcOf_def less_eq_requiredSatisfaction_def find_None_iff find_Some_iff
      split: option.splits) 

lemma set_writersOf:
  "i \<in> set (writersOf ds results path) \<longleftrightarrow>
     i < length results \<and> path \<in> set (if ds = ''hub'' then rrHubPaths (results ! i) else rrSpokePaths (results ! i))"
proof -
  have "i \<in> set (writersOf ds results path) \<longleftrightarrow> (\<exists>x\<in>set (List.enumerate 0 results). i = fst x \<and> path \<in> set (destOf ds (snd x)))"
    by (auto simp: writersOf_def)
  also have "\<dots> \<longleftrightarrow> i < length results \<and> path \<in> set (destOf ds (results ! i))"
    by (auto simp: in_set_enumerate_eq intro!: bexI[of _ "(i, results ! i)"])
  finally show ?thesis by (simp add: destOf_def)
qed

text \<open>A path of a leaf that is required in the object it lies in.\<close>

definition requiredLeafOf :: "schema \<Rightarrow> string \<Rightarrow> bool" where
  "requiredLeafOf s p \<longleftrightarrow> (\<exists>l\<in>set (flattenSchema s). lfRequired l \<and> leafKey l = p)"

lemma sourceRequired_iff: "p \<in> set (sourceRequired s) \<longleftrightarrow> requiredLeafOf s p"
  by (auto simp: sourceRequired_def requiredLeafOf_def)

end
