(* ===== verification/Normalize.thy ===== *)
theory Normalize
  imports SchemaModel
begin

text \<open>
  Normalisation of schemas (\<open>pkg/engine/normalize.go\<close>): local references resolved, \<open>allOf\<close> branches
  merged into their parent. The set of references being resolved is the \<open>inFlight\<close> map of the
  normalizer; a deferred deletion restores it, so it is passed down only. The walk also descends
  into what merging added, and therefore recurses on schemas that are no part of its argument:
  \<open>normalizeNode\<close> takes fuel, \<open>None\<close> is running out of it, and \<open>normalizeFuel\<close> is shown to suffice
  for every schema. The sibling names of a reference are the JSON names of the fields set.
\<close>

subsection \<open>References\<close>

definition unescapePointerSegment :: "string \<Rightarrow> string" where
  "unescapePointerSegment s = replaceAll (replaceAll s ''~1'' ''/'') ''~0'' ''~''"

definition pathOrRoot :: "FieldPath \<Rightarrow> msg" where
  "pathOrRoot p = (if p = [] then MStr ''(root)'' else MPath p)"

fun resolveSegments :: "string \<Rightarrow> schema \<Rightarrow> string list \<Rightarrow> gerr + schema" where
  "resolveSegments ref cur [] = Inr cur"
| "resolveSegments ref cur (seg' # segs) =
     (let seg = unescapePointerSegment seg' in
      if seg = ''definitions'' \<or> seg = ''properties'' then
        (case segs of
           [] \<Rightarrow> Inl (Fmt ''$ref %q ends at %q without naming a schema'' [MStr ref, MStr seg])
         | key' # segs' \<Rightarrow>
             (let key = unescapePointerSegment key' in
              case map_of (if seg = ''definitions'' then sDefs cur else sProps cur) key of
                None \<Rightarrow> Inl (Fmt ''$ref %q: no %s named %q at that point in the document''
                          [MStr ref, MStr (butlast seg), MStr key])
              | Some next' \<Rightarrow> resolveSegments ref next' segs'))
      else if seg = ''items'' then
        (case sItems cur of
           None \<Rightarrow> Inl (Fmt ''$ref %q: no items schema at that point in the document'' [MStr ref])
         | Some it \<Rightarrow> resolveSegments ref it segs)
      else if seg = ''additionalProperties'' then
        (case sAddl cur of
           Some (al, Some ap) \<Rightarrow> resolveSegments ref ap segs
         | _ \<Rightarrow> Inl (Fmt ''$ref %q: no additionalProperties schema at that point in the document'' [MStr ref]))
      else Inl (Fmt ''$ref %q: %q is not a traversable part of a schema (expected definitions, properties, items or additionalProperties)''
             [MStr ref, MStr seg]))"

definition resolvePointer :: "schema \<Rightarrow> string \<Rightarrow> gerr + schema" where
  "resolvePointer doc ref =
     (let ptr = trimPrefix (trimPrefix ref ''#'') ''/'' in
      if ptr = [] then Inr doc else resolveSegments ref doc (splitStr ptr ''/''))"

definition refSiblings :: "schema \<Rightarrow> string list" where
  "refSiblings s = sort
     ((if sType s \<noteq> [] then [''type''] else []) @ (if sProps s \<noteq> [] then [''properties''] else [])
      @ (if sRequired s \<noteq> [] then [''required''] else []) @ (if sAddl s \<noteq> None then [''additionalProperties''] else [])
      @ (if sItems s \<noteq> None then [''items''] else []) @ (if sMaxItems s \<noteq> None then [''maxItems''] else [])
      @ (if sPreserve s \<noteq> None then [''x-kubernetes-preserve-unknown-fields''] else [])
      @ (if sAllOf s \<noteq> [] then [''allOf''] else []) @ (if sOneOf s \<noteq> [] then [''oneOf''] else [])
      @ (if sAnyOf s \<noteq> [] then [''anyOf''] else []) @ (if sDefault s \<noteq> None then [''default''] else [])
      @ (if sNullable s then [''nullable''] else []) @ (if sEnum s \<noteq> [] then [''enum''] else [])
      @ (if sDefs s \<noteq> [] then [''definitions''] else []) @ sOther s)"

subsection \<open>Merging an allOf branch\<close>

definition canonicalJSON :: "golib \<Rightarrow> string \<Rightarrow> string" where
  "canonicalJSON lib raw =
     (case lib_Unmarshal lib raw of
        Inl _ \<Rightarrow> raw
      | Inr v \<Rightarrow> (case lib_Marshal lib v of Inl _ \<Rightarrow> raw | Inr out \<Rightarrow> out))"

definition intersectEnums :: "golib \<Rightarrow> string list \<Rightarrow> string list \<Rightarrow> gerr + string list" where
  "intersectEnums lib dst src =
     (if dst = [] then Inr src
      else (let out = filter (\<lambda>v. canonicalJSON lib v \<in> set (map (canonicalJSON lib) src)) dst in
            if out = [] then Inl (MStr ''its enum shares no value with the parent's, so no value could ever satisfy both'')
            else Inr out))"

definition unionRequired :: "string list \<Rightarrow> string list \<Rightarrow> string list" where
  "unionRequired dst src = sort (remdups (dst @ src))"

definition mergeUnion :: "msg \<Rightarrow> string \<Rightarrow> schema list \<Rightarrow> schema list \<Rightarrow> gerr + schema list" where
  "mergeUnion loc name dst src =
     (if src = [] then Inr dst
      else if dst \<noteq> [] then Inl (Fmt ''%s: declares %s while the parent already does; two unions over the same node cannot be merged into one, so express the combination as a single %s''
             [loc, MStr name, MStr name])
      else Inr src)"

definition mergeType :: "msg \<Rightarrow> string \<Rightarrow> string \<Rightarrow> gerr + string" where
  "mergeType loc dst src =
     (if src = [] then Inr dst
      else if dst \<noteq> [] \<and> dst \<noteq> src
      then Inl (Fmt ''%s: conflicting type %q against %q on the parent; an allOf cannot narrow a field to two different types'' [loc, MStr src, MStr dst])
      else Inr src)"

definition mergePreserve :: "msg \<Rightarrow> bool option \<Rightarrow> bool option \<Rightarrow> gerr + bool option" where
  "mergePreserve loc dst src =
     (case src of
        None \<Rightarrow> Inr dst
      | Some b \<Rightarrow> (if dst = Some (\<not> b)
          then Inl (Fmt ''%s: conflicting x-kubernetes-preserve-unknown-fields against the parent'' [loc]) else Inr (Some b)))"

definition mergeEnum :: "golib \<Rightarrow> msg \<Rightarrow> string list \<Rightarrow> string list \<Rightarrow> gerr + string list" where
  "mergeEnum lib loc dst src =
     (if src = [] then Inr dst
      else (case intersectEnums lib dst src of Inl e \<Rightarrow> Inl (Fmt ''%s: %w'' [loc, e]) | Inr m \<Rightarrow> Inr m))"

lemma size_child:
  "map_of (sProps s) n = Some p \<Longrightarrow> size p < size s"
  "sItems s = Some p \<Longrightarrow> size p < size s"
  "sAddl s = Some (al, Some p) \<Longrightarrow> size p < size s"
  using size_sProps[of n p s] by (auto dest: map_of_SomeD) (cases s; simp)+

function mergeSchema :: "golib \<Rightarrow> schema \<Rightarrow> schema \<Rightarrow> FieldPath \<Rightarrow> nat \<Rightarrow> gerr + schema" where
  "mergeSchema lib dst src path branch =
     (let loc = Fmt ''schema at %q, allOf[%d]'' [pathOrRoot path, MInt (int branch)] in
      bindR (mergeType loc (sType dst) (sType src)) (\<lambda>ty.
      bindR (mergePreserve loc (sPreserve dst) (sPreserve src)) (\<lambda>pr.
      bindR (mergeEnum lib loc (sEnum dst) (sEnum src)) (\<lambda>en.
      bindR (mergeUnion loc ''oneOf'' (sOneOf dst) (sOneOf src)) (\<lambda>on.
      bindR (mergeUnion loc ''anyOf'' (sAnyOf dst) (sAnyOf src)) (\<lambda>an.
      bindR (foldR (\<lambda>name props.
               case map_of (sProps src) name of
                 None \<Rightarrow> Inr props
               | Some srcProp \<Rightarrow>
                   (case map_of props name of
                      Some dstProp \<Rightarrow> bindR (mergeSchema lib dstProp srcProp (path @ [name]) branch)
                        (\<lambda>merged. Inr (AList.update name merged props))
                    | None \<Rightarrow> Inr (AList.update name srcProp props)))
             (sort (map fst (sProps src))) (sProps dst)) (\<lambda>props.
      bindR (case sItems src of
               None \<Rightarrow> Inr (sItems dst)
             | Some si \<Rightarrow>
                 (case sItems dst of
                    None \<Rightarrow> Inr (Some si)
                  | Some di \<Rightarrow> bindR (mergeSchema lib di si (path @ [''[]'']) branch) (\<lambda>merged. Inr (Some merged)))) (\<lambda>it.
      bindR (case sAddl src of
               None \<Rightarrow> Inr (sAddl dst)
             | Some (al, so) \<Rightarrow>
                 (case sAddl dst of
                    None \<Rightarrow> Inr (Some (al, so))
                  | Some (dal, do') \<Rightarrow>
                      (case so of
                         None \<Rightarrow> Inr (sAddl dst)
                       | Some ss \<Rightarrow>
                           (case do' of
                              None \<Rightarrow> Inr (sAddl dst)
                            | Some ds \<Rightarrow> bindR (mergeSchema lib ds ss (path @ [''{}'']) branch)
                                (\<lambda>merged. Inr (Some (dal, Some merged))))))) (\<lambda>ad.
      Inr (Schema ty props
            (if sRequired src = [] then sRequired dst else unionRequired (sRequired dst) (sRequired src))
            ad it (sMaxItems dst) pr (sRef dst) (sAllOf dst) on an (sDefault dst)
            (if sType src = [] then sNullable dst else sNullable dst \<and> sNullable src)
            en (sDefs dst) (sOther dst)))))))))))"
  by pat_completeness auto
termination
  by (relation "measure (\<lambda>(lib, dst, src, path, branch). size src)") (auto intro: size_child)

declare mergeSchema.simps [simp del]

subsection \<open>The walk\<close>

text \<open>Results of a computation that may run out of fuel.\<close>

type_synonym 'a fuelled = "(gerr + 'a) option"

definition bindF :: "'a fuelled \<Rightarrow> ('a \<Rightarrow> 'b fuelled) \<Rightarrow> 'b fuelled" where
  "bindF m f = (case m of None \<Rightarrow> None | Some (Inl e) \<Rightarrow> Some (Inl e) | Some (Inr x) \<Rightarrow> f x)"

lemma bindF_simps [simp]: "bindF None f = None" "bindF (Some (Inl e)) f = Some (Inl e)" "bindF (Some (Inr x)) f = f x"
  by (simp_all add: bindF_def)

lemma bindF_Inr: "bindF m f = Some (Inr y) \<longleftrightarrow> (\<exists>x. m = Some (Inr x) \<and> f x = Some (Inr y))"
  by (auto simp: bindF_def split: option.splits sum.splits)

fun foldF :: "('a \<Rightarrow> 's \<Rightarrow> 's fuelled) \<Rightarrow> 'a list \<Rightarrow> 's \<Rightarrow> 's fuelled" where
  "foldF f [] s = Some (Inr s)"
| "foldF f (x # xs) s = bindF (f x s) (foldF f xs)"

fun mapF :: "('a \<Rightarrow> 'b fuelled) \<Rightarrow> 'a list \<Rightarrow> 'b list fuelled" where
  "mapF f [] = Some (Inr [])"
| "mapF f (x # xs) = bindF (f x) (\<lambda>y. bindF (mapF f xs) (\<lambda>ys. Some (Inr (y # ys))))"

type_synonym walker = "string set \<Rightarrow> schema \<Rightarrow> FieldPath \<Rightarrow> schema fuelled"

definition liveRef :: "schema \<Rightarrow> string option" where
  "liveRef s = (case sRef s of None \<Rightarrow> None | Some r \<Rightarrow> (if r = [] then None else Some r))"

definition resolveRef :: "walker \<Rightarrow> schema \<Rightarrow> string set \<Rightarrow> schema \<Rightarrow> string \<Rightarrow> FieldPath \<Rightarrow> schema fuelled" where
  "resolveRef walk doc inFlight s ref path =
     (if \<not> hasPrefix ref ''#''
      then Some (Inl (Fmt ''schema at %q: $ref %q is not local; only references within the same document (#/...) are supported, because resolving a remote one would make analysis depend on the network''
             [pathOrRoot path, MStr ref]))
      else if refSiblings s \<noteq> []
      then Some (Inl (Fmt ''schema at %q: $ref %q also sets %s; a $ref node is replaced by what it points at, so those would be silently discarded -- move them into the referenced schema''
             [pathOrRoot path, MStr ref, MStr (joinStr (refSiblings s) '', '')]))
      else if ref \<in> inFlight
      then Some (Inl (Fmt ''schema at %q: $ref %q is cyclic; it resolves, directly or indirectly, back to itself'' [pathOrRoot path, MStr ref]))
      else (case resolvePointer doc ref of
              Inl e \<Rightarrow> Some (Inl (Fmt ''schema at %q: %w'' [pathOrRoot path, e]))
            | Inr target \<Rightarrow> walk (insert ref inFlight) target path))"

definition clearAllOf :: "schema \<Rightarrow> schema" where
  "clearAllOf s = Schema (sType s) (sProps s) (sRequired s) (sAddl s) (sItems s) (sMaxItems s) (sPreserve s) (sRef s)
     [] (sOneOf s) (sAnyOf s) (sDefault s) (sNullable s) (sEnum s) (sDefs s) (sOther s)"

definition mergeBranches :: "walker \<Rightarrow> golib \<Rightarrow> string set \<Rightarrow> schema \<Rightarrow> FieldPath \<Rightarrow> schema fuelled" where
  "mergeBranches walk lib inFlight s path =
     foldF (\<lambda>ib out. bindF (walk inFlight (snd ib) path) (\<lambda>branch. Some (mergeSchema lib out branch path (fst ib))))
       (List.enumerate 0 (sAllOf s)) (clearAllOf s)"

definition walkProps :: "walker \<Rightarrow> string set \<Rightarrow> schema \<Rightarrow> FieldPath \<Rightarrow> (string \<times> schema) list fuelled" where
  "walkProps walk inFlight out path =
     mapF (\<lambda>np. bindF (walk inFlight (snd np) (path @ [fst np])) (\<lambda>p. Some (Inr (fst np, p)))) (sProps out)"

definition walkItems :: "walker \<Rightarrow> string set \<Rightarrow> schema \<Rightarrow> FieldPath \<Rightarrow> schema option fuelled" where
  "walkItems walk inFlight out path =
     (case sItems out of
        None \<Rightarrow> Some (Inr None)
      | Some it \<Rightarrow> bindF (walk inFlight it (path @ [''[]''])) (\<lambda>it'. Some (Inr (Some it'))))"

definition walkAddl :: "walker \<Rightarrow> string set \<Rightarrow> schema \<Rightarrow> FieldPath \<Rightarrow> (bool \<times> schema option) option fuelled" where
  "walkAddl walk inFlight out path =
     (case sAddl out of
        None \<Rightarrow> Some (Inr None)
      | Some (al, ap) \<Rightarrow>
          (case ap of
             None \<Rightarrow> Some (Inr (Some (al, None)))
           | Some s \<Rightarrow> bindF (walk inFlight s (path @ [''{}''])) (\<lambda>s'. Some (Inr (Some (al, Some s'))))))"

definition rebuilt :: "schema \<Rightarrow> (string \<times> schema) list \<Rightarrow> schema option \<Rightarrow> (bool \<times> schema option) option \<Rightarrow> schema" where
  "rebuilt s props it ad = Schema (sType s) props (sRequired s) ad it (sMaxItems s) (sPreserve s) (sRef s)
     (sAllOf s) (sOneOf s) (sAnyOf s) (sDefault s) (sNullable s) (sEnum s) (sDefs s) (sOther s)"

fun normalizeNode :: "nat \<Rightarrow> golib \<Rightarrow> schema \<Rightarrow> string set \<Rightarrow> schema \<Rightarrow> FieldPath \<Rightarrow> schema fuelled" where
  "normalizeNode 0 lib doc inFlight s path = None"
| "normalizeNode (Suc n) lib doc inFlight s path =
     (let walk = normalizeNode n lib doc in
      case liveRef s of
        Some ref \<Rightarrow> resolveRef walk doc inFlight s ref path
      | None \<Rightarrow>
          bindF (mergeBranches walk lib inFlight s path) (\<lambda>out.
          bindF (walkProps walk inFlight out path) (\<lambda>props.
          bindF (walkItems walk inFlight out path) (\<lambda>it.
          bindF (walkAddl walk inFlight out path) (\<lambda>ad.
          Some (Inr (rebuilt out props it ad)))))))"

text \<open>The references anywhere in a document; one resolution of each nests at most.\<close>

definition belowSchema :: "schema \<Rightarrow> schema list" where
  "belowSchema s = sAllOf s @ map snd (sProps s) @ map snd (sDefs s)
     @ (case sItems s of None \<Rightarrow> [] | Some i \<Rightarrow> [i]) @ (case sAddl s of Some (al, Some p) \<Rightarrow> [p] | _ \<Rightarrow> [])"

lemma size_belowSchema: "c \<in> set (belowSchema s) \<Longrightarrow> size c < size s"
proof (cases s)
  case (Schema ty props req ad it mx pr rf al on an df nu en ds ot)
  have l: "x \<in> set xs \<Longrightarrow> size x \<le> size_list size xs" for x :: schema and xs
    by (induction xs) auto
  have p: "(k, x) \<in> set xs \<Longrightarrow> size x \<le> size_list (size_prod (\<lambda>_. 0) size) xs" for k x and xs :: "(string \<times> schema) list"
    by (induction xs) auto
  assume "c \<in> set (belowSchema s)"
  then consider "c \<in> set al" | k where "(k, c) \<in> set props" | k where "(k, c) \<in> set ds" | "it = Some c" | b where "ad = Some (b, Some c)"
    by (auto simp: Schema belowSchema_def split: option.splits)
  then show ?thesis
    by cases (use l[of c al] p in \<open>force simp: Schema\<close>)+
qed

function schemaRefs :: "schema \<Rightarrow> string list" where
  "schemaRefs s = (case liveRef s of None \<Rightarrow> [] | Some r \<Rightarrow> [r]) @ concat (map schemaRefs (belowSchema s))"
  by pat_completeness auto
termination
  by (relation "measure size") (auto intro: size_belowSchema)

declare schemaRefs.simps [simp del]

definition normalizeFuel :: "schema \<Rightarrow> nat" where
  "normalizeFuel doc = Suc (size doc + length (schemaRefs doc) * Suc (size doc))"

definition NormalizeSchema :: "golib \<Rightarrow> schema \<Rightarrow> gerr + schema" where
  "NormalizeSchema lib s =
     (case normalizeNode (normalizeFuel s) lib s {} s [] of None \<Rightarrow> Inl (MStr ''out of fuel'') | Some r \<Rightarrow> r)"

definition NormalizedVersions :: "golib \<Rightarrow> VersionSchema list \<Rightarrow> gerr + VersionSchema list" where
  "NormalizedVersions lib versions =
     mapR (\<lambda>v. case NormalizeSchema lib (vsSchema v) of
              Inl e \<Rightarrow> Inl (Fmt ''version %q: %w'' [MStr (vsName v), e])
            | Inr normalized \<Rightarrow> Inr (v\<lparr>vsSchema := normalized\<rparr>)) versions"

subsection \<open>What normalisation leaves\<close>

definition walkChildren :: "schema \<Rightarrow> schema list" where
  "walkChildren s = map snd (sProps s)
     @ (case sItems s of None \<Rightarrow> [] | Some i \<Rightarrow> [i]) @ (case sAddl s of Some (al, Some p) \<Rightarrow> [p] | _ \<Rightarrow> [])"

lemma walkChildren_below: "c \<in> set (walkChildren s) \<Longrightarrow> c \<in> set (belowSchema s)"
  by (auto simp: walkChildren_def belowSchema_def)

text \<open>A schema without references and \<open>allOf\<close> wherever the engine looks.\<close>

function junctorFree :: "schema \<Rightarrow> bool" where
  "junctorFree s \<longleftrightarrow> liveRef s = None \<and> sAllOf s = [] \<and> (\<forall>c\<in>set (walkChildren s). junctorFree c)"
  by pat_completeness auto
termination
  by (relation "measure size") (auto intro: size_belowSchema walkChildren_below)

declare junctorFree.simps [simp del]

lemma mergeSchema_keeps:
  assumes "mergeSchema lib dst src path b = Inr m"
  shows "sRef m = sRef dst" and "sAllOf m = sAllOf dst" and "sDefs m = sDefs dst"
  using assms by (subst (asm) mergeSchema.simps; auto simp: Let_def bindR_Inr_iff)+

lemma foldF_invariant:
  assumes "foldF f xs s = Some (Inr t)" and "P s"
    and "\<And>x a a'. x \<in> set xs \<Longrightarrow> P a \<Longrightarrow> f x a = Some (Inr a') \<Longrightarrow> P a'"
  shows "P t"
  using assms by (induction xs arbitrary: s) (auto simp: bindF_Inr)

lemma mergeBranches_keeps:
  assumes "mergeBranches walk lib F s path = Some (Inr out)"
  shows "sRef out = sRef s" and "sAllOf out = []"
proof -
  have "sRef out = sRef s \<and> sAllOf out = []"
    by (rule foldF_invariant[OF assms[unfolded mergeBranches_def]])
       (auto simp: bindF_Inr clearAllOf_def dest: mergeSchema_keeps)
  then show "sRef out = sRef s" and "sAllOf out = []" by blast+
qed

lemma mapF_Inr: "mapF f xs = Some (Inr ys) \<longleftrightarrow> list_all2 (\<lambda>x y. f x = Some (Inr y)) xs ys"
proof (induction xs arbitrary: ys)
  case (Cons x xs)
  then show ?case by (cases ys) (auto simp: bindF_Inr)
qed auto

lemma walkProps_Inr:
  assumes "walkProps walk F out path = Some (Inr props)"
  shows "p \<in> snd ` set props \<Longrightarrow> \<exists>q\<in>snd ` set (sProps out). \<exists>pt. walk F q pt = Some (Inr p)"
proof -
  assume "p \<in> snd ` set props"
  then obtain i where i: "i < length props" "snd (props ! i) = p" by (auto simp: in_set_conv_nth)
  have "list_all2 (\<lambda>x y. bindF (walk F (snd x) (path @ [fst x])) (\<lambda>p. Some (Inr (fst x, p))) = Some (Inr y)) (sProps out) props"
    using assms by (simp add: walkProps_def mapF_Inr)
  then have "bindF (walk F (snd (sProps out ! i)) (path @ [fst (sProps out ! i)])) (\<lambda>p. Some (Inr (fst (sProps out ! i), p))) = Some (Inr (props ! i))"
    and "i < length (sProps out)" using i(1) by (auto simp: list_all2_conv_all_nth)
  then have "walk F (snd (sProps out ! i)) (path @ [fst (sProps out ! i)]) = Some (Inr p)" and "sProps out ! i \<in> set (sProps out)"
    using i(2) by (auto simp: bindF_Inr dest: arg_cong[where f = snd])
  then show ?thesis by blast
qed

lemma rebuilt_children:
  assumes "walkProps walk F out path = Some (Inr props)" and "walkItems walk F out path = Some (Inr it)"
    and "walkAddl walk F out path = Some (Inr ad)" and "c \<in> set (walkChildren (rebuilt out props it ad))"
  shows "\<exists>q\<in>set (walkChildren out). \<exists>pt. walk F q pt = Some (Inr c)"
proof -
  consider "c \<in> snd ` set props" | "it = Some c" | al where "ad = Some (al, Some c)"
    using assms(4) by (auto simp: walkChildren_def rebuilt_def split: option.splits)
  then show ?thesis
  proof cases
    case 1
    then show ?thesis using walkProps_Inr[OF assms(1), of c] by (auto simp: walkChildren_def)
  next
    case 2
    then show ?thesis using assms(2) by (auto simp: walkItems_def walkChildren_def bindF_Inr split: option.splits)
  next
    case 3
    then show ?thesis using assms(3) by (auto simp: walkAddl_def walkChildren_def bindF_Inr split: option.splits)
  qed
qed

lemma normalizeNode_body:
  assumes "normalizeNode (Suc n) lib doc F s path = Some (Inr s')" and "liveRef s = None"
  obtains out props it ad where "mergeBranches (normalizeNode n lib doc) lib F s path = Some (Inr out)"
    and "walkProps (normalizeNode n lib doc) F out path = Some (Inr props)"
    and "walkItems (normalizeNode n lib doc) F out path = Some (Inr it)"
    and "walkAddl (normalizeNode n lib doc) F out path = Some (Inr ad)" and "s' = rebuilt out props it ad"
  using assms by (auto simp: Let_def bindF_Inr)

lemma normalizeNode_ref:
  assumes "normalizeNode (Suc n) lib doc F s path = Some (Inr s')" and "liveRef s = Some r"
  obtains t where "r \<notin> F" and "resolvePointer doc r = Inr t" and "normalizeNode n lib doc (insert r F) t path = Some (Inr s')"
  using assms by (auto simp: Let_def resolveRef_def split: if_splits sum.splits)

lemma normalizeNode_junctorFree:
  "normalizeNode n lib doc F s path = Some (Inr s') \<Longrightarrow> junctorFree s'"
proof (induction n arbitrary: F s path s')
  case (Suc n)
  show ?case
  proof (cases "liveRef s")
    case None
    obtain out props it ad where b: "mergeBranches (normalizeNode n lib doc) lib F s path = Some (Inr out)"
      and w: "walkProps (normalizeNode n lib doc) F out path = Some (Inr props)"
        "walkItems (normalizeNode n lib doc) F out path = Some (Inr it)"
        "walkAddl (normalizeNode n lib doc) F out path = Some (Inr ad)" and s': "s' = rebuilt out props it ad"
      by (rule normalizeNode_body[OF Suc.prems None])
    have "junctorFree c" if "c \<in> set (walkChildren s')" for c
      using rebuilt_children[OF w that[unfolded s']] Suc.IH by blast
    then show ?thesis using None mergeBranches_keeps[OF b]
      by (subst junctorFree.simps) (simp add: s' rebuilt_def liveRef_def)
  next
    case (Some r)
    then show ?thesis using normalizeNode_ref[OF Suc.prems Some] Suc.IH by metis
  qed
qed simp

subsection \<open>Enough fuel\<close>

text \<open>
  \<open>fits n doc F s\<close>: walking \<open>s\<close> nests at most \<open>n\<close> deep, with the references \<open>F\<close> in flight.
\<close>

primrec fits :: "nat \<Rightarrow> schema \<Rightarrow> string set \<Rightarrow> schema \<Rightarrow> bool" where
  "fits 0 doc F s \<longleftrightarrow> False"
| "fits (Suc n) doc F s \<longleftrightarrow>
     (case liveRef s of
        Some r \<Rightarrow> r \<in> F \<or> (\<forall>t. resolvePointer doc r = Inr t \<longrightarrow> fits n doc (insert r F) t)
      | None \<Rightarrow> \<forall>c\<in>set (sAllOf s) \<union> set (walkChildren s). fits n doc F c)"

lemma fits_Suc: "fits n doc F s \<Longrightarrow> fits (Suc n) doc F s"
proof (induction n arbitrary: F s)
  case (Suc n)
  show ?case
  proof (cases "liveRef s")
    case None
    then have "\<forall>c\<in>set (sAllOf s) \<union> set (walkChildren s). fits n doc F c" using Suc.prems by simp
    then show ?thesis using None Suc.IH by (simp del: fits.simps add: fits.simps(2)[of "Suc n"])
  next
    case (Some r)
    then have "r \<in> F \<or> (\<forall>t. resolvePointer doc r = Inr t \<longrightarrow> fits n doc (insert r F) t)" using Suc.prems by simp
    then show ?thesis using Some Suc.IH by (auto simp del: fits.simps simp add: fits.simps(2)[of "Suc n"])
  qed
qed simp

lemma fits_mono: "fits n doc F s \<Longrightarrow> n \<le> m \<Longrightarrow> fits m doc F s"
  by (induction m) (auto simp: le_Suc_eq dest: fits_Suc simp del: fits.simps(2))

lemma items_child: "sItems s = Some i \<Longrightarrow> i \<in> set (walkChildren s)"
  and addl_child: "sAddl s = Some (al, Some i) \<Longrightarrow> i \<in> set (walkChildren s)"
  by (auto simp: walkChildren_def)

lemma mergeSchema_props:
  assumes "mergeSchema lib dst src path b = Inr m" and "c \<in> set (walkChildren m)"
    and "\<And>d. d \<in> set (walkChildren dst) \<Longrightarrow> P d" and "\<And>d. d \<in> set (walkChildren src) \<Longrightarrow> P d"
    and merge: "\<And>d s pt r. P d \<Longrightarrow> s \<in> set (walkChildren src) \<Longrightarrow> mergeSchema lib d s pt b = Inr r \<Longrightarrow> P r"
  shows "P c"
proof -
  let ?step = "\<lambda>name props.
               case map_of (sProps src) name of
                 None \<Rightarrow> Inr props
               | Some srcProp \<Rightarrow>
                   (case map_of props name of
                      Some dstProp \<Rightarrow> bindR (mergeSchema lib dstProp srcProp (path @ [name]) b)
                        (\<lambda>merged. Inr (AList.update name merged props))
                    | None \<Rightarrow> Inr (AList.update name srcProp props))"
  obtain props it ad where f: "foldR ?step (sort (map fst (sProps src))) (sProps dst) = Inr props"
    and it: "(case sItems src of None \<Rightarrow> Inr (sItems dst) | Some si \<Rightarrow> (case sItems dst of None \<Rightarrow> Inr (Some si)
          | Some di \<Rightarrow> bindR (mergeSchema lib di si (path @ [''[]'']) b) (\<lambda>merged. Inr (Some merged)))) = Inr it"
    and ad: "(case sAddl src of None \<Rightarrow> Inr (sAddl dst) | Some (al, so) \<Rightarrow> (case sAddl dst of None \<Rightarrow> Inr (Some (al, so))
          | Some (dal, do') \<Rightarrow> (case so of None \<Rightarrow> Inr (sAddl dst) | Some ss \<Rightarrow> (case do' of None \<Rightarrow> Inr (sAddl dst)
          | Some ds \<Rightarrow> bindR (mergeSchema lib ds ss (path @ [''{}'']) b) (\<lambda>merged. Inr (Some (dal, Some merged))))))) = Inr ad"
    and m: "sProps m = props" "sItems m = it" "sAddl m = ad"
    using assms(1) by (subst (asm) mergeSchema.simps) (auto simp: Let_def bindR_Inr_iff)
  have src: "map_of (sProps src) n = Some p \<Longrightarrow> p \<in> set (walkChildren src)" for n p
    by (force simp: walkChildren_def dest!: map_of_SomeD)
  have upd: "\<forall>p\<in>snd ` set (AList.update k v ps). P p" if "\<forall>p\<in>snd ` set ps. P p" and "P v" for k v and ps :: "(string \<times> schema) list"
    using that by (induction ps) auto
  have "\<forall>p\<in>snd ` set props. P p"
  proof (rule foldR_invariant[OF f])
    show "\<forall>p\<in>snd ` set (sProps dst). P p" using assms(3) by (simp add: walkChildren_def)
  next
    fix name ps ps'
    assume ps: "\<forall>p\<in>snd ` set ps. P p" and step: "?step name ps = Inr ps'"
    show "\<forall>p\<in>snd ` set ps'. P p"
    proof (cases "map_of (sProps src) name")
      case (Some sp)
      show ?thesis
      proof (cases "map_of ps name")
        case None
        then show ?thesis using step Some upd[OF ps assms(4)[OF src[OF Some]]] by auto
      next
        case (Some dp)
        obtain r where "mergeSchema lib dp sp (path @ [name]) b = Inr r" and ps': "ps' = AList.update name r ps"
          using step Some \<open>map_of (sProps src) name = Some sp\<close> by (auto simp: bindR_Inr_iff)
        moreover have "P dp" using ps map_of_SomeD[OF Some] by force
        ultimately show ?thesis using upd[OF ps] merge src[OF \<open>map_of (sProps src) name = Some sp\<close>] by blast
      qed
    qed (use step ps in simp)
  qed
  moreover have "P i" if "it = Some i" for i
    using it that assms(3)[OF items_child] assms(4)[OF items_child] merge[OF assms(3)[OF items_child] items_child]
    by (auto simp: bindR_Inr_iff split: option.splits)
  moreover have "P i" if "ad = Some (al, Some i)" for al i
    using ad that assms(3)[OF addl_child] assms(4)[OF addl_child] merge[OF assms(3)[OF addl_child] addl_child]
    by (auto simp: bindR_Inr_iff split: option.splits)
  moreover have "c \<in> snd ` set props \<or> it = Some c \<or> (\<exists>al. ad = Some (al, Some c))"
    using assms(2) by (auto simp: walkChildren_def m split: option.splits)
  ultimately show ?thesis by blast
qed

lemma junctorFree_child: "junctorFree s \<Longrightarrow> c \<in> set (walkChildren s) \<Longrightarrow> junctorFree c"
  by (subst (asm) junctorFree.simps) blast

lemma fits_children: "junctorFree s \<Longrightarrow> fits (Suc n) doc F s \<longleftrightarrow> (\<forall>c\<in>set (walkChildren s). fits n doc F c)"
  by (subst (asm) junctorFree.simps) simp

lemma fits_merge:
  "fits n doc F dst \<Longrightarrow> junctorFree src \<Longrightarrow> fits n doc F src \<Longrightarrow> mergeSchema lib dst src path b = Inr m \<Longrightarrow> fits n doc F m"
proof (induction n arbitrary: dst src path m)
  case (Suc n)
  have live: "liveRef m = liveRef dst" using mergeSchema_keeps[OF Suc.prems(4)] by (simp add: liveRef_def)
  show ?case
  proof (cases "liveRef dst")
    case None
    have d: "\<forall>c\<in>set (sAllOf dst) \<union> set (walkChildren dst). fits n doc F c" using Suc.prems(1) None by simp
    have s: "\<forall>c\<in>set (walkChildren src). fits n doc F c" using Suc.prems(3) fits_children[OF Suc.prems(2)] by simp
    have "fits n doc F c" if c: "c \<in> set (walkChildren m)" for c
      by (rule mergeSchema_props[OF Suc.prems(4) c])
         (use d s Suc.IH junctorFree_child[OF Suc.prems(2)] in blast)+
    then show ?thesis using None live d mergeSchema_keeps(2)[OF Suc.prems(4)] by auto
  next
    case (Some r)
    then show ?thesis using Suc.prems(1) live by simp
  qed
qed simp

lemma fits_any: "junctorFree s \<Longrightarrow> fits n doc F s \<Longrightarrow> fits n doc F' s"
  by (induction n arbitrary: s) (auto simp: fits_children junctorFree_child simp del: fits.simps(2))

text \<open>With a walker that answers for every schema that fits below, the branches merge to an answer.\<close>

lemma mergeBranches_fits:
  assumes walk: "\<And>b pt. b \<in> set (sAllOf s) \<Longrightarrow> \<exists>r. walk F b pt = Some r \<and> (\<forall>b'. r = Inr b' \<longrightarrow> junctorFree b' \<and> fits n doc F b')"
    and "fits (Suc n) doc F s" and "liveRef s = None"
  shows "\<exists>r. mergeBranches walk lib F s path = Some r \<and> (\<forall>out. r = Inr out \<longrightarrow> fits (Suc n) doc F out)"
proof -
  let ?f = "\<lambda>ib out. bindF (walk F (snd ib) path) (\<lambda>branch. Some (mergeSchema lib out branch path (fst ib)))"
  have "\<exists>r. foldF ?f ibs acc = Some r \<and> (\<forall>out. r = Inr out \<longrightarrow> fits (Suc n) doc F out)"
    if "\<And>ib. ib \<in> set ibs \<Longrightarrow> snd ib \<in> set (sAllOf s)" and "fits (Suc n) doc F acc" for ibs acc
    using that
  proof (induction ibs arbitrary: acc)
    case (Cons ib ibs)
    obtain r where r: "walk F (snd ib) path = Some r" "\<forall>b'. r = Inr b' \<longrightarrow> junctorFree b' \<and> fits n doc F b'"
      using walk[of "snd ib" path] Cons.prems(1) by auto
    show ?case
    proof (cases r)
      case (Inr b')
      have b': "junctorFree b'" "fits (Suc n) doc F b'" using r(2) Inr fits_Suc by blast+
      show ?thesis
      proof (cases "mergeSchema lib acc b' path (fst ib)")
        case (Inr m)
        have "fits (Suc n) doc F m" by (rule fits_merge[OF Cons.prems(2) b' Inr])
        then show ?thesis using r(1) \<open>r = Inr b'\<close> Inr Cons.IH[of m] Cons.prems(1) by simp
      qed (use r(1) Inr in simp)
    qed (use r(1) in simp)
  qed simp
  moreover have "fits (Suc n) doc F (clearAllOf s)"
    using assms(2,3) by (simp add: clearAllOf_def liveRef_def walkChildren_def)
  ultimately show ?thesis unfolding mergeBranches_def using in_enumerate by blast
qed

lemma mapF_total:
  assumes "\<And>x. x \<in> set xs \<Longrightarrow> f x \<noteq> None"
  shows "mapF f xs \<noteq> None"
  using assms by (induction xs) (auto simp: bindF_def split: option.splits sum.splits)

lemma normalizeNode_fits:
  "fits n doc F s \<Longrightarrow>
    \<exists>r. normalizeNode n lib doc F s path = Some r \<and> (\<forall>s'. r = Inr s' \<longrightarrow> junctorFree s' \<and> (\<forall>F'. fits n doc F' s'))"
proof (induction n arbitrary: F s path)
  case (Suc n)
  let ?walk = "normalizeNode n lib doc"
  show ?case
  proof (cases "liveRef s")
    case None
    have "\<exists>r. mergeBranches ?walk lib F s path = Some r \<and> (\<forall>out. r = Inr out \<longrightarrow> fits (Suc n) doc F out)"
    proof (rule mergeBranches_fits[OF _ Suc.prems None])
      fix b pt
      assume "b \<in> set (sAllOf s)"
      then have "fits n doc F b" using Suc.prems None by simp
      then show "\<exists>r. ?walk F b pt = Some r \<and> (\<forall>b'. r = Inr b' \<longrightarrow> junctorFree b' \<and> fits n doc F b')" using Suc.IH by blast
    qed
    then obtain r where r: "mergeBranches ?walk lib F s path = Some r" "\<forall>out. r = Inr out \<longrightarrow> fits (Suc n) doc F out" by blast
    show ?thesis
    proof (cases r)
      case (Inr out)
      have keep: "liveRef out = None" "sAllOf out = []"
        using mergeBranches_keeps[of ?walk lib F s path out] r(1) Inr None by (simp_all add: liveRef_def)
      have sub: "\<exists>r. ?walk F c pt = Some r \<and> (\<forall>s'. r = Inr s' \<longrightarrow> junctorFree s' \<and> (\<forall>F'. fits n doc F' s'))"
        if "c \<in> set (walkChildren out)" for c pt
        using Suc.IH that r(2) Inr keep by simp
      have wn: "?walk F c pt \<noteq> None" if "c \<in> set (walkChildren out)" for c pt
        using sub[OF that, of pt] by (elim exE conjE) simp
      have "walkProps ?walk F out path \<noteq> None"
        unfolding walkProps_def
      proof (rule mapF_total)
        fix np
        assume "np \<in> set (sProps out)"
        then have "?walk F (snd np) (path @ [fst np]) \<noteq> None" by (intro wn) (simp add: walkChildren_def)
        then show "bindF (?walk F (snd np) (path @ [fst np])) (\<lambda>p. Some (Inr (fst np, p))) \<noteq> None"
          by (auto simp: bindF_def split: sum.splits)
      qed
      moreover have "walkItems ?walk F out path \<noteq> None"
      proof (cases "sItems out")
        case (Some it)
        then show ?thesis using wn[OF items_child[OF Some], of "path @ [''[]'']"]
          by (auto simp: walkItems_def bindF_def split: sum.splits)
      qed (simp add: walkItems_def)
      moreover have "walkAddl ?walk F out path \<noteq> None"
      proof (cases "\<exists>al p. sAddl out = Some (al, Some p)")
        case True
        then obtain al p where p: "sAddl out = Some (al, Some p)" by blast
        then show ?thesis using wn[OF addl_child[OF p], of "path @ [''{}'']"]
          by (auto simp: walkAddl_def bindF_def split: sum.splits)
      qed (auto simp: walkAddl_def split: option.splits)
      ultimately obtain rp ri ra where rp: "walkProps ?walk F out path = Some rp" and ri: "walkItems ?walk F out path = Some ri"
        and ra: "walkAddl ?walk F out path = Some ra" by auto
      have some: "\<exists>r'. normalizeNode (Suc n) lib doc F s path = Some r'"
        using None r(1) Inr rp ri ra by (cases rp; cases ri; cases ra) (simp_all add: Let_def)
      have "junctorFree s' \<and> (\<forall>F'. fits (Suc n) doc F' s')" if s': "normalizeNode (Suc n) lib doc F s path = Some (Inr s')" for s'
      proof -
        obtain out' props it ad where o: "mergeBranches ?walk lib F s path = Some (Inr out')"
          and w: "walkProps ?walk F out' path = Some (Inr props)" "walkItems ?walk F out' path = Some (Inr it)"
            "walkAddl ?walk F out' path = Some (Inr ad)" and eq: "s' = rebuilt out' props it ad"
          by (rule normalizeNode_body[OF s' None])
        have out': "out' = out" using o r(1) Inr by simp
        have "\<forall>F'. fits n doc F' c" if c: "c \<in> set (walkChildren s')" for c
        proof -
          obtain q pt where "q \<in> set (walkChildren out)" "?walk F q pt = Some (Inr c)"
            using rebuilt_children[OF w c[unfolded eq]] unfolding out' by blast
          then show ?thesis using sub[of q pt] by auto
        qed
        then show ?thesis using normalizeNode_junctorFree[OF s'] fits_children by blast
      qed
      then show ?thesis using some by (auto simp del: normalizeNode.simps)
    qed (use None r(1) in \<open>simp add: Let_def\<close>)
  next
    case (Some ref)
    then have "ref \<in> F \<or> (\<forall>t. resolvePointer doc ref = Inr t \<longrightarrow> fits n doc (insert ref F) t)" using Suc.prems by simp
    moreover have eq: "normalizeNode (Suc n) lib doc F s path = resolveRef ?walk doc F s ref path" using Some by (simp add: Let_def)
    ultimately have "(\<exists>e. resolveRef ?walk doc F s ref path = Some (Inl e))
      \<or> (\<exists>t. fits n doc (insert ref F) t \<and> resolveRef ?walk doc F s ref path = ?walk (insert ref F) t path)"
      by (auto simp: resolveRef_def split: sum.splits)
    then show ?thesis unfolding eq
    proof (elim disjE exE conjE)
      fix t
      assume "fits n doc (insert ref F) t" and t: "resolveRef ?walk doc F s ref path = ?walk (insert ref F) t path"
      from Suc.IH[OF this(1), of path] show "\<exists>r. resolveRef ?walk doc F s ref path = Some r
        \<and> (\<forall>s'. r = Inr s' \<longrightarrow> junctorFree s' \<and> (\<forall>F'. fits (Suc n) doc F' s'))"
        unfolding t using fits_Suc by blast
    qed simp
  qed
qed simp

text \<open>The fuel of a document is enough for it.\<close>

lemma schemaRefs_below: "c \<in> set (belowSchema s) \<Longrightarrow> set (schemaRefs c) \<subseteq> set (schemaRefs s)"
  by (subst schemaRefs.simps[of s]) auto

lemma below_children:
  "map_of (sDefs s) k = Some c \<Longrightarrow> c \<in> set (belowSchema s)"
  "map_of (sProps s) k = Some c \<Longrightarrow> c \<in> set (belowSchema s)"
  "sItems s = Some c \<Longrightarrow> c \<in> set (belowSchema s)"
  "sAddl s = Some (al, Some c) \<Longrightarrow> c \<in> set (belowSchema s)"
  by (force simp: belowSchema_def dest!: map_of_SomeD)+

lemma resolveSegments_below:
  "resolveSegments ref cur segs = Inr t \<Longrightarrow> set (schemaRefs t) \<subseteq> set (schemaRefs cur) \<and> size t \<le> size cur"
proof (induction ref cur segs rule: resolveSegments.induct)
  case (2 ref cur seg' segs)
  have step: "set (schemaRefs t) \<subseteq> set (schemaRefs cur) \<and> size t \<le> size cur"
    if "c \<in> set (belowSchema cur)" and "set (schemaRefs t) \<subseteq> set (schemaRefs c) \<and> size t \<le> size c" for c
    using that schemaRefs_below[OF that(1)] size_belowSchema[OF that(1)] by auto
  let ?seg = "unescapePointerSegment seg'"
  consider "?seg = ''definitions''" | "?seg = ''properties''" | "?seg = ''items''" | "?seg = ''additionalProperties''"
    using "2.prems" by (auto simp: Let_def split: if_splits)
  then show ?case
  proof cases
    case 1
    then obtain key' segs' c where "segs = key' # segs'" "map_of (sDefs cur) (unescapePointerSegment key') = Some c" "resolveSegments ref c segs' = Inr t"
      using "2.prems" by (auto simp: Let_def split: list.splits option.splits)
    then show ?thesis using "2.IH"(1)[OF refl _ _ refl, of key' segs' c] 1 step[OF below_children(1)] by simp
  next
    case 2
    then obtain key' segs' c where "segs = key' # segs'" "map_of (sProps cur) (unescapePointerSegment key') = Some c" "resolveSegments ref c segs' = Inr t"
      using "2.prems" by (auto simp: Let_def split: list.splits option.splits)
    then show ?thesis using "2.IH"(1)[OF refl _ _ refl, of key' segs' c] 2 step[OF below_children(2)] by simp
  next
    case 3
    then obtain c where "sItems cur = Some c" "resolveSegments ref c segs = Inr t"
      using "2.prems" by (auto simp: Let_def split: option.splits)
    then show ?thesis using "2.IH"(2)[OF refl, of c] 3 step[OF below_children(3)] by simp
  next
    case 4
    then obtain al c where "sAddl cur = Some (al, Some c)" "resolveSegments ref c segs = Inr t"
      using "2.prems" by (auto simp: Let_def split: option.splits)
    then show ?thesis using "2.IH"(3)[OF refl, of "(al, Some c)" al "Some c" c] 4 step[OF below_children(4)] by simp
  qed
qed simp

lemma resolvePointer_below:
  assumes "resolvePointer doc ref = Inr t"
  shows "set (schemaRefs t) \<subseteq> set (schemaRefs doc)" and "size t \<le> size doc"
  using assms resolveSegments_below[of ref doc _ t] by (auto simp: resolvePointer_def Let_def split: if_splits)

lemma fits_bound:
  assumes "set (schemaRefs s) \<subseteq> set (schemaRefs doc)"
  shows "fits (Suc (size s + card (set (schemaRefs doc) - F) * Suc (size doc))) doc F s"
  using assms
proof (induction "size s + card (set (schemaRefs doc) - F) * Suc (size doc)" arbitrary: s F rule: less_induct)
  case less
  let ?left = "\<lambda>F. card (set (schemaRefs doc) - F) * Suc (size doc)"
  show ?case
  proof (cases "liveRef s")
    case None
    have "fits (size s + ?left F) doc F c" if "c \<in> set (sAllOf s) \<union> set (walkChildren s)" for c
    proof -
      have b: "c \<in> set (belowSchema s)" using that walkChildren_below by (auto simp: belowSchema_def)
      have "fits (Suc (size c + ?left F)) doc F c"
        using less.hyps[of c F] size_belowSchema[OF b] schemaRefs_below[OF b] less.prems by auto
      then show ?thesis by (rule fits_mono) (use size_belowSchema[OF b] in simp)
    qed
    then show ?thesis using None by simp
  next
    case (Some r)
    have "r \<in> set (schemaRefs s)" by (subst schemaRefs.simps) (simp add: Some)
    then have r: "r \<in> set (schemaRefs doc)" using less.prems by blast
    have "fits (size s + ?left F) doc (insert r F) t" if "r \<notin> F" and t: "resolvePointer doc r = Inr t" for t
    proof -
      have c: "Suc (card (set (schemaRefs doc) - F - {r})) = card (set (schemaRefs doc) - F)"
        by (rule card_Suc_Diff1) (use r that(1) in simp_all)
      have "card (set (schemaRefs doc) - F) = Suc (card (set (schemaRefs doc) - insert r F))"
        by (subst Diff_insert) (rule c[symmetric])
      then have "?left F = Suc (size doc) + ?left (insert r F)" by simp
      then have lt: "size t + ?left (insert r F) < size s + ?left F" using resolvePointer_below(2)[OF t] by simp
      have "fits (Suc (size t + ?left (insert r F))) doc (insert r F) t"
        by (rule less.hyps[OF lt resolvePointer_below(1)[OF t]])
      then show ?thesis by (rule fits_mono) (use lt in simp)
    qed
    then show ?thesis using Some by auto
  qed
qed

lemma fits_fuel: "fits (normalizeFuel s) s {} s"
proof (rule fits_mono[OF fits_bound])
  have "card (set (schemaRefs s) - {}) * Suc (size s) \<le> length (schemaRefs s) * Suc (size s)"
    by (intro mult_right_mono) (simp_all add: card_length)
  then show "Suc (size s + card (set (schemaRefs s) - {}) * Suc (size s)) \<le> normalizeFuel s"
    unfolding normalizeFuel_def by linarith
qed simp

subsection \<open>More fuel changes nothing\<close>

definition extends :: "walker \<Rightarrow> walker \<Rightarrow> bool" where
  "extends walk walk' \<longleftrightarrow> (\<forall>F s path r. walk F s path = Some r \<longrightarrow> walk' F s path = Some r)"

lemma bindF_Some: "bindF m f = Some r \<longleftrightarrow> (\<exists>e. m = Some (Inl e) \<and> r = Inl e) \<or> (\<exists>x. m = Some (Inr x) \<and> f x = Some r)"
  by (auto simp: bindF_def split: option.splits sum.splits)

lemma bindF_mono:
  assumes "bindF m f = Some r" and "\<And>r0. m = Some r0 \<Longrightarrow> m' = Some r0" and "\<And>x. f x = Some r \<Longrightarrow> g x = Some r"
  shows "bindF m' g = Some r"
  using assms by (auto simp: bindF_Some)

lemma extends_bindF:
  assumes "extends walk walk'" and "bindF (walk F s pt) f = Some r"
  shows "bindF (walk' F s pt) f = Some r"
  using assms by (auto simp: bindF_Some extends_def)

lemma extends_mergeBranches:
  assumes "extends walk walk'" and "mergeBranches walk lib F s path = Some r"
  shows "mergeBranches walk' lib F s path = Some r"
proof -
  have "foldF (\<lambda>ib out. bindF (walk' F (snd ib) path) (\<lambda>branch. Some (mergeSchema lib out branch path (fst ib)))) ibs acc = Some r"
    if "foldF (\<lambda>ib out. bindF (walk F (snd ib) path) (\<lambda>branch. Some (mergeSchema lib out branch path (fst ib)))) ibs acc = Some r" for ibs acc
    using that
  proof (induction ibs arbitrary: acc)
    case (Cons ib ibs)
    then show ?case using assms(1) by (fastforce simp: bindF_Some extends_def)
  qed simp
  then show ?thesis using assms(2) by (simp add: mergeBranches_def)
qed

lemma extends_walkProps:
  assumes "extends walk walk'" and "walkProps walk F out path = Some r"
  shows "walkProps walk' F out path = Some r"
proof -
  have "mapF (\<lambda>np. bindF (walk' F (snd np) (path @ [fst np])) (\<lambda>p. Some (Inr (fst np, p)))) nps = Some r"
    if "mapF (\<lambda>np. bindF (walk F (snd np) (path @ [fst np])) (\<lambda>p. Some (Inr (fst np, p)))) nps = Some r" for nps r
    using that
  proof (induction nps arbitrary: r)
    case (Cons np nps)
    then show ?case using assms(1) by (fastforce simp: bindF_Some extends_def)
  qed simp
  then show ?thesis using assms(2) by (simp add: walkProps_def)
qed

lemma extends_walkRest:
  assumes "extends walk walk'"
  shows "walkItems walk F out path = Some ri \<Longrightarrow> walkItems walk' F out path = Some ri"
    and "walkAddl walk F out path = Some ra \<Longrightarrow> walkAddl walk' F out path = Some ra"
  using extends_bindF[OF assms] by (auto simp: walkItems_def walkAddl_def split: option.splits)

lemma normalizeNode_extends: "extends (normalizeNode n lib doc) (normalizeNode (Suc n) lib doc)"
proof (induction n)
  case (Suc n)
  let ?w = "normalizeNode n lib doc" and ?w' = "normalizeNode (Suc n) lib doc"
  have "normalizeNode (Suc (Suc n)) lib doc F s path = Some r" if h: "normalizeNode (Suc n) lib doc F s path = Some r" for F s path r
  proof (cases "liveRef s")
    case None
    have "bindF (mergeBranches ?w lib F s path) (\<lambda>out. bindF (walkProps ?w F out path) (\<lambda>props.
        bindF (walkItems ?w F out path) (\<lambda>it. bindF (walkAddl ?w F out path) (\<lambda>ad. Some (Inr (rebuilt out props it ad)))))) = Some r"
      using h None by (simp add: Let_def)
    then have "bindF (mergeBranches ?w' lib F s path) (\<lambda>out. bindF (walkProps ?w' F out path) (\<lambda>props.
        bindF (walkItems ?w' F out path) (\<lambda>it. bindF (walkAddl ?w' F out path) (\<lambda>ad. Some (Inr (rebuilt out props it ad)))))) = Some r"
      by (elim bindF_mono) (rule extends_mergeBranches[OF Suc] extends_walkProps[OF Suc] extends_walkRest[OF Suc], assumption)+
    then show ?thesis by (subst normalizeNode.simps(2)) (simp add: None Let_def del: normalizeNode.simps)
  next
    case (Some ref)
    have "resolveRef ?w doc F s ref path = Some r" using h Some by (simp add: Let_def)
    then have "resolveRef ?w' doc F s ref path = Some r"
      using Suc by (auto simp: resolveRef_def extends_def simp del: normalizeNode.simps split: sum.splits if_splits)
    then show ?thesis by (subst normalizeNode.simps(2)) (simp add: Some Let_def del: normalizeNode.simps)
  qed
  then show ?case by (simp add: extends_def del: normalizeNode.simps)
qed (simp add: extends_def)

lemma normalizeNode_more:
  assumes "normalizeNode n lib doc F s path = Some r" and "n \<le> m"
  shows "normalizeNode m lib doc F s path = Some r"
  using assms(2,1)
proof (induction m rule: dec_induct)
  case (step m)
  then show ?case using normalizeNode_extends unfolding extends_def by blast
qed

subsection \<open>The result\<close>

lemma NormalizeSchema_node:
  "normalizeNode (normalizeFuel s) lib s {} s [] = Some (NormalizeSchema lib s)"
  using normalizeNode_fits[OF fits_fuel[of s], of lib "[]"] by (auto simp: NormalizeSchema_def)

lemma NormalizeSchema_junctorFree: "NormalizeSchema lib s = Inr s' \<Longrightarrow> junctorFree s'"
  using NormalizeSchema_node[of s lib] by (auto dest: normalizeNode_junctorFree)

lemma rebuilt_same: "rebuilt s (sProps s) (sItems s) (sAddl s) = s"
  by (cases s) (simp add: rebuilt_def)

lemma normalizeNode_same:
  "junctorFree s \<Longrightarrow> size s < n \<Longrightarrow> normalizeNode n lib doc F s path = Some (Inr s)"
proof (induction n arbitrary: s path)
  case (Suc n)
  have jf: "liveRef s = None" "sAllOf s = []" using Suc.prems(1) by (subst (asm) junctorFree.simps; simp)+
  have walk: "normalizeNode n lib doc F c pt = Some (Inr c)" if "c \<in> set (walkChildren s)" for c pt
    using Suc.IH[OF junctorFree_child[OF Suc.prems(1) that]] size_belowSchema[OF walkChildren_below[OF that]] Suc.prems(2) by simp
  have "mergeBranches (normalizeNode n lib doc) lib F s path = Some (Inr s)"
    using jf(2) by (cases s) (simp add: mergeBranches_def clearAllOf_def)
  moreover have "walkProps (normalizeNode n lib doc) F s path = Some (Inr (sProps s))"
    using walk by (auto simp: walkProps_def mapF_Inr walkChildren_def list_all2_same)
  moreover have "walkItems (normalizeNode n lib doc) F s path = Some (Inr (sItems s))"
    using walk items_child[of s] by (cases "sItems s") (simp_all add: walkItems_def)
  moreover have "walkAddl (normalizeNode n lib doc) F s path = Some (Inr (sAddl s))"
    using walk addl_child[of s] by (auto simp: walkAddl_def split: option.splits)
  ultimately show ?case using jf(1) by (simp add: Let_def rebuilt_same)
qed simp

lemma NormalizeSchema_same: "junctorFree s \<Longrightarrow> NormalizeSchema lib s = Inr s"
  using normalizeNode_same[of s "normalizeFuel s" lib s "{}" "[]"] by (simp add: NormalizeSchema_def normalizeFuel_def del: normalizeNode.simps)

lemma junctorFree_leaves:
  "junctorFree s \<Longrightarrow> l \<in> set (flattenInto s path req) \<Longrightarrow> unresolvedConstruct (lfSchema l) = [] \<and> lfConstruct l \<in> {[], ''oneOf'', ''anyOf''}"
proof (induction s path req rule: flattenInto.induct)
  case (1 s path req)
  have c: "unresolvedConstruct s = []"
    using "1.prems"(1) by (subst (asm) junctorFree.simps) (auto simp: unresolvedConstruct_def liveRef_def split: option.splits if_splits)
  show ?case
  proof (cases "unionConstruct s \<noteq> [] \<and> \<not> isStructuralNode (fst (classify s)) (snd (classify s)) \<or> snd (classify s)
      \<or> fst (classify s) \<noteq> FieldKindObject \<or> sProps s = []")
    case True
    then show ?thesis using "1.prems"(2) c
      by (subst (asm) flattenInto.simps) (auto simp: leafOf_def unionConstruct_def Let_def split: if_splits)
  next
    case False
    have "flattenInto s path req = concat (map (\<lambda>np. flattenInto (snd np) (path @ [fst np]) (sRequired s)) (sProps s))"
      using False c by (subst flattenInto.simps) (auto simp: Let_def)
    then obtain np where np: "np \<in> set (sProps s)" "l \<in> set (flattenInto (snd np) (path @ [fst np]) (sRequired s))"
      using "1.prems"(2) by auto
    have "junctorFree (snd np)" by (rule junctorFree_child[OF "1.prems"(1)]) (simp add: walkChildren_def np(1))
    then show ?thesis using "1.IH"[of "fst (classify s)" "snd (classify s)" np] False c np by auto
  qed
qed

subsection \<open>Declared fields stay declared\<close>

fun declares :: "schema \<Rightarrow> FieldPath \<Rightarrow> bool" where
  "declares s [] = True"
| "declares s (k # p) = (case map_of (sProps s) k of None \<Rightarrow> False | Some c \<Rightarrow> declares c p)"

lemma declares_lookup: "declares s p \<longleftrightarrow> (\<exists>t. lookupPath s p = Inr t)"
proof (induction p arbitrary: s)
  case (Cons k p)
  then show ?case by (cases "map_of (sProps s) k") (auto simp: lookupPath_Cons)
qed (simp add: lookupPath_Nil)

lemma mergeSchema_declares:
  "mergeSchema lib dst src path b = Inr m \<Longrightarrow> declares dst p \<Longrightarrow> declares m p"
proof (induction p arbitrary: dst src path m)
  case (Cons k p)
  let ?step = "\<lambda>name props.
               case map_of (sProps src) name of
                 None \<Rightarrow> Inr props
               | Some srcProp \<Rightarrow>
                   (case map_of props name of
                      Some dstProp \<Rightarrow> bindR (mergeSchema lib dstProp srcProp (path @ [name]) b)
                        (\<lambda>merged. Inr (AList.update name merged props))
                    | None \<Rightarrow> Inr (AList.update name srcProp props))"
  let ?P = "\<lambda>props. \<exists>c. map_of props k = Some c \<and> declares c p"
  have f: "foldR ?step (sort (map fst (sProps src))) (sProps dst) = Inr (sProps m)"
    using Cons.prems(1) by (subst (asm) mergeSchema.simps) (auto simp: Let_def bindR_Inr_iff)
  have "?P (sProps m)"
  proof (rule foldR_invariant[OF f])
    show "?P (sProps dst)" using Cons.prems(2) by (auto split: option.splits)
  next
    fix name ps ps'
    assume step: "?step name ps = Inr ps'" and "?P ps"
    then obtain c where c: "map_of ps k = Some c" "declares c p" by blast
    show "?P ps'"
    proof (cases "name = k")
      case True
      then show ?thesis using step c Cons.IH by (auto simp: bindR_Inr_iff split: option.splits)
    next
      case False
      then show ?thesis using step c by (auto simp: bindR_Inr_iff split: option.splits)
    qed
  qed
  then show ?case by auto
qed simp

lemma mergeBranches_declares:
  assumes "mergeBranches walk lib F s path = Some (Inr out)" and "declares s p"
  shows "declares out p"
proof (rule foldF_invariant[OF assms(1)[unfolded mergeBranches_def]])
  show "declares (clearAllOf s) p" using assms(2) by (cases p) (simp_all add: clearAllOf_def)
qed (auto simp: bindF_Inr dest: mergeSchema_declares)

lemma walkProps_lookup:
  assumes "walkProps walk F out path = Some (Inr props)" and "map_of (sProps out) k = Some c"
  shows "\<exists>c'. map_of props k = Some c' \<and> walk F c (path @ [k]) = Some (Inr c')"
proof -
  have "\<exists>c'. map_of ps' k = Some c' \<and> walk F c (path @ [k]) = Some (Inr c')"
    if "list_all2 (\<lambda>x y. bindF (walk F (snd x) (path @ [fst x])) (\<lambda>p. Some (Inr (fst x, p))) = Some (Inr y)) ps ps'"
      and "map_of ps k = Some c" for ps ps'
    using that by (induction rule: list_all2_induct) (auto simp: bindF_Inr split: if_splits)
  then show ?thesis using assms by (simp add: walkProps_def mapF_Inr)
qed

lemma refSiblings_props: "refSiblings s = [] \<Longrightarrow> sProps s = []"
proof -
  assume "refSiblings s = []"
  then have "set (refSiblings s) = {}" by simp
  then show ?thesis by (auto simp: refSiblings_def split: if_splits)
qed

lemma normalizeNode_declares:
  "normalizeNode n lib doc F s path = Some (Inr s') \<Longrightarrow> declares s p \<Longrightarrow> declares s' p"
proof (induction p arbitrary: n F s path s')
  case (Cons k p)
  then obtain m where n: "n = Suc m" by (cases n) auto
  show ?case
  proof (cases "liveRef s")
    case None
    obtain out props it ad where b: "mergeBranches (normalizeNode m lib doc) lib F s path = Some (Inr out)"
      and w: "walkProps (normalizeNode m lib doc) F out path = Some (Inr props)" and s': "s' = rebuilt out props it ad"
      by (rule normalizeNode_body[OF Cons.prems(1)[unfolded n] None])
    obtain c where c: "map_of (sProps out) k = Some c" "declares c p"
      using mergeBranches_declares[OF b Cons.prems(2)] by (auto split: option.splits)
    obtain c' where "map_of props k = Some c'" "normalizeNode m lib doc F c (path @ [k]) = Some (Inr c')"
      using walkProps_lookup[OF w c(1)] by blast
    then show ?thesis using Cons.IH[OF _ c(2)] by (simp add: s' rebuilt_def)
  next
    case (Some r)
    then have "refSiblings s = []" using Cons.prems(1) by (auto simp: n Let_def resolveRef_def split: if_splits)
    then show ?thesis using Cons.prems(2) refSiblings_props by simp
  qed
qed simp

end
