(* ===== verification/Analyze.thy ===== *)
theory Analyze
  imports Required Normalize
begin

text \<open>
  \<open>Analyze\<close> (\<open>pkg/engine/analyze.go\<close>): one report per spoke, with a plan only when the spoke has no
  errors. The schema source is its three answers: the versions (or the error of reading them), the
  generation, and the injected paths of a platform-aware source. Every version has a schema.
\<close>

record AnalyzeInput =
  aiVersions :: "gerr + VersionSchema list"
  aiGeneration :: int
  aiInjected :: "PlatformInjectedPaths option"
  aiHubVersion :: string
  aiSpokes :: "RuleSet list"

definition byName :: "VersionSchema list \<Rightarrow> string \<Rightarrow> VersionSchema option" where
  "byName vs = map_of (rev (map (\<lambda>v. (vsName v, v)) vs))"

definition failedSpoke :: "string \<Rightarrow> Diagnostic \<Rightarrow> SpokeReport" where
  "failedSpoke version d =
     \<lparr>srVersion = version, srLossless = verdict False False,
      srUncovered = \<lparr>UncoveredHub = [], UncoveredSpoke = []\<rparr>, srRuleResults = [],
      srErrors = [d], srWarnings = [], srCompiledPlan = None\<rparr>"

definition spokeDiags ::
    "PlatformInjectedPaths \<Rightarrow> VersionSchema \<Rightarrow> VersionSchema \<Rightarrow> RuleSet \<Rightarrow> built \<Rightarrow> Diagnostic list" where
  "spokeDiags injected hub spoke rs b =
     bDiags b
     @ sortDiagnostics (checkAuthoredShadowing injected (vsSchema hub) (vsName hub) ''hub''
         @ checkAuthoredShadowing injected (vsSchema spoke) (vsName spoke) ''spoke''
         @ checkRuleTargets injected (bResults b))
     @ sortDiagnostics (analyzeRequiredFields (vsSchema spoke) (vsSchema hub) (rsRules rs) (bResults b) ''spoke''
         @ analyzeRequiredFields (vsSchema hub) (vsSchema spoke) (rsRules rs) (bResults b) ''hub'')"

definition spokeReport ::
    "string \<Rightarrow> RuleSet \<Rightarrow> built \<Rightarrow> Diagnostic list \<Rightarrow> SpokeReport" where
  "spokeReport hubVersion rs b diags =
     (let errors = filter isError diags in
      \<lparr>srVersion = rsSpokeVersion rs, srLossless = bVerdict b,
       srUncovered = \<lparr>UncoveredHub = map dFieldPath (filter (\<lambda>d. dUncoveredSide d = UncoveredSideHub) diags),
                      UncoveredSpoke = map dFieldPath (filter (\<lambda>d. dUncoveredSide d = UncoveredSideSpoke) diags)\<rparr>,
       srRuleResults = bResults b,
       srErrors = errors, srWarnings = filter (\<lambda>d. \<not> isError d) diags,
       srCompiledPlan = (if errors = []
         then Some \<lparr>HubVersion = hubVersion, SpokeVersion = rsSpokeVersion rs, planHubToSpoke = bH2s b, planSpokeToHub = bS2h b\<rparr>
         else None)\<rparr>)"

definition analyzeSpoke ::
    "golib \<Rightarrow> PlatformInjectedPaths \<Rightarrow> VersionSchema list \<Rightarrow> VersionSchema \<Rightarrow> string \<Rightarrow> RuleSet \<Rightarrow> SpokeReport" where
  "analyzeSpoke lib injected versions hub hubVersion rs =
     (case byName versions (rsSpokeVersion rs) of
        None \<Rightarrow> failedSpoke (rsSpokeVersion rs)
          (errorf (-1) ''spoke version %q not found among the resource's versions'' [MStr (rsSpokeVersion rs)])
      | Some spoke \<Rightarrow>
          (if \<not> vsServed spoke then failedSpoke (rsSpokeVersion rs)
             (errorf (-1) ''spoke version %q is not served'' [MStr (rsSpokeVersion rs)])
           else (let b = resolveAndBuildOps lib (rsRules rs) (vsSchema hub) (vsSchema spoke)
                          (effectivePolicy (rsUnmappedFieldPolicy rs)) 0
                 in spokeReport hubVersion rs b (spokeDiags injected hub spoke rs b))))"

definition AnalyzeConfig :: "golib \<Rightarrow> AnalyzeInput \<Rightarrow> gerr + AnalyzeReport" where
  "AnalyzeConfig lib inp =
     (case bindR (aiVersions inp) (NormalizedVersions lib) of
        Inl e \<Rightarrow> Inl (Fmt ''analyze: reading versions: %w'' [e])
      | Inr versions \<Rightarrow>
          (case byName versions (aiHubVersion inp) of
             None \<Rightarrow> Inl (Fmt ''analyze: hub version %q not found among served versions'' [MStr (aiHubVersion inp)])
           | Some hub \<Rightarrow>
               (if \<not> vsStorage hub
                then Inl (Fmt ''analyze: hub version %q must be the storage/referenceable version'' [MStr (aiHubVersion inp)])
                else Inr \<lparr>arResourceGeneration = aiGeneration inp,
                  arSpokeReports = map (analyzeSpoke lib
                      (case aiInjected inp of None \<Rightarrow> noPlatform | Some p \<Rightarrow> p) versions hub (aiHubVersion inp))
                    (aiSpokes inp)\<rparr>)))"

subsection \<open>Plans are attached only to clean spokes\<close>

lemma filter_isError_Nil: "filter isError ds = [] \<longleftrightarrow> errorFree ds"
  by (auto simp: filter_empty_conv errorFree_def list_all_iff)

lemma spokeReport_plan:
  "srCompiledPlan (spokeReport hv rs b ds) \<noteq> None \<longleftrightarrow> errorFree ds"
  "srErrors (spokeReport hv rs b ds) = [] \<longleftrightarrow> errorFree ds"
  by (simp_all add: spokeReport_def Let_def filter_isError_Nil)

text \<open>
  A plan that \<open>Analyze\<close> attached comes from an error-free compilation of the spoke's rules against
  the hub and spoke schemas, and passed the required-field checks of both directions.
\<close>

lemma analyzeSpoke_plan:
  assumes "srCompiledPlan (analyzeSpoke lib injected versions hub hv rs) = Some p"
  obtains spoke b where "byName versions (rsSpokeVersion rs) = Some spoke" and "vsServed spoke"
    and "b = resolveAndBuildOps lib (rsRules rs) (vsSchema hub) (vsSchema spoke) (effectivePolicy (rsUnmappedFieldPolicy rs)) 0"
    and "errorFree (bDiags b)" and "planHubToSpoke p = bH2s b" and "planSpokeToHub p = bS2h b"
    and "errorFree (analyzeRequiredFields (vsSchema spoke) (vsSchema hub) (rsRules rs) (bResults b) ''spoke'')"
    and "errorFree (analyzeRequiredFields (vsSchema hub) (vsSchema spoke) (rsRules rs) (bResults b) ''hub'')"
    and "errorFree (checkRuleTargets injected (bResults b))"
proof -
  from assms obtain spoke where spoke: "byName versions (rsSpokeVersion rs) = Some spoke" "vsServed spoke"
    by (auto simp: analyzeSpoke_def failedSpoke_def split: option.splits if_splits)
  let ?b = "resolveAndBuildOps lib (rsRules rs) (vsSchema hub) (vsSchema spoke) (effectivePolicy (rsUnmappedFieldPolicy rs)) 0"
  have p: "srCompiledPlan (spokeReport hv rs ?b (spokeDiags injected hub spoke rs ?b)) = Some p"
    using assms spoke by (simp add: analyzeSpoke_def Let_def)
  then have "errorFree (spokeDiags injected hub spoke rs ?b)"
    using spokeReport_plan(1)[of hv rs ?b "spokeDiags injected hub spoke rs ?b"] by simp
  moreover from this p have "planHubToSpoke p = bH2s ?b" "planSpokeToHub p = bS2h ?b"
    by (auto simp: spokeReport_def Let_def filter_isError_Nil)
  ultimately show thesis using that spoke by (simp add: spokeDiags_def)
qed

end
