(* ===== verification/RoundTrip.thy ===== *)
theory RoundTrip
  imports Coverage
begin

text \<open>
  Values through a compiled plan and back. A compiled direction is a list of operations that each
  move one field, followed by the passthrough; \<open>direction\<close> says what such a list leaves in its
  output. Two lists of mirrored operations then restore every field they move, and the undeclared
  ones. The last part shows that the plans \<open>resolveAndBuildOps\<close> builds have this form, for rules
  that move one declared field to one declared field.
\<close>

subsection \<open>The starting point of a conversion\<close>

lemma settable_present:
  assumes "getValue obj p = Some v" and "p \<noteq> []"
  shows "settable obj p"
proof -
  have "case getValue obj r of None \<Rightarrow> True | Some (JObj _) \<Rightarrow> True | _ \<Rightarrow> False" if r: "strict_prefix r p" for r
  proof -
    obtain s where s: "p = r @ s" "s \<noteq> []" using r by (auto simp: strict_prefix_def prefix_def)
    then obtain w where w: "getValue obj r = Some w" "getFrom w s = Some v"
      using assms(1) by (auto simp: getValue_append split: option.splits)
    then obtain m where "w = JObj m" using s(2) by (cases s) (auto dest: getFrom_Some_Cons)
    then show ?thesis using w by simp
  qed
  then show ?thesis using assms(2) by (simp add: settable_def)
qed

lemma wf_getFrom: "wf_val v \<Longrightarrow> getFrom v p = Some w \<Longrightarrow> wf_val w"
proof (induction p arbitrary: v)
  case (Cons k ks)
  then obtain m u where m: "v = JObj m" "map_of m k = Some u" "getFrom u ks = Some w"
    by (auto dest!: getFrom_Some_Cons simp: getValue_Cons split: option.splits)
  then have "wf_val u" using Cons.prems(1) wf_obj_lookup[of m k u] by (simp only: wf_obj_def)
  then show ?case using Cons.IH m(3) by blast
qed simp

lemma wf_getValue: "wf_obj obj \<Longrightarrow> getValue obj p = Some v \<Longrightarrow> wf_val v"
  unfolding getValue_def wf_obj_def by (rule wf_getFrom)

lemma wf_baseline: "wf_obj obj \<Longrightarrow> wf_obj (baseline obj)"
proof -
  assume wf: "wf_obj obj"
  have kind: "wf_obj (case map_of obj ''kind'' of Some k \<Rightarrow> [(''kind'', k)] | None \<Rightarrow> [])"
    using wf_obj_lookup[OF wf] by (auto simp: wf_obj_def split: option.split)
  have empty: "wf_val (JObj [])" by simp
  show ?thesis
    unfolding baseline_def Let_def
    using wf_obj_update[OF kind] wf_obj_lookup[OF wf, of "''metadata''"] empty
    by (auto split: option.split simp del: wf_val.simps)
qed

text \<open>Below the kind and the metadata the output starts with what the input has.\<close>

lemma baseline_reserved:
  assumes "k = ''kind'' \<or> k = ''metadata''" and "k # ks \<noteq> [''metadata'']"
  shows "getValue (baseline obj) (k # ks) = getValue obj (k # ks)"
proof (cases "k = ''kind''")
  case True
  then show ?thesis by (auto simp: baseline_def Let_def getValue_Cons split: option.splits)
next
  case False
  then have k: "k = ''metadata''" and ks: "ks \<noteq> []" using assms by auto
  have md: "map_of (baseline obj) ''metadata'' =
      Some (case map_of obj ''metadata'' of Some md \<Rightarrow> (if md \<noteq> JNull then md else JObj []) | None \<Rightarrow> JObj [])"
    by (auto simp: baseline_def Let_def split: option.splits)
  have "getFrom JNull ks = None" "getFrom (JObj []) ks = None"
    using ks by (cases ks; simp add: getFrom_non_object)+
  then show ?thesis unfolding getValue_Cons k md by (simp split: option.split)
qed

lemma baseline_settable:
  assumes "getValue obj p = Some v" and "p \<noteq> []"
  shows "settable (baseline obj) p"
proof (cases "payloadPath p")
  case True
  then show ?thesis by (rule payload_baseline)
next
  case False
  with assms(2) obtain k ks where p: "p = k # ks" "k = ''kind'' \<or> k = ''metadata''"
    by (cases p) (auto simp: payloadPath_def)
  show ?thesis
  proof (cases "ks = []")
    case False
    then have "getValue (baseline obj) p = Some v" using baseline_reserved[of k ks obj] p assms(1) by auto
    then show ?thesis using assms(2) by (rule settable_present)
  qed (simp add: p)
qed

subsection \<open>The passthrough succeeds and stays out of declared fields\<close>

lemma puts_ok:
  assumes "sorted_wrt parallel (map fst ws)" and "\<forall>pv\<in>set ws. settable out (fst pv)"
  shows "\<exists>out'. foldR (\<lambda>(p, v) o'. setValue o' p v) ws out = Inr out'"
  using assms
proof (induction ws arbitrary: out)
  case (Cons pv ws)
  obtain p v where pv: "pv = (p, v)" by (cases pv)
  obtain out1 where out1: "setValue out p v = Inr out1"
    using Cons.prems(2) setValue_ok_iff[of out p v] pv by auto
  have "\<forall>qw\<in>set ws. settable out1 (fst qw)"
    using Cons.prems settable_parallel[OF _ out1] pv by auto
  then show ?case using Cons.IH[of out1] Cons.prems(1) out1 pv by auto
qed simp

lemma sorted_wrt_distinct:
  "distinct xs \<Longrightarrow> (\<And>x y. x \<in> set xs \<Longrightarrow> y \<in> set xs \<Longrightarrow> x \<noteq> y \<Longrightarrow> R x y) \<Longrightarrow> sorted_wrt R xs"
  by (induction xs) auto

lemma key_has_value: "k \<in> set (map fst ws) \<Longrightarrow> \<exists>w. (k, w) \<in> set ws"
  by force

lemma collectUnknown_parallel:
  assumes "wf_obj inp"
  shows "sorted_wrt parallel (map fst (collectUnknown t (JObj inp) []))"
proof -
  let ?ws = "collectUnknown t (JObj inp) []"
  have d: "distinct (map fst ?ws)"
    by (rule collectUnknown_distinct) (use assms in \<open>simp only: wf_obj_def\<close>)
  have und: "undeclaredAt t p" if p: "p \<in> set (map fst ?ws)" for p
  proof -
    obtain w where "(p, w) \<in> set ?ws" using key_has_value[OF p] ..
    then show ?thesis using collectUnknown_top_iff[OF assms] by blast
  qed
  have "parallel p q" if "p \<in> set (map fst ?ws)" "q \<in> set (map fst ?ws)" "p \<noteq> q" for p q
    using undeclaredFrom_parallel und[OF that(1)] und[OF that(2)] that(3) by (simp add: undeclaredAt_def)
  then show ?thesis by (rule sorted_wrt_distinct[OF d])
qed

lemma applyPassthrough_ok:
  assumes "wf_obj inp" and "\<forall>p v. undeclaredAt t p \<longrightarrow> getValue inp p = Some v \<longrightarrow> settable out p"
  shows "\<exists>out'. applyPassthrough t inp out = Inr out'"
  unfolding applyPassthrough_unfold
proof (rule puts_ok[OF collectUnknown_parallel[OF assms(1)]])
  have "settable out p" if "(p, v) \<in> set (collectUnknown t (JObj inp) [])" for p v
    using that assms(2) unfolding collectUnknown_top_iff[OF assms(1)] by blast
  then show "\<forall>pv\<in>set (collectUnknown t (JObj inp) []). settable out (fst pv)" by (metis prod.collapse)
qed

lemma applyPassthrough_wf:
  assumes "wf_obj inp" and "wf_obj out" and "applyPassthrough t inp out = Inr out'"
  shows "wf_obj out'"
proof (rule foldR_invariant[OF assms(3)[unfolded applyPassthrough_unfold], where P = wf_obj])
  fix x a b assume x: "x \<in> set (collectUnknown t (JObj inp) [])" "(case x of (p, v) \<Rightarrow> \<lambda>o'. setValue o' p v) a = Inr b" "wf_obj a"
  obtain p v where pv: "x = (p, v)" by (cases x)
  have "wf_val v" using x(1) pv collectUnknown_top_iff[OF assms(1)] wf_getValue[OF assms(1)] by blast
  then show "wf_obj b" using x(2,3) pv wf_setValue by auto
qed (rule assms(2))

text \<open>A field that lies at or below a terminal node of the tree is out of reach of the passthrough.\<close>

definition shielded :: "knownTree \<Rightarrow> FieldPath \<Rightarrow> bool" where
  "shielded t q \<longleftrightarrow> (\<exists>r\<in>set (prefixes q). declaredLeaf t r)"

lemma parallel_below: "parallel p r \<Longrightarrow> prefix r q \<Longrightarrow> parallel p q"
  unfolding parallel_def by (metis prefix_order.trans prefix_same_cases)

lemma undeclared_parallel_shielded:
  assumes "undeclaredAt t p" and "shielded t q"
  shows "parallel p q"
proof -
  obtain r where r: "prefix r q" "walk t r = Some (KT [])" using assms(2) by (auto simp: shielded_def declaredLeaf_def)
  have "ktChildren t \<noteq> []" using assms(1) by (cases p) (auto simp: undeclaredAt_def split: option.splits)
  then have "parallel p r" using undeclared_parallel_declaredLeaf assms(1) r(2) by (simp add: undeclaredAt_def)
  then show ?thesis using r(1) by (rule parallel_below)
qed

lemma applyPassthrough_shielded:
  assumes "wf_obj inp" and "applyPassthrough t inp out = Inr out'" and "shielded t q"
  shows "getValue out' q = getValue out q"
proof (rule objects.puts_frame[OF assms(2)[unfolded applyPassthrough_unfold]], clarify)
  fix p w assume "(p, w) \<in> set (collectUnknown t (JObj inp) [])"
  then have "undeclaredAt t p" using assms(1) by (simp add: collectUnknown_top_iff)
  then show "parallel p q" using assms(3) by (rule undeclared_parallel_shielded)
qed

subsection \<open>One direction\<close>

text \<open>
  A list of field operations \<open>(s, d, f)\<close>: read at \<open>s\<close>, translate with \<open>f\<close>, write at \<open>d\<close>.
  \<open>fieldResult\<close> is the value such an operation writes, if any.
\<close>

definition fieldOps :: "(FieldPath \<times> FieldPath \<times> (jval \<Rightarrow> gerr + jval option)) list \<Rightarrow> step" where
  "fieldOps fs inp = foldR (\<lambda>(s, d, f). fieldOp s d f inp) fs"

definition fieldResult :: "jobj \<Rightarrow> FieldPath \<times> FieldPath \<times> (jval \<Rightarrow> gerr + jval option) \<Rightarrow> jval option" where
  "fieldResult inp c =
     (case c of (s, d, f) \<Rightarrow>
       (case getValue inp s of
          None \<Rightarrow> None
        | Some v \<Rightarrow> (case f v of Inr w \<Rightarrow> w | Inl e \<Rightarrow> None)))"

definition translates :: "jobj \<Rightarrow> FieldPath \<times> FieldPath \<times> (jval \<Rightarrow> gerr + jval option) \<Rightarrow> bool" where
  "translates inp c \<longleftrightarrow>
     (case getValue inp (fst c) of None \<Rightarrow> True | Some v \<Rightarrow> \<exists>w. snd (snd c) v = Inr w)"

lemma fieldOp_result:
  assumes "translates inp c"
  shows "fieldOp (fst c) (fst (snd c)) (snd (snd c)) inp out =
    (case fieldResult inp c of None \<Rightarrow> Inr out | Some w \<Rightarrow> setValue out (fst (snd c)) w)"
  using assms by (auto simp: fieldOp_def fieldResult_def translates_def split: option.splits prod.splits)

lemma fieldOps_Cons: "fieldOps (c # cs) inp out =
    bindR (fieldOp (fst c) (fst (snd c)) (snd (snd c)) inp out) (fieldOps cs inp)"
  by (cases c) (simp add: fieldOps_def)

text \<open>Independent writes: they succeed, and leave the result of each operation at its destination.\<close>

lemma fieldOps_result:
  assumes "sorted_wrt parallel (map (\<lambda>c. fst (snd c)) fs)" and "\<forall>c\<in>set fs. translates inp c"
    and "\<forall>c\<in>set fs. if fieldResult inp c = None then getValue out (fst (snd c)) = None else settable out (fst (snd c))"
  shows "\<exists>res. fieldOps fs inp out = Inr res \<and> (\<forall>c\<in>set fs. getValue res (fst (snd c)) = fieldResult inp c)
    \<and> (\<forall>q. (\<forall>c\<in>set fs. parallel (fst (snd c)) q) \<longrightarrow> getValue res q = getValue out q \<and> (settable out q \<longrightarrow> settable res q))
    \<and> (wf_obj out \<longrightarrow> (\<forall>c\<in>set fs. \<forall>w. fieldResult inp c = Some w \<longrightarrow> wf_val w) \<longrightarrow> wf_obj res)"
  using assms
proof (induction fs arbitrary: out)
  case (Cons c cs)
  let ?d = "fst (snd c)"
  define out1 where "out1 = (case fieldResult inp c of None \<Rightarrow> out | Some w \<Rightarrow> (case setValue out ?d w of Inr o' \<Rightarrow> o' | Inl _ \<Rightarrow> out))"
  have step: "fieldOp (fst c) ?d (snd (snd c)) inp out = Inr out1 \<and> getValue out1 ?d = fieldResult inp c
    \<and> (\<forall>q. parallel ?d q \<longrightarrow> getValue out1 q = getValue out q \<and> (settable out q \<longrightarrow> settable out1 q))
    \<and> (wf_obj out \<longrightarrow> (\<forall>w. fieldResult inp c = Some w \<longrightarrow> wf_val w) \<longrightarrow> wf_obj out1)"
  proof (cases "fieldResult inp c")
    case None
    then show ?thesis using Cons.prems fieldOp_result[of inp c out] by (auto simp: out1_def)
  next
    case (Some w)
    then obtain o' where o': "setValue out ?d w = Inr o'"
      using Cons.prems(3) setValue_ok_iff[of out ?d w] by auto
    then show ?thesis using Some Cons.prems(2) fieldOp_result[of inp c out]
      by (auto simp: out1_def getValue_setValue getValue_setValue_parallel settable_parallel wf_setValue)
  qed
  have par: "\<forall>e\<in>set cs. parallel ?d (fst (snd e))" using Cons.prems(1) by auto
  have ok: "\<forall>e\<in>set cs. if fieldResult inp e = None then getValue out1 (fst (snd e)) = None else settable out1 (fst (snd e))"
    using Cons.prems(3) par step by simp
  have cs: "sorted_wrt parallel (map (\<lambda>c. fst (snd c)) cs)" "\<forall>e\<in>set cs. translates inp e"
    using Cons.prems(1,2) by simp_all
  from Cons.IH[OF cs ok] obtain res where res: "fieldOps cs inp out1 = Inr res" "\<forall>e\<in>set cs. getValue res (fst (snd e)) = fieldResult inp e"
    "\<And>q. (\<forall>e\<in>set cs. parallel (fst (snd e)) q) \<Longrightarrow> getValue res q = getValue out1 q \<and> (settable out1 q \<longrightarrow> settable res q)"
    "wf_obj out1 \<Longrightarrow> (\<forall>e\<in>set cs. \<forall>w. fieldResult inp e = Some w \<longrightarrow> wf_val w) \<Longrightarrow> wf_obj res"
    by blast
  have "getValue res ?d = fieldResult inp c"
    using res(3)[of ?d] par step by (simp add: parallel_commute)
  then show ?case using res step by (intro exI[of _ res]) (auto simp: fieldOps_Cons)
qed (simp add: fieldOps_def)

text \<open>The whole direction: the field operations, then the passthrough.\<close>

definition startsFrom :: "jobj \<Rightarrow> FieldPath \<times> FieldPath \<times> (jval \<Rightarrow> gerr + jval option) \<Rightarrow> bool" where
  "startsFrom inp c \<longleftrightarrow>
     (if fieldResult inp c = None then getValue (baseline inp) (fst (snd c)) = None
      else settable (baseline inp) (fst (snd c)))"

lemma direction:
  assumes "wf_obj inp" and "sorted_wrt parallel (map (\<lambda>c. fst (snd c)) fs)"
    and "\<forall>c\<in>set fs. translates inp c \<and> startsFrom inp c \<and> shielded t (fst (snd c))
      \<and> (\<forall>w. fieldResult inp c = Some w \<longrightarrow> wf_val w)"
  shows "\<exists>mid out. fieldOps fs inp (baseline inp) = Inr mid \<and> applyPassthrough t inp mid = Inr out \<and> wf_obj out
    \<and> (\<forall>c\<in>set fs. getValue out (fst (snd c)) = fieldResult inp c)
    \<and> (\<forall>p v. undeclaredAt t p \<longrightarrow> getValue inp p = Some v \<longrightarrow> getValue out p = Some v)"
proof -
  have "\<forall>c\<in>set fs. translates inp c" using assms(3) by blast
  moreover have "\<forall>c\<in>set fs. if fieldResult inp c = None then getValue (baseline inp) (fst (snd c)) = None
      else settable (baseline inp) (fst (snd c))" using assms(3) unfolding startsFrom_def by blast
  ultimately obtain mid where mid: "fieldOps fs inp (baseline inp) = Inr mid"
    "\<forall>c\<in>set fs. getValue mid (fst (snd c)) = fieldResult inp c"
    "\<And>q. (\<forall>c\<in>set fs. parallel (fst (snd c)) q) \<Longrightarrow> settable (baseline inp) q \<Longrightarrow> settable mid q"
    "wf_obj mid"
    using fieldOps_result[OF assms(2)] wf_baseline[OF assms(1)] assms(3) by blast
  have "settable mid p" if p: "undeclaredAt t p" "getValue inp p = Some v" for p v
  proof (rule mid(3))
    show "\<forall>c\<in>set fs. parallel (fst (snd c)) p"
      using assms(3) undeclared_parallel_shielded[OF p(1)] parallel_commute by blast
    have "p \<noteq> []" using p(1) by (auto simp: undeclaredAt_def)
    then show "settable (baseline inp) p" using p(2) by (rule baseline_settable[rotated])
  qed
  then obtain out where out: "applyPassthrough t inp mid = Inr out" using applyPassthrough_ok[OF assms(1)] by blast
  have "getValue out (fst (snd c)) = fieldResult inp c" if "c \<in> set fs" for c
    using applyPassthrough_shielded[OF assms(1) out] assms(3) mid(2) that by simp
  then show ?thesis
    using mid(1,4) out applyPassthrough_wf[OF assms(1)] applyPassthrough_copies[OF assms(1) out] by blast
qed

subsection \<open>There and back\<close>

text \<open>
  A mirrored pair: a forward operation from \<open>mSrc\<close> to \<open>mDst\<close> and a backward operation from \<open>mDst\<close>
  to \<open>mSrc\<close>. \<open>returns\<close> says that the value of \<open>obj\<close> at \<open>mSrc\<close>, if there is one, is translated, and
  back; \<open>grounded\<close> that the pair moves a field of the payload, or copies a field in place.
\<close>

record mirror =
  mSrc :: FieldPath
  mDst :: FieldPath
  mEnc :: "jval \<Rightarrow> gerr + jval option"
  mDec :: "jval \<Rightarrow> gerr + jval option"

definition forth :: "mirror \<Rightarrow> FieldPath \<times> FieldPath \<times> (jval \<Rightarrow> gerr + jval option)" where
  "forth m = (mSrc m, mDst m, mEnc m)"

definition backwards :: "mirror \<Rightarrow> FieldPath \<times> FieldPath \<times> (jval \<Rightarrow> gerr + jval option)" where
  "backwards m = (mDst m, mSrc m, mDec m)"

lemma mirror_sel [simp]:
  "fst (forth m) = mSrc m" "fst (snd (forth m)) = mDst m" "snd (snd (forth m)) = mEnc m"
  "fst (backwards m) = mDst m" "fst (snd (backwards m)) = mSrc m" "snd (snd (backwards m)) = mDec m"
  by (simp_all add: forth_def backwards_def)

definition copied :: "FieldPath \<Rightarrow> FieldPath \<Rightarrow> mirror" where
  "copied p q = \<lparr>mSrc = p, mDst = q, mEnc = (\<lambda>v. Inr (Some v)), mDec = (\<lambda>v. Inr (Some v))\<rparr>"

definition returns :: "jobj \<Rightarrow> mirror \<Rightarrow> bool" where
  "returns obj m =
     (case getValue obj (mSrc m) of
        None \<Rightarrow> True
      | Some v \<Rightarrow> (case mEnc m v of Inr (Some w) \<Rightarrow> wf_val w \<and> mDec m w = Inr (Some v) | _ \<Rightarrow> False))"

definition grounded :: "mirror \<Rightarrow> bool" where
  "grounded m \<longleftrightarrow> payloadPath (mSrc m) \<and> payloadPath (mDst m)
     \<or> (\<exists>p. m = copied p p \<and> p \<noteq> [] \<and> p \<noteq> [''metadata''])"

lemma returns_result:
  assumes "returns obj m"
  shows "translates obj (forth m)"
    and "fieldResult obj (forth m) = None \<longleftrightarrow> getValue obj (mSrc m) = None"
    and "fieldResult obj (forth m) = Some w \<Longrightarrow> wf_val w \<and> mDec m w = Inr (getValue obj (mSrc m))"
  using assms
  by (auto simp: returns_def translates_def fieldResult_def forth_def split: option.splits sum.splits)

lemma startsFrom_payload: "payloadPath (fst (snd c)) \<Longrightarrow> startsFrom inp c"
  by (simp add: startsFrom_def payload_baseline)

lemma startsFrom_copy:
  assumes "p \<noteq> []" and "p \<noteq> [''metadata'']"
  shows "startsFrom inp (p, p, \<lambda>v. Inr (Some v))"
proof (cases "payloadPath p")
  case False
  then obtain k ks where p: "p = k # ks" "k = ''kind'' \<or> k = ''metadata''"
    using assms(1) by (cases p) (auto simp: payloadPath_def)
  have "getValue (baseline inp) p = getValue inp p" using baseline_reserved[of k ks inp] p assms(2) by simp
  then show ?thesis using baseline_settable[of inp p] assms(1)
    by (auto simp: startsFrom_def fieldResult_def split: option.splits)
qed (simp add: startsFrom_payload)

lemma grounded_starts: "grounded m \<Longrightarrow> startsFrom inp (forth m) \<and> startsFrom inp (backwards m)"
proof -
  assume "grounded m"
  then consider "payloadPath (mSrc m)" "payloadPath (mDst m)" | p where "m = copied p p" "p \<noteq> []" "p \<noteq> [''metadata'']"
    unfolding grounded_def by blast
  then show ?thesis
  proof cases
    case 1
    then show ?thesis by (simp add: startsFrom_payload)
  next
    case 2
    then show ?thesis using startsFrom_copy[of p inp] by (simp add: copied_def forth_def backwards_def)
  qed
qed

lemma applyOps_fieldOps:
  "list_all2 (\<lambda>x c. opCodec lib x = Some c) xs fs \<Longrightarrow> applyOps lib xs inp out = fieldOps fs inp out"
proof (induction xs fs arbitrary: out rule: list_all2_induct)
  case (Cons x xs c fs)
  obtain s d f where "c = (s, d, f)" by (cases c)
  then show ?case using Cons opCodec_sound[of lib x s d f] by (simp add: fieldOps_def)
qed (simp add: fieldOps_def)

definition mirrors :: "golib \<Rightarrow> op list \<Rightarrow> op list \<Rightarrow> mirror list \<Rightarrow> bool" where
  "mirrors lib xs ys ms \<longleftrightarrow>
     list_all2 (\<lambda>x m. opCodec lib x = Some (forth m)) xs ms
   \<and> list_all2 (\<lambda>y m. opCodec lib y = Some (backwards m)) ys ms"

lemma mirrors_codecs:
  assumes "mirrors lib xs ys ms"
  shows "applyOps lib xs inp out = fieldOps (map forth ms) inp out"
    and "applyOps lib ys inp out = fieldOps (map backwards ms) inp out"
  using assms by (auto simp: mirrors_def list_all2_map2 intro!: applyOps_fieldOps)

lemma mirrors_append: "mirrors lib xs ys ms \<Longrightarrow> mirrors lib xs' ys' ms' \<Longrightarrow> mirrors lib (xs @ xs') (ys @ ys') (ms @ ms')"
  by (simp add: mirrors_def list_all2_appendI)

text \<open>What a pair of fields needs so that its value survives the round trip.\<close>

definition roundTrips :: "knownTree \<Rightarrow> jobj \<Rightarrow> mirror list \<Rightarrow> bool" where
  "roundTrips t obj ms \<longleftrightarrow>
     sorted_wrt parallel (map mSrc ms) \<and> sorted_wrt parallel (map mDst ms)
   \<and> (\<forall>m\<in>set ms. grounded m \<and> returns obj m \<and> shielded t (mSrc m) \<and> shielded t (mDst m))"

lemma mirrored_plan:
  assumes "wf_obj obj" and "mirrors lib xs ys ms" and "roundTrips t obj ms"
  shows "\<exists>spoke hub. applyOps lib (xs @ [PassthroughUnknownOp t]) obj (baseline obj) = Inr spoke
    \<and> applyOps lib (ys @ [PassthroughUnknownOp t]) spoke (baseline spoke) = Inr hub
    \<and> (\<forall>m\<in>set ms. getValue hub (mSrc m) = getValue obj (mSrc m))
    \<and> (\<forall>p v. undeclaredAt t p \<longrightarrow> getValue obj p = Some v \<longrightarrow> getValue spoke p = Some v \<and> getValue hub p = Some v)"
proof -
  have m: "grounded m" "returns obj m" "shielded t (mSrc m)" "shielded t (mDst m)" if "m \<in> set ms" for m
    using assms(3) that by (simp_all add: roundTrips_def)
  have dst: "map (\<lambda>c. fst (snd c)) (map forth ms) = map mDst ms" "map (\<lambda>c. fst (snd c)) (map backwards ms) = map mSrc ms"
    by simp_all
  have par: "sorted_wrt parallel (map mDst ms)" "sorted_wrt parallel (map mSrc ms)"
    using assms(3) by (simp_all add: roundTrips_def)
  have fwd: "\<forall>c\<in>set (map forth ms). translates obj c \<and> startsFrom obj c \<and> shielded t (fst (snd c))
      \<and> (\<forall>w. fieldResult obj c = Some w \<longrightarrow> wf_val w)"
    using m returns_result(1)[OF m(2)] returns_result(3)[OF m(2)] grounded_starts[OF m(1)] by simp
  obtain mid spoke where spoke: "fieldOps (map forth ms) obj (baseline obj) = Inr mid" "applyPassthrough t obj mid = Inr spoke"
    "wf_obj spoke" "\<forall>c\<in>set (map forth ms). getValue spoke (fst (snd c)) = fieldResult obj c"
    "\<And>p v. undeclaredAt t p \<Longrightarrow> getValue obj p = Some v \<Longrightarrow> getValue spoke p = Some v"
    using direction[OF assms(1) par(1)[folded dst(1)] fwd] by blast
  have backw: "translates spoke (backwards m) \<and> fieldResult spoke (backwards m) = getValue obj (mSrc m)" if "m \<in> set ms" for m
  proof (cases "getValue spoke (mDst m)")
    case None
    then show ?thesis using spoke(4) that returns_result(2)[OF m(2)[OF that]]
      by (auto simp: translates_def fieldResult_def backwards_def)
  next
    case (Some w)
    then have "mDec m w = Inr (getValue obj (mSrc m))"
      using spoke(4) that returns_result(3)[OF m(2)[OF that]] by auto
    then show ?thesis using Some by (auto simp: translates_def fieldResult_def backwards_def)
  qed
  have bwd: "\<forall>c\<in>set (map backwards ms). translates spoke c \<and> startsFrom spoke c \<and> shielded t (fst (snd c))
      \<and> (\<forall>w. fieldResult spoke c = Some w \<longrightarrow> wf_val w)"
    using m backw grounded_starts wf_getValue[OF assms(1)] by auto
  obtain mid2 hub where hub: "fieldOps (map backwards ms) spoke (baseline spoke) = Inr mid2" "applyPassthrough t spoke mid2 = Inr hub"
    "\<forall>c\<in>set (map backwards ms). getValue hub (fst (snd c)) = fieldResult spoke c"
    "\<And>p v. undeclaredAt t p \<Longrightarrow> getValue spoke p = Some v \<Longrightarrow> getValue hub p = Some v"
    using direction[OF spoke(3) par(2)[folded dst(2)] bwd] by blast
  have "\<forall>m\<in>set ms. getValue hub (mSrc m) = getValue obj (mSrc m)" using hub(3) backw by simp
  moreover have "applyOps lib (xs @ [PassthroughUnknownOp t]) obj (baseline obj) = Inr spoke"
    "applyOps lib (ys @ [PassthroughUnknownOp t]) spoke (baseline spoke) = Inr hub"
    using spoke(1,2) hub(1,2) by (simp_all add: applyOps_append mirrors_codecs[OF assms(2)])
  ultimately show ?thesis using spoke(5) hub(4) by blast
qed

subsection \<open>Declared leaves are shielded\<close>

lemma leaf_terminal:
  assumes "l \<in> set (flattenInto s path req)" and "wf_schema s" and "unresolvedConstruct (lfSchema l) = []"
  shows "\<exists>q. lfPath l = path @ q \<and> walk (buildKnownTree s) q = Some (KT [])"
  using assms
proof (induction s path req arbitrary: l rule: flattenInto.induct)
  case (1 s path req)
  show ?case
  proof (cases "unresolvedConstruct s = [] \<and> fst (classify s) = FieldKindObject \<and> \<not> snd (classify s) \<and> sProps s \<noteq> []")
    case False
    have "l = leafOf s path req (lfOpaque l) (lfConstruct l)"
      using "1.prems"(1) False by (subst (asm) flattenInto.simps) (auto simp: Let_def leafOf_def isStructuralNode_def split: if_splits)
    then have l: "lfPath l = path" "lfSchema l = s" unfolding leafOf_def by (metis LeafField.select_convs(1,3))+
    then have "buildKnownTree s = KT []"
      using False "1.prems"(3) by (subst buildKnownTree.simps) (auto simp: Let_def)
    then show ?thesis using l(1) by (intro exI[of _ "[]"]) simp
  next
    case True
    then have flat: "flattenInto s path req = concat (map (\<lambda>np. flattenInto (snd np) (path @ [fst np]) (sRequired s)) (sProps s))"
      by (subst flattenInto.simps) (auto simp: Let_def isStructuralNode_def)
    then obtain np where np: "np \<in> set (sProps s)" "l \<in> set (flattenInto (snd np) (path @ [fst np]) (sRequired s))"
      using "1.prems"(1) by auto
    have wf: "distinct (map fst (sProps s))" "wf_schema (snd np)"
      using "1.prems"(2) np(1) by (subst (asm) wf_schema.simps, simp)+
    have "\<exists>q. lfPath l = (path @ [fst np]) @ q \<and> walk (buildKnownTree (snd np)) q = Some (KT [])"
      using "1.IH"[OF refl refl _ _ _ _ _ np(1) np(2) wf(2) "1.prems"(3)] True by (auto simp: isStructuralNode_def)
    then obtain q where q: "lfPath l = path @ fst np # q" "walk (buildKnownTree (snd np)) q = Some (KT [])" by auto
    have tree: "buildKnownTree s = KT (map (\<lambda>np. (fst np, buildKnownTree (snd np))) (sProps s))"
      using True by (subst buildKnownTree.simps) (simp add: Let_def)
    have "map_of (map (\<lambda>np. (fst np, buildKnownTree (snd np))) (sProps s)) (fst np) = Some (buildKnownTree (snd np))"
      using np(1) wf(1) by (intro map_of_is_SomeI) (force simp: comp_def)+
    then show ?thesis using q by (intro exI[of _ "fst np # q"]) (simp add: tree)
  qed
qed

lemma shielded_Cons: "map_of (ktChildren t) k = Some c \<Longrightarrow> shielded c q \<Longrightarrow> shielded t (k # q)"
  unfolding shielded_def declaredLeaf_def
  by auto

lemma shielded_self: "walk t q = Some (KT []) \<Longrightarrow> shielded t q"
  unfolding shielded_def declaredLeaf_def by (intro bexI[of _ q]) auto

lemma shielded_terminal: "shielded (KT []) q"
  unfolding shielded_def declaredLeaf_def by (intro bexI[of _ "[]"]) (auto simp: in_set_prefixes)

lemma merged_child:
  assumes "as \<noteq> []" and "bs \<noteq> []"
  shows "map_of (ktChildren (mergeKnownTrees (KT as) (KT bs))) k =
    (case map_of as k of
       Some ca \<Rightarrow> Some (case map_of bs k of Some cb \<Rightarrow> mergeKnownTrees ca cb | None \<Rightarrow> ca)
     | None \<Rightarrow> map_of bs k)"
proof -
  let ?g = "\<lambda>k c. case map_of bs k of Some cb \<Rightarrow> mergeKnownTrees c cb | None \<Rightarrow> c"
  have l: "map_of (map (\<lambda>kc. (fst kc, ?g (fst kc) (snd kc))) xs) k = map_option (?g k) (map_of xs k)" for xs :: "(string \<times> knownTree) list"
    by (induction xs) auto
  have r: "k \<notin> fst ` set as \<Longrightarrow> map_of (filter (\<lambda>kc. fst kc \<notin> fst ` set as) ys) k = map_of ys k" for ys :: "(string \<times> knownTree) list"
    by (induction ys) auto
  show ?thesis
  proof (cases "map_of as k")
    case None
    then have "k \<notin> fst ` set as" by (simp add: map_of_eq_None_iff)
    then show ?thesis using assms None by (simp add: map_add_def l r)
  next
    case (Some ca)
    have "map_of (filter (\<lambda>kc. fst kc \<notin> fst ` set as) bs) k = None"
      using Some by (auto simp: map_of_eq_None_iff dest!: map_of_SomeD intro: rev_image_eqI)
    then show ?thesis using assms Some by (simp add: map_add_def l)
  qed
qed

lemma merge_terminal [simp]: "mergeKnownTrees (KT []) b = KT []" "mergeKnownTrees a (KT []) = KT []"
  by (cases b; simp) (cases a; simp)

lemma shielded_merge:
  "walk a q = Some (KT []) \<Longrightarrow> shielded (mergeKnownTrees a b) q"
  "walk b q = Some (KT []) \<Longrightarrow> shielded (mergeKnownTrees a b) q"
proof (induction q arbitrary: a b)
  case (Cons k q)
  {
    case 1
    obtain as bs where ab: "a = KT as" "b = KT bs" by (cases a; cases b)
    from 1 obtain c where c: "map_of as k = Some c" "walk c q = Some (KT [])" by (auto simp: ab split: option.splits)
    show ?case
    proof (cases "as = [] \<or> bs = []")
      case False
      then show ?thesis using c Cons.IH(1)[OF c(2)] merged_child[of as bs k] shielded_self[OF c(2)]
        by (auto simp: ab split: option.splits intro!: shielded_Cons simp del: mergeKnownTrees.simps)
    qed (auto simp: ab shielded_terminal)
  next
    case 2
    obtain as bs where ab: "a = KT as" "b = KT bs" by (cases a; cases b)
    from 2 obtain c where c: "map_of bs k = Some c" "walk c q = Some (KT [])" by (auto simp: ab split: option.splits)
    show ?case
    proof (cases "as = [] \<or> bs = []")
      case False
      then show ?thesis using c Cons.IH(2)[OF c(2)] merged_child[of as bs k] shielded_self[OF c(2)]
        by (auto simp: ab split: option.splits intro!: shielded_Cons simp del: mergeKnownTrees.simps)
    qed (auto simp: ab shielded_terminal)
  }
qed (simp_all add: shielded_terminal)

subsection \<open>The form of compiled plans\<close>

lemma map_filter_map: "List.map_filter g (map h ys) = List.map_filter (\<lambda>y. g (h y)) ys"
  by (induction ys) (simp_all split: option.split)

lemma map_filter_enumerate:
  "List.map_filter g (enumerate 0 xs) = List.map_filter (\<lambda>i. g (i, xs ! i)) [0..<length xs]"
  using map_enumerate[of "\<lambda>x. x" xs] by (simp add: map_filter_map)

lemma fold_compileStep_ops:
  assumes "\<forall>ir\<in>set irs. ruleWhen (snd ir) = None"
  shows "bH2s (snd (fold (compileStep lib nested hub spoke policy depth) irs LB)) = bH2s (snd LB)
      @ List.map_filter (\<lambda>ir. rH2s (resolveRule lib nested (int (fst ir)) (snd ir) hub spoke policy depth)) irs
    \<and> bS2h (snd (fold (compileStep lib nested hub spoke policy depth) irs LB)) = bS2h (snd LB)
      @ List.map_filter (\<lambda>ir. rS2h (resolveRule lib nested (int (fst ir)) (snd ir) hub spoke policy depth)) irs"
  using assms
proof (induction irs arbitrary: LB)
  case (Cons ir irs)
  have w: "ruleWhen (snd ir) = None" "\<forall>ir\<in>set irs. ruleWhen (snd ir) = None" using Cons.prems by simp_all
  have step: "bH2s (snd (compileStep lib nested hub spoke policy depth ir LB)) = bH2s (snd LB)
      @ (case rH2s (resolveRule lib nested (int (fst ir)) (snd ir) hub spoke policy depth) of None \<Rightarrow> [] | Some x \<Rightarrow> [x])"
    "bS2h (snd (compileStep lib nested hub spoke policy depth ir LB)) = bS2h (snd LB)
      @ (case rS2h (resolveRule lib nested (int (fst ir)) (snd ir) hub spoke policy depth) of None \<Rightarrow> [] | Some x \<Rightarrow> [x])" for LB
    using w(1) by (simp_all add: compileStep_def Let_def applyWhenClause_def)
  show ?case using Cons.IH[OF w(2), of "compileStep lib nested hub spoke policy depth ir LB"]
    by (simp add: step split: option.split)
qed (simp_all add: map_filter_simps)

text \<open>What the leftover scan appends: the same copies in both directions, of unclaimed leaves.\<close>

definition appends :: "(string \<Rightarrow> LeafField option) \<Rightarrow> LeafField list \<Rightarrow> ledger \<times> built \<Rightarrow> ledger \<times> built \<Rightarrow> LeafField list \<Rightarrow> bool" where
  "appends look ls LB LB' cs \<longleftrightarrow>
     bH2s (snd LB') = bH2s (snd LB) @ map (\<lambda>l. IdentityOp (lfPath l)) cs
   \<and> bS2h (snd LB') = bS2h (snd LB) @ map (\<lambda>l. IdentityOp (lfPath l)) cs
   \<and> distinct (map leafKey cs) \<and> set cs \<subseteq> set ls
   \<and> (\<forall>l\<in>set cs. look (leafKey l) \<noteq> None \<and> (OnHub, leafKey l) \<notin> ownedKeys (fst LB) \<and> (OnSpoke, leafKey l) \<notin> ownedKeys (fst LB))
   \<and> ownedKeys (fst LB') = ownedKeys (fst LB) \<union> UNIV \<times> leafKey ` set cs
   \<and> (\<forall>l\<in>set ls. (OnHub, leafKey l) \<in> ownedKeys (fst LB'))"

lemma UNIV_claimSide: "(UNIV :: claimSide set) = {OnHub, OnSpoke}"
  using claimSide.exhaust by auto

lemma hubLeftover_appends:
  assumes "policy \<noteq> UnmappedFieldPolicyWarn" and "errorFree (bDiags (snd (hubLeftover look policy l LB)))"
  shows "\<exists>cs. appends look [l] LB (hubLeftover look policy l LB) cs"
proof (cases "leafKey l \<in> claimedHub (fst LB)")
  case True
  then show ?thesis
    by (intro exI[of _ "[]"]) (simp add: appends_def hubLeftover_def Let_def ownedKeys_def)
next
  case False
  then have c: "leafKey l \<notin> claimedSpoke (fst LB)" "\<exists>sl. look (leafKey l) = Some sl \<and> sameShape sl l"
    using assms by (auto simp: hubLeftover_def Let_def uncoveredSeverity_def split: if_splits option.splits)
  then show ?thesis using False
    by (intro exI[of _ "[l]"]) (auto simp: appends_def hubLeftover_def Let_def ownedKeys_def UNIV_claimSide)
qed

lemma appends_trans:
  assumes "appends look ls A B cs" and "appends look ls' B C ds"
  shows "appends look (ls @ ls') A C (cs @ ds)"
proof -
  have "leafKey a \<noteq> leafKey b" if "a \<in> set cs" "b \<in> set ds" for a b
  proof -
    have "(OnHub, leafKey b) \<notin> ownedKeys (fst B)" using assms(2) that(2) by (simp add: appends_def)
    moreover have "(OnHub, leafKey a) \<in> ownedKeys (fst B)" using assms(1) that(1) by (simp add: appends_def)
    ultimately show ?thesis by metis
  qed
  then have "set (map leafKey cs) \<inter> set (map leafKey ds) = {}" by auto
  moreover have "distinct (map leafKey cs)" "distinct (map leafKey ds)" using assms unfolding appends_def by blast+
  ultimately have "distinct (map leafKey (cs @ ds))" by (simp only: map_append distinct_append simp_thms)
  then show ?thesis using assms unfolding appends_def by auto
qed

lemma hubLeftover_fold_appends:
  assumes "policy \<noteq> UnmappedFieldPolicyWarn" and "errorFree (bDiags (snd (fold (hubLeftover look policy) ls LB)))"
  shows "\<exists>cs. appends look ls LB (fold (hubLeftover look policy) ls LB) cs"
  using assms(2)
proof (induction ls arbitrary: LB)
  case Nil
  show ?case by (intro exI[of _ "[]"]) (simp add: appends_def)
next
  case (Cons l ls)
  let ?LB = "hubLeftover look policy l LB"
  have "errorFree (bDiags (snd ?LB))" using Cons.prems hubLeftover_fold_errors by simp
  then obtain cs where "appends look [l] LB ?LB cs" using hubLeftover_appends[OF assms(1)] by blast
  moreover obtain ds where "appends look ls ?LB (fold (hubLeftover look policy) ls ?LB) ds"
    using Cons.IH[of ?LB] Cons.prems by auto
  ultimately show ?case using appends_trans[of look "[l]"] by fastforce
qed

text \<open>
  An error-free compilation of rules without a \<open>when\<close> clause: the operations of the rules in
  order, then copies of the leaves no rule claims, then the passthrough.
\<close>

lemma compiled_form:
  assumes "errorFree (bDiags (resolveAndBuildOps lib rules hub spoke policy depth))"
    and "policy \<noteq> UnmappedFieldPolicyWarn" and "\<forall>r\<in>set rules. ruleWhen r = None"
  defines "res \<equiv> ruleResolved lib rules hub spoke policy depth"
  defines "tree \<equiv> mergeKnownTrees (buildKnownTree hub) (buildKnownTree spoke)"
  shows "\<exists>cs. appends (leavesByPath (flattenSchema spoke)) (flattenSchema hub)
        (afterRules lib rules hub spoke policy depth) (leftoverScan hub spoke policy (afterRules lib rules hub spoke policy depth)) cs
    \<and> bH2s (resolveAndBuildOps lib rules hub spoke policy depth) =
        List.map_filter (\<lambda>i. rH2s (res i)) [0..<length rules] @ map (\<lambda>l. IdentityOp (lfPath l)) cs @ [PassthroughUnknownOp tree]
    \<and> bS2h (resolveAndBuildOps lib rules hub spoke policy depth) =
        List.map_filter (\<lambda>i. rS2h (res i)) [0..<length rules] @ map (\<lambda>l. IdentityOp (lfPath l)) cs @ [PassthroughUnknownOp tree]"
proof -
  let ?A = "afterRules lib rules hub spoke policy depth"
  let ?S = "leftoverScan hub spoke policy ?A"
  let ?H = "fold (hubLeftover (leavesByPath (flattenSchema spoke)) policy) (flattenSchema hub) ?A"
  have B: "resolveAndBuildOps lib rules hub spoke policy depth = addPassthrough hub spoke (snd ?S)"
    by (rule resolveAndBuildOps_unfold)
  then have "errorFree (bDiags (snd ?S))" using assms(1) by simp
  then have S: "?S = ?H" and H: "errorFree (bDiags (snd ?H))"
    using spokeLeftover_fold[OF assms(2), of "flattenSchema spoke" ?H] by (simp_all add: leftoverScan_def)
  obtain cs where cs: "appends (leavesByPath (flattenSchema spoke)) (flattenSchema hub) ?A ?H cs"
    using hubLeftover_fold_appends[OF assms(2) H] by blast
  have "\<forall>ir\<in>set (enumerate 0 rules). ruleWhen (snd ir) = None" using assms(3) enumerate_snd by blast
  from fold_compileStep_ops[OF this, of lib "resolveAndBuildOps lib" hub spoke policy depth "(noClaims, emptyBuilt)"]
  have A: "bH2s (snd ?A) = List.map_filter (\<lambda>i. rH2s (res i)) [0..<length rules]"
    "bS2h (snd ?A) = List.map_filter (\<lambda>i. rS2h (res i)) [0..<length rules]"
    by (simp_all add: afterRules_def res_def ruleResolved_def emptyBuilt_def map_filter_enumerate)
  have "bH2s (snd ?H) = bH2s (snd ?A) @ map (\<lambda>l. IdentityOp (lfPath l)) cs"
    "bS2h (snd ?H) = bS2h (snd ?A) @ map (\<lambda>l. IdentityOp (lfPath l)) cs"
    using cs by (simp_all only: appends_def)
  then show ?thesis
    using cs A unfolding B S tree_def by (intro exI[of _ cs]) (simp add: addPassthrough_def Let_def)
qed

subsection \<open>Configurations that move declared fields\<close>

text \<open>
  A schema whose fields are addressable by their dotted names, normalised, and not reaching into
  the object's metadata as a whole.
\<close>

definition plainSchema :: "schema \<Rightarrow> bool" where
  "plainSchema s \<longleftrightarrow> wf_schema s \<and>
     (\<forall>l\<in>set (flattenSchema s). plainPath (lfPath l) \<and> lfPath l \<noteq> [''metadata''] \<and> unresolvedConstruct (lfSchema l) = [])"

text \<open>
  A resolved rule that moves one field: its operations translate between \<open>mSrc\<close> and \<open>mDst\<close>, and
  these are the fields it claims.
\<close>

definition movesField :: "golib \<Rightarrow> resolved \<Rightarrow> mirror \<Rightarrow> bool" where
  "movesField lib res m \<longleftrightarrow>
     (case rH2s res of Some x \<Rightarrow> opCodec lib x = Some (forth m) | None \<Rightarrow> False)
   \<and> (case rS2h res of Some y \<Rightarrow> opCodec lib y = Some (backwards m) | None \<Rightarrow> False)
   \<and> claimedBy (rEffects res) = [(OnHub, pathString (mSrc m)), (OnSpoke, pathString (mDst m))]"

definition leafMirror :: "schema \<Rightarrow> schema \<Rightarrow> mirror \<Rightarrow> bool" where
  "leafMirror hub spoke m \<longleftrightarrow> mSrc m \<in> lfPath ` set (flattenSchema hub) \<and> mDst m \<in> lfPath ` set (flattenSchema spoke)
     \<and> payloadPath (mSrc m) \<and> payloadPath (mDst m)"

lemma plain_inject:
  "plainSchema s \<Longrightarrow> plainSchema t \<Longrightarrow> p \<in> lfPath ` set (flattenSchema s) \<Longrightarrow> q \<in> lfPath ` set (flattenSchema t)
    \<Longrightarrow> pathString p = pathString q \<Longrightarrow> p = q"
  by (rule pathString_inject) (auto simp: plainSchema_def)

lemma sorted_wrt_pair:
  "sorted_wrt R xs \<Longrightarrow> x \<in> set xs \<Longrightarrow> y \<in> set xs \<Longrightarrow> x \<noteq> y \<Longrightarrow> R x y \<or> R y x"
  by (induction xs) auto

lemma leaf_paths_parallel:
  assumes "plainSchema s" and "distinct (map pathString ps)" and "set ps \<subseteq> lfPath ` set (flattenSchema s)"
  shows "sorted_wrt parallel ps"
proof (rule sorted_wrt_distinct)
  show "distinct ps" using assms(2) by (simp add: distinct_map)
  fix p q assume "p \<in> set ps" "q \<in> set ps" "p \<noteq> q"
  moreover have "sorted_wrt parallel (map lfPath (flattenSchema s))"
    using assms(1) by (intro flattenSchema_parallel) (simp add: plainSchema_def)
  ultimately have "parallel p q \<or> parallel q p"
    using sorted_wrt_pair[of parallel "map lfPath (flattenSchema s)" p q] assms(3) by auto
  then show "parallel p q" using parallel_commute by blast
qed

lemma leaf_shielded:
  assumes "plainSchema s" and "p \<in> lfPath ` set (flattenSchema s)"
  shows "shielded (mergeKnownTrees (buildKnownTree s) t) p"
    and "shielded (mergeKnownTrees t (buildKnownTree s)) p"
proof -
  obtain l where l: "l \<in> set (flattenSchema s)" "p = lfPath l" using assms(2) by blast
  then have "walk (buildKnownTree s) p = Some (KT [])"
    using leaf_terminal[of l s "[]" "[]"] assms(1) by (simp add: plainSchema_def flattenSchema_def)
  then show "shielded (mergeKnownTrees (buildKnownTree s) t) p"
    and "shielded (mergeKnownTrees t (buildKnownTree s)) p"
    by (rule shielded_merge)+
qed

lemma copied_returns: "wf_obj obj \<Longrightarrow> returns obj (copied p q)"
  using wf_getValue by (auto simp: returns_def copied_def split: option.split)

lemma map_filter_Some: "(\<And>x. x \<in> set xs \<Longrightarrow> f x = Some (g x)) \<Longrightarrow> List.map_filter f xs = map g xs"
  by (induction xs) auto

lemma moves_mirrors:
  assumes "length ms = length rules" and "\<forall>i<length rules. movesField lib (res i) (ms ! i)"
  shows "mirrors lib (List.map_filter (\<lambda>i. rH2s (res i)) [0..<length rules]) (List.map_filter (\<lambda>i. rS2h (res i)) [0..<length rules]) ms"
proof -
  have r: "rH2s (res i) = Some (the (rH2s (res i)))" "rS2h (res i) = Some (the (rS2h (res i)))"
    "opCodec lib (the (rH2s (res i))) = Some (forth (ms ! i))" "opCodec lib (the (rS2h (res i))) = Some (backwards (ms ! i))"
    if "i < length rules" for i
  proof -
    have "movesField lib (res i) (ms ! i)" using assms(2) that by blast
    then show "rH2s (res i) = Some (the (rH2s (res i)))" "rS2h (res i) = Some (the (rS2h (res i)))"
      "opCodec lib (the (rH2s (res i))) = Some (forth (ms ! i))" "opCodec lib (the (rS2h (res i))) = Some (backwards (ms ! i))"
      by (auto simp: movesField_def split: option.splits)
  qed
  have "List.map_filter (\<lambda>i. rH2s (res i)) [0..<length rules] = map (\<lambda>i. the (rH2s (res i))) [0..<length rules]"
    "List.map_filter (\<lambda>i. rS2h (res i)) [0..<length rules] = map (\<lambda>i. the (rS2h (res i))) [0..<length rules]"
    by (rule map_filter_Some, use r in auto)+
  then show ?thesis using r assms(1) by (simp add: mirrors_def list_all2_conv_all_nth)
qed

lemma claims_of_moves:
  assumes "length ms = length rules" and "\<forall>i<length rules. movesField lib (ruleResolved lib rules hub spoke policy depth i) (ms ! i)"
  shows "allClaims lib rules hub spoke policy depth = concat (map (\<lambda>m. [(OnHub, pathString (mSrc m)), (OnSpoke, pathString (mDst m))]) ms)"
proof -
  have "map (\<lambda>i. claimedBy (rEffects (ruleResolved lib rules hub spoke policy depth i))) [0..<length rules]
      = map (\<lambda>m. [(OnHub, pathString (mSrc m)), (OnSpoke, pathString (mDst m))]) ms"
    by (rule nth_equalityI) (use assms in \<open>simp_all add: movesField_def\<close>)
  then show ?thesis by (simp only: allClaims_def)
qed

lemma distinct_pair_claims:
  "distinct (concat (map (\<lambda>m. [(OnHub, f m), (OnSpoke, g m)]) ms)) \<Longrightarrow> distinct (map f ms) \<and> distinct (map g ms)"
  by (induction ms) auto

text \<open>
  The leaves the scan copies and the fields the rules move together make up every hub leaf, and
  none of them twice.
\<close>

definition copies :: "LeafField list \<Rightarrow> mirror list" where
  "copies cs = map (\<lambda>l. copied (lfPath l) (lfPath l)) cs"

lemma copies_sel [simp]:
  "map mSrc (copies cs) = map lfPath cs" "map mDst (copies cs) = map lfPath cs"
  "set (copies cs) = (\<lambda>l. copied (lfPath l) (lfPath l)) ` set cs"
  by (simp_all add: copies_def copied_def)

lemma copies_mirrors:
  "mirrors lib (map (\<lambda>l. IdentityOp (lfPath l)) cs) (map (\<lambda>l. IdentityOp (lfPath l)) cs) (copies cs)"
  by (simp add: mirrors_def list_all2_conv_all_nth opCodec_def copies_def copied_def forth_def backwards_def)

lemma moved_and_copied:
  assumes A: "ownedKeys (fst A) = set (concat (map (\<lambda>m. [(OnHub, pathString (mSrc m)), (OnSpoke, pathString (mDst m))]) ms))"
    and app: "appends (leavesByPath (flattenSchema spoke)) (flattenSchema hub) A S cs"
    and plain: "plainSchema hub" "plainSchema spoke"
    and dist: "distinct (map (\<lambda>m. pathString (mSrc m)) ms)" "distinct (map (\<lambda>m. pathString (mDst m)) ms)"
    and leaf: "\<forall>m\<in>set ms. leafMirror hub spoke m"
  shows "distinct (map pathString (map mSrc (ms @ copies cs)))" "distinct (map pathString (map mDst (ms @ copies cs)))"
    and "set (map mSrc (ms @ copies cs)) = lfPath ` set (flattenSchema hub)"
    and "set (map mDst (ms @ copies cs)) \<subseteq> lfPath ` set (flattenSchema spoke)"
proof -
  have cs: "distinct (map leafKey cs)" "set cs \<subseteq> set (flattenSchema hub)"
    "\<And>l. l \<in> set cs \<Longrightarrow> leavesByPath (flattenSchema spoke) (leafKey l) \<noteq> None"
    "\<And>l. l \<in> set cs \<Longrightarrow> (OnHub, leafKey l) \<notin> ownedKeys (fst A) \<and> (OnSpoke, leafKey l) \<notin> ownedKeys (fst A)"
    "\<And>l. l \<in> set (flattenSchema hub) \<Longrightarrow> (OnHub, leafKey l) \<in> ownedKeys (fst A) \<or> leafKey l \<in> leafKey ` set cs"
    using app by (auto simp only: appends_def)
  have fresh: "pathString (mSrc m) \<noteq> leafKey l" "pathString (mDst m) \<noteq> leafKey l" if "m \<in> set ms" "l \<in> set cs" for m l
  proof -
    have "(OnHub, pathString (mSrc m)) \<in> ownedKeys (fst A)" "(OnSpoke, pathString (mDst m)) \<in> ownedKeys (fst A)"
      unfolding A using that(1) by auto
    then show "pathString (mSrc m) \<noteq> leafKey l" "pathString (mDst m) \<noteq> leafKey l" using cs(4)[OF that(2)] by auto
  qed
  have key: "map pathString (map lfPath cs) = map leafKey cs" by (simp add: leafKey_def)
  show "distinct (map pathString (map mSrc (ms @ copies cs)))" "distinct (map pathString (map mDst (ms @ copies cs)))"
    unfolding map_append copies_sel key distinct_append using dist cs(1) fresh by (auto simp: comp_def)
  have spokeLeaf: "lfPath l \<in> lfPath ` set (flattenSchema spoke)" if l: "l \<in> set cs" for l
  proof -
    obtain sl where sl: "sl \<in> set (flattenSchema spoke)" "leafKey sl = leafKey l"
      using cs(3)[OF l] leavesByPath_Some by blast
    then have "lfPath sl = lfPath l"
      using l cs(2) by (intro plain_inject[OF plain(2,1)]) (auto simp: leafKey_def)
    then show ?thesis using imageI[OF sl(1), of lfPath] by simp
  qed
  show "set (map mDst (ms @ copies cs)) \<subseteq> lfPath ` set (flattenSchema spoke)"
    using leaf spokeLeaf by (auto simp: leafMirror_def copied_def)
  have sub: "set (map mSrc (ms @ copies cs)) \<subseteq> lfPath ` set (flattenSchema hub)"
    using leaf cs(2) by (auto simp: leafMirror_def copied_def)
  have "lfPath l \<in> set (map mSrc (ms @ copies cs))" if l: "l \<in> set (flattenSchema hub)" for l
  proof -
    have "pathString (lfPath l) \<in> pathString ` set (map mSrc (ms @ copies cs))"
      using cs(5)[OF l] unfolding A map_append copies_sel set_append image_Un
      by (auto simp: leafKey_def)
    then obtain p where p: "p \<in> set (map mSrc (ms @ copies cs))" "pathString (lfPath l) = pathString p" by blast
    then have "lfPath l = p" using sub l by (intro plain_inject[OF plain(1,1)]) auto
    then show ?thesis using p(1) by simp
  qed
  then show "set (map mSrc (ms @ copies cs)) = lfPath ` set (flattenSchema hub)" using sub by blast
qed

text \<open>The plans of such a configuration are mirrored and fit for the round trip.\<close>

lemma compiled_mirrors:
  assumes "errorFree (bDiags (resolveAndBuildOps lib rules hub spoke policy depth))"
    and "policy \<noteq> UnmappedFieldPolicyWarn" and "\<forall>r\<in>set rules. ruleWhen r = None"
    and "plainSchema hub" and "plainSchema spoke" and "wf_obj obj"
    and "length ms = length rules"
    and "\<forall>i<length rules. movesField lib (ruleResolved lib rules hub spoke policy depth i) (ms ! i)"
    and "\<forall>m\<in>set ms. leafMirror hub spoke m \<and> returns obj m"
  defines "tree \<equiv> mergeKnownTrees (buildKnownTree hub) (buildKnownTree spoke)"
  shows "\<exists>xs ys ms'. bH2s (resolveAndBuildOps lib rules hub spoke policy depth) = xs @ [PassthroughUnknownOp tree]
    \<and> bS2h (resolveAndBuildOps lib rules hub spoke policy depth) = ys @ [PassthroughUnknownOp tree]
    \<and> mirrors lib xs ys ms' \<and> roundTrips tree obj ms' \<and> set (map mSrc ms') = lfPath ` set (flattenSchema hub)"
proof -
  let ?A = "afterRules lib rules hub spoke policy depth"
  let ?res = "ruleResolved lib rules hub spoke policy depth"
  obtain cs where app: "appends (leavesByPath (flattenSchema spoke)) (flattenSchema hub) ?A (leftoverScan hub spoke policy ?A) cs"
    and h2s: "bH2s (resolveAndBuildOps lib rules hub spoke policy depth) =
      List.map_filter (\<lambda>i. rH2s (?res i)) [0..<length rules] @ map (\<lambda>l. IdentityOp (lfPath l)) cs @ [PassthroughUnknownOp tree]"
    and s2h: "bS2h (resolveAndBuildOps lib rules hub spoke policy depth) =
      List.map_filter (\<lambda>i. rS2h (?res i)) [0..<length rules] @ map (\<lambda>l. IdentityOp (lfPath l)) cs @ [PassthroughUnknownOp tree]"
    using compiled_form[OF assms(1-3)] unfolding tree_def by blast
  let ?ms = "ms @ copies cs"
  have A: "ownedKeys (fst ?A) = set (concat (map (\<lambda>m. [(OnHub, pathString (mSrc m)), (OnSpoke, pathString (mDst m))]) ms))"
    unfolding afterRules_ledger(1) claims_of_moves[OF assms(7,8)] ..
  have dist: "distinct (map (\<lambda>m. pathString (mSrc m)) ms)" "distinct (map (\<lambda>m. pathString (mDst m)) ms)"
    using distinct_pair_claims[OF clean_rules(2)[OF assms(1), unfolded claims_of_moves[OF assms(7,8)]]] by blast+
  have leaf: "\<forall>m\<in>set ms. leafMirror hub spoke m" using assms(9) by blast
  note P = moved_and_copied[OF A app assms(4,5) dist leaf]
  have "set cs \<subseteq> set (flattenSchema hub)" using app by (simp only: appends_def)
  then have copy: "grounded (copied (lfPath l) (lfPath l))" if "l \<in> set cs" for l
    using that assms(4) unfolding grounded_def plainSchema_def plainPath_def by blast
  have "grounded m \<and> returns obj m" if "m \<in> set ms" for m
    using that assms(9) by (simp add: grounded_def leafMirror_def)
  then have m: "\<forall>m\<in>set ?ms. grounded m \<and> returns obj m"
    using copy copied_returns[OF assms(6)] by (simp add: ball_Un)
  have "\<forall>p\<in>set (map mSrc ?ms). shielded tree p"
    unfolding P(3) tree_def by (intro ballI leaf_shielded(1)[OF assms(4)])
  moreover have "\<forall>p\<in>set (map mDst ?ms). shielded tree p"
    unfolding tree_def by (intro ballI leaf_shielded(2)[OF assms(5)] subsetD[OF P(4)])
  ultimately have rt: "roundTrips tree obj ?ms"
    using leaf_paths_parallel[OF assms(4) P(1) equalityD1[OF P(3)]] leaf_paths_parallel[OF assms(5) P(2,4)] m
    by (simp add: roundTrips_def del: map_append)
  have mir: "mirrors lib (List.map_filter (\<lambda>i. rH2s (?res i)) [0..<length rules] @ map (\<lambda>l. IdentityOp (lfPath l)) cs)
      (List.map_filter (\<lambda>i. rS2h (?res i)) [0..<length rules] @ map (\<lambda>l. IdentityOp (lfPath l)) cs) ?ms"
    by (rule mirrors_append[OF moves_mirrors[OF assms(7,8)] copies_mirrors])
  show ?thesis
    by (rule exI, rule exI, rule exI[of _ ?ms], intro conjI)
      (rule h2s[folded append_assoc], rule s2h[folded append_assoc], rule mir, rule rt, rule P(3))
qed

lemma compiled_roundtrip:
  assumes "errorFree (snd (compileNormalized lib rs hub spoke))"
    and "rsUnmappedFieldPolicy rs \<noteq> UnmappedFieldPolicyWarn" and "\<forall>r\<in>set (rsRules rs). ruleWhen r = None"
    and "plainSchema hub" and "plainSchema spoke" and "wf_obj obj"
    and "length ms = length (rsRules rs)"
    and "\<forall>i<length (rsRules rs). movesField lib
      (ruleResolved lib (rsRules rs) hub spoke (effectivePolicy (rsUnmappedFieldPolicy rs)) 0 i) (ms ! i)"
    and "\<forall>m\<in>set ms. leafMirror hub spoke m \<and> returns obj m"
  shows "\<exists>spokeObj hubObj. Convert lib (Some (fst (compileNormalized lib rs hub spoke))) HubToSpoke obj = Inr spokeObj
    \<and> Convert lib (Some (fst (compileNormalized lib rs hub spoke))) SpokeToHub spokeObj = Inr hubObj
    \<and> (\<forall>l\<in>set (flattenSchema hub). getValue hubObj (lfPath l) = getValue obj (lfPath l))
    \<and> (\<forall>p v. undeclaredAt (mergeKnownTrees (buildKnownTree hub) (buildKnownTree spoke)) p \<longrightarrow> getValue obj p = Some v
        \<longrightarrow> getValue spokeObj p = Some v \<and> getValue hubObj p = Some v)"
proof -
  let ?b = "resolveAndBuildOps lib (rsRules rs) hub spoke (effectivePolicy (rsUnmappedFieldPolicy rs)) 0"
  let ?t = "mergeKnownTrees (buildKnownTree hub) (buildKnownTree spoke)"
  have clean: "errorFree (bDiags ?b)" using assms(1) by (simp add: compileNormalized_def Let_def)
  have pol: "effectivePolicy (rsUnmappedFieldPolicy rs) \<noteq> UnmappedFieldPolicyWarn"
    using assms(2) by (simp add: effectivePolicy_def)
  obtain xs ys ms' where b: "bH2s ?b = xs @ [PassthroughUnknownOp ?t]" "bS2h ?b = ys @ [PassthroughUnknownOp ?t]"
    and ms': "mirrors lib xs ys ms'" "roundTrips ?t obj ms'" "set (map mSrc ms') = lfPath ` set (flattenSchema hub)"
    using compiled_mirrors[OF clean pol assms(3-9)] by blast
  obtain spokeObj hubObj where ops: "applyOps lib (bH2s ?b) obj (baseline obj) = Inr spokeObj"
    "applyOps lib (bS2h ?b) spokeObj (baseline spokeObj) = Inr hubObj"
    and same: "\<forall>m\<in>set ms'. getValue hubObj (mSrc m) = getValue obj (mSrc m)"
    and und: "\<forall>p v. undeclaredAt ?t p \<longrightarrow> getValue obj p = Some v \<longrightarrow> getValue spokeObj p = Some v \<and> getValue hubObj p = Some v"
    using mirrored_plan[OF assms(6) ms'(1,2)] unfolding b by blast
  have "getValue hubObj p = getValue obj p" if "p \<in> lfPath ` set (flattenSchema hub)" for p
    using that same unfolding ms'(3)[symmetric] by auto
  then show ?thesis using ops und
    by (intro exI[of _ spokeObj] exI[of _ hubObj]) (simp add: Convert_Inr_iff planOps_def compileNormalized_def Let_def)
qed

text \<open>Field renames are the plainest instance: every value returns.\<close>

definition renameMirror :: "rule \<Rightarrow> mirror" where
  "renameMirror r = (case ruleParams r of FieldRenameParams hp sp \<Rightarrow> copied hp sp | _ \<Rightarrow> copied [] [])"

definition renamesLeaf :: "schema \<Rightarrow> schema \<Rightarrow> rule \<Rightarrow> bool" where
  "renamesLeaf hub spoke r \<longleftrightarrow>
     (case ruleParams r of FieldRenameParams hp sp \<Rightarrow> leafMirror hub spoke (copied hp sp) | _ \<Rightarrow> False) \<and> ruleWhen r = None"

lemma claimedBy_simps [simp]:
  "claimedBy [] = []" "claimedBy (Report d # es) = claimedBy es"
  "claimedBy (Claim sd p label # es) = (sd, pathString p) # claimedBy es" "claimedBy (es @ fs) = claimedBy es @ claimedBy fs"
  by (simp_all add: claimedBy_def List.map_filter_def)

lemma renamesLeaf_moves:
  assumes "renamesLeaf hub spoke r"
  shows "movesField lib (resolveRule lib nested idx r hub spoke policy depth) (renameMirror r)"
    and "leafMirror hub spoke (renameMirror r)" and "wf_obj obj \<Longrightarrow> returns obj (renameMirror r)"
proof -
  obtain hp sp where r: "ruleParams r = FieldRenameParams hp sp" "leafMirror hub spoke (copied hp sp)"
    using assms by (auto simp: renamesLeaf_def split: ruleParams.splits)
  show "movesField lib (resolveRule lib nested idx r hub spoke policy depth) (renameMirror r)"
    by (simp add: r(1) resolveRule_def resolveFieldRename_def Let_def movesField_def renameMirror_def opCodec_def
        copied_def forth_def backwards_def lookupError_def errorIf_def claimBoth_def split: sum.split)
  show "leafMirror hub spoke (renameMirror r)" "wf_obj obj \<Longrightarrow> returns obj (renameMirror r)"
    using r by (simp_all add: renameMirror_def copied_returns)
qed

end
