(* ===== verification/Assign.thy ===== *)
theory Assign
  imports GoNum "HOL-Library.Multiset"
begin

text \<open>
  Which webhook server a configuration belongs to (\<open>internal/assign\<close>): an explicit reference, the
  sharding pool by weighted rendezvous hashing, or the single default. The hash is FNV-1a on 64-bit
  words and the score is computed in \<open>float64\<close>; the logarithm of package \<open>math\<close> is the argument
  \<open>logf\<close>. The locale \<open>rendezvous\<close> states what choosing a maximum under a strict total order gives:
  independence of the order of the pool and minimal movement when the pool changes.
\<close>

subsection \<open>Configurations and servers\<close>

record ShardingSpec =
  shEnabled :: "bool option"
  shWeight :: "int32 option"

record WebhookServer =
  wsName :: string
  wsDefault :: bool
  wsSharding :: "ShardingSpec option"

record Config =
  cfgRef :: "string option"
  cfgShardKey :: string
  cfgAppliedURL :: string

definition ShardingEnabled :: "WebhookServer \<Rightarrow> bool" where
  "ShardingEnabled s =
     (case wsSharding s of None \<Rightarrow> False
      | Some sh \<Rightarrow> (case shEnabled sh of None \<Rightarrow> True | Some b \<Rightarrow> b))"

definition ShardWeight :: "WebhookServer \<Rightarrow> 32 word" where
  "ShardWeight s =
     (case wsSharding s of None \<Rightarrow> 1
      | Some sh \<Rightarrow> (case shWeight sh of None \<Rightarrow> 1 | Some w \<Rightarrow> if sint w \<le> 0 then 1 else w))"

definition WebhookServerServiceName :: "string \<Rightarrow> string" where
  "WebhookServerServiceName serverName = serverName @ ''-webhook-server''"

subsection \<open>Scores\<close>

definition fnvOffset64 :: "64 word" where "fnvOffset64 = 14695981039346656037"
definition fnvPrime64 :: "64 word" where "fnvPrime64 = 1099511628211"

text \<open>\<open>fnv.New64a\<close>: xor with the byte, then multiply, modulo \<open>2\<^sup>64\<close>.\<close>

definition fnv1a :: "string \<Rightarrow> 64 word" where
  "fnv1a s = fold (\<lambda>c h. xor h (of_nat (of_char c)) * fnvPrime64) s fnvOffset64"

definition shardUnit :: "64 word \<Rightarrow> float64" where
  "shardUnit hsum =
     div64 (round64 (of_int (int (unat hsum mod 2 ^ 53 + 1)))) (round64 (of_int (2 ^ 53 + 1)))"

definition shardScore :: "(float64 \<Rightarrow> float64) \<Rightarrow> string \<Rightarrow> string \<Rightarrow> 32 word \<Rightarrow> float64" where
  "shardScore logf serverName key weight =
     div64 (Fin (- of_int (uint weight))) (logf (shardUnit (fnv1a (serverName @ [char_of (0 :: nat)] @ key))))"

definition less64 :: "float64 \<Rightarrow> float64 \<Rightarrow> bool" where
  "less64 x y =
     (case (x, y) of
        (NaN, _) \<Rightarrow> False | (_, NaN) \<Rightarrow> False
      | (NegInf, NegInf) \<Rightarrow> False | (NegInf, _) \<Rightarrow> True
      | (_, NegInf) \<Rightarrow> False
      | (PosInf, _) \<Rightarrow> False | (_, PosInf) \<Rightarrow> True
      | (Fin p, Fin q) \<Rightarrow> p < q)"

subsection \<open>Choosing a server\<close>

definition ShardPool :: "WebhookServer list \<Rightarrow> WebhookServer list" where
  "ShardPool allServers = sort_key wsName (filter ShardingEnabled allServers)"

definition scoreOf :: "(float64 \<Rightarrow> float64) \<Rightarrow> string \<Rightarrow> WebhookServer \<Rightarrow> float64" where
  "scoreOf logf key s = shardScore logf (wsName s) key (ShardWeight s)"

fun pickLoop :: "(string \<times> float64) list \<Rightarrow> string \<times> float64 \<Rightarrow> string \<times> float64" where
  "pickLoop [] best = best"
| "pickLoop (c # cs) best =
     pickLoop cs (if less64 (snd best) (snd c) \<or> (eq64 (snd c) (snd best) \<and> fst c < fst best) then c else best)"

definition PickShard :: "(float64 \<Rightarrow> float64) \<Rightarrow> WebhookServer list \<Rightarrow> string \<Rightarrow> string" where
  "PickShard logf pool key = fst (pickLoop (map (\<lambda>s. (wsName s, scoreOf logf key s)) pool) ([], NegInf))"

definition resolveUnpinned :: "(float64 \<Rightarrow> float64) \<Rightarrow> Config \<Rightarrow> WebhookServer list \<Rightarrow> string list + string" where
  "resolveUnpinned logf cfg allServers =
     (if ShardPool allServers \<noteq> [] then Inr (PickShard logf (ShardPool allServers) (cfgShardKey cfg))
      else (case map wsName (filter wsDefault allServers) of
          [] \<Rightarrow> Inl [''no ConversionWebhookServer instance is marked default and no explicit webhookServerRef is set'']
        | [d] \<Rightarrow> Inr d
        | ds \<Rightarrow> Inl (''multiple ConversionWebhookServer instances are marked default (%v); this is a misconfiguration that must be fixed before assignment can be resolved'' # sort ds)))"

definition ResolveAssignment :: "(float64 \<Rightarrow> float64) \<Rightarrow> Config \<Rightarrow> WebhookServer list \<Rightarrow> string list + string" where
  "ResolveAssignment logf cfg allServers =
     (case cfgRef cfg of
        Some name \<Rightarrow>
          (if name \<noteq> [] then
             (if name \<in> set (map wsName allServers) then Inr name
              else Inl [''webhookServerRef %q does not match any existing ConversionWebhookServer'', name])
           else resolveUnpinned logf cfg allServers)
      | None \<Rightarrow> resolveUnpinned logf cfg allServers)"

definition IsAssignedTo :: "(float64 \<Rightarrow> float64) \<Rightarrow> Config \<Rightarrow> WebhookServer list \<Rightarrow> string \<Rightarrow> bool" where
  "IsAssignedTo logf cfg allServers serverName = (ResolveAssignment logf cfg allServers = Inr serverName)"

definition ConfigsAssignedTo :: "(float64 \<Rightarrow> float64) \<Rightarrow> Config list \<Rightarrow> WebhookServer list \<Rightarrow> string \<Rightarrow> Config list" where
  "ConfigsAssignedTo logf cfgs allServers serverName = filter (\<lambda>c. IsAssignedTo logf c allServers serverName) cfgs"

definition TargetPointsAt :: "string \<Rightarrow> string \<Rightarrow> bool" where
  "TargetPointsAt appliedURL serverName =
     (if appliedURL = [] then False
      else hasPrefix appliedURL (''https://'' @ WebhookServerServiceName serverName @ ''.''))"

definition ServedBy :: "(float64 \<Rightarrow> float64) \<Rightarrow> Config \<Rightarrow> WebhookServer list \<Rightarrow> string \<Rightarrow> bool" where
  "ServedBy logf cfg allServers serverName =
     (if IsAssignedTo logf cfg allServers serverName then True
      else TargetPointsAt (cfgAppliedURL cfg) serverName)"

definition ConfigsServedBy :: "(float64 \<Rightarrow> float64) \<Rightarrow> Config list \<Rightarrow> WebhookServer list \<Rightarrow> string \<Rightarrow> Config list" where
  "ConfigsServedBy logf cfgs allServers serverName = filter (\<lambda>c. ServedBy logf c allServers serverName) cfgs"

subsection \<open>Choosing the best under a strict order\<close>

locale rendezvous =
  fixes better :: "'s \<Rightarrow> 's \<Rightarrow> bool"
    and ok :: "'s \<Rightarrow> bool"
  assumes better_irrefl: "\<not> better s s"
    and better_trans: "better s t \<Longrightarrow> better t u \<Longrightarrow> better s u"
    and better_total: "ok s \<Longrightarrow> ok t \<Longrightarrow> s \<noteq> t \<Longrightarrow> better s t \<or> better t s"
begin

definition wins :: "'s set \<Rightarrow> 's \<Rightarrow> bool" where
  "wins P s \<longleftrightarrow> s \<in> P \<and> (\<forall>t\<in>P. t \<noteq> s \<longrightarrow> better s t)"

lemma wins_unique:
  assumes "wins P s" and "wins P t"
  shows "s = t"
proof (rule ccontr)
  assume "s \<noteq> t"
  then have "better s t" "better t s" using assms by (auto simp: wins_def)
  then show False using better_trans better_irrefl by blast
qed

lemma wins_grow: "wins (insert x P) s \<Longrightarrow> s = x \<or> wins P s"
  unfolding wins_def by blast

lemma wins_shrink: "wins P s \<Longrightarrow> s \<noteq> x \<Longrightarrow> wins (P - {x}) s"
  unfolding wins_def by blast

text \<open>The running maximum of a list is its winner.\<close>

lemma fold_wins:
  assumes "\<forall>t\<in>insert b (set xs). ok t"
  shows "wins (insert b (set xs)) (fold (\<lambda>c best. if better c best then c else best) xs b)"
  using assms
proof (induction xs arbitrary: b)
  case (Cons x xs)
  let ?b = "if better x b then x else b"
  let ?w = "fold (\<lambda>c best. if better c best then c else best) xs ?b"
  have IH: "?w \<in> insert ?b (set xs)" "\<And>t. t \<in> insert ?b (set xs) \<Longrightarrow> t \<noteq> ?w \<Longrightarrow> better ?w t"
    using Cons.IH[of ?b] Cons.prems by (auto simp: wins_def)
  have pair: "t = ?b \<or> better ?b t" if "t = b \<or> t = x" for t
    using better_total[of x b] Cons.prems that by auto
  have "better ?w t" if t: "t \<in> insert b (set (x # xs))" "t \<noteq> ?w" for t
  proof (cases "t \<in> insert ?b (set xs)")
    case True
    then show ?thesis using IH(2) t(2) by blast
  next
    case False
    then have b: "better ?b t" using pair[of t] t(1) by auto
    have "?w = ?b \<or> better ?w ?b" using IH(2)[OF insertI1] by fastforce
    then show ?thesis
    proof
      assume "?w = ?b"
      with b show ?thesis by (simp only:)
    next
      assume "better ?w ?b"
      then show ?thesis using b by (rule better_trans)
    qed
  qed
  moreover have "?w \<in> insert b (set (x # xs))" using IH(1) by auto
  ultimately show ?case unfolding wins_def fold_simps by blast
qed (simp add: wins_def)

end

definition betterThan :: "string \<times> float64 \<Rightarrow> string \<times> float64 \<Rightarrow> bool" where
  "betterThan c best \<longleftrightarrow> less64 (snd best) (snd c) \<or> (eq64 (snd c) (snd best) \<and> fst c < fst best)"

lemma less64_simps [simp]:
  "less64 NegInf y \<longleftrightarrow> y \<noteq> NaN \<and> y \<noteq> NegInf"
  "\<not> less64 NaN y" "\<not> less64 x NaN" "\<not> less64 x NegInf" "\<not> less64 PosInf y"
  "less64 (Fin p) PosInf" "less64 (Fin p) (Fin q) \<longleftrightarrow> p < q"
  by (auto simp: less64_def split: float64.splits)

lemma less64_irrefl: "\<not> less64 x x"
  by (cases x) auto

lemma less64_trans: "less64 x y \<Longrightarrow> less64 y z \<Longrightarrow> less64 x z"
  by (cases x; cases y; cases z) auto

lemma less64_total: "x \<noteq> NaN \<Longrightarrow> y \<noteq> NaN \<Longrightarrow> x = y \<or> less64 x y \<or> less64 y x"
  by (cases x; cases y) auto

interpretation shards: rendezvous betterThan "\<lambda>c. snd c \<noteq> NaN"
proof unfold_locales
  show "\<not> betterThan s s" for s by (simp add: betterThan_def less64_irrefl)
  show "betterThan s t \<Longrightarrow> betterThan t u \<Longrightarrow> betterThan s u" for s t u
    unfolding betterThan_def eq64_def using less64_trans[of "snd u" "snd t" "snd s"] by auto
  show "snd s \<noteq> NaN \<Longrightarrow> snd t \<noteq> NaN \<Longrightarrow> s \<noteq> t \<Longrightarrow> betterThan s t \<or> betterThan t s" for s t
    unfolding betterThan_def eq64_def using less64_total[of "snd s" "snd t"]
    by (cases s; cases t) auto
qed

subsection \<open>The chosen shard\<close>

lemma pickLoop_fold: "pickLoop cs best = fold (\<lambda>c best. if betterThan c best then c else best) cs best"
  by (induction cs arbitrary: best) (auto simp: betterThan_def)

definition candidates :: "(float64 \<Rightarrow> float64) \<Rightarrow> string \<Rightarrow> WebhookServer list \<Rightarrow> (string \<times> float64) list" where
  "candidates logf key pool = map (\<lambda>s. (wsName s, scoreOf logf key s)) pool"

text \<open>Scores a pool can be chosen from: ordinary numbers or \<open>+Inf\<close>.\<close>

definition scored :: "(float64 \<Rightarrow> float64) \<Rightarrow> string \<Rightarrow> WebhookServer list \<Rightarrow> bool" where
  "scored logf key pool \<longleftrightarrow> (\<forall>s\<in>set pool. scoreOf logf key s \<noteq> NaN \<and> scoreOf logf key s \<noteq> NegInf)"

lemma PickShard_wins:
  assumes "pool \<noteq> []" and "scored logf key pool"
  shows "\<exists>c. shards.wins (set (candidates logf key pool)) c \<and> PickShard logf pool key = fst c"
proof -
  let ?cs = "candidates logf key pool"
  obtain c cs where cs: "?cs = c # cs" using assms(1) by (cases pool) (auto simp: candidates_def)
  have good: "\<forall>t\<in>set ?cs. snd t \<noteq> NaN \<and> snd t \<noteq> NegInf"
    using assms(2) by (auto simp: candidates_def scored_def)
  have "betterThan c ([], NegInf)" using good cs by (simp add: betterThan_def)
  then have "pickLoop ?cs ([], NegInf) = fold (\<lambda>c best. if betterThan c best then c else best) cs c"
    by (simp add: pickLoop_fold cs)
  moreover have "shards.wins (insert c (set cs)) (fold (\<lambda>c best. if betterThan c best then c else best) cs c)"
    by (rule shards.fold_wins) (use good cs in auto)
  ultimately have "shards.wins (set ?cs) (pickLoop ?cs ([], NegInf))" by (simp add: cs)
  then show ?thesis unfolding PickShard_def candidates_def[symmetric] by blast
qed

lemma PickShard_mem: "pool \<noteq> [] \<Longrightarrow> scored logf key pool \<Longrightarrow> PickShard logf pool key \<in> wsName ` set pool"
  using PickShard_wins[of pool logf key] by (force simp: shards.wins_def candidates_def)

text \<open>Every party computes the same shard, in whatever order it lists the pool.\<close>

lemma PickShard_order:
  assumes "set pool = set pool'" and "scored logf key pool"
  shows "PickShard logf pool key = PickShard logf pool' key"
proof (cases "pool = []")
  case False
  have "set (candidates logf key pool) = set (candidates logf key pool')" using assms(1) by (simp add: candidates_def)
  moreover have "pool' \<noteq> []" "scored logf key pool'" using False assms by (auto simp: scored_def)
  ultimately show ?thesis using PickShard_wins[OF False assms(2)] PickShard_wins[of pool' logf key] shards.wins_unique by metis
qed (use assms in simp)

text \<open>Adding a server moves keys only to it; removing one moves only its own keys.\<close>

lemma PickShard_add:
  assumes "set pool' = insert s (set pool)" and "scored logf key pool'" and "pool \<noteq> []"
  shows "PickShard logf pool' key = wsName s \<or> PickShard logf pool' key = PickShard logf pool key"
proof -
  have ne: "pool' \<noteq> []" and sc: "scored logf key pool" using assms by (auto simp: scored_def)
  obtain c where c: "shards.wins (set (candidates logf key pool')) c" "PickShard logf pool' key = fst c"
    using PickShard_wins[OF ne assms(2)] by blast
  obtain d where d: "shards.wins (set (candidates logf key pool)) d" "PickShard logf pool key = fst d"
    using PickShard_wins[OF assms(3) sc] by blast
  have "set (candidates logf key pool') = insert (wsName s, scoreOf logf key s) (set (candidates logf key pool))"
    using assms(1) by (simp add: candidates_def)
  then have "c = (wsName s, scoreOf logf key s) \<or> c = d"
    using shards.wins_grow c(1) d(1) shards.wins_unique by metis
  then show ?thesis using c(2) d(2) by auto
qed

lemma set_ShardPool [simp]: "set (ShardPool servers) = {s \<in> set servers. ShardingEnabled s}"
  by (simp add: ShardPool_def)

definition unpinned :: "Config \<Rightarrow> bool" where
  "unpinned cfg \<longleftrightarrow> cfgRef cfg = None \<or> cfgRef cfg = Some []"

lemma resolve_unpinned: "unpinned cfg \<Longrightarrow> ResolveAssignment logf cfg servers = resolveUnpinned logf cfg servers"
  by (auto simp: unpinned_def ResolveAssignment_def)

lemma ShardPool_Nil_iff: "ShardPool servers = [] \<longleftrightarrow> (\<forall>s\<in>set servers. \<not> ShardingEnabled s)"
  by (metis (mono_tags, lifting) empty_Collect_eq set_ShardPool set_empty)

lemma assignment_add:
  assumes "unpinned cfg" and "ShardPool servers \<noteq> []" and "ShardingEnabled x"
    and "scored logf (cfgShardKey cfg) (x # servers)"
  shows "ResolveAssignment logf cfg (x # servers) = Inr (wsName x)
    \<or> ResolveAssignment logf cfg (x # servers) = ResolveAssignment logf cfg servers"
proof -
  have "set (ShardPool (x # servers)) = insert x (set (ShardPool servers))" using assms(3) by auto
  moreover have "scored logf (cfgShardKey cfg) (ShardPool (x # servers))"
    using assms(4) by (auto simp: scored_def)
  ultimately have "PickShard logf (ShardPool (x # servers)) (cfgShardKey cfg) = wsName x
      \<or> PickShard logf (ShardPool (x # servers)) (cfgShardKey cfg) = PickShard logf (ShardPool servers) (cfgShardKey cfg)"
    using PickShard_add assms(2) by blast
  moreover have "ShardPool (x # servers) \<noteq> []" using assms(3) by (simp add: ShardPool_Nil_iff)
  ultimately show ?thesis using assms(1,2) by (auto simp: resolve_unpinned resolveUnpinned_def)
qed

lemma mset_filter_map: "mset xs = mset ys \<Longrightarrow> mset (map f (filter P xs)) = mset (map f (filter P ys))"
  by (metis mset_filter mset_map)

lemma default_case_order:
  assumes "mset d = mset (d' :: string list)"
  shows "(case d of [] \<Rightarrow> Inl e | [x] \<Rightarrow> Inr x | ds \<Rightarrow> Inl (m # sort ds)) =
    (case d' of [] \<Rightarrow> Inl e | [x] \<Rightarrow> Inr x | ds \<Rightarrow> Inl (m # sort ds))"
proof (cases d rule: remdups_adj.cases)
  case (3 x y xs)
  have len: "length d = length d'" using assms by (metis size_mset)
  obtain x' y' xs' where d': "d' = x' # y' # xs'"
    using len 3 by (cases d' rule: remdups_adj.cases) auto
  have "sort d = sort d'" using assms by (metis sorted_list_of_multiset_mset)
  then show ?thesis using 3 d' by (simp del: sort_key_simps)
qed (use assms in simp_all)

lemma assignment_order:
  assumes "mset servers = mset servers'" and "scored logf (cfgShardKey cfg) servers"
  shows "ResolveAssignment logf cfg servers = ResolveAssignment logf cfg servers'"
proof -
  have set: "set servers' = set servers" using mset_eq_setD[OF assms(1)] by simp
  have pool: "PickShard logf (ShardPool servers) (cfgShardKey cfg) = PickShard logf (ShardPool servers') (cfgShardKey cfg)"
    by (rule PickShard_order) (use set assms(2) in \<open>auto simp: scored_def\<close>)
  have empty: "ShardPool servers = [] \<longleftrightarrow> ShardPool servers' = []" using set by (simp add: ShardPool_Nil_iff)
  let ?d = "map wsName (filter wsDefault servers)" and ?d' = "map wsName (filter wsDefault servers')"
  have m: "mset ?d = mset ?d'" using assms(1) by (rule mset_filter_map)
  note d = default_case_order[OF m]
  have "resolveUnpinned logf cfg servers = resolveUnpinned logf cfg servers'"
    unfolding resolveUnpinned_def pool d empty ..
  moreover have "set (map wsName servers) = set (map wsName servers')" using set by simp
  ultimately show ?thesis unfolding ResolveAssignment_def by (simp only:)
qed

text \<open>A URL names at most one server, when server names are DNS labels.\<close>

lemma takeWhile_append_dot: "CHR ''.'' \<notin> set s \<Longrightarrow> takeWhile (\<lambda>c. c \<noteq> CHR ''.'') (s @ ''.'' @ t) = s"
  by (induction s) auto

lemma target_unique:
  assumes "TargetPointsAt url a" and "TargetPointsAt url b" and "CHR ''.'' \<notin> set a" and "CHR ''.'' \<notin> set b"
  shows "a = b"
proof -
  obtain r where r: "url = ''https://'' @ (a @ ''-webhook-server'') @ ''.'' @ r"
    using assms(1) by (auto simp: TargetPointsAt_def WebhookServerServiceName_def hasPrefix_eq_prefix prefix_def split: if_splits)
  obtain q where q: "url = ''https://'' @ (b @ ''-webhook-server'') @ ''.'' @ q"
    using assms(2) by (auto simp: TargetPointsAt_def WebhookServerServiceName_def hasPrefix_eq_prefix prefix_def split: if_splits)
  from r q have e: "(a @ ''-webhook-server'') @ ''.'' @ r = (b @ ''-webhook-server'') @ ''.'' @ q" by simp
  have "a @ ''-webhook-server'' = takeWhile (\<lambda>c. c \<noteq> CHR ''.'') ((a @ ''-webhook-server'') @ ''.'' @ r)"
    using assms(3) by (intro takeWhile_append_dot[symmetric]) simp
  also have "\<dots> = b @ ''-webhook-server''"
    unfolding e using assms(4) by (intro takeWhile_append_dot) simp
  finally show ?thesis by simp
qed

subsection \<open>The unit of a score\<close>

lemma shardUnit_value: "shardUnit h = Fin (of_int (int (unat h mod 2 ^ 53 + 1)) / 2 ^ 53)"
proof -
  define n where "n = int (unat h mod 2 ^ 53 + 1)"
  have "unat h mod 2 ^ 53 < 2 ^ 53" by simp
  then have "unat h mod 2 ^ 53 + 1 \<le> 2 ^ 53" by (simp only: Suc_eq_plus1[symmetric] Suc_le_eq)
  then have n: "0 < n" "n \<le> 2 ^ 53" unfolding n_def by (simp, metis of_nat_le_iff of_nat_numeral of_nat_power)
  show ?thesis
  proof (cases "n = 2 ^ 53")
    case True
    then have "round64 (of_int n) = Fin (2 ^ 53)" using round64_pow2_53(1) by simp
    moreover have "round64 1 = Fin 1" using round64_of_int[of 1] by simp
    ultimately show ?thesis unfolding shardUnit_def n_def[symmetric] round64_pow2_53(2) using True by simp
  next
    case False
    then have lt: "n < 2 ^ 53" using n(2) by linarith
    then have "round64 (of_int n) = Fin (of_int n)" using n(1) by (intro round64_of_int) linarith
    then show ?thesis unfolding shardUnit_def n_def[symmetric] round64_pow2_53(2) using round64_ratio[OF n(1) lt] by simp
  qed
qed

end
