(* ===== verification/Registry.thy ===== *)
theory Registry
  imports Convert
begin

text \<open>
  The in-memory registry of compiled plans a replica serves
  (\<open>internal/webhookserver/registry.go\<close>). A registry is the map behind the atomic pointer; writers
  copy it and swap the pointer, which makes each of the operations below one atomic step of the
  relation \<open>registry_step\<close>. The abstract view of a registry is the router it serves per resource;
  the lemmas show that \<open>Set\<close>, \<open>RecordError\<close> and \<open>Remove\<close> implement it and what a history of steps
  leaves to serve.
\<close>

record CompiledEntry =
  ceRouter :: "Router option"
  ceReviewVersions :: "string list"
  ceLossless :: "(string \<times> (bool \<times> bool)) list"
  cePlanHash :: string
  ceCompiledAt :: int
  ceLastError :: string
  ceLastErrorAt :: int

definition zeroEntry :: CompiledEntry where
  "zeroEntry = \<lparr>ceRouter = None, ceReviewVersions = [], ceLossless = [], cePlanHash = [],
     ceCompiledAt = 0, ceLastError = [], ceLastErrorAt = 0\<rparr>"

type_synonym Registry = "string \<rightharpoonup> CompiledEntry"

definition NewRegistry :: Registry where
  "NewRegistry = Map.empty"

definition registryGet :: "Registry \<Rightarrow> string \<Rightarrow> CompiledEntry option" where
  "registryGet r xrdName = r xrdName"

definition registrySet :: "Registry \<Rightarrow> string \<Rightarrow> CompiledEntry \<Rightarrow> Registry" where
  "registrySet r xrdName entry = r(xrdName \<mapsto> entry)"

text \<open>\<open>now\<close> is the result of \<open>time.Now\<close>.\<close>

definition RecordError :: "Registry \<Rightarrow> string \<Rightarrow> string \<Rightarrow> int \<Rightarrow> Registry" where
  "RecordError r xrdName errMsg now =
     (let updated = (case r xrdName of None \<Rightarrow> zeroEntry | Some e \<Rightarrow> e)
      in r(xrdName \<mapsto> updated\<lparr>ceLastError := errMsg, ceLastErrorAt := now\<rparr>))"

definition registryRemove :: "Registry \<Rightarrow> string \<Rightarrow> Registry" where
  "registryRemove r xrdName = (if r xrdName = None then r else r(xrdName := None))"

definition registrySnapshot :: "Registry \<Rightarrow> Registry" where
  "registrySnapshot r = (\<lambda>k. r k)"

definition registryLen :: "Registry \<Rightarrow> nat" where
  "registryLen r = card (dom r)"

subsection \<open>Histories\<close>

datatype event = SetEvent string CompiledEntry | ErrorEvent string string int | RemoveEvent string

inductive registry_step :: "Registry \<Rightarrow> event \<Rightarrow> Registry \<Rightarrow> bool" where
  step_set: "registry_step r (SetEvent x e) (registrySet r x e)"
| step_error: "registry_step r (ErrorEvent x m t) (RecordError r x m t)"
| step_remove: "registry_step r (RemoveEvent x) (registryRemove r x)"

inductive_cases step_setE: "registry_step r (SetEvent x e) r'"
inductive_cases step_errorE: "registry_step r (ErrorEvent x m t) r'"
inductive_cases step_removeE: "registry_step r (RemoveEvent x) r'"

inductive registry_run :: "Registry \<Rightarrow> event list \<Rightarrow> Registry \<Rightarrow> bool" where
  run_nil: "registry_run r [] r"
| run_step: "registry_step r ev r' \<Longrightarrow> registry_run r' evs r'' \<Longrightarrow> registry_run r (ev # evs) r''"

text \<open>The abstract view: what conversion requests for a resource are answered with.\<close>

definition served :: "Registry \<Rightarrow> string \<Rightarrow> Router option" where
  "served r x = (case r x of None \<Rightarrow> None | Some e \<Rightarrow> ceRouter e)"

fun specStep :: "event \<Rightarrow> (string \<Rightarrow> Router option) \<Rightarrow> (string \<Rightarrow> Router option)" where
  "specStep (SetEvent x e) s = s(x := ceRouter e)"
| "specStep (ErrorEvent x m t) s = s"
| "specStep (RemoveEvent x) s = s(x := None)"

lemma step_refines: "registry_step r ev r' \<Longrightarrow> served r' = specStep ev (served r)"
  by (induction rule: registry_step.induct)
    (auto simp: served_def registrySet_def RecordError_def registryRemove_def zeroEntry_def Let_def
      split: option.splits)

lemma run_refines: "registry_run r evs r' \<Longrightarrow> served r' = fold specStep evs (served r)"
  by (induction rule: registry_run.induct) (simp_all add: step_refines)

lemma step_total: "\<exists>r'. registry_step r ev r'"
  by (cases ev) (auto intro: registry_step.intros)

lemma run_total: "\<exists>r'. registry_run r evs r'"
proof (induction evs arbitrary: r)
  case (Cons ev evs)
  then show ?case using step_total by (blast intro: run_step)
qed (blast intro: run_nil)

text \<open>The events that concern a resource and decide what it is served with.\<close>

fun decides :: "string \<Rightarrow> event \<Rightarrow> bool" where
  "decides x (SetEvent y e) = (y = x)"
| "decides x (ErrorEvent y m t) = False"
| "decides x (RemoveEvent y) = (y = x)"

fun decision :: "event \<Rightarrow> Router option" where
  "decision (SetEvent y e) = ceRouter e"
| "decision _ = None"

lemma fold_specStep_last:
  "fold specStep evs s x = (if filter (decides x) evs = [] then s x else decision (last (filter (decides x) evs)))"
proof (induction evs arbitrary: s)
  case (Cons ev evs)
  then show ?case by (cases ev) auto
qed simp

lemma run_served:
  assumes "registry_run NewRegistry evs r"
  shows "served r x = (case rev (filter (decides x) evs) of [] \<Rightarrow> None | ev # _ \<Rightarrow> decision ev)"
proof -
  have "served r x = fold specStep evs (served NewRegistry) x" using run_refines[OF assms] by simp
  moreover have "served NewRegistry x = None" by (simp add: served_def NewRegistry_def)
  ultimately show ?thesis
    by (cases "filter (decides x) evs" rule: rev_cases) (simp_all add: fold_specStep_last)
qed

end
