(* ===== verification/ApiRules.thy ===== *)
theory ApiRules
  imports Rules
begin

text \<open>
  The rules of a conversion configuration as the API objects carry them
  (\<open>api/v1alpha1/xrdconversionconfig_types.go\<close>) and their translation into engine rules
  (\<open>api/v1alpha1/xrdconversionconfig_convert.go\<close>). The struct \<open>ConversionRule\<close> has one nullable
  pointer per strategy; here the pointers that are set are a list, and \<open>apiParam\<close> follows the
  pointer that belongs to the rule's strategy, the only one the code ever reads. The params
  structs keep the order of their fields. An \<open>extv1.JSON\<close> is its raw text, empty when unset.
  Nil and empty maps and slices read alike and are both the empty list.
\<close>

type_synonym rawJSON = string

record apiRuleWhen =
  awPath :: string
  awEquals :: rawJSON

record apiEnumValueMapping =
  aevHub :: rawJSON
  aevSpoke :: rawJSON

record apiJSONPatchOp =
  apOp :: string
  apPath :: string
  apFrom :: string
  apValue :: "rawJSON option"

datatype conversionRule = ConversionRule
  (crStrategy: Strategy)
  (crParams: "apiParams list")
  (crAcknowledgeLossy: bool)
  (crReason: string)
  (crWhen: "apiRuleWhen option")
and apiParams =
    AFieldRename string string
  | AScalarToObject string string string "(string \<times> rawJSON) list"
  | AObjectToScalar string string string "(string \<times> rawJSON) list"
  | ASingletonArrayToObject string string
  | AObjectToSingletonArray string string
  | AFieldsToMap "string list" string "(string \<times> string) list" UnknownKeyPolicy
  | AMapToFields string "string list" "(string \<times> string) list" UnknownKeyPolicy
  | AToAnnotation string string string bool
  | AToLabel string string string bool
  | AFromAnnotation string string string bool
  | AFromLabel string string string bool
  | AEnumRemap string "apiEnumValueMapping list" UnknownKeyPolicy UnknownKeyPolicy
  | ADefaultValue string Side rawJSON
  | AConstant string Side rawJSON
  | ADelete string Side
  | AJSONPatch "apiJSONPatchOp list" "apiJSONPatchOp list" bool
  | AForEach string string "conversionRule list"
  | ATypeCoerce string FractionalIntegerPolicy
  | AScalarToFields string string "(string \<times> string) list" string bool
  | AFieldsToScalar "(string \<times> string) list" string string string bool
  | AArrayToMapByKey string string string
  | AMapToArrayByKey string string string
  | ANumericScale string string float64
  | AListJoin string string string
  | AListSplit string string string
  | AQuantity string string
  | ADuration string string
  | AMapKeyRename string string "(string \<times> string) list"
  | ACEL "string list" "string list" string string
  | ABranchMap string string string "apiBranchMapping list"
and apiBranchMapping = ABranchMapping
  (abHubBranch: string)
  (abSpokeBranch: string)
  (abHubDiscriminatorValue: string)
  (abSpokeDiscriminatorValue: string)
  (abRules: "conversionRule list")

record SpokeVersionRules =
  svVersion :: string
  svRules :: "conversionRule list"

text \<open>The strategy whose pointer a params value is stored under.\<close>

fun apiSlot :: "apiParams \<Rightarrow> Strategy" where
  "apiSlot (AFieldRename _ _) = ''FieldRename''"
| "apiSlot (AScalarToObject _ _ _ _) = ''ScalarToObject''"
| "apiSlot (AObjectToScalar _ _ _ _) = ''ObjectToScalar''"
| "apiSlot (ASingletonArrayToObject _ _) = ''SingletonArrayToObject''"
| "apiSlot (AObjectToSingletonArray _ _) = ''ObjectToSingletonArray''"
| "apiSlot (AFieldsToMap _ _ _ _) = ''FieldsToMap''"
| "apiSlot (AMapToFields _ _ _ _) = ''MapToFields''"
| "apiSlot (AToAnnotation _ _ _ _) = ''ToAnnotation''"
| "apiSlot (AToLabel _ _ _ _) = ''ToLabel''"
| "apiSlot (AFromAnnotation _ _ _ _) = ''FromAnnotation''"
| "apiSlot (AFromLabel _ _ _ _) = ''FromLabel''"
| "apiSlot (AEnumRemap _ _ _ _) = ''EnumRemap''"
| "apiSlot (ADefaultValue _ _ _) = ''DefaultValue''"
| "apiSlot (AConstant _ _ _) = ''Constant''"
| "apiSlot (ADelete _ _) = ''Delete''"
| "apiSlot (AJSONPatch _ _ _) = ''JSONPatch''"
| "apiSlot (AForEach _ _ _) = ''ForEach''"
| "apiSlot (ATypeCoerce _ _) = ''TypeCoerce''"
| "apiSlot (AScalarToFields _ _ _ _ _) = ''ScalarToFields''"
| "apiSlot (AFieldsToScalar _ _ _ _ _) = ''FieldsToScalar''"
| "apiSlot (AArrayToMapByKey _ _ _) = ''ArrayToMapByKey''"
| "apiSlot (AMapToArrayByKey _ _ _) = ''MapToArrayByKey''"
| "apiSlot (ANumericScale _ _ _) = ''NumericScale''"
| "apiSlot (AListJoin _ _ _) = ''ListJoin''"
| "apiSlot (AListSplit _ _ _) = ''ListSplit''"
| "apiSlot (AQuantity _ _) = ''Quantity''"
| "apiSlot (ADuration _ _) = ''Duration''"
| "apiSlot (AMapKeyRename _ _ _) = ''MapKeyRename''"
| "apiSlot (ACEL _ _ _ _) = ''CEL''"
| "apiSlot (ABranchMap _ _ _ _) = ''BranchMap''"

definition apiParam :: "conversionRule \<Rightarrow> apiParams option" where
  "apiParam r = find (\<lambda>a. apiSlot a = crStrategy r) (crParams r)"

definition apiStrategies :: "Strategy list" where
  "apiStrategies =
     [''FieldRename'', ''ScalarToObject'', ''ObjectToScalar'', ''SingletonArrayToObject'', ''ObjectToSingletonArray'',
      ''FieldsToMap'', ''MapToFields'', ''ToAnnotation'', ''ToLabel'', ''FromAnnotation'', ''FromLabel'', ''EnumRemap'',
      ''DefaultValue'', ''Constant'', ''Delete'', ''JSONPatch'', ''ForEach'', ''TypeCoerce'', ''ScalarToFields'',
      ''FieldsToScalar'', ''ArrayToMapByKey'', ''MapToArrayByKey'', ''NumericScale'', ''ListJoin'', ''ListSplit'',
      ''Quantity'', ''Duration'', ''MapKeyRename'', ''CEL'', ''BranchMap'']"

lemma apiParam_slot: "apiParam r = Some p \<Longrightarrow> apiSlot p = crStrategy r \<and> p \<in> set (crParams r)"
  by (auto simp: apiParam_def find_Some_iff)

text \<open>The rule lists directly below a rule.\<close>

definition apiNested :: "apiParams \<Rightarrow> conversionRule list list" where
  "apiNested p =
     (case p of
        AForEach hp sp rs \<Rightarrow> [rs]
      | ABranchMap hp sp d bs \<Rightarrow> map abRules bs
      | _ \<Rightarrow> [])"

lemma size_abRules: "b \<in> set bs \<Longrightarrow> size_list size (abRules b) < Suc (size_list size bs)"
proof -
  assume b: "b \<in> set bs"
  have "size_list size (abRules b) \<le> size b" by (cases b) simp
  also have "size b \<le> size_list size bs" using b by (induction bs) auto
  finally show ?thesis by simp
qed

lemma size_param_nested:
  assumes "p \<in> set (crParams r)" and "rs \<in> set (apiNested p)"
  shows "size_list size rs < size r"
proof -
  have "size_list size rs < size p" using assms(2) size_abRules
    by (cases p) (fastforce simp: apiNested_def)+
  also have "size p \<le> size_list size (crParams r)"
    using assms(1) by (auto intro!: size_list_estimation')
  also have "\<dots> < size r" by (cases r) simp
  finally show ?thesis .
qed

lemma size_apiNested:
  assumes "apiParam r = Some p" and "rs \<in> set (apiNested p)"
  shows "size_list size rs < size r"
  by (rule size_param_nested[OF apiParam_slot[OF assms(1), THEN conjunct2] assms(2)])

lemma size_nested_rule:
  assumes "apiParam r = Some p" and "rs \<in> set (apiNested p)" and "r' \<in> set rs"
  shows "size r' < size r"
  using size_apiNested[OF assms(1,2)] size_list_estimation'[OF assms(3) order_refl, of size] by simp

subsection \<open>Values\<close>

definition orDefault :: "string \<Rightarrow> string \<Rightarrow> string" where
  "orDefault v def = (if v = [] then def else v)"

definition jsonToAny :: "golib \<Rightarrow> rawJSON \<Rightarrow> gerr + jval" where
  "jsonToAny lib raw =
     (if raw = [] then Inr JNull
      else (case lib_Unmarshal lib raw of
              Inl e \<Rightarrow> Inl (Fmt ''unmarshal JSON value: %w'' [e])
            | Inr v \<Rightarrow> Inr v))"

definition jsonMapToAny :: "golib \<Rightarrow> (string \<times> rawJSON) list \<Rightarrow> gerr + jobj" where
  "jsonMapToAny lib m =
     mapR (\<lambda>kv. case jsonToAny lib (snd kv) of
                   Inl e \<Rightarrow> Inl (Fmt ''key %q: %w'' [MStr (fst kv), e])
                 | Inr v \<Rightarrow> Inr (fst kv, v)) m"

definition parsePathMap :: "(string \<times> string) list \<Rightarrow> (string \<times> FieldPath) list" where
  "parsePathMap m = map (\<lambda>kv. (fst kv, ParsePath (snd kv))) m"

definition parsePaths :: "string list \<Rightarrow> FieldPath list" where
  "parsePaths paths = map ParsePath paths"

definition rekeyByPath :: "string list \<Rightarrow> (string \<times> string) list \<Rightarrow> (string \<times> string) list" where
  "rekeyByPath paths keyNames = keyNames"

definition convertPatchOp :: "golib \<Rightarrow> apiJSONPatchOp \<Rightarrow> gerr + JSONPatchOp" where
  "convertPatchOp lib o' =
     bindR (case apValue o' of None \<Rightarrow> Inr JNull | Some raw \<Rightarrow> jsonToAny lib raw)
       (\<lambda>v. Inr \<lparr>jpOp = apOp o', jpPath = apPath o', jpFrom = apFrom o', jpValue = v\<rparr>)"

definition convertPatchOps :: "golib \<Rightarrow> apiJSONPatchOp list \<Rightarrow> gerr + JSONPatchOp list" where
  "convertPatchOps lib ops = mapR (convertPatchOp lib) ops"

definition convertWhen :: "golib \<Rightarrow> apiRuleWhen option \<Rightarrow> gerr + RuleWhen option" where
  "convertWhen lib w =
     (case w of
        None \<Rightarrow> Inr None
      | Some aw \<Rightarrow> bindR (jsonToAny lib (awEquals aw)) (\<lambda>eq. Inr (Some \<lparr>whenPath = ParsePath (awPath aw), whenEquals = eq\<rparr>)))"

definition convertEnumMapping :: "golib \<Rightarrow> apiEnumValueMapping \<Rightarrow> gerr + EnumValueMapping" where
  "convertEnumMapping lib m =
     (case jsonToAny lib (aevHub m) of
        Inl e \<Rightarrow> Inl (Fmt ''enum mapping hub: %w'' [e])
      | Inr h \<Rightarrow>
          (case jsonToAny lib (aevSpoke m) of
             Inl e \<Rightarrow> Inl (Fmt ''enum mapping spoke: %w'' [e])
           | Inr s \<Rightarrow> Inr \<lparr>evHub = h, evSpoke = s\<rparr>))"

subsection \<open>Rules\<close>

text \<open>What the missing-params error calls a strategy's params.\<close>

definition requiredParamsName :: "Strategy \<Rightarrow> string" where
  "requiredParamsName st =
     (if st \<in> {''ToAnnotation'', ''ToLabel'', ''FromAnnotation'', ''FromLabel''} then st
      else case map_of
        [(''FieldRename'', ''fieldRename''), (''ScalarToObject'', ''scalarToObject''),
         (''ObjectToScalar'', ''objectToScalar''), (''SingletonArrayToObject'', ''singletonArrayToObject''),
         (''ObjectToSingletonArray'', ''objectToSingletonArray''), (''FieldsToMap'', ''fieldsToMap''),
         (''MapToFields'', ''mapToFields''), (''EnumRemap'', ''enumRemap''), (''DefaultValue'', ''defaultValue''),
         (''Constant'', ''constant''), (''Delete'', ''delete''), (''JSONPatch'', ''jsonPatch''),
         (''ForEach'', ''forEach''), (''TypeCoerce'', ''typeCoerce''), (''ScalarToFields'', ''scalarToFields''),
         (''FieldsToScalar'', ''fieldsToScalar''), (''ArrayToMapByKey'', ''arrayToMapByKey''),
         (''MapToArrayByKey'', ''mapToArrayByKey''), (''NumericScale'', ''numericScale''), (''ListJoin'', ''listJoin''),
         (''ListSplit'', ''listSplit''), (''Quantity'', ''quantity''), (''Duration'', ''duration''),
         (''MapKeyRename'', ''mapKeyRename''), (''CEL'', ''cel''), (''BranchMap'', ''branchMap'')] st of
           Some n \<Rightarrow> n | None \<Rightarrow> st)"

text \<open>The translation of the params a rule points to, with that of nested rule lists as an argument.\<close>

fun convertSetParams :: "golib \<Rightarrow> (conversionRule list \<Rightarrow> gerr + rule list) \<Rightarrow> apiParams \<Rightarrow> gerr + ruleParams" where
  "convertSetParams lib nested (AFieldRename hp sp) = Inr (FieldRenameParams (ParsePath hp) (ParsePath sp))"
| "convertSetParams lib nested (AScalarToObject hp sp k d) = bindR (jsonMapToAny lib d) (\<lambda>ds. Inr (ScalarToObjectParams (ParsePath hp) (ParsePath sp) k ds))"
| "convertSetParams lib nested (AObjectToScalar hp sp k d) = bindR (jsonMapToAny lib d) (\<lambda>ds. Inr (ObjectToScalarParams (ParsePath hp) (ParsePath sp) k ds))"
| "convertSetParams lib nested (ASingletonArrayToObject hp sp) = Inr (SingletonArrayToObjectParams (ParsePath hp) (ParsePath sp))"
| "convertSetParams lib nested (AObjectToSingletonArray hp sp) = Inr (ObjectToSingletonArrayParams (ParsePath hp) (ParsePath sp))"
| "convertSetParams lib nested (AFieldsToMap hps sp kn pol) = Inr (FieldsToMapParams (parsePaths hps) (ParsePath sp) (rekeyByPath hps kn) (orDefault pol UnknownKeyError))"
| "convertSetParams lib nested (AMapToFields hp sps kn pol) = Inr (MapToFieldsParams (ParsePath hp) (parsePaths sps) (rekeyByPath sps kn) (orDefault pol UnknownKeyError))"
| "convertSetParams lib nested (AToAnnotation hp k ser b) = Inr (ToMetadataParams (ParsePath hp) k (orDefault ser ''JSON'') b)"
| "convertSetParams lib nested (AToLabel hp k ser b) = Inr (ToMetadataParams (ParsePath hp) k (orDefault ser ''JSON'') b)"
| "convertSetParams lib nested (AFromAnnotation sp k ser b) = Inr (FromMetadataParams (ParsePath sp) k (orDefault ser ''JSON'') b)"
| "convertSetParams lib nested (AFromLabel sp k ser b) =
     (if ser = ''JSON'' then Inl (MStr ''FromLabel does not support serialization=JSON; use String'')
           else Inr (FromMetadataParams (ParsePath sp) k (orDefault ser ''String'') b))"
| "convertSetParams lib nested (AEnumRemap q ms oh os) =
     bindR (mapR (convertEnumMapping lib) ms)
            (\<lambda>ms'. Inr (EnumRemapParams (ParsePath q) ms' (orDefault oh UnknownKeyError) (orDefault os UnknownKeyError)))"
| "convertSetParams lib nested (ADefaultValue q sd raw) = bindR (jsonToAny lib raw) (\<lambda>v. Inr (DefaultValueParams (ParsePath q) sd v))"
| "convertSetParams lib nested (AConstant q sd raw) = bindR (jsonToAny lib raw) (\<lambda>v. Inr (ConstantParams (ParsePath q) sd v))"
| "convertSetParams lib nested (ADelete q sd) = Inr (DeleteParams (ParsePath q) sd)"
| "convertSetParams lib nested (AJSONPatch h2s s2h b) = bindR (convertPatchOps lib h2s) (\<lambda>h. bindR (convertPatchOps lib s2h) (\<lambda>s. Inr (JSONPatchParams h s b)))"
| "convertSetParams lib nested (AForEach hp sp rs) =
     (case nested rs of
             Inl e \<Rightarrow> Inl (Fmt ''nested rules: %w'' [e])
           | Inr rs' \<Rightarrow> Inr (ForEachParams (ParsePath hp) (ParsePath sp) rs'))"
| "convertSetParams lib nested (ATypeCoerce q pol) = Inr (TypeCoerceParams (ParsePath q) pol)"
| "convertSetParams lib nested (AScalarToFields hp pt fs t b) = Inr (ScalarToFieldsParams (ParsePath hp) pt (parsePathMap fs) t b)"
| "convertSetParams lib nested (AFieldsToScalar fs pt sp t b) = Inr (FieldsToScalarParams (parsePathMap fs) pt (ParsePath sp) t b)"
| "convertSetParams lib nested (AArrayToMapByKey hp sp k) = Inr (ArrayToMapByKeyParams (ParsePath hp) (ParsePath sp) k)"
| "convertSetParams lib nested (AMapToArrayByKey hp sp k) = Inr (MapToArrayByKeyParams (ParsePath hp) (ParsePath sp) k)"
| "convertSetParams lib nested (ANumericScale hp sp f) = Inr (NumericScaleParams (ParsePath hp) (ParsePath sp) f)"
| "convertSetParams lib nested (AListJoin hp sp sep) = Inr (ListJoinParams (ParsePath hp) (ParsePath sp) sep)"
| "convertSetParams lib nested (AListSplit hp sp sep) = Inr (ListSplitParams (ParsePath hp) (ParsePath sp) sep)"
| "convertSetParams lib nested (AQuantity hp sp) = Inr (QuantityParams (ParsePath hp) (ParsePath sp))"
| "convertSetParams lib nested (ADuration hp sp) = Inr (DurationParams (ParsePath hp) (ParsePath sp))"
| "convertSetParams lib nested (AMapKeyRename hp sp rn) = Inr (MapKeyRenameParams (ParsePath hp) (ParsePath sp) rn)"
| "convertSetParams lib nested (ACEL hps sps e1 e2) = Inr (CELParams (parsePaths hps) (parsePaths sps) e1 e2)"
| "convertSetParams lib nested (ABranchMap hp sp d bs) =
     bindR (mapR (\<lambda>ib. case nested (abRules (snd ib)) of
                   Inl e \<Rightarrow> Inl (Fmt ''branch %d (%s): %w'' [MInt (int (fst ib)), MStr (abHubBranch (snd ib)), e])
                 | Inr rs' \<Rightarrow> Inr (BranchMapping (abHubBranch (snd ib)) (abSpokeBranch (snd ib))
                     (abHubDiscriminatorValue (snd ib)) (abSpokeDiscriminatorValue (snd ib)) rs'))
                (List.enumerate 0 bs))
            (\<lambda>bs'. Inr (BranchMapParams (ParsePath hp) (ParsePath sp) d bs'))"

definition convertParams :: "golib \<Rightarrow> (conversionRule list \<Rightarrow> gerr + rule list) \<Rightarrow> conversionRule \<Rightarrow> gerr + ruleParams" where
  "convertParams lib nested r =
     (if crStrategy r \<notin> set apiStrategies then Inl (Fmt ''unknown strategy %q'' [MStr (crStrategy r)])
      else case apiParam r of
        None \<Rightarrow> Inl (Fmt ''requires %s params'' [MStr (requiredParamsName (crStrategy r))])
      | Some p \<Rightarrow> convertSetParams lib nested p)"

definition convertRule :: "golib \<Rightarrow> (conversionRule list \<Rightarrow> gerr + rule list) \<Rightarrow> nat \<times> conversionRule \<Rightarrow> gerr + rule" where
  "convertRule lib nested ir =
     (let i = int (fst ir); r = snd ir in
      case convertParams lib nested r of
        Inl e \<Rightarrow> Inl (Fmt ''rule %d (%s): %w'' [MInt i, MStr (crStrategy r), e])
      | Inr params \<Rightarrow>
          (case convertWhen lib (crWhen r) of
             Inl e \<Rightarrow> Inl (Fmt ''rule %d (%s) when: %w'' [MInt i, MStr (crStrategy r), e])
           | Inr when \<Rightarrow> Inr (Rule (crStrategy r) params (crAcknowledgeLossy r) (crReason r) i when)))"

lemma convertRule_cong [fundef_cong]:
  assumes "lib = lib'" and "ir = ir'"
    and "\<And>p rs. apiParam (snd ir') = Some p \<Longrightarrow> rs \<in> set (apiNested p) \<Longrightarrow> nested rs = nested' rs"
  shows "convertRule lib nested ir = convertRule lib' nested' ir'"
proof -
  have "convertSetParams lib' nested p = convertSetParams lib' nested' p" if "apiParam (snd ir') = Some p" for p
    using assms(3)[OF that]
    by (cases p) (auto simp: apiNested_def dest!: in_enumerate
        intro!: arg_cong2[where f = bindR] mapR_cong)
  then show ?thesis
    unfolding assms(1,2) convertRule_def convertParams_def Let_def by (cases "apiParam (snd ir')") simp_all
qed

function convertRules :: "golib \<Rightarrow> conversionRule list \<Rightarrow> gerr + rule list" where
  "convertRules lib rules = mapR (convertRule lib (convertRules lib)) (List.enumerate 0 rules)"
  by pat_completeness auto
termination
proof (relation "measure (\<lambda>(lib, rules). size_list size rules)", goal_cases)
  case (2 lib rules ir p rs)
  have "size (snd ir) \<le> size_list size rules"
    using in_enumerate[OF 2(1)] by (rule size_list_estimation') simp
  then show ?case using size_apiNested[OF 2(2,3)] by simp
qed simp

declare convertRules.simps [simp del]

definition spokesToRuleSets :: "golib \<Rightarrow> string \<Rightarrow> SpokeVersionRules list \<Rightarrow> UnmappedFieldPolicy \<Rightarrow> gerr + RuleSet list" where
  "spokesToRuleSets lib hubVersion spokes policy =
     mapR (\<lambda>spoke. case convertRules lib (svRules spoke) of
              Inl e \<Rightarrow> Inl (Fmt ''spoke %q: %w'' [MStr (svVersion spoke), e])
            | Inr rules \<Rightarrow> Inr \<lparr>rsHubVersion = hubVersion, rsSpokeVersion = svVersion spoke, rsRules = rules,
                rsUnmappedFieldPolicy = orDefault policy UnmappedFieldPolicyError\<rparr>) spokes"

end
