(* ===== verification/Rehub.thy ===== *)
theory Rehub
  imports ApiRules Compile
begin

text \<open>
  Promotion of a spoke to hub (\<open>api/v1alpha1/rehub.go\<close>): inverting rules, the map from the paths of
  the old hub to those of the new one, rewriting the rules of the other spokes through it, and
  \<open>RehubSpokes\<close>. The lemmas say when inverting is an involution, when the inverse of a rule
  compiles to the same operations with the directions exchanged, and which renames a composed
  spoke gains.
\<close>

subsection \<open>Inverting a rule\<close>

definition missingParams :: "Strategy \<Rightarrow> gerr" where
  "missingParams st =
     Fmt ''%s: missing params''
       [MStr (case map_of [(''Constant'', ''constant rule''), (''Delete'', ''delete rule''), (''Quantity'', ''quantity''),
                (''Duration'', ''duration''), (''MapKeyRename'', ''mapKeyRename''), (''CEL'', ''cel'')] st of
                Some n \<Rightarrow> n | None \<Rightarrow> st)]"

definition unsupportedStrategy :: "Strategy \<Rightarrow> gerr" where
  "unsupportedStrategy st = Fmt ''unsupported strategy %q'' [MStr st]"

definition flipSide :: "Side \<Rightarrow> Side" where
  "flipSide s = (if s = SideHub then SideSpoke else SideHub)"

definition invertKeyNames :: "string list \<Rightarrow> (string \<times> string) list \<Rightarrow> (string \<times> string) list" where
  "invertKeyNames paths keyNames =
     fold (\<lambda>p out. case map_of keyNames p of Some v \<Rightarrow> AList.update p v out | None \<Rightarrow> out) paths []"

definition invertRenameMap :: "(string \<times> string) list \<Rightarrow> (string \<times> string) list" where
  "invertRenameMap renames = fold (\<lambda>hs out. AList.update (snd hs) (fst hs) out) renames []"

text \<open>The params of the inverse, with the inversion of nested rules as an argument.\<close>

fun invertParams :: "(conversionRule \<Rightarrow> gerr + conversionRule) \<Rightarrow> apiParams \<Rightarrow> gerr + apiParams" where
  "invertParams f (AFieldRename hp sp) = Inr (AFieldRename sp hp)"
| "invertParams f (AScalarToObject hp sp k d) = Inr (AObjectToScalar sp hp k d)"
| "invertParams f (AObjectToScalar hp sp k d) = Inr (AScalarToObject sp hp k d)"
| "invertParams f (ASingletonArrayToObject hp sp) = Inr (AObjectToSingletonArray sp hp)"
| "invertParams f (AObjectToSingletonArray hp sp) = Inr (ASingletonArrayToObject sp hp)"
| "invertParams f (AFieldsToMap hps sp kn pol) = Inr (AMapToFields sp hps (invertKeyNames hps kn) pol)"
| "invertParams f (AMapToFields hp sps kn pol) = Inr (AFieldsToMap sps hp (invertKeyNames sps kn) pol)"
| "invertParams f (AToAnnotation hp k ser b) = Inr (AFromAnnotation hp k ser b)"
| "invertParams f (AToLabel hp k ser b) =
     (if ser = ''JSON'' then Inl (MStr ''ToLabel with serialization=JSON cannot invert to FromLabel; use String'')
           else Inr (AFromLabel hp k (if ser = [] then ''String'' else ser) b))"
| "invertParams f (AFromAnnotation sp k ser b) = Inr (AToAnnotation sp k ser b)"
| "invertParams f (AFromLabel sp k ser b) = Inr (AToLabel sp k ser b)"
| "invertParams f (AEnumRemap q ms oh os) = Inr (AEnumRemap q (map (\<lambda>m. \<lparr>aevHub = aevSpoke m, aevSpoke = aevHub m\<rparr>) ms) os oh)"
| "invertParams f (ADefaultValue q sd v) = Inr (ADefaultValue q (flipSide sd) v)"
| "invertParams f (AConstant q sd v) = Inr (AConstant q (flipSide sd) v)"
| "invertParams f (ADelete q sd) = Inr (ADelete q (flipSide sd))"
| "invertParams f (AJSONPatch h2s s2h b) = Inr (AJSONPatch s2h h2s b)"
| "invertParams f (AForEach hp sp rs) =
     bindR (mapR (\<lambda>ir. case f (snd ir) of
                   Inl e \<Rightarrow> Inl (Fmt ''ForEach rules[%d]: %w'' [MInt (int (fst ir)), e])
                 | Inr r' \<Rightarrow> Inr r') (List.enumerate 0 rs))
            (\<lambda>nested. Inr (AForEach sp hp nested))"
| "invertParams f (ATypeCoerce q pol) = Inr (ATypeCoerce q pol)"
| "invertParams f (AScalarToFields hp pt fs t b) = Inr (AFieldsToScalar fs pt hp t b)"
| "invertParams f (AFieldsToScalar fs pt sp t b) = Inr (AScalarToFields sp pt fs t b)"
| "invertParams f (AArrayToMapByKey hp sp k) = Inr (AMapToArrayByKey sp hp k)"
| "invertParams f (AMapToArrayByKey hp sp k) = Inr (AArrayToMapByKey sp hp k)"
| "invertParams f (ANumericScale hp sp factor) = Inr (ANumericScale sp hp factor)"
| "invertParams f (AListJoin hp sp sep) = Inr (AListSplit sp hp sep)"
| "invertParams f (AListSplit hp sp sep) = Inr (AListJoin sp hp sep)"
| "invertParams f (AQuantity hp sp) = Inr (AQuantity sp hp)"
| "invertParams f (ADuration hp sp) = Inr (ADuration sp hp)"
| "invertParams f (AMapKeyRename hp sp rn) = Inr (AMapKeyRename sp hp (invertRenameMap rn))"
| "invertParams f (ACEL hps sps e1 e2) = Inr (ACEL sps hps e2 e1)"
| "invertParams f (ABranchMap hp sp d bs) = Inl (unsupportedStrategy ''BranchMap'')"

lemma invertParams_cong [fundef_cong]:
  assumes "p = p'" and "\<And>rs r. rs \<in> set (apiNested p') \<Longrightarrow> r \<in> set rs \<Longrightarrow> f r = f' r"
  shows "invertParams f p = invertParams f' p'"
  using assms(2) unfolding assms(1)
  by (cases p') (auto simp: apiNested_def dest!: in_enumerate
      intro!: arg_cong2[where f = bindR] mapR_cong)

function InvertRule :: "conversionRule \<Rightarrow> gerr + conversionRule" where
  "InvertRule r =
     (if crStrategy r \<notin> set apiStrategies - {''BranchMap''} then Inl (unsupportedStrategy (crStrategy r))
      else case apiParam r of
        None \<Rightarrow> Inl (missingParams (crStrategy r))
      | Some p \<Rightarrow> bindR (invertParams InvertRule p)
          (\<lambda>q. Inr (ConversionRule (apiSlot q) [q] (crAcknowledgeLossy r) (crReason r) (crWhen r))))"
  by pat_completeness auto
termination
  by (relation "measure size") (auto intro: size_nested_rule)

declare InvertRule.simps [simp del]

definition InvertRules :: "conversionRule list \<Rightarrow> gerr + conversionRule list" where
  "InvertRules rules =
     mapR (\<lambda>ir. case InvertRule (snd ir) of
              Inl e \<Rightarrow> Inl (Fmt ''rules[%d]: %w'' [MInt (int (fst ir)), e])
            | Inr r' \<Rightarrow> Inr r') (List.enumerate 0 rules)"

subsection \<open>The path map of a promotion\<close>

type_synonym HubPathMap = "(string \<times> string) list"

definition setParamPairs :: "apiParams \<Rightarrow> (string \<times> string) list" where
  "setParamPairs p =
     (case p of
        AFieldRename hp sp \<Rightarrow> [(hp, sp)]
      | AScalarToObject hp sp k d \<Rightarrow> [(hp, sp)]
      | AObjectToScalar hp sp k d \<Rightarrow> [(hp, sp)]
      | ASingletonArrayToObject hp sp \<Rightarrow> [(hp, sp)]
      | AObjectToSingletonArray hp sp \<Rightarrow> [(hp, sp)]
      | ATypeCoerce q pol \<Rightarrow> [(q, q)]
      | AEnumRemap q ms oh os \<Rightarrow> [(q, q)]
      | ANumericScale hp sp f \<Rightarrow> [(hp, sp)]
      | AListJoin hp sp sep \<Rightarrow> [(hp, sp)]
      | AListSplit hp sp sep \<Rightarrow> [(hp, sp)]
      | AQuantity hp sp \<Rightarrow> [(hp, sp)]
      | ADuration hp sp \<Rightarrow> [(hp, sp)]
      | AMapKeyRename hp sp rn \<Rightarrow> [(hp, sp)]
      | AArrayToMapByKey hp sp k \<Rightarrow> [(hp, sp)]
      | AMapToArrayByKey hp sp k \<Rightarrow> [(hp, sp)]
      | AScalarToFields hp pt fs t b \<Rightarrow> [(hp, hp)]
      | AFieldsToScalar fs pt sp t b \<Rightarrow> map (\<lambda>kv. (snd kv, snd kv)) fs
      | AFieldsToMap hps sp kn pol \<Rightarrow> map (\<lambda>hp. (hp, hp)) hps
      | AMapToFields hp sps kn pol \<Rightarrow> [(hp, hp)]
      | AForEach hp sp rs \<Rightarrow> [(hp, sp)]
      | _ \<Rightarrow> [])"

definition hubSpokePathPairs :: "conversionRule \<Rightarrow> gerr + (string \<times> string) list" where
  "hubSpokePathPairs r =
     (let st = crStrategy r in
      if st = ''CEL'' then Inl (MStr ''CEL cannot contribute to a hub path map; remaining spokes that depend on it must be rewritten by hand'')
      else if st = ''JSONPatch'' then Inl (MStr ''JSONPatch cannot contribute to a hub path map; remaining spokes that depend on it must be rewritten by hand'')
      else if st \<in> {''ToAnnotation'', ''ToLabel'', ''FromAnnotation'', ''FromLabel'', ''DefaultValue'', ''Constant'', ''Delete''} then Inr []
      else if st \<notin> set apiStrategies - {''BranchMap''} then Inl (unsupportedStrategy st)
      else case apiParam r of None \<Rightarrow> Inl (missingParams st) | Some p \<Rightarrow> Inr (setParamPairs p))"

definition addPathPair :: "string \<times> string \<Rightarrow> HubPathMap \<Rightarrow> gerr + HubPathMap" where
  "addPathPair pr m =
     (case map_of m (fst pr) of
        Some prev \<Rightarrow>
          (if prev \<noteq> snd pr then Inl (Fmt ''conflicting hub path map for %q: %q vs %q'' [MStr (fst pr), MStr prev, MStr (snd pr)])
           else Inr (AList.update (fst pr) (snd pr) m))
      | None \<Rightarrow> Inr (AList.update (fst pr) (snd pr) m))"

definition PathMapFromPromoteRules :: "conversionRule list \<Rightarrow> gerr + HubPathMap" where
  "PathMapFromPromoteRules rules =
     foldR (\<lambda>ir m. case hubSpokePathPairs (snd ir) of
               Inl e \<Rightarrow> Inl (Fmt ''rules[%d]: %w'' [MInt (int (fst ir)), e])
             | Inr pairs \<Rightarrow> foldR addPathPair pairs m)
       (List.enumerate 0 rules) []"

subsection \<open>Rewriting the other spokes\<close>

definition mapHubPath :: "HubPathMap \<Rightarrow> string \<Rightarrow> string" where
  "mapHubPath m p =
     (if p = [] then p else case map_of m p of Some next' \<Rightarrow> next' | None \<Rightarrow> p)"

definition rewriteParams :: "HubPathMap \<Rightarrow> apiParams \<Rightarrow> apiParams" where
  "rewriteParams m p =
     (let mp = mapHubPath m in
      case p of
        AFieldRename hp sp \<Rightarrow> AFieldRename (mp hp) sp
      | AScalarToObject hp sp k d \<Rightarrow> AScalarToObject (mp hp) sp k d
      | AObjectToScalar hp sp k d \<Rightarrow> AObjectToScalar (mp hp) sp k d
      | ASingletonArrayToObject hp sp \<Rightarrow> ASingletonArrayToObject (mp hp) sp
      | AObjectToSingletonArray hp sp \<Rightarrow> AObjectToSingletonArray (mp hp) sp
      | AFieldsToMap hps sp kn pol \<Rightarrow> AFieldsToMap (map mp hps) sp kn pol
      | AMapToFields hp sps kn pol \<Rightarrow> AMapToFields (mp hp) sps kn pol
      | AToAnnotation hp k ser b \<Rightarrow> AToAnnotation (mp hp) k ser b
      | AToLabel hp k ser b \<Rightarrow> AToLabel (mp hp) k ser b
      | AEnumRemap q ms oh os \<Rightarrow> AEnumRemap (mp q) ms oh os
      | ADefaultValue q sd v \<Rightarrow> (if sd = SideHub then ADefaultValue (mp q) sd v else p)
      | AConstant q sd v \<Rightarrow> (if sd = SideHub then AConstant (mp q) sd v else p)
      | ADelete q sd \<Rightarrow> (if sd = SideHub then ADelete (mp q) sd else p)
      | AForEach hp sp rs \<Rightarrow> AForEach (mp hp) sp rs
      | ATypeCoerce q pol \<Rightarrow> ATypeCoerce (mp q) pol
      | AScalarToFields hp pt fs t b \<Rightarrow> AScalarToFields (mp hp) pt fs t b
      | AFieldsToScalar fs pt sp t b \<Rightarrow> AFieldsToScalar (map (\<lambda>kv. (fst kv, mp (snd kv))) fs) pt sp t b
      | AArrayToMapByKey hp sp k \<Rightarrow> AArrayToMapByKey (mp hp) sp k
      | AMapToArrayByKey hp sp k \<Rightarrow> AMapToArrayByKey (mp hp) sp k
      | ANumericScale hp sp f \<Rightarrow> ANumericScale (mp hp) sp f
      | AListJoin hp sp sep \<Rightarrow> AListJoin (mp hp) sp sep
      | AListSplit hp sp sep \<Rightarrow> AListSplit (mp hp) sp sep
      | AQuantity hp sp \<Rightarrow> AQuantity (mp hp) sp
      | ADuration hp sp \<Rightarrow> ADuration (mp hp) sp
      | AMapKeyRename hp sp rn \<Rightarrow> AMapKeyRename (mp hp) sp rn
      | _ \<Rightarrow> p)"

text \<open>Assigning to the pointer of a strategy keeps the other pointers.\<close>

definition setApiParam :: "conversionRule \<Rightarrow> apiParams \<Rightarrow> conversionRule" where
  "setApiParam r q =
     ConversionRule (crStrategy r) (map (\<lambda>a. if apiSlot a = apiSlot q then q else a) (crParams r))
       (crAcknowledgeLossy r) (crReason r) (crWhen r)"

definition RewriteHubPaths :: "conversionRule \<Rightarrow> HubPathMap \<Rightarrow> gerr + conversionRule" where
  "RewriteHubPaths r m =
     (let st = crStrategy r in
      if st = ''FromAnnotation'' \<or> st = ''FromLabel'' then Inr r
      else if st = ''JSONPatch'' then Inl (MStr ''JSONPatch hub-path rewrite is not supported; rewrite remaining-spoke JSONPatch rules by hand'')
      else if st = ''CEL'' then Inl (MStr ''cel hub-path rewrite is not supported; rewrite remaining-spoke CEL rules by hand'')
      else if st \<notin> set apiStrategies - {''BranchMap''} then Inl (unsupportedStrategy st)
      else case apiParam r of
        None \<Rightarrow> Inl (missingParams st)
      | Some p \<Rightarrow> Inr (setApiParam r (rewriteParams m p)))"

definition spokePathsOf :: "conversionRule \<Rightarrow> string list" where
  "spokePathsOf r =
     (case apiParam r of
        None \<Rightarrow> []
      | Some p \<Rightarrow>
          (case p of
             AFieldRename hp sp \<Rightarrow> [sp]
           | AFromAnnotation sp k ser b \<Rightarrow> [sp]
           | AFromLabel sp k ser b \<Rightarrow> [sp]
           | AScalarToObject hp sp k d \<Rightarrow> [sp]
           | AObjectToScalar hp sp k d \<Rightarrow> [sp]
           | ASingletonArrayToObject hp sp \<Rightarrow> [sp]
           | AObjectToSingletonArray hp sp \<Rightarrow> [sp]
           | AFieldsToMap hps sp kn pol \<Rightarrow> [sp]
           | AMapToFields hp sps kn pol \<Rightarrow> sps
           | AScalarToFields hp pt fs t b \<Rightarrow> map snd fs
           | AFieldsToScalar fs pt sp t b \<Rightarrow> [sp]
           | AArrayToMapByKey hp sp k \<Rightarrow> [sp]
           | AMapToArrayByKey hp sp k \<Rightarrow> [sp]
           | ANumericScale hp sp f \<Rightarrow> [sp]
           | AListJoin hp sp sep \<Rightarrow> [sp]
           | AListSplit hp sp sep \<Rightarrow> [sp]
           | AQuantity hp sp \<Rightarrow> [sp]
           | ADuration hp sp \<Rightarrow> [sp]
           | AMapKeyRename hp sp rn \<Rightarrow> [sp]
           | ACEL hps sps e1 e2 \<Rightarrow> sps
           | ATypeCoerce q pol \<Rightarrow> [q]
           | AEnumRemap q ms oh os \<Rightarrow> [q]
           | ADefaultValue q sd v \<Rightarrow> (if sd = SideSpoke then [q] else [])
           | AConstant q sd v \<Rightarrow> (if sd = SideSpoke then [q] else [])
           | ADelete q sd \<Rightarrow> (if sd = SideSpoke then [q] else [])
           | AForEach hp sp rs \<Rightarrow> [sp]
           | _ \<Rightarrow> []))"

definition liftedRename :: "string \<Rightarrow> string \<Rightarrow> conversionRule" where
  "liftedRename newHub oldHub = ConversionRule ''FieldRename'' [AFieldRename newHub oldHub] False [] None"

definition liftStep :: "HubPathMap \<Rightarrow> string set \<Rightarrow> string \<Rightarrow> conversionRule list \<times> string set \<Rightarrow> conversionRule list \<times> string set" where
  "liftStep pathMap spokeLeafPaths oldHub s =
     (let newHub = (case map_of pathMap oldHub of Some n \<Rightarrow> n | None \<Rightarrow> []) in
      if oldHub = newHub then s
      else if oldHub \<notin> spokeLeafPaths then s
      else if oldHub \<in> snd s then s
      else (fst s @ [liftedRename newHub oldHub], insert oldHub (snd s)))"

definition ComposeSpokeRules :: "conversionRule list \<Rightarrow> HubPathMap \<Rightarrow> string set \<Rightarrow> gerr + conversionRule list" where
  "ComposeSpokeRules rules pathMap spokeLeafPaths =
     bindR (mapR (\<lambda>ir. case RewriteHubPaths (snd ir) pathMap of
                     Inl e \<Rightarrow> Inl (Fmt ''rules[%d]: %w'' [MInt (int (fst ir)), e])
                   | Inr rw \<Rightarrow> Inr rw) (List.enumerate 0 rules))
       (\<lambda>out. Inr (fst (fold (liftStep pathMap spokeLeafPaths) (sort (map fst pathMap))
          (out, set (concat (map spokePathsOf out))))))"

subsection \<open>Promotion\<close>

definition scanSpoke ::
    "string \<Rightarrow> string \<Rightarrow> SpokeVersionRules \<Rightarrow> SpokeVersionRules option \<times> SpokeVersionRules list
     \<Rightarrow> gerr + (SpokeVersionRules option \<times> SpokeVersionRules list)" where
  "scanSpoke oldHub newHub s acc =
     (if svVersion s = newHub then Inr (Some s, snd acc)
      else if svVersion s = oldHub
      then Inl (Fmt ''spoke %q equals the current hub %q; spokes must not include the hub'' [MStr (svVersion s), MStr oldHub])
      else Inr (fst acc, snd acc @ [s]))"

definition composeOther ::
    "string \<Rightarrow> HubPathMap \<Rightarrow> (string \<Rightarrow> string set option) \<Rightarrow> SpokeVersionRules \<Rightarrow> gerr + SpokeVersionRules" where
  "composeOther newHub pathMap spokeLeaves s =
     (let leaves = (case spokeLeaves (svVersion s) of Some l \<Rightarrow> l | None \<Rightarrow> {}) in
      case ComposeSpokeRules (svRules s) pathMap leaves of
        Inl e \<Rightarrow> Inl (Fmt ''composing spoke %q for new hub %q: %w'' [MStr (svVersion s), MStr newHub, e])
      | Inr composed \<Rightarrow> Inr \<lparr>svVersion = svVersion s, svRules = composed\<rparr>)"

definition RehubSpokes ::
    "string \<Rightarrow> string \<Rightarrow> SpokeVersionRules list \<Rightarrow> (string \<Rightarrow> string set option) \<Rightarrow> gerr + (string \<times> SpokeVersionRules list)" where
  "RehubSpokes oldHub newHub spokes spokeLeaves =
     (if newHub = [] then Inl (MStr ''--to is required: name the version that becomes the new hub'')
      else if newHub = oldHub then Inl (Fmt ''--to %q is already the hub'' [MStr newHub])
      else bindR (foldR (scanSpoke oldHub newHub) spokes (None, [])) (\<lambda>(promote, others).
        case promote of
          None \<Rightarrow> Inl (Fmt ''--to %q is not a current spoke (add it as a spoke before promoting)'' [MStr newHub])
        | Some pr \<Rightarrow>
            (case InvertRules (svRules pr) of
               Inl e \<Rightarrow> Inl (Fmt ''inverting spoke %q: %w'' [MStr newHub, e])
             | Inr inverted \<Rightarrow>
                 (case PathMapFromPromoteRules (svRules pr) of
                    Inl e \<Rightarrow> Inl (Fmt ''building hub path map from spoke %q: %w'' [MStr newHub, e])
                  | Inr pathMap \<Rightarrow>
                      bindR (mapR (composeOther newHub pathMap spokeLeaves) others)
                        (\<lambda>composed. Inr (newHub, \<lparr>svVersion = oldHub, svRules = inverted\<rparr> # composed))))))"

subsection \<open>Inverting twice\<close>

text \<open>
  What has to hold of the set params for the inverse to lose nothing: key names only for the listed
  fields, sides that are hub or spoke, renames that are injective, label serialization spelled out.
\<close>

definition knownSide :: "Side \<Rightarrow> bool" where
  "knownSide sd = (sd = SideHub \<or> sd = SideSpoke)"

definition exactParams :: "apiParams \<Rightarrow> bool" where
  "exactParams p =
     (case p of
        AFieldsToMap hps sp kn pol \<Rightarrow> invertKeyNames hps kn = kn
      | AMapToFields hp sps kn pol \<Rightarrow> invertKeyNames sps kn = kn
      | AToLabel hp k ser b \<Rightarrow> ser \<noteq> []
      | AFromLabel sp k ser b \<Rightarrow> ser \<noteq> [] \<and> ser \<noteq> ''JSON''
      | ADefaultValue q sd v \<Rightarrow> knownSide sd
      | AConstant q sd v \<Rightarrow> knownSide sd
      | ADelete q sd \<Rightarrow> knownSide sd
      | AMapKeyRename hp sp rn \<Rightarrow> distinct (map fst rn) \<and> distinct (map snd rn)
      | _ \<Rightarrow> True)"

function canonicalRule :: "conversionRule \<Rightarrow> bool" where
  "canonicalRule r =
     (case apiParam r of
        None \<Rightarrow> False
      | Some p \<Rightarrow> crParams r = [p] \<and> exactParams p \<and> (\<forall>rs\<in>set (apiNested p). \<forall>r'\<in>set rs. canonicalRule r'))"
  by pat_completeness auto
termination
  by (relation "measure size") (auto intro: size_nested_rule)

declare canonicalRule.simps [simp del]

lemma invertRenameMap_swap:
  assumes "distinct (map snd rn)"
  shows "invertRenameMap rn = map (\<lambda>hs. (snd hs, fst hs)) rn"
proof -
  have "fold (\<lambda>hs out. AList.update (snd hs) (fst hs) out) rn acc = acc @ map (\<lambda>hs. (snd hs, fst hs)) rn"
    if "distinct (map snd rn)" and "set (map snd rn) \<inter> fst ` set acc = {}" for acc
    using that
  proof (induction rn arbitrary: acc)
    case (Cons hs rn)
    have "AList.update (snd hs) (fst hs) acc = acc @ [(snd hs, fst hs)]"
      using Cons.prems(2) by (intro update_fresh) auto
    then show ?case using Cons.prems Cons.IH[of "acc @ [(snd hs, fst hs)]"] by auto
  qed simp
  from this[of "[]"] assms show ?thesis by (simp add: invertRenameMap_def)
qed

lemma invertRenameMap_twice:
  assumes "distinct (map fst rn)" and "distinct (map snd rn)"
  shows "invertRenameMap (invertRenameMap rn) = rn"
proof -
  have "distinct (map snd (map (\<lambda>hs. (snd hs, fst hs)) rn))" using assms(1) by (simp add: comp_def)
  then show ?thesis using assms(2) by (simp add: invertRenameMap_swap comp_def)
qed

lemma mapR_enumerate_back:
  assumes "mapR (\<lambda>ir. case f (snd ir) of Inl e \<Rightarrow> Inl (w (fst ir) e) | Inr r' \<Rightarrow> Inr r') (List.enumerate n rs) = Inr rs'"
    and "\<And>r r'. r \<in> set rs \<Longrightarrow> f r = Inr r' \<Longrightarrow> f r' = Inr r"
  shows "mapR (\<lambda>ir. case f (snd ir) of Inl e \<Rightarrow> Inl (w (fst ir) e) | Inr r' \<Rightarrow> Inr r') (List.enumerate n rs') = Inr rs"
  using assms
proof (induction rs arbitrary: n rs')
  case (Cons r rs)
  then obtain r' rs'' where "f r = Inr r'" and rs': "rs' = r' # rs''"
    and tl: "mapR (\<lambda>ir. case f (snd ir) of Inl e \<Rightarrow> Inl (w (fst ir) e) | Inr r' \<Rightarrow> Inr r') (List.enumerate (Suc n) rs) = Inr rs''"
    by (auto simp: bindR_Inr_iff split: sum.splits)
  then have "f r' = Inr r" using Cons.prems(2)[of r r'] by simp
  then show ?case
    using Cons.IH[OF tl] Cons.prems(2) unfolding rs' by simp
qed simp

lemma flipSide_twice: "knownSide sd \<Longrightarrow> flipSide (flipSide sd) = sd"
  by (auto simp: flipSide_def knownSide_def)

lemma mapping_eta: "\<lparr>aevHub = aevHub m, aevSpoke = aevSpoke m\<rparr> = (m :: apiEnumValueMapping)"
  by (cases m) simp

lemma invertParams_back:
  assumes "exactParams p" and "invertParams f p = Inr q"
    and "\<And>rs r r'. rs \<in> set (apiNested p) \<Longrightarrow> r \<in> set rs \<Longrightarrow> f r = Inr r' \<Longrightarrow> f r' = Inr r"
  shows "invertParams f q = Inr p" and "apiSlot q \<in> set apiStrategies - {''BranchMap''}"
proof -
  show "invertParams f q = Inr p"
  proof (cases "\<exists>hp sp rs. p = AForEach hp sp rs")
    case True
    then obtain hp sp rs where p: "p = AForEach hp sp rs" by blast
    obtain rs' where q: "q = AForEach sp hp rs'"
      and m: "mapR (\<lambda>ir. case f (snd ir) of Inl e \<Rightarrow> Inl (Fmt ''ForEach rules[%d]: %w'' [MInt (int (fst ir)), e]) | Inr r' \<Rightarrow> Inr r')
        (List.enumerate 0 rs) = Inr rs'"
      using assms(2) by (auto simp: p bindR_Inr_iff)
    have "rs \<in> set (apiNested p)" by (simp add: p apiNested_def)
    from mapR_enumerate_back[OF m assms(3)[OF this]] show ?thesis by (simp add: p q)
  next
    case False
    then show ?thesis using assms(1,2)
      by (cases p) (auto simp: exactParams_def invertRenameMap_twice flipSide_twice comp_def mapping_eta split: if_splits)
  qed
  show "apiSlot q \<in> set apiStrategies - {''BranchMap''}" using assms(2)
    by (cases p) (auto simp: apiStrategies_def bindR_Inr_iff split: if_splits)
qed

lemma InvertRule_back:
  assumes "canonicalRule r" and "InvertRule r = Inr r'"
  shows "InvertRule r' = Inr r"
  using assms
proof (induction r arbitrary: r' rule: InvertRule.induct)
  case (1 r)
  obtain p where p: "apiParam r = Some p" "crParams r = [p]" "exactParams p"
    and nested: "\<And>rs r'. rs \<in> set (apiNested p) \<Longrightarrow> r' \<in> set rs \<Longrightarrow> canonicalRule r'"
    using "1.prems"(1) by (subst (asm) canonicalRule.simps) (auto split: option.splits)
  have st: "crStrategy r \<in> set apiStrategies - {''BranchMap''}"
    using "1.prems"(2) by (subst (asm) InvertRule.simps) (auto split: if_splits)
  obtain q where q: "invertParams InvertRule p = Inr q"
    and r': "r' = ConversionRule (apiSlot q) [q] (crAcknowledgeLossy r) (crReason r) (crWhen r)"
    using "1.prems"(2) st p(1) by (subst (asm) InvertRule.simps) (auto simp: bindR_Inr_iff split: if_splits)
  have ret: "invertParams InvertRule q = Inr p" "apiSlot q \<in> set apiStrategies - {''BranchMap''}"
    using invertParams_back[OF p(3) q] "1.IH"[OF _ p(1)] st nested by blast+
  have "apiParam r' = Some q" by (simp add: r' apiParam_def)
  then have "InvertRule r' = Inr (ConversionRule (apiSlot p) [p] (crAcknowledgeLossy r) (crReason r) (crWhen r))"
    using ret by (subst InvertRule.simps) (simp add: r')
  also have "ConversionRule (apiSlot p) [p] (crAcknowledgeLossy r) (crReason r) (crWhen r) = r"
    using p(2) apiParam_slot[OF p(1)] by (cases r) simp
  finally show ?case .
qed

lemma InvertRules_back:
  assumes "list_all canonicalRule rules" and "InvertRules rules = Inr rules'"
  shows "InvertRules rules' = Inr rules"
  using mapR_enumerate_back[OF assms(2)[unfolded InvertRules_def]] assms(1) InvertRule_back
  by (auto simp: InvertRules_def list_all_iff)

subsection \<open>The result of a promotion\<close>

lemma scanSpokes_Inr:
  assumes "foldR (scanSpoke oldHub newHub) spokes acc = Inr (pr, others)"
  shows "others = snd acc @ filter (\<lambda>s. svVersion s \<noteq> newHub) spokes"
    and "newHub \<noteq> oldHub \<Longrightarrow> \<forall>s\<in>set spokes. svVersion s \<noteq> oldHub"
    and "pr = fst acc \<or> (\<exists>s\<in>set spokes. pr = Some s \<and> svVersion s = newHub)"
proof -
  have "others = snd acc @ filter (\<lambda>s. svVersion s \<noteq> newHub) spokes
    \<and> (newHub \<noteq> oldHub \<longrightarrow> (\<forall>s\<in>set spokes. svVersion s \<noteq> oldHub))
    \<and> (pr = fst acc \<or> (\<exists>s\<in>set spokes. pr = Some s \<and> svVersion s = newHub))"
    using assms
  proof (induction spokes arbitrary: acc)
    case (Cons s spokes)
    then obtain acc' where step: "scanSpoke oldHub newHub s acc = Inr acc'"
      and "foldR (scanSpoke oldHub newHub) spokes acc' = Inr (pr, others)"
      by (auto simp: bindR_Inr_iff)
    from Cons.IH[OF this(2)] step show ?case
      by (cases acc') (auto simp: scanSpoke_def split: if_splits)
  qed auto
  then show "others = snd acc @ filter (\<lambda>s. svVersion s \<noteq> newHub) spokes"
    and "newHub \<noteq> oldHub \<Longrightarrow> \<forall>s\<in>set spokes. svVersion s \<noteq> oldHub"
    and "pr = fst acc \<or> (\<exists>s\<in>set spokes. pr = Some s \<and> svVersion s = newHub)" by blast+
qed

lemma composeOther_version: "composeOther newHub m lv s = Inr s' \<Longrightarrow> svVersion s' = svVersion s"
  by (auto simp: composeOther_def Let_def split: sum.splits)

lemma RehubSpokes_Inr:
  assumes "RehubSpokes oldHub newHub spokes lv = Inr (h, out)"
  obtains pr inverted rest where "h = newHub" and "newHub \<noteq> oldHub" and "pr \<in> set spokes" and "svVersion pr = newHub"
    and "InvertRules (svRules pr) = Inr inverted" and "out = \<lparr>svVersion = oldHub, svRules = inverted\<rparr> # rest"
    and "map svVersion rest = filter (\<lambda>v. v \<noteq> newHub) (map svVersion spokes)"
    and "oldHub \<notin> set (map svVersion spokes)"
proof -
  obtain promote others where ne: "newHub \<noteq> oldHub"
    and scan: "foldR (scanSpoke oldHub newHub) spokes (None, []) = Inr (promote, others)"
    using assms by (auto simp: RehubSpokes_def bindR_Inr_iff split: if_splits)
  then obtain pr inverted m rest where pr: "promote = Some pr" and i: "InvertRules (svRules pr) = Inr inverted"
    and c: "mapR (composeOther newHub m lv) others = Inr rest"
    and out: "h = newHub" "out = \<lparr>svVersion = oldHub, svRules = inverted\<rparr> # rest"
    using assms by (auto simp: RehubSpokes_def bindR_Inr_iff split: if_splits option.splits sum.splits)
  have "list_all2 (\<lambda>a b. composeOther newHub m lv a = Inr b) others rest" using c by (simp add: mapR_Inr_iff)
  then have "map svVersion rest = map svVersion others"
    by (induction rule: list_all2_induct) (auto dest: composeOther_version)
  then have "map svVersion rest = filter (\<lambda>v. v \<noteq> newHub) (map svVersion spokes)"
    using scanSpokes_Inr(1)[OF scan] by (simp add: filter_map comp_def)
  then show ?thesis
    using that[of pr inverted rest] ne out i pr scanSpokes_Inr(2,3)[OF scan] by force
qed

text \<open>Which renames composing a spoke adds.\<close>

definition lifts :: "HubPathMap \<Rightarrow> string set \<Rightarrow> string set \<Rightarrow> string \<Rightarrow> bool" where
  "lifts pathMap leaves claimed q =
     (q \<in> leaves \<and> q \<notin> claimed \<and> (case map_of pathMap q of Some n \<Rightarrow> q \<noteq> n | None \<Rightarrow> False))"

lemma liftStep_fold:
  assumes "set ks \<subseteq> set (map fst pathMap)" and "distinct ks"
  shows "fst (fold (liftStep pathMap leaves) ks (out, claimed)) =
    out @ map (\<lambda>q. liftedRename (the (map_of pathMap q)) q) (filter (lifts pathMap leaves claimed) ks)"
  using assms
proof (induction ks arbitrary: out claimed)
  case (Cons k ks)
  have "map_of pathMap k \<noteq> None" using Cons.prems(1) by (simp add: map_of_eq_None_iff)
  then obtain n where n: "map_of pathMap k = Some n" by blast
  have other: "filter (lifts pathMap leaves (insert k claimed)) ks = filter (lifts pathMap leaves claimed) ks"
    using Cons.prems(2) by (auto simp: lifts_def intro!: filter_cong)
  show ?case
  proof (cases "lifts pathMap leaves claimed k")
    case True
    then have "liftStep pathMap leaves k (out, claimed) = (out @ [liftedRename n k], insert k claimed)"
      using n by (simp add: liftStep_def lifts_def)
    then show ?thesis using True Cons n other by simp
  next
    case False
    then have "liftStep pathMap leaves k (out, claimed) = (out, claimed)"
      using n by (auto simp: liftStep_def lifts_def)
    then show ?thesis using False Cons by simp
  qed
qed simp

lemma ComposeSpokeRules_Inr:
  assumes "ComposeSpokeRules rules pathMap leaves = Inr out" and "distinct (map fst pathMap)"
  obtains rewritten where "list_all2 (\<lambda>r rw. RewriteHubPaths r pathMap = Inr rw) rules rewritten"
    and "out = rewritten @ map (\<lambda>q. liftedRename (the (map_of pathMap q)) q)
      (filter (lifts pathMap leaves (set (concat (map spokePathsOf rewritten)))) (sort (map fst pathMap)))"
proof -
  have drop_index: "list_all2 (\<lambda>r rw. RewriteHubPaths r pathMap = Inr rw) rs ws"
    if "mapR (\<lambda>ir. case RewriteHubPaths (snd ir) pathMap of
                     Inl e \<Rightarrow> Inl (Fmt ''rules[%d]: %w'' [MInt (int (fst ir)), e])
                   | Inr rw \<Rightarrow> Inr rw) (List.enumerate n rs) = Inr ws" for n rs ws
    using that
    by (induction rs arbitrary: n ws) (auto simp: bindR_Inr_iff split: sum.splits)
  obtain rewritten where rw: "mapR (\<lambda>ir. case RewriteHubPaths (snd ir) pathMap of
                     Inl e \<Rightarrow> Inl (Fmt ''rules[%d]: %w'' [MInt (int (fst ir)), e])
                   | Inr rw \<Rightarrow> Inr rw) (List.enumerate 0 rules) = Inr rewritten"
    and out: "out = fst (fold (liftStep pathMap leaves) (sort (map fst pathMap))
          (rewritten, set (concat (map spokePathsOf rewritten))))"
    using assms(1) by (auto simp: ComposeSpokeRules_def bindR_Inr_iff)
  show ?thesis
    by (rule that[OF drop_index[OF rw]])
       (use assms(2) liftStep_fold[of "sort (map fst pathMap)" pathMap leaves rewritten] in \<open>simp add: out\<close>)
qed

lemma map_le_Some: "m \<subseteq>\<^sub>m m' \<Longrightarrow> m k = Some v \<Longrightarrow> m' k = Some v"
  by (force simp: map_le_def dom_def)

lemma addPathPair_Inr:
  assumes "addPathPair pr m = Inr m'"
  shows "m' = AList.update (fst pr) (snd pr) m" and "map_of m (fst pr) = None \<or> map_of m (fst pr) = Some (snd pr)"
  using assms by (auto simp: addPathPair_def split: option.splits if_splits)

lemma addPathPairs:
  assumes "foldR addPathPair prs m = Inr m'" and "distinct (map fst m)"
  shows "distinct (map fst m') \<and> map_of m \<subseteq>\<^sub>m map_of m' \<and> (\<forall>pr\<in>set prs. map_of m' (fst pr) = Some (snd pr))"
  using assms
proof (induction prs arbitrary: m)
  case (Cons pr prs)
  then obtain m1 where step: "addPathPair pr m = Inr m1" and rest: "foldR addPathPair prs m1 = Inr m'"
    by (auto simp: bindR_Inr_iff)
  note m1 = addPathPair_Inr[OF step]
  have "distinct (map fst m1)" using Cons.prems(2) by (simp add: m1(1))
  from Cons.IH[OF rest this] have ih: "distinct (map fst m')" "map_of m1 \<subseteq>\<^sub>m map_of m'"
    "\<forall>pr\<in>set prs. map_of m' (fst pr) = Some (snd pr)" by blast+
  have "map_of m1 (fst pr) = Some (snd pr)" by (simp add: m1(1))
  then have "map_of m' (fst pr) = Some (snd pr)" by (rule map_le_Some[OF ih(2)])
  moreover have "map_of m \<subseteq>\<^sub>m map_of m1" using m1 by (auto simp: map_le_def dom_def)
  ultimately show ?case using ih map_le_trans by auto
qed simp

lemma PathMapFromPromoteRules_Inr:
  assumes "PathMapFromPromoteRules rules = Inr m"
  shows "distinct (map fst m)"
    and "r \<in> set rules \<Longrightarrow> hubSpokePathPairs r = Inr prs \<Longrightarrow> pr \<in> set prs \<Longrightarrow> map_of m (fst pr) = Some (snd pr)"
proof -
  let ?step = "\<lambda>ir m. case hubSpokePathPairs (snd ir) of
               Inl e \<Rightarrow> Inl (Fmt ''rules[%d]: %w'' [MInt (int (fst ir)), e])
             | Inr pairs \<Rightarrow> foldR addPathPair pairs m"
  have fold: "distinct (map fst m') \<and> map_of m0 \<subseteq>\<^sub>m map_of m' \<and>
      (\<forall>r\<in>set rs. \<forall>prs. hubSpokePathPairs r = Inr prs \<longrightarrow> (\<forall>pr\<in>set prs. map_of m' (fst pr) = Some (snd pr)))"
    if "foldR ?step (List.enumerate n rs) m0 = Inr m'" and "distinct (map fst m0)" for n rs m0 m'
    using that
  proof (induction rs arbitrary: n m0)
    case (Cons r rs)
    then obtain prs m1 where prs: "hubSpokePathPairs r = Inr prs" and step: "foldR addPathPair prs m0 = Inr m1"
      and rest: "foldR ?step (List.enumerate (Suc n) rs) m1 = Inr m'"
      by (auto simp: bindR_Inr_iff split: sum.splits)
    note a = addPathPairs[OF step Cons.prems(2)]
    note b = Cons.IH[OF rest conjunct1[OF a]]
    then have le: "map_of m1 \<subseteq>\<^sub>m map_of m'" by blast
    have kept: "map_of m' (fst pr) = Some (snd pr)" if "pr \<in> set prs" for pr
      by (rule map_le_Some[OF le]) (use a that in blast)
    have "map_of m0 \<subseteq>\<^sub>m map_of m'" by (rule map_le_trans[OF _ le]) (use a in blast)
    moreover have "map_of m' (fst pr) = Some (snd pr)"
      if "r' \<in> set (r # rs)" and "hubSpokePathPairs r' = Inr prs'" and "pr \<in> set prs'" for r' prs' pr
      using that b prs kept by (cases "r' = r") (simp, fastforce)
    ultimately show ?case using b by blast
  qed simp
  from fold[OF assms[unfolded PathMapFromPromoteRules_def]]
  show "distinct (map fst m)" and "r \<in> set rules \<Longrightarrow> hubSpokePathPairs r = Inr prs \<Longrightarrow> pr \<in> set prs \<Longrightarrow> map_of m (fst pr) = Some (snd pr)"
    by auto
qed

subsection \<open>The operations of an inverse\<close>

text \<open>
  Params whose inverse compiles to the same operations with the directions exchanged. A metadata
  stash has to be restored on the way back, and the factor of a \<open>NumericScale\<close> is copied by
  \<open>InvertRule\<close> although hub and spoke have exchanged places, so that rule is not among them.
\<close>

definition mirrorable :: "apiParams \<Rightarrow> bool" where
  "mirrorable p =
     (exactParams p \<and>
      (case p of
         AToAnnotation hp k ser b \<Rightarrow> b
       | AToLabel hp k ser b \<Rightarrow> b
       | AFromAnnotation sp k ser b \<Rightarrow> b
       | AFromLabel sp k ser b \<Rightarrow> b
       | AMapKeyRename hp sp rn \<Rightarrow> rn \<noteq> [] \<and> (\<forall>hs\<in>set rn. fst hs \<noteq> [] \<and> snd hs \<noteq> [])
       | ANumericScale hp sp factor \<Rightarrow> False
       | AForEach hp sp rs \<Rightarrow> False
       | _ \<Rightarrow> True))"

definition exchanged :: "resolved \<Rightarrow> resolved \<Rightarrow> bool" where
  "exchanged a b = (rH2s a = rS2h b \<and> rS2h a = rH2s b)"

lemma convertEnumMappings_swap:
  assumes "mapR (convertEnumMapping lib) ms = Inr ms'"
  shows "mapR (convertEnumMapping lib) (map (\<lambda>m. \<lparr>aevHub = aevSpoke m, aevSpoke = aevHub m\<rparr>) ms)
    = Inr (map (\<lambda>m. \<lparr>evHub = evSpoke m, evSpoke = evHub m\<rparr>) ms')"
  using assms
proof (induction ms arbitrary: ms')
  case (Cons m ms)
  then show ?case by (auto simp: bindR_Inr_iff convertEnumMapping_def split: sum.splits)
qed simp

lemma enumTable_swap:
  "enumTable lib evHub evSpoke (map (\<lambda>m. \<lparr>evHub = evSpoke m, evSpoke = evHub m\<rparr>) ms) = enumTable lib evSpoke evHub ms"
  "enumTable lib evSpoke evHub (map (\<lambda>m. \<lparr>evHub = evSpoke m, evSpoke = evHub m\<rparr>) ms) = enumTable lib evHub evSpoke ms"
  by (simp_all add: enumTable_def fold_map comp_def)

lemma invertLoop_swap:
  assumes "\<forall>hs\<in>set rn. fst hs \<noteq> [] \<and> snd hs \<noteq> []" and "distinct (map snd rn)" and "set (map snd rn) \<inter> fst ` set acc = {}"
  shows "invertLoop idx name rn acc = (acc @ map (\<lambda>hs. (snd hs, fst hs)) rn, [])"
  using assms
proof (induction rn arbitrary: acc)
  case (Cons hs rn)
  obtain h s where hs: "hs = (h, s)" by (cases hs)
  have "map_of acc s = None" using Cons.prems(3) by (auto simp: hs map_of_eq_None_iff)
  moreover have "AList.update s h acc = acc @ [(s, h)]" using Cons.prems(3) by (intro update_fresh) (auto simp: hs)
  ultimately show ?case using Cons.prems Cons.IH[of "acc @ [(s, h)]"] by (simp add: hs)
qed simp

lemma invertRenames_swap:
  assumes "rn \<noteq> []" and "\<forall>hs\<in>set rn. fst hs \<noteq> [] \<and> snd hs \<noteq> []" and "distinct (map snd rn)"
  shows "invertRenames idx name rn = (map (\<lambda>hs. (snd hs, fst hs)) rn, [])"
  using assms invertLoop_swap[of rn "[]"] by (simp add: invertRenames_def)

lemma resolveMapKeyRename_swap:
  assumes "mirrorable (AMapKeyRename hp sp rn)"
  shows "exchanged (resolveMapKeyRename idx b a (invertRenameMap rn) spoke hub) (resolveMapKeyRename idx a b rn hub spoke)"
proof -
  have rn: "rn \<noteq> []" "\<forall>hs\<in>set rn. fst hs \<noteq> [] \<and> snd hs \<noteq> []" "distinct (map snd rn)" "distinct (map fst rn)"
    using assms by (simp_all add: mirrorable_def exactParams_def)
  have "invertRenames idx name (map (\<lambda>hs. (snd hs, fst hs)) rn) = (rn, [])" for name
    using invertRenames_swap[of "map (\<lambda>hs. (snd hs, fst hs)) rn"] rn by (simp add: comp_def)
  then show ?thesis using invertRenames_swap[OF rn(1-3)] invertRenameMap_swap[OF rn(3)]
    by (simp add: exchanged_def resolveMapKeyRename_def)
qed

lemma resolveEnumRemap_swap:
  "exchanged (resolveEnumRemap lib idx q (map (\<lambda>m. \<lparr>evHub = evSpoke m, evSpoke = evHub m\<rparr>) ms) os oh spoke hub)
     (resolveEnumRemap lib idx q ms oh os hub spoke)"
  by (simp add: exchanged_def resolveEnumRemap_def Let_def enumTable_swap)

lemmas resolver_defs = resolveFieldRename_def resolveScalarToObject_def resolveObjectToScalar_def
  resolveSingletonArrayToObject_def resolveFieldsToMap_def resolveMapToFields_def resolveToMetadata_def
  resolveFromMetadata_def resolveDefaultValue_def resolveConstant_def resolveDelete_def
  resolveTypeCoerce_def resolveScalarToFields_def resolveFieldsToScalar_def resolveArrayToMapByKey_def
  resolveMapToArrayByKey_def resolveListJoin_def resolveListSplit_def resolveQuantity_def resolveDuration_def
  resolveStringIntegerPair_def resolveCEL_def

lemma compileSplitJoin_side:
  "sjPattern (compileSplitJoin lib idx st pt t fs s sd l) = (if isRight (lib_RegexpCompile lib pt) then Some pt else None)"
  "sjTemplate (compileSplitJoin lib idx st pt t fs s sd l) = (if isRight (lib_TemplateParse lib t) then Some t else None)"
  "sjKinds (compileSplitJoin lib idx st pt t fs s sd l) =
     map (\<lambda>(n, path). (n, nodeKind (lookupPath s path))) (filter (\<lambda>(n, path). isRight (lookupPath s path)) fs)"
  by (simp_all add: compileSplitJoin_def Let_def)

lemma resolve_exchanged:
  assumes "invertParams f p = Inr q" and "mirrorable p" and "convertSetParams lib nested p = Inr e"
  obtains e' where "convertSetParams lib nested q = Inr e'"
    and "exchanged (resolveRule lib c idx (Rule (apiSlot q) e' ak re si wh) spoke hub policy depth)
           (resolveRule lib c idx (Rule (apiSlot p) e ak re si wh) hub spoke policy depth)"
proof (cases p)
  case (AEnumRemap x ms oh os)
  then obtain ms' where "mapR (convertEnumMapping lib) ms = Inr ms'"
    "e = EnumRemapParams (ParsePath x) ms' (orDefault oh UnknownKeyError) (orDefault os UnknownKeyError)"
    using assms(3) by (auto simp: bindR_Inr_iff)
  then show ?thesis using that AEnumRemap assms(1) convertEnumMappings_swap resolveEnumRemap_swap
    by (auto simp: resolveRule_def)
next
  case (AMapKeyRename hp sp rn)
  then show ?thesis using that assms resolveMapKeyRename_swap by (auto simp: resolveRule_def)
next
  case (AJSONPatch h2s s2h b)
  then show ?thesis using that assms
    by (auto simp: bindR_Inr_iff resolveRule_def exchanged_def resolveJSONPatch_def split: prod.splits)
qed (use that assms in \<open>auto simp: bindR_Inr_iff resolveRule_def exchanged_def resolver_defs Let_def mirrorable_def exactParams_def
    flipSide_def orDefault_def rekeyByPath_def compileSplitJoin_side knownSide_def split: if_splits\<close>)

lemma InvertRule_Inr:
  assumes "InvertRule r = Inr r'" and "apiParam r = Some p"
  obtains q where "invertParams InvertRule p = Inr q" and "crStrategy r \<in> set apiStrategies"
    and "r' = ConversionRule (apiSlot q) [q] (crAcknowledgeLossy r) (crReason r) (crWhen r)"
  using assms by (subst (asm) InvertRule.simps) (auto simp: bindR_Inr_iff split: if_splits)

lemma inverse_exchanged:
  assumes "InvertRule r = Inr r'" and p: "apiParam r = Some p" and "mirrorable p"
    and conv: "convertRule lib nested (i, r) = Inr e"
  shows "\<exists>e'. convertRule lib nested (i, r') = Inr e'
    \<and> exchanged (resolveRule lib c idx e' spoke hub policy depth) (resolveRule lib c idx e hub spoke policy depth)"
proof -
  obtain q where q: "invertParams InvertRule p = Inr q" and st: "crStrategy r \<in> set apiStrategies"
    and r': "r' = ConversionRule (apiSlot q) [q] (crAcknowledgeLossy r) (crReason r) (crWhen r)"
    using InvertRule_Inr[OF assms(1) p] .
  obtain ps wh where ps: "convertSetParams lib nested p = Inr ps" and wh: "convertWhen lib (crWhen r) = Inr wh"
    and e: "e = Rule (crStrategy r) ps (crAcknowledgeLossy r) (crReason r) (int i) wh"
    using conv p st by (auto simp: convertRule_def convertParams_def Let_def split: sum.splits)
  obtain qs where qs: "convertSetParams lib nested q = Inr qs"
    and x: "exchanged (resolveRule lib c idx (Rule (apiSlot q) qs (crAcknowledgeLossy r) (crReason r) (int i) wh) spoke hub policy depth)
      (resolveRule lib c idx (Rule (apiSlot p) ps (crAcknowledgeLossy r) (crReason r) (int i) wh) hub spoke policy depth)"
    using resolve_exchanged[OF q assms(3) ps] .
  have "apiSlot q \<in> set apiStrategies" using q
    by (cases p) (auto simp: apiStrategies_def bindR_Inr_iff split: if_splits)
  then have "convertRule lib nested (i, r') = Inr (Rule (apiSlot q) qs (crAcknowledgeLossy r) (crReason r) (int i) wh)"
    using qs wh by (simp add: r' convertRule_def convertParams_def apiParam_def)
  then show ?thesis using x apiParam_slot[OF p] by (simp add: e)
qed

text \<open>
  A \<open>NumericScale\<close> rule and its inverse, compiled for the two roles of the schemas: the rule divides on
  its way from hub to spoke, and its inverse multiplies on the same way.
\<close>

lemma numericScale_compiled:
  assumes "InvertRule r = Inr r'" and "apiParam r = Some (ANumericScale hp sp f)" and "convertRules lib [r] = Inr [e]"
  obtains e' where "convertRules lib [r'] = Inr [e']"
    and "rH2s (resolveRule lib c idx e hub spoke policy depth) = Some (NumericScaleOp (ParsePath hp) (ParsePath sp) f False
           (nodeKind (lookupPath spoke (ParsePath sp)) = FieldKindInteger))"
    and "rS2h (resolveRule lib c idx e' spoke hub policy depth) = Some (NumericScaleOp (ParsePath hp) (ParsePath sp) f True
           (nodeKind (lookupPath spoke (ParsePath sp)) = FieldKindInteger))"
proof -
  obtain q where q: "invertParams InvertRule (ANumericScale hp sp f) = Inr q" and st: "crStrategy r \<in> set apiStrategies"
    and r': "r' = ConversionRule (apiSlot q) [q] (crAcknowledgeLossy r) (crReason r) (crWhen r)"
    using InvertRule_Inr[OF assms(1,2)] .
  obtain wh where wh: "convertWhen lib (crWhen r) = Inr wh"
    and e: "e = Rule ''NumericScale'' (NumericScaleParams (ParsePath hp) (ParsePath sp) f) (crAcknowledgeLossy r) (crReason r) 0 wh"
    using assms(2,3) st apiParam_slot[OF assms(2)]
    by (auto simp: convertRules.simps[of lib "[_]"] bindR_Inr_iff convertRule_def convertParams_def Let_def split: sum.splits)
  have "convertRules lib [r'] = Inr [Rule ''NumericScale'' (NumericScaleParams (ParsePath sp) (ParsePath hp) f) (crAcknowledgeLossy r) (crReason r) 0 wh]"
    using q wh by (auto simp: r' convertRules.simps[of lib "[_]"] convertRule_def convertParams_def apiParam_def apiStrategies_def)
  then show thesis by (rule that) (simp_all add: e resolveRule_def resolveNumericScale_def Let_def)
qed

text \<open>On whole numbers small enough to be exact.\<close>

lemma scale_value:
  assumes "getValue inp src = Some (JFloat x)" and "(if m then mul64 x f else div64 x f) = Fin (of_int i)"
  shows "applyNumericScale src dst f m rnd inp out = setValue out dst (JFloat (Fin (of_int i)))"
  using assms by (simp add: applyNumericScale_def withSource_def AsFloat64_def Let_def)

lemma scale_exact:
  assumes "k \<noteq> 0" and "\<bar>n\<bar> < 2 ^ 53" and "\<bar>n * k * k\<bar> < 2 ^ 53"
  shows "div64 (Fin (of_int (n * k))) (Fin (of_int k)) = Fin (of_int n)"
    and "mul64 (Fin (of_int (n * k))) (Fin (of_int k)) = Fin (of_int (n * k * k))"
proof -
  have "(of_int (n * k) / of_int k :: rat) = of_int n" using assms(1) by simp
  then show "div64 (Fin (of_int (n * k))) (Fin (of_int k)) = Fin (of_int n)"
    using round64_of_int[OF assms(2)] assms(1) by simp
  have "(of_int (n * k) * of_int k :: rat) = of_int (n * k * k)" by simp
  then show "mul64 (Fin (of_int (n * k))) (Fin (of_int k)) = Fin (of_int (n * k * k))"
    using round64_of_int[OF assms(3)] by (simp only: mul64.simps)
qed

end
