(* ===== verification/Admission.thy ===== *)
theory Admission
  imports ApiRules Analyze "HOL-Library.AList"
begin

text \<open>
  Admission of conversion configurations (\<open>internal/webhook/xrdconversionconfig_webhook.go\<close>,
  \<open>crdconversionconfig_webhook.go\<close> and \<open>registry_key.go\<close>). The two kinds of configuration differ in
  their target only. What the validators read from the cluster is the record \<open>clusterView\<close>: the
  existing configurations, whether a webhook server exists, and the schema source of a target,
  which is what the adapter of the target answers. An admission is its warnings and an error.
\<close>

datatype configKind = XRDKind | CRDKind

record conversionConfig =
  ccName :: string
  ccTarget :: string
  ccHubVersion :: string
  ccSpokes :: "SpokeVersionRules list"
  ccUnmappedFieldPolicy :: UnmappedFieldPolicy
  ccUnmappedFieldReason :: string
  ccWebhookServerRef :: "string option"

record schemaSource =
  ssVersions :: "gerr + VersionSchema list"
  ssGeneration :: int
  ssInjected :: "PlatformInjectedPaths option"

record clusterView =
  clXRDConfigs :: "gerr + (string \<times> string) list"
  clCRDConfigs :: "gerr + (string \<times> string) list"
  clServerExists :: "string \<Rightarrow> bool"
  clTarget :: "string \<Rightarrow> schemaSource option"

subsection \<open>Structure of the rules\<close>

text \<open>\<open>strings.TrimSpace(s) == ""\<close>: nothing but Unicode white space, in its UTF-8 encoding.\<close>

fun isBlank :: "string \<Rightarrow> bool" where
  "isBlank [] = True"
| "isBlank (c # cs) =
     (if c \<in> {CHR 0x09, CHR 0x0A, CHR 0x0B, CHR 0x0C, CHR 0x0D, CHR 0x20} then isBlank cs
      else (case cs of
         [] \<Rightarrow> False
       | d # ds \<Rightarrow>
           (if c = CHR 0xC2 \<and> d \<in> {CHR 0x85, CHR 0xA0} then isBlank ds
            else (case ds of
               [] \<Rightarrow> False
             | e # es \<Rightarrow>
                 (if c = CHR 0xE1 \<and> d = CHR 0x9A \<and> e = CHR 0x80
                   \<or> c = CHR 0xE2 \<and> d = CHR 0x80 \<and> e \<in> {CHR 0x80, CHR 0x81, CHR 0x82, CHR 0x83, CHR 0x84, CHR 0x85,
                       CHR 0x86, CHR 0x87, CHR 0x88, CHR 0x89, CHR 0x8A, CHR 0xA8, CHR 0xA9, CHR 0xAF}
                   \<or> c = CHR 0xE2 \<and> d = CHR 0x81 \<and> e = CHR 0x9F
                   \<or> c = CHR 0xE3 \<and> d = CHR 0x80 \<and> e = CHR 0x80
                  then isBlank es else False)))))"

definition validateUnmappedFieldReason :: "UnmappedFieldPolicy \<Rightarrow> string \<Rightarrow> gerr + unit" where
  "validateUnmappedFieldReason policy reason =
     (if policy = UnmappedFieldPolicyWarn \<and> isBlank reason
      then Inl (MStr ''spec.unmappedFieldReason is required when spec.unmappedFieldPolicy is Warn'')
      else Inr ())"

text \<open>The checks of one rule; \<open>nested\<close> validates a rule list at a depth.\<close>

type_synonym rulesValidator = "conversionRule list \<Rightarrow> nat \<Rightarrow> gerr + unit"

definition validateBranch :: "rulesValidator \<Rightarrow> nat \<Rightarrow> nat \<times> apiBranchMapping \<Rightarrow> string list \<Rightarrow> gerr + string list" where
  "validateBranch nested depth ib seenHub =
     (let b = snd ib in
      if isBlank (abHubBranch b) \<or> isBlank (abSpokeBranch b)
      then Inl (Fmt ''branchMap: branch %d must name both hubBranch and spokeBranch'' [MInt (int (fst ib))])
      else if abHubBranch b \<in> set seenHub
      then Inl (Fmt ''branchMap: hubBranch %q is mapped twice; a branch has exactly one counterpart'' [MStr (abHubBranch b)])
      else (case nested (abRules b) depth of
              Inl e \<Rightarrow> Inl (Fmt ''branchMap: branch %d (%s): %w'' [MInt (int (fst ib)), MStr (abHubBranch b), e])
            | Inr _ \<Rightarrow> Inr (abHubBranch b # seenHub)))"

definition validateNested :: "rulesValidator \<Rightarrow> nat \<Rightarrow> apiParams \<Rightarrow> gerr + unit" where
  "validateNested nested depth p =
     (case p of
        ABranchMap hp sp d bs \<Rightarrow>
          (if bs = [] then Inl (MStr ''branchMap: at least one branch mapping is required'')
           else bindR (foldR (validateBranch nested depth) (List.enumerate 0 bs) []) (\<lambda>_. Inr ()))
      | AForEach hp sp rs \<Rightarrow>
          (if depth \<ge> MaxForEachDepth
           then Inl (Fmt ''ForEach nesting depth exceeds the supported maximum of %d'' [MInt (int MaxForEachDepth)])
           else (case nested rs (Suc depth) of Inl e \<Rightarrow> Inl (Fmt ''forEach: %w'' [e]) | Inr _ \<Rightarrow> Inr ()))
      | _ \<Rightarrow> Inr ())"

definition validateLabelKey :: "golib \<Rightarrow> apiParams \<Rightarrow> gerr + unit" where
  "validateLabelKey lib p =
     (case p of
        AToLabel hp k ser b \<Rightarrow>
          (if lib_IsQualifiedName lib k \<noteq> []
           then Inl (Fmt ''ToLabel key %q is not a valid label key: %s'' [MStr k, MStr (joinStr (lib_IsQualifiedName lib k) ''; '')])
           else Inr ())
      | AFromLabel sp k ser b \<Rightarrow>
          (if lib_IsQualifiedName lib k \<noteq> []
           then Inl (Fmt ''FromLabel key %q is not a valid label key: %s'' [MStr k, MStr (joinStr (lib_IsQualifiedName lib k) ''; '')])
           else Inr ())
      | _ \<Rightarrow> Inr ())"

definition labelAsJSON :: "apiParams \<Rightarrow> bool" where
  "labelAsJSON p = (case p of AFromLabel sp k ser b \<Rightarrow> ser = ''JSON'' | _ \<Rightarrow> False)"

definition validateOneRule :: "golib \<Rightarrow> rulesValidator \<Rightarrow> nat \<Rightarrow> conversionRule \<Rightarrow> gerr + unit" where
  "validateOneRule lib nested depth r =
     (case crParams r of
        [p] \<Rightarrow>
          bindR (validateNested nested depth p) (\<lambda>_.
          if (case crWhen r of None \<Rightarrow> False | Some w \<Rightarrow> isBlank (awPath w)) then Inl (MStr ''when.path is required'')
          else if crStrategy r = ''CEL'' \<and> \<not> crAcknowledgeLossy r
          then Inl (MStr ''CEL is always treated as lossy; acknowledgeLossy must be true (losslessOverride is not supported)'')
          else if crStrategy r = ''FromLabel'' \<and> labelAsJSON p
          then Inl (MStr ''FromLabel does not support serialization=JSON; use String (labels cannot carry JSON-quoted values)'')
          else validateLabelKey lib p)
      | ps \<Rightarrow> Inl (Fmt ''strategy %q requires exactly one matching params field to be set, found %d''
                [MStr (crStrategy r), MInt (int (length ps))]))"

lemma validateOneRule_cong [fundef_cong]:
  assumes "lib = lib'" and "depth = depth'" and "r = r'"
    and "\<And>p rs d. p \<in> set (crParams r') \<Longrightarrow> rs \<in> set (apiNested p) \<Longrightarrow> nested rs d = nested' rs d"
  shows "validateOneRule lib nested depth r = validateOneRule lib' nested' depth' r'"
proof -
  have "validateNested nested depth' p = validateNested nested' depth' p" if "crParams r' = [p]" for p
  proof (cases p)
    case (ABranchMap hp sp d bs)
    have "validateBranch nested depth' ib seen = validateBranch nested' depth' ib seen" if "ib \<in> set (List.enumerate 0 bs)" for ib seen
      using assms(4)[of p "abRules (snd ib)" depth'] in_enumerate[OF that] ABranchMap \<open>crParams r' = [p]\<close>
      by (simp add: validateBranch_def Let_def apiNested_def)
    then have "foldR (validateBranch nested depth') (List.enumerate 0 bs) [] = foldR (validateBranch nested' depth') (List.enumerate 0 bs) []"
      by (intro foldR_cong) auto
    then show ?thesis by (simp add: ABranchMap validateNested_def)
  next
    case (AForEach hp sp rs)
    then show ?thesis using assms(4)[of p rs] that by (simp add: validateNested_def apiNested_def)
  qed (simp_all add: validateNested_def)
  then show ?thesis unfolding assms(1-3) validateOneRule_def by (simp split: list.split)
qed

function validateRules :: "golib \<Rightarrow> conversionRule list \<Rightarrow> nat \<Rightarrow> gerr + unit" where
  "validateRules lib rules depth =
     bindR (mapR (\<lambda>ir. case validateOneRule lib (validateRules lib) depth (snd ir) of
                     Inl e \<Rightarrow> Inl (Fmt ''rule %d: %w'' [MInt (int (fst ir)), e])
                   | Inr _ \<Rightarrow> Inr ()) (List.enumerate 0 rules)) (\<lambda>_. Inr ())"
  by pat_completeness auto
termination
proof (relation "measure (\<lambda>(lib, rules, depth). size_list size rules)", goal_cases)
  case (2 lib rules depth ir p rs d)
  have "size (snd ir) \<le> size_list size rules" using in_enumerate[OF 2(1)] by (rule size_list_estimation') simp
  then show ?case using size_param_nested[OF 2(2,3)] by simp
qed simp

declare validateRules.simps [simp del]

definition validateSpoke :: "golib \<Rightarrow> string \<Rightarrow> SpokeVersionRules \<Rightarrow> string list \<Rightarrow> gerr + string list" where
  "validateSpoke lib hubVersion s seen =
     (if svVersion s = hubVersion then Inl (Fmt ''spoke version %q must not equal the hub version'' [MStr (svVersion s)])
      else if svVersion s \<in> set seen then Inl (Fmt ''spoke version %q is declared more than once'' [MStr (svVersion s)])
      else (case validateRules lib (svRules s) 0 of
              Inl e \<Rightarrow> Inl (Fmt ''spoke %q: %w'' [MStr (svVersion s), e])
            | Inr _ \<Rightarrow> Inr (svVersion s # seen)))"

definition validateSpokesStructure :: "golib \<Rightarrow> string \<Rightarrow> SpokeVersionRules list \<Rightarrow> gerr + unit" where
  "validateSpokesStructure lib hubVersion spokes =
     (if spokes = [] then Inl (MStr ''spec.spokes must declare at least one spoke version'')
      else bindR (foldR (validateSpoke lib hubVersion) spokes []) (\<lambda>_. Inr ()))"

definition ValidateStructure :: "golib \<Rightarrow> conversionConfig \<Rightarrow> gerr + unit" where
  "ValidateStructure lib cfg =
     bindR (validateUnmappedFieldReason (ccUnmappedFieldPolicy cfg) (ccUnmappedFieldReason cfg))
       (\<lambda>_. validateSpokesStructure lib (ccHubVersion cfg) (ccSpokes cfg))"

subsection \<open>Admission\<close>

definition targetTaken :: "string \<Rightarrow> string \<Rightarrow> string \<Rightarrow> bool \<Rightarrow> (string \<times> string) list \<Rightarrow> gerr + unit" where
  "targetTaken kindName targetName skipName skip others =
     (case find (\<lambda>ot. \<not> (skip \<and> fst ot = skipName) \<and> snd ot = targetName) others of
        Some ot \<Rightarrow> Inl (Fmt ''%s %q already targets %q; registry keys are the bare target name shared by XRD and CRD configs, so only one config per target name is supported''
            [MStr kindName, MStr (fst ot), MStr targetName])
      | None \<Rightarrow> Inr ())"

definition validateRegistryKeyAvailable :: "clusterView \<Rightarrow> string \<Rightarrow> string \<Rightarrow> configKind \<Rightarrow> gerr + unit" where
  "validateRegistryKeyAvailable cl targetName skipName skipKind =
     (if targetName = [] then Inr ()
      else (case clXRDConfigs cl of
              Inl e \<Rightarrow> Inl (Fmt ''listing existing XRDConversionConfigs: %w'' [e])
            | Inr xrds \<Rightarrow>
                bindR (targetTaken ''XRDConversionConfig'' targetName skipName (skipKind = XRDKind) xrds) (\<lambda>_.
                case clCRDConfigs cl of
                  Inl e \<Rightarrow> Inl (Fmt ''listing existing CRDConversionConfigs: %w'' [e])
                | Inr crds \<Rightarrow> targetTaken ''CRDConversionConfig'' targetName skipName (skipKind = CRDKind) crds)))"

definition summarizeErrors :: "AnalyzeReport \<Rightarrow> msg" where
  "summarizeErrors report =
     Fmt ''%s'' (concat (map (\<lambda>sr. map (\<lambda>e. Fmt ''[spoke %s] %s; '' [MStr (srVersion sr), dMessage e]) (srErrors sr)) (arSpokeReports report)))"

definition disabledMessage :: "configKind \<Rightarrow> string" where
  "disabledMessage k =
     (case k of
        XRDKind \<Rightarrow> ''XRD conversion support is disabled on this installation (--enable-xrd-support=false); enable it before creating XRDConversionConfig objects''
      | CRDKind \<Rightarrow> ''native CRD conversion support is disabled on this installation (--enable-crd-support=false); enable it before creating CRDConversionConfig objects'')"

text \<open>The analysis of a configuration against the schema source of its target.\<close>

definition ToRuleSets :: "golib \<Rightarrow> conversionConfig \<Rightarrow> gerr + RuleSet list" where
  "ToRuleSets lib cfg = spokesToRuleSets lib (ccHubVersion cfg) (ccSpokes cfg) (ccUnmappedFieldPolicy cfg)"

definition analyzeTarget :: "golib \<Rightarrow> conversionConfig \<Rightarrow> schemaSource \<Rightarrow> RuleSet list \<Rightarrow> gerr + AnalyzeReport" where
  "analyzeTarget lib cfg src ruleSets =
     AnalyzeConfig lib \<lparr>aiVersions = ssVersions src, aiGeneration = ssGeneration src, aiInjected = ssInjected src,
       aiHubVersion = ccHubVersion cfg, aiSpokes = ruleSets\<rparr>"

definition validateConfig :: "golib \<Rightarrow> configKind \<Rightarrow> bool \<Rightarrow> clusterView \<Rightarrow> conversionConfig \<Rightarrow> msg list \<times> gerr option" where
  "validateConfig lib k enabled cl cfg =
     (if \<not> enabled then ([], Some (MStr (disabledMessage k)))
      else case ValidateStructure lib cfg of
        Inl e \<Rightarrow> ([], Some e)
      | Inr _ \<Rightarrow>
          (case validateRegistryKeyAvailable cl (ccTarget cfg) (ccName cfg) k of
             Inl e \<Rightarrow> ([], Some e)
           | Inr _ \<Rightarrow>
               (let warnings = (case ccWebhookServerRef cfg of
                      None \<Rightarrow> []
                    | Some n \<Rightarrow> (if clServerExists cl n then []
                        else [Fmt ''webhookServerRef %q does not currently exist; the config will report Invalid until it does'' [MStr n]]))
                in case clTarget cl (ccTarget cfg) of
                     None \<Rightarrow> (warnings @ [Fmt (case k of
                         XRDKind \<Rightarrow> ''target XRD %q does not currently exist; skipping live schema validation until it does''
                       | CRDKind \<Rightarrow> ''target CustomResourceDefinition %q does not currently exist; skipping live schema validation until it does'')
                         [MStr (ccTarget cfg)]], None)
                   | Some src \<Rightarrow>
                       (case ToRuleSets lib cfg of
                          Inl e \<Rightarrow> (warnings, Some (Fmt ''invalid rule configuration: %w'' [e]))
                        | Inr ruleSets \<Rightarrow>
                            (case analyzeTarget lib cfg src ruleSets of
                               Inl e \<Rightarrow> (warnings, Some (Fmt (case k of
                                   XRDKind \<Rightarrow> ''validating against live XRD schema: %w'' | CRDKind \<Rightarrow> ''validating against live CRD schema: %w'') [e]))
                             | Inr report \<Rightarrow>
                                 (if HasErrors report
                                  then (warnings, Some (Fmt (case k of
                                    XRDKind \<Rightarrow> ''configuration is invalid against the current XRD schema: %s''
                                  | CRDKind \<Rightarrow> ''configuration is invalid against the current CRD schema: %s'') [summarizeErrors report]))
                                  else (warnings, None)))))))"


subsection \<open>What admission guarantees\<close>

text \<open>The fold over the spokes accepts pairwise different versions, none of them the hub.\<close>

lemma validateSpoke_fold:
  assumes "foldR (validateSpoke lib hub) spokes seen = Inr seen'"
  shows "distinct (map svVersion spokes) \<and> set (map svVersion spokes) \<inter> set seen = {}
    \<and> hub \<notin> set (map svVersion spokes) \<and> (\<forall>s\<in>set spokes. validateRules lib (svRules s) 0 = Inr ())"
  using assms
proof (induction spokes arbitrary: seen)
  case (Cons s spokes)
  then obtain seen1 where s: "validateSpoke lib hub s seen = Inr seen1"
    and rest: "foldR (validateSpoke lib hub) spokes seen1 = Inr seen'" by (auto simp: bindR_Inr_iff)
  from s have "svVersion s \<noteq> hub" "svVersion s \<notin> set seen" "validateRules lib (svRules s) 0 = Inr ()" "seen1 = svVersion s # seen"
    by (auto simp: validateSpoke_def split: if_splits sum.splits)
  with Cons.IH[OF rest] show ?case by auto
qed simp

lemma ValidateStructure_spokes:
  assumes "ValidateStructure lib cfg = Inr ()"
  shows "ccSpokes cfg \<noteq> []" and "distinct (map svVersion (ccSpokes cfg))"
    and "ccHubVersion cfg \<notin> set (map svVersion (ccSpokes cfg))"
    and "s \<in> set (ccSpokes cfg) \<Longrightarrow> validateRules lib (svRules s) 0 = Inr ()"
  using assms validateSpoke_fold[of lib "ccHubVersion cfg" "ccSpokes cfg" "[]"]
  by (auto simp: ValidateStructure_def validateSpokesStructure_def bindR_Inr_iff split: if_splits)

text \<open>A validated rule sets exactly one block of parameters, and its nested rules are validated.\<close>

lemma validateRules_rule:
  assumes "validateRules lib rules depth = Inr ()" and "r \<in> set rules"
  shows "validateOneRule lib (validateRules lib) depth r = Inr ()"
proof -
  from assms(2) obtain i where i: "(i, r) \<in> set (List.enumerate 0 rules)" using mem_enumerate[of r rules 0] by auto
  from assms(1)[unfolded validateRules.simps[of lib rules depth]] obtain us where
    "mapR (\<lambda>ir. case validateOneRule lib (validateRules lib) depth (snd ir) of
       Inl e \<Rightarrow> Inl (Fmt ''rule %d: %w'' [MInt (int (fst ir)), e]) | Inr _ \<Rightarrow> Inr ()) (List.enumerate 0 rules) = Inr us"
    unfolding bindR_Inr_iff by blast
  from mapR_mem[OF this i] show ?thesis by (simp split: sum.splits)
qed

lemma validateOneRule_params: "validateOneRule lib nested depth r = Inr () \<Longrightarrow> \<exists>p. crParams r = [p]"
  by (auto simp: validateOneRule_def split: list.splits)

text \<open>An error-free spoke report carries a plan for its version.\<close>

lemma analyzeSpoke_clean:
  assumes "srErrors (analyzeSpoke lib injected versions hub hv rs) = []"
  shows "\<exists>p. srCompiledPlan (analyzeSpoke lib injected versions hub hv rs) = Some p \<and> HubVersion p = hv \<and> SpokeVersion p = rsSpokeVersion rs"
  using assms by (auto simp: analyzeSpoke_def failedSpoke_def spokeReport_def Let_def split: option.splits if_splits)

lemma analyzeSpoke_version [simp]: "srVersion (analyzeSpoke lib injected versions hub hv rs) = rsSpokeVersion rs"
  by (auto simp: analyzeSpoke_def failedSpoke_def spokeReport_def Let_def split: option.splits)

lemma ToRuleSets_versions: "ToRuleSets lib cfg = Inr rss \<Longrightarrow> map rsSpokeVersion rss = map svVersion (ccSpokes cfg)"
  by (rule list_all2_map_eq) (auto simp: ToRuleSets_def spokesToRuleSets_def mapR_Inr_iff elim!: list_all2_mono split: sum.splits)

lemma AnalyzeConfig_clean:
  assumes "AnalyzeConfig lib inp = Inr report" and "\<not> HasErrors report"
  shows "map srVersion (arSpokeReports report) = map rsSpokeVersion (aiSpokes inp)"
    and "sr \<in> set (arSpokeReports report) \<Longrightarrow>
      \<exists>p. srCompiledPlan sr = Some p \<and> HubVersion p = aiHubVersion inp \<and> SpokeVersion p = srVersion sr"
proof -
  from assms(1) obtain injected versions hub where reports:
      "arSpokeReports report = map (analyzeSpoke lib injected versions hub (aiHubVersion inp)) (aiSpokes inp)"
    by (auto simp: AnalyzeConfig_def simp del: map_eq_conv split: sum.splits option.splits if_splits)
  then show "map srVersion (arSpokeReports report) = map rsSpokeVersion (aiSpokes inp)" by simp
  assume "sr \<in> set (arSpokeReports report)"
  then obtain rs where "sr = analyzeSpoke lib injected versions hub (aiHubVersion inp) rs" and "srErrors sr = []"
    using assms(2) reports by (auto simp: HasErrors_def list_ex_iff)
  then show "\<exists>p. srCompiledPlan sr = Some p \<and> HubVersion p = aiHubVersion inp \<and> SpokeVersion p = srVersion sr"
    using analyzeSpoke_clean by auto
qed

text \<open>An admission without an error went through every stage.\<close>

lemma validateConfig_ok:
  assumes "validateConfig lib k enabled cl cfg = (ws, None)"
  shows "enabled" and "ValidateStructure lib cfg = Inr ()"
    and "validateRegistryKeyAvailable cl (ccTarget cfg) (ccName cfg) k = Inr ()"
    and "clTarget cl (ccTarget cfg) = Some src \<Longrightarrow>
      \<exists>rss report. ToRuleSets lib cfg = Inr rss \<and> analyzeTarget lib cfg src rss = Inr report \<and> \<not> HasErrors report"
  using assms by (auto simp: validateConfig_def Let_def split: if_splits sum.splits option.splits)

subsection \<open>Uniqueness of targets over a history of admissions\<close>

text \<open>
  The configurations in the cluster, by name. A create or update is stored only if the validator
  admits it against the current contents; a delete is always admitted.
\<close>

record configStore =
  stXRDs :: "(string \<times> string) list"
  stCRDs :: "(string \<times> string) list"

definition viewOf :: "clusterView \<Rightarrow> configStore \<Rightarrow> clusterView" where
  "viewOf cl st = cl\<lparr>clXRDConfigs := Inr (stXRDs st), clCRDConfigs := Inr (stCRDs st)\<rparr>"

fun storeConfig :: "configKind \<Rightarrow> string \<Rightarrow> string \<Rightarrow> configStore \<Rightarrow> configStore" where
  "storeConfig XRDKind n t st = st\<lparr>stXRDs := AList.update n t (stXRDs st)\<rparr>"
| "storeConfig CRDKind n t st = st\<lparr>stCRDs := AList.update n t (stCRDs st)\<rparr>"

fun dropConfig :: "configKind \<Rightarrow> string \<Rightarrow> configStore \<Rightarrow> configStore" where
  "dropConfig XRDKind n st = st\<lparr>stXRDs := AList.delete n (stXRDs st)\<rparr>"
| "dropConfig CRDKind n st = st\<lparr>stCRDs := AList.delete n (stCRDs st)\<rparr>"

inductive admit_step :: "golib \<Rightarrow> configStore \<Rightarrow> configStore \<Rightarrow> bool" for lib where
  admit_put: "validateConfig lib k True (viewOf cl st) cfg = (ws, None) \<Longrightarrow> admit_step lib st (storeConfig k (ccName cfg) (ccTarget cfg) st)"
| admit_delete: "admit_step lib st (dropConfig k n st)"

definition targetsOf :: "(string \<times> string) list \<Rightarrow> string list" where
  "targetsOf xs = filter (\<lambda>t. t \<noteq> []) (map snd xs)"

definition keysUnique :: "configStore \<Rightarrow> bool" where
  "keysUnique st \<longleftrightarrow> distinct (map fst (stXRDs st)) \<and> distinct (map fst (stCRDs st))
     \<and> distinct (targetsOf (stXRDs st) @ targetsOf (stCRDs st))"


lemma keysUnique_iff:
  "keysUnique st \<longleftrightarrow> distinct (map fst (stXRDs st)) \<and> distinct (map fst (stCRDs st))
     \<and> distinct (targetsOf (stXRDs st)) \<and> distinct (targetsOf (stCRDs st)) \<and> set (targetsOf (stXRDs st)) \<inter> set (targetsOf (stCRDs st)) = {}"
  by (auto simp: keysUnique_def)

lemma targetsOf_simps [simp]:
  "targetsOf [] = []" "targetsOf (e # xs) = (if snd e = [] then [] else [snd e]) @ targetsOf xs"
  by (simp_all add: targetsOf_def)

lemma set_targetsOf: "set (targetsOf xs) = {t. t \<noteq> [] \<and> (\<exists>n. (n, t) \<in> set xs)}"
  by (force simp: targetsOf_def)

lemma targetsOf_once: "distinct (targetsOf xs) \<Longrightarrow> t \<noteq> [] \<Longrightarrow> length (filter (\<lambda>e. snd e = t) xs) \<le> 1"
proof (induction xs)
  case (Cons e xs)
  have "filter (\<lambda>e. snd e = t) xs = []" if "snd e = t"
    using Cons.prems that by (auto simp: filter_empty_conv set_targetsOf)
  with Cons show ?case by (auto split: if_splits)
qed simp

text \<open>What the uniqueness check has excluded: any entry with the target, except the object's own.\<close>

lemma targetTaken_free:
  "targetTaken kn t n skip others = Inr () \<longleftrightarrow> (\<forall>ot\<in>set others. snd ot = t \<longrightarrow> skip \<and> fst ot = n)"
proof (cases "find (\<lambda>ot. \<not> (skip \<and> fst ot = n) \<and> snd ot = t) others")
  case None
  then have "\<forall>ot\<in>set others. snd ot = t \<longrightarrow> skip \<and> fst ot = n" by (auto simp: find_None_iff)
  with None show ?thesis unfolding targetTaken_def by simp
next
  case (Some ot)
  then have "ot \<in> set others" "\<not> (skip \<and> fst ot = n)" "snd ot = t" by (auto simp: find_Some_iff in_set_conv_nth)
  with Some show ?thesis unfolding targetTaken_def by auto
qed

lemma registry_key_free:
  assumes "validateRegistryKeyAvailable (viewOf cl st) t n k = Inr ()" and "t \<noteq> []"
  shows "(m, t) \<in> set (stXRDs st) \<Longrightarrow> k = XRDKind \<and> m = n"
    and "(m, t) \<in> set (stCRDs st) \<Longrightarrow> k = CRDKind \<and> m = n"
  using assms by (auto simp: validateRegistryKeyAvailable_def viewOf_def bindR_Inr_iff targetTaken_free)

lemma update_targets_subset: "set (targetsOf (AList.update n t xs)) \<subseteq> insert t (set (targetsOf xs)) - {[]}"
  by (induction xs) (auto simp: set_targetsOf split: if_splits)

lemma update_targets_distinct:
  assumes "distinct (map fst xs)" and "distinct (targetsOf xs)"
    and "\<And>m. t \<noteq> [] \<Longrightarrow> (m, t) \<in> set xs \<Longrightarrow> m = n"
  shows "distinct (targetsOf (AList.update n t xs))"
  using assms
proof (induction xs)
  case (Cons e xs)
  show ?case
  proof (cases "fst e = n")
    case True
    have "t \<notin> set (targetsOf xs)"
    proof
      assume "t \<in> set (targetsOf xs)"
      then obtain m where "t \<noteq> []" "(m, t) \<in> set xs" by (auto simp: set_targetsOf)
      moreover from this have "m = n" using Cons.prems(3)[of m] by simp
      ultimately have "(fst e, t) \<in> set xs" using True by simp
      then have "fst e \<in> fst ` set xs" by (rule image_eqI[rotated]) simp
      then show False using Cons.prems(1) by simp
    qed
    then show ?thesis using Cons.prems(2) True by (cases e) (auto split: if_splits)
  next
    case False
    then have "snd e \<noteq> [] \<Longrightarrow> snd e \<noteq> t" using Cons.prems(3)[of "fst e"] by (cases e) auto
    moreover have "distinct (targetsOf (AList.update n t xs))"
      using Cons.prems by (intro Cons.IH) (auto split: if_splits)
    ultimately show ?thesis using False Cons.prems(2) update_targets_subset[of n t xs] by (cases e) (auto split: if_splits)
  qed
qed simp

lemma delete_targets_subset: "set (targetsOf (AList.delete n xs)) \<subseteq> set (targetsOf xs)"
  by (auto simp: AList.delete_eq set_targetsOf)

lemma delete_targets_distinct: "distinct (targetsOf xs) \<Longrightarrow> distinct (targetsOf (AList.delete n xs))"
proof (induction xs)
  case (Cons e xs)
  then show ?case using delete_targets_subset[of n xs] by (cases e) (auto split: if_splits)
qed simp

text \<open>A new target that no other entry has stays apart from the targets of the other kind.\<close>

lemma update_targets_apart:
  assumes "set (targetsOf xs) \<inter> set (targetsOf ys) = {}" and "\<And>m. t \<noteq> [] \<Longrightarrow> (m, t) \<notin> set ys"
  shows "set (targetsOf (AList.update n t xs)) \<inter> set (targetsOf ys) = {}"
proof -
  have "t \<notin> set (targetsOf ys)" using assms(2) by (auto simp: set_targetsOf)
  then show ?thesis using assms(1) update_targets_subset[of n t xs] by blast
qed

lemma keysUnique_store:
  assumes "keysUnique st" and "validateRegistryKeyAvailable (viewOf cl st) t n k = Inr ()"
  shows "keysUnique (storeConfig k n t st)"
proof -
  note free = registry_key_free[OF assms(2)]
  show ?thesis
  proof (cases k)
    case XRDKind
    have "distinct (targetsOf (AList.update n t (stXRDs st)))"
      using assms(1) free(1) by (intro update_targets_distinct) (auto simp: keysUnique_iff)
    moreover have "set (targetsOf (AList.update n t (stXRDs st))) \<inter> set (targetsOf (stCRDs st)) = {}"
      using assms(1) free(2) XRDKind by (intro update_targets_apart) (auto simp: keysUnique_iff)
    ultimately show ?thesis using assms(1) XRDKind by (simp add: keysUnique_iff distinct_update)
  next
    case CRDKind
    have "distinct (targetsOf (AList.update n t (stCRDs st)))"
      using assms(1) free(2) by (intro update_targets_distinct) (auto simp: keysUnique_iff)
    moreover have "set (targetsOf (AList.update n t (stCRDs st))) \<inter> set (targetsOf (stXRDs st)) = {}"
      using assms(1) free(1) CRDKind by (intro update_targets_apart) (auto simp: keysUnique_iff)
    ultimately show ?thesis using assms(1) CRDKind by (simp add: keysUnique_iff distinct_update Int_commute)
  qed
qed

lemma keysUnique_drop:
  assumes "keysUnique st"
  shows "keysUnique (dropConfig k n st)"
proof (cases k)
  case XRDKind
  have "set (targetsOf (AList.delete n (stXRDs st))) \<inter> set (targetsOf (stCRDs st)) = {}"
    using assms delete_targets_subset[of n "stXRDs st"] by (auto simp: keysUnique_iff)
  then show ?thesis using assms XRDKind by (simp add: keysUnique_iff delete_targets_distinct distinct_delete)
next
  case CRDKind
  have "set (targetsOf (stXRDs st)) \<inter> set (targetsOf (AList.delete n (stCRDs st))) = {}"
    using assms delete_targets_subset[of n "stCRDs st"] by (auto simp: keysUnique_iff)
  then show ?thesis using assms CRDKind by (simp add: keysUnique_iff delete_targets_distinct distinct_delete)
qed

lemma keysUnique_step: "admit_step lib st st' \<Longrightarrow> keysUnique st \<Longrightarrow> keysUnique st'"
  by (induction rule: admit_step.induct) (auto intro: keysUnique_store validateConfig_ok(3) keysUnique_drop)

lemma keysUnique_steps: "(admit_step lib)\<^sup>*\<^sup>* st st' \<Longrightarrow> keysUnique st \<Longrightarrow> keysUnique st'"
  by (induction rule: rtranclp_induct) (auto intro: keysUnique_step)

end
