(* ===== verification/Server.thy ===== *)
theory Server
  imports Registry "HOL-Library.Sublist"
begin

text \<open>
  The conversion endpoint of the webhook server (\<open>internal/webhookserver/server.go\<close>).
  \<open>handleConvert\<close> answers one HTTP request from the current registry. Three things come from outside:
  what decoding the body gave (\<open>bodyOutcome\<close>), whether the request context had expired at each of its
  checks (\<open>expired i\<close> before object \<open>i\<close>, and after the last one), and the codecs of \<open>golib\<close>. The
  answer is the HTTP reply and the metric updates other than durations, whose order carries no meaning. Tracing, logging and the
  probes' bodies are left out. The only panic of the modelled code is the assignment to the nil map
  that a JSON \<open>null\<close> decodes to; the handler recovers from it.
\<close>

record ConversionRequest =
  rqUID :: string
  rqDesiredAPIVersion :: string
  rqObjects :: "string list"

datatype bodyOutcome =
    BodyTooLarge int "string list"   \<comment> \<open>the limit, and the chunks read before it was hit\<close>
  | BodyInvalid msg
  | BodyReview "ConversionRequest option"

datatype reviewResult = Failure msg | Success "string list"

datatype httpReply = HTTPError nat msg | Review string reviewResult

datatype metricEvent =
    ReviewObserved string string string        \<comment> \<open>target, direction, result\<close>
  | BatchSizeObserved string nat
  | ObjectObserved string string string string string \<comment> \<open>target, from, to, route, result\<close>
  | LossyCounted string string                 \<comment> \<open>target, direction\<close>
  | PanicCounted string

record Server =
  srvMaxRequestBytes :: int
  srvRequestTimeout :: int
  srvHasMetrics :: bool
  srvReady :: bool

definition DefaultMaxRequestBytes :: int where "DefaultMaxRequestBytes = 32 * 2 ^ 20"
definition DefaultRequestTimeout :: int where "DefaultRequestTimeout = 30 * 1000000000"
definition uidSniffBytes :: nat where "uidSniffBytes = 8 * 2 ^ 10"

definition maxRequestBytes :: "Server \<Rightarrow> int" where
  "maxRequestBytes s = (if srvMaxRequestBytes s = 0 then DefaultMaxRequestBytes else srvMaxRequestBytes s)"

definition requestTimeout :: "Server \<Rightarrow> int" where
  "requestTimeout s = (if srvRequestTimeout s \<le> 0 then DefaultRequestTimeout else srvRequestTimeout s)"

definition SetReady :: "Server \<Rightarrow> bool \<Rightarrow> Server" where
  "SetReady s ready = s\<lparr>srvReady := ready\<rparr>"

definition handleReadyz :: "Server \<Rightarrow> nat" where
  "handleReadyz s = (if srvReady s then 200 else 503)"

subsection \<open>Helpers\<close>

definition versionOf :: "string \<Rightarrow> string" where
  "versionOf apiVersion =
     (case dropWhile (\<lambda>c. c \<noteq> CHR ''/'') apiVersion of [] \<Rightarrow> apiVersion | _ # version \<Rightarrow> version)"

definition stringField :: "jobj \<Rightarrow> string \<Rightarrow> string" where
  "stringField obj key = (case map_of obj key of Some (JStr s) \<Rightarrow> s | _ \<Rightarrow> [])"

definition routeLabel :: "string \<Rightarrow> string \<Rightarrow> string \<Rightarrow> string" where
  "routeLabel hub from to =
     (if from = to then ''identity'' else if from = hub then ''hub_to_spoke''
      else if to = hub then ''spoke_to_hub'' else ''spoke_to_spoke'')"

definition fillMetadata :: "jobj \<Rightarrow> jobj \<Rightarrow> jobj" where
  "fillMetadata out original =
     AList.update ''metadata'' (case map_of original ''metadata'' of
        Some md \<Rightarrow> (if md \<noteq> JNull then md else JObj []) | None \<Rightarrow> JObj []) out"

definition ensureConvertedMetadata :: "jobj \<Rightarrow> jobj \<Rightarrow> jobj" where
  "ensureConvertedMetadata out original =
     (case map_of out ''metadata'' of
        Some md \<Rightarrow> (if md \<noteq> JNull then out else fillMetadata out original)
      | None \<Rightarrow> fillMetadata out original)"

text \<open>The direction label of a review: \<open>unknown\<close>, the one direction, or \<open>mixed\<close>.\<close>

record directionTracker =
  dtLabel :: string
  dtSeen :: string

definition trackerAdd :: "string \<Rightarrow> directionTracker \<Rightarrow> directionTracker" where
  "trackerAdd dir d =
     (if dtSeen d = [] then \<lparr>dtLabel = dir, dtSeen = dir\<rparr>
      else if dtSeen d \<noteq> dir then d\<lparr>dtLabel := ''mixed''\<rparr> else d)"

text \<open>\<open>prefixRecorder.Write\<close>, chunk by chunk.\<close>

definition recordPrefix :: "nat \<Rightarrow> string \<Rightarrow> string \<Rightarrow> string" where
  "recordPrefix limit chunk buf = (if length buf < limit then buf @ take (limit - length buf) chunk else buf)"

text \<open>\<open>bytes.Index\<close>, and what remains after the first occurrence.\<close>

fun bytesIndex :: "string \<Rightarrow> string \<Rightarrow> nat option" where
  "bytesIndex s pat =
     (if take (length pat) s = pat then Some 0
      else (case s of [] \<Rightarrow> None | _ # cs \<Rightarrow> map_option Suc (bytesIndex cs pat)))"

definition afterIndex :: "string \<Rightarrow> string \<Rightarrow> string option" where
  "afterIndex s pat = map_option (\<lambda>i. drop (i + length pat) s) (bytesIndex s pat)"

definition quotedValue :: "string \<Rightarrow> string" where
  "quotedValue rest =
     (case bytesIndex rest [CHR 0x22] of
        None \<Rightarrow> []
      | Some open_at \<Rightarrow>
          (case bytesIndex rest '':'' of
             None \<Rightarrow> []
           | Some colon \<Rightarrow>
               (if colon > open_at then []
                else (let value = drop (Suc open_at) rest
                      in case bytesIndex value [CHR 0x22] of None \<Rightarrow> [] | Some end_at \<Rightarrow> take end_at value))))"

definition sniffRequestUID :: "string \<Rightarrow> string" where
  "sniffRequestUID pre =
     (case afterIndex pre (CHR 0x22 # ''request'' @ [CHR 0x22]) of
        None \<Rightarrow> []
      | Some rest \<Rightarrow>
          (case afterIndex rest (CHR 0x22 # ''uid'' @ [CHR 0x22]) of
             None \<Rightarrow> []
           | Some rest' \<Rightarrow> quotedValue rest'))"

subsection \<open>One object\<close>

text \<open>
  \<open>json.Unmarshal\<close> into a \<open>map[string]any\<close>: \<open>null\<close> gives the nil map (\<open>None\<close>), anything but an object
  is an error.
\<close>

definition decodeObject :: "golib \<Rightarrow> string \<Rightarrow> gerr + jobj option" where
  "decodeObject lib raw =
     (case lib_Unmarshal lib raw of
        Inl e \<Rightarrow> Inl e
      | Inr (JObj obj) \<Rightarrow> Inr (Some obj)
      | Inr JNull \<Rightarrow> Inr None
      | Inr v \<Rightarrow> Inl (Fmt ''json: cannot unmarshal into Go value of type map[string]interface {}'' []))"

record loopState =
  lsConverted :: "string list"
  lsHops :: "(string \<times> string) list"
  lsTracker :: directionTracker
  lsEvents :: "metricEvent list"

text \<open>A review that ends early: its message, the result label, the direction and the events so far.\<close>

record stop =
  stMessage :: msg
  stResult :: string
  stLabel :: string
  stEvents :: "metricEvent list"

definition stopWith :: "msg \<Rightarrow> string \<Rightarrow> loopState \<Rightarrow> metricEvent list \<Rightarrow> stop" where
  "stopWith m result st evs = \<lparr>stMessage = m, stResult = result, stLabel = dtLabel (lsTracker st), stEvents = lsEvents st @ evs\<rparr>"

definition hopsOf :: "string \<Rightarrow> string \<Rightarrow> string \<Rightarrow> (string \<times> string) list" where
  "hopsOf route from to =
     (if route = ''hub_to_spoke'' then [(''hub_to_spoke'', to)]
      else if route = ''spoke_to_hub'' then [(''spoke_to_hub'', from)]
      else if route = ''spoke_to_spoke'' then [(''spoke_to_hub'', from), (''hub_to_spoke'', to)]
      else [])"

text \<open>The object that is sent back for a converted one.\<close>

definition finishObject :: "string \<Rightarrow> jobj \<Rightarrow> jobj \<Rightarrow> jobj" where
  "finishObject desired obj out = ensureConvertedMetadata (AList.update ''apiVersion'' (JStr desired) out) obj"

definition convertObject :: "golib \<Rightarrow> string \<Rightarrow> Router \<Rightarrow> string \<Rightarrow> string \<Rightarrow> loopState \<Rightarrow> stop + loopState" where
  "convertObject lib xrdName router desired raw st =
     (case decodeObject lib raw of
        Inl e \<Rightarrow> Inl (stopWith (Fmt ''decoding object: %v'' [e]) ''bad_request'' st [])
      | Inr decoded \<Rightarrow>
          (let obj = (case decoded of None \<Rightarrow> [] | Some m \<Rightarrow> m);
               toVersion = versionOf desired;
               fromVersion = versionOf (stringField obj ''apiVersion'');
               st1 = st\<lparr>lsTracker := trackerAdd (fromVersion @ ''->'' @ toVersion) (lsTracker st)\<rparr>;
               route = routeLabel (routerHub router) fromVersion toVersion
           in case routerConvert lib router obj fromVersion toVersion of
                Inl e \<Rightarrow> Inl (stopWith (Fmt ''converting %s -> %s: %v'' [MStr fromVersion, MStr toVersion, e]) ''error'' st1
                    [ObjectObserved xrdName fromVersion toVersion route ''error''])
              | Inr out \<Rightarrow>
                  (if decoded = None \<and> fromVersion = toVersion
                   then Inl (stopWith (MStr ''internal error: assignment to entry in nil map'') ''panic'' st1 [PanicCounted xrdName])
                   else case lib_Marshal lib (JObj (finishObject desired obj out)) of
                     Inl e \<Rightarrow> Inl (stopWith (Fmt ''marshaling converted object: %v'' [e]) ''error'' st1 [])
                   | Inr b \<Rightarrow> Inr (st1\<lparr>lsConverted := lsConverted st1 @ [b], lsHops := lsHops st1 @ hopsOf route fromVersion toVersion,
                       lsEvents := lsEvents st1 @ [ObjectObserved xrdName fromVersion toVersion route ''success'']\<rparr>))))"

text \<open>One turn of the loop: the check of the request's budget, then the object.\<close>

definition convertTurn :: "golib \<Rightarrow> Server \<Rightarrow> string \<Rightarrow> Router \<Rightarrow> string \<Rightarrow> nat \<Rightarrow> (nat \<Rightarrow> bool) \<Rightarrow> nat \<times> string \<Rightarrow> loopState \<Rightarrow> stop + loopState" where
  "convertTurn lib s xrdName router desired count expired ir st =
     (if expired (fst ir)
      then Inl (stopWith (Fmt ''conversion exceeded the %s per-request budget after %d of %d objects; raise --request-timeout or send smaller batches''
             [MInt (requestTimeout s), MInt (int (length (lsConverted st))), MInt (int count)]) ''timeout'' st [])
      else convertObject lib xrdName router desired (snd ir) st)"

definition recordLossy :: "CompiledEntry \<Rightarrow> string \<Rightarrow> string \<times> string \<Rightarrow> metricEvent list" where
  "recordLossy entry xrdName hop =
     (case map_of (ceLossless entry) (snd hop) of
        None \<Rightarrow> []
      | Some v \<Rightarrow> (if fst hop = ''hub_to_spoke'' \<and> \<not> fst v \<or> fst hop = ''spoke_to_hub'' \<and> \<not> snd v
                   then [LossyCounted xrdName (fst hop)] else []))"

subsection \<open>The handler\<close>

definition initialLoop :: "metricEvent list \<Rightarrow> loopState" where
  "initialLoop evs = \<lparr>lsConverted = [], lsHops = [], lsTracker = \<lparr>dtLabel = ''unknown'', dtSeen = []\<rparr>, lsEvents = evs\<rparr>"

definition serveReview :: "golib \<Rightarrow> Server \<Rightarrow> string \<Rightarrow> CompiledEntry \<Rightarrow> Router \<Rightarrow> (nat \<Rightarrow> bool) \<Rightarrow> ConversionRequest \<Rightarrow> stop + loopState" where
  "serveReview lib s xrdName entry router expired rq =
     (let count = length (rqObjects rq) in
      case foldR (convertTurn lib s xrdName router (rqDesiredAPIVersion rq) count expired)
             (List.enumerate 0 (rqObjects rq)) (initialLoop [BatchSizeObserved xrdName count]) of
        Inl e \<Rightarrow> Inl e
      | Inr st \<Rightarrow>
          (if expired count
           then Inl (stopWith (Fmt ''conversion exceeded the %s per-request budget; raise --request-timeout or send smaller batches''
                  [MInt (requestTimeout s)]) ''timeout'' st [])
           else Inr (st\<lparr>lsEvents := lsEvents st @ concat (map (recordLossy entry xrdName) (lsHops st))\<rparr>)))"

definition notRegistered :: "string \<Rightarrow> ConversionRequest \<Rightarrow> httpReply \<times> metricEvent list" where
  "notRegistered xrdName rq =
     (Review (rqUID rq) (Failure (Fmt ''no conversion plan registered for XRD %q on this replica; check the XRDConversionConfig's status, or retry shortly if it was just created'' [MStr xrdName])),
      [ReviewObserved xrdName ''unknown'' ''not_registered''])"

definition answerReview :: "golib \<Rightarrow> Server \<Rightarrow> Registry \<Rightarrow> string \<Rightarrow> (nat \<Rightarrow> bool) \<Rightarrow> ConversionRequest \<Rightarrow> httpReply \<times> metricEvent list" where
  "answerReview lib s reg xrdName expired rq =
     (case registryGet reg xrdName of
        Some entry \<Rightarrow>
          (case ceRouter entry of
             Some router \<Rightarrow>
               (case serveReview lib s xrdName entry router expired rq of
                  Inl e \<Rightarrow> (Review (rqUID rq) (Failure (stMessage e)), stEvents e @ [ReviewObserved xrdName (stLabel e) (stResult e)])
                | Inr st \<Rightarrow> (Review (rqUID rq) (Success (lsConverted st)),
                    lsEvents st @ [ReviewObserved xrdName (dtLabel (lsTracker st)) ''success'']))
           | None \<Rightarrow> notRegistered xrdName rq)
      | None \<Rightarrow> notRegistered xrdName rq)"

definition handleConvert :: "golib \<Rightarrow> Server \<Rightarrow> Registry \<Rightarrow> (nat \<Rightarrow> bool) \<Rightarrow> string \<Rightarrow> string \<Rightarrow> bodyOutcome \<Rightarrow> httpReply \<times> metricEvent list" where
  "handleConvert lib s reg expired httpMethod urlPath body =
     (let xrdName = trimPrefix urlPath ''/convert/'';
          (reply, events) =
            (if httpMethod \<noteq> ''POST'' then (HTTPError 405 (MStr ''method not allowed''), [])
             else case body of
               BodyTooLarge limit chunks \<Rightarrow>
                 (Review (sniffRequestUID (fold (recordPrefix uidSniffBytes) chunks []))
                    (Failure (Fmt ''ConversionReview body exceeds the %d-byte limit; raise --max-request-bytes on the webhook-server if this batch size is expected'' [MInt limit])),
                  [ReviewObserved xrdName ''unknown'' ''too_large''])
             | BodyInvalid e \<Rightarrow> (HTTPError 400 (Fmt ''decoding ConversionReview: %v'' [e]), [ReviewObserved xrdName ''unknown'' ''bad_request''])
             | BodyReview None \<Rightarrow> (HTTPError 400 (MStr ''missing request''), [ReviewObserved xrdName ''unknown'' ''bad_request''])
             | BodyReview (Some rq) \<Rightarrow> answerReview lib s reg xrdName expired rq)
      in (reply, if srvHasMetrics s then events else []))"


subsection \<open>What a review is answered with\<close>

text \<open>
  The specification: what one object is answered with and which hops it takes, without the
  bookkeeping of the loop.
\<close>

definition objectVersion :: "golib \<Rightarrow> string \<Rightarrow> string" where
  "objectVersion lib raw = (case decodeObject lib raw of Inr (Some obj) \<Rightarrow> versionOf (stringField obj ''apiVersion'') | _ \<Rightarrow> [])"

definition objectAnswer :: "golib \<Rightarrow> Router \<Rightarrow> string \<Rightarrow> string \<Rightarrow> string option" where
  "objectAnswer lib router desired raw =
     (case decodeObject lib raw of
        Inl _ \<Rightarrow> None
      | Inr decoded \<Rightarrow>
          (let obj = (case decoded of None \<Rightarrow> [] | Some m \<Rightarrow> m) in
           if decoded = None \<and> versionOf desired = [] then None
           else case routerConvert lib router obj (objectVersion lib raw) (versionOf desired) of
             Inl _ \<Rightarrow> None
           | Inr out \<Rightarrow> (case lib_Marshal lib (JObj (finishObject desired obj out)) of Inl _ \<Rightarrow> None | Inr b \<Rightarrow> Some b)))"

definition objectHops :: "golib \<Rightarrow> Router \<Rightarrow> string \<Rightarrow> string \<Rightarrow> (string \<times> string) list" where
  "objectHops lib router desired raw =
     hopsOf (routeLabel (routerHub router) (objectVersion lib raw) (versionOf desired)) (objectVersion lib raw) (versionOf desired)"

lemma finishObject_apiVersion: "map_of (finishObject desired obj out) ''apiVersion'' = Some (JStr desired)"
  by (auto simp: finishObject_def ensureConvertedMetadata_def fillMetadata_def split: option.splits)

lemma finishObject_metadata: "\<exists>md. map_of (finishObject desired obj out) ''metadata'' = Some md \<and> md \<noteq> JNull"
  by (auto simp: finishObject_def ensureConvertedMetadata_def fillMetadata_def split: option.splits)

lemma finishObject_other:
  "k \<noteq> ''apiVersion'' \<Longrightarrow> k \<noteq> ''metadata'' \<Longrightarrow> map_of (finishObject desired obj out) k = map_of out k"
  by (auto simp: finishObject_def ensureConvertedMetadata_def fillMetadata_def split: option.splits)

lemma objectVersion_decoded:
  "decodeObject lib raw = Inr d \<Longrightarrow> versionOf (stringField (case d of None \<Rightarrow> [] | Some m \<Rightarrow> m) ''apiVersion'') = objectVersion lib raw"
  by (auto simp: objectVersion_def stringField_def versionOf_def split: option.splits)

lemma objectVersion_nil: "decodeObject lib raw = Inr None \<Longrightarrow> objectVersion lib raw = []"
  by (simp add: objectVersion_def)

fun isLossyEvent :: "metricEvent \<Rightarrow> bool" where
  "isLossyEvent (LossyCounted _ _) = True"
| "isLossyEvent _ = False"

lemma versionOf_Nil [simp]: "versionOf [] = []"
  by (simp add: versionOf_def)

lemma stringField_Nil [simp]: "stringField [] k = []"
  by (simp add: stringField_def)

lemma convertObject_answered:
  assumes "objectAnswer lib router desired raw = Some b"
  shows "\<exists>st'. convertObject lib x router desired raw st = Inr st' \<and> lsConverted st' = lsConverted st @ [b]
    \<and> lsHops st' = lsHops st @ objectHops lib router desired raw \<and> filter isLossyEvent (lsEvents st') = filter isLossyEvent (lsEvents st)"
proof (cases "decodeObject lib raw")
  case (Inr d)
  then show ?thesis using assms
    by (cases d) (auto simp: objectAnswer_def convertObject_def objectHops_def objectVersion_def Let_def split: sum.splits if_splits)
qed (use assms in \<open>simp add: objectAnswer_def\<close>)

lemma convertObject_unanswered:
  assumes "objectAnswer lib router desired raw = None"
  shows "\<exists>e. convertObject lib x router desired raw st = Inl e \<and> filter isLossyEvent (stEvents e) = filter isLossyEvent (lsEvents st)"
proof (cases "decodeObject lib raw")
  case (Inr d)
  then show ?thesis using assms
    by (cases d) (auto simp: objectAnswer_def convertObject_def stopWith_def objectVersion_def Let_def split: sum.splits if_splits)
qed (simp add: convertObject_def stopWith_def)

lemma convertTurn_events:
  assumes "convertTurn lib s x router desired count expired ir st = Inl e"
  shows "filter isLossyEvent (stEvents e) = filter isLossyEvent (lsEvents st)"
  using assms convertObject_answered[of lib router desired "snd ir" _ x st] convertObject_unanswered[of lib router desired "snd ir" x st]
  by (cases "objectAnswer lib router desired (snd ir)") (auto simp: convertTurn_def stopWith_def split: if_splits)

text \<open>The loop, turn by turn: either all objects have been answered, or it stopped.\<close>

lemma convertLoop_done:
  assumes "foldR (convertTurn lib s x router desired count expired) irs st = Inr st'"
  shows "those (map (\<lambda>ir. objectAnswer lib router desired (snd ir)) irs) = Some (drop (length (lsConverted st)) (lsConverted st'))
    \<and> take (length (lsConverted st)) (lsConverted st') = lsConverted st
    \<and> lsHops st' = lsHops st @ concat (map (\<lambda>ir. objectHops lib router desired (snd ir)) irs)
    \<and> filter isLossyEvent (lsEvents st') = filter isLossyEvent (lsEvents st)"
  using assms
proof (induction irs arbitrary: st)
  case (Cons ir irs)
  then obtain st1 where turn: "convertTurn lib s x router desired count expired ir st = Inr st1"
    and rest: "foldR (convertTurn lib s x router desired count expired) irs st1 = Inr st'" by (auto simp: bindR_Inr_iff)
  obtain b where b: "objectAnswer lib router desired (snd ir) = Some b"
    using turn convertObject_unanswered[of lib router desired "snd ir" x st]
    by (cases "objectAnswer lib router desired (snd ir)") (auto simp: convertTurn_def split: if_splits)
  from turn convertObject_answered[OF b, of x st] have st1: "lsConverted st1 = lsConverted st @ [b]"
      "lsHops st1 = lsHops st @ objectHops lib router desired (snd ir)" "filter isLossyEvent (lsEvents st1) = filter isLossyEvent (lsEvents st)"
    by (auto simp: convertTurn_def split: if_splits)
  note ih = Cons.IH[OF rest]
  let ?n = "length (lsConverted st)"
  have split: "lsConverted st' = lsConverted st @ b # drop (Suc ?n) (lsConverted st')"
    using arg_cong2[where f = append, OF ih[THEN conjunct2, THEN conjunct1] refl, of "drop (Suc ?n) (lsConverted st')"] st1(1) by simp
  have "take ?n (lsConverted st') = lsConverted st" "drop ?n (lsConverted st') = b # drop (Suc ?n) (lsConverted st')"
    by (subst split, simp)+
  then show ?case using ih st1 b by simp
qed simp

lemma convertLoop_stopped:
  assumes "foldR (convertTurn lib s x router desired count expired) irs st = Inl e"
  shows "filter isLossyEvent (stEvents e) = filter isLossyEvent (lsEvents st)
    \<and> ((\<forall>i. \<not> expired i) \<longrightarrow> those (map (\<lambda>ir. objectAnswer lib router desired (snd ir)) irs) = None)"
  using assms
proof (induction irs arbitrary: st)
  case (Cons ir irs)
  show ?case
  proof (cases "convertTurn lib s x router desired count expired ir st")
    case (Inl e')
    then have "e' = e" using Cons.prems by simp
    moreover have "objectAnswer lib router desired (snd ir) = None" if "\<forall>i. \<not> expired i"
      using Inl that convertObject_answered[of lib router desired "snd ir" _ x st]
      by (cases "objectAnswer lib router desired (snd ir)") (auto simp: convertTurn_def)
    ultimately show ?thesis using convertTurn_events[OF Inl] by auto
  next
    case (Inr st1)
    then have "foldR (convertTurn lib s x router desired count expired) irs st1 = Inl e" using Cons.prems by simp
    moreover have "filter isLossyEvent (lsEvents st1) = filter isLossyEvent (lsEvents st)"
      using convertLoop_done[of lib s x router desired count expired "[ir]" st st1] Inr by simp
    ultimately show ?thesis using Cons.IH[of st1] by (auto split: option.splits)
  qed
qed simp


lemma map_snd_enumerate [simp]: "map (\<lambda>ir. f (snd ir)) (List.enumerate n xs) = map f xs"
  by (induction xs arbitrary: n) auto

text \<open>A review within its budget is answered object by object, or fails as a whole.\<close>

lemma serveReview_answers:
  assumes "\<forall>i. \<not> expired i"
  shows "case those (map (objectAnswer lib router (rqDesiredAPIVersion rq)) (rqObjects rq)) of
      Some bs \<Rightarrow> (\<exists>st. serveReview lib s x entry router expired rq = Inr st \<and> lsConverted st = bs)
    | None \<Rightarrow> (\<exists>e. serveReview lib s x entry router expired rq = Inl e)"
proof (cases "foldR (convertTurn lib s x router (rqDesiredAPIVersion rq) (length (rqObjects rq)) expired)
    (List.enumerate 0 (rqObjects rq)) (initialLoop [BatchSizeObserved x (length (rqObjects rq))])")
  case (Inl e)
  from convertLoop_stopped[OF this] assms show ?thesis using Inl by (simp add: serveReview_def Let_def)
next
  case (Inr st)
  from convertLoop_done[OF this] assms show ?thesis using Inr by (simp add: serveReview_def initialLoop_def Let_def)
qed

lemma those_list_all2: "those (map f xs) = Some ys \<Longrightarrow> list_all2 (\<lambda>x y. f x = Some y) xs ys"
  by (induction xs arbitrary: ys) (auto split: option.splits)

lemma serveReview_delivered:
  assumes "serveReview lib s x entry router expired rq = Inr st"
  shows "list_all2 (\<lambda>raw b. objectAnswer lib router (rqDesiredAPIVersion rq) raw = Some b) (rqObjects rq) (lsConverted st)"
proof -
  from assms obtain st' where "foldR (convertTurn lib s x router (rqDesiredAPIVersion rq) (length (rqObjects rq)) expired)
      (List.enumerate 0 (rqObjects rq)) (initialLoop [BatchSizeObserved x (length (rqObjects rq))]) = Inr st'" "lsConverted st = lsConverted st'"
    by (auto simp: serveReview_def Let_def split: sum.splits if_splits)
  with convertLoop_done[OF this(1)] show ?thesis by (intro those_list_all2) (simp add: initialLoop_def)
qed

text \<open>Lossy hops are counted for a delivered review, and then all of them.\<close>

lemma filter_recordLossy [simp]: "filter isLossyEvent (recordLossy entry x h) = recordLossy entry x h"
  by (auto simp: recordLossy_def split: option.splits)

lemma filter_recordLossy_concat [simp]:
  "filter isLossyEvent (concat (map (recordLossy entry x) hs)) = concat (map (recordLossy entry x) hs)"
  by (simp add: filter_concat comp_def)

lemma serveReview_lossy:
  "case serveReview lib s x entry router expired rq of
     Inl e \<Rightarrow> filter isLossyEvent (stEvents e) = []
   | Inr st \<Rightarrow> filter isLossyEvent (lsEvents st)
       = concat (map (recordLossy entry x) (concat (map (objectHops lib router (rqDesiredAPIVersion rq)) (rqObjects rq))))"
proof (cases "foldR (convertTurn lib s x router (rqDesiredAPIVersion rq) (length (rqObjects rq)) expired)
    (List.enumerate 0 (rqObjects rq)) (initialLoop [BatchSizeObserved x (length (rqObjects rq))])")
  case (Inl e)
  from convertLoop_stopped[OF this] show ?thesis using Inl by (simp add: serveReview_def initialLoop_def Let_def)
next
  case (Inr st)
  from convertLoop_done[OF this] show ?thesis using Inr by (simp add: serveReview_def initialLoop_def stopWith_def Let_def)
qed

text \<open>An object that is answered was converted by the router and is one the API server accepts.\<close>

lemma objectAnswer_valid:
  assumes "objectAnswer lib router desired raw = Some b"
  shows "\<exists>d out res. decodeObject lib raw = Inr d
    \<and> routerConvert lib router (case d of None \<Rightarrow> [] | Some m \<Rightarrow> m) (objectVersion lib raw) (versionOf desired) = Inr out
    \<and> lib_Marshal lib (JObj res) = Inr b \<and> map_of res ''apiVersion'' = Some (JStr desired)
    \<and> (\<exists>md. map_of res ''metadata'' = Some md \<and> md \<noteq> JNull)
    \<and> (\<forall>k. k \<noteq> ''apiVersion'' \<longrightarrow> k \<noteq> ''metadata'' \<longrightarrow> map_of res k = map_of out k)"
proof -
  from assms obtain d out where "decodeObject lib raw = Inr d"
      and "routerConvert lib router (case d of None \<Rightarrow> [] | Some m \<Rightarrow> m) (objectVersion lib raw) (versionOf desired) = Inr out"
      and "lib_Marshal lib (JObj (finishObject desired (case d of None \<Rightarrow> [] | Some m \<Rightarrow> m) out)) = Inr b"
    by (auto simp: objectAnswer_def Let_def split: sum.splits if_splits)
  then show ?thesis
    by (intro exI[of _ d] exI[of _ out] exI[of _ "finishObject desired (case d of None \<Rightarrow> [] | Some m \<Rightarrow> m) out"])
      (simp add: finishObject_apiVersion finishObject_metadata finishObject_other)
qed

subsection \<open>The direction label\<close>

lemma trackerAdd_fold:
  assumes "[] \<notin> set dirs" and "dtSeen d \<noteq> []"
  shows "fold trackerAdd dirs d = (if set dirs \<subseteq> {dtSeen d} then d else d\<lparr>dtLabel := ''mixed''\<rparr>)"
  using assms by (induction dirs arbitrary: d) (auto simp: trackerAdd_def)

subsection \<open>The UID of an oversized body\<close>

lemma take_take_append: "take n (take n xs @ ys) = take n (xs @ ys)"
  by (cases "n \<le> length xs") simp_all

lemma recordPrefix_fold:
  assumes "length buf \<le> limit"
  shows "fold (recordPrefix limit) chunks buf = take limit (buf @ concat chunks)"
  using assms
proof (induction chunks arbitrary: buf)
  case (Cons c cs)
  have "recordPrefix limit c buf = take limit (buf @ c)" using Cons.prems by (auto simp: recordPrefix_def)
  then have "fold (recordPrefix limit) (c # cs) buf = take limit (take limit (buf @ c) @ concat cs)"
    using Cons.IH[of "take limit (buf @ c)"] by simp
  then show ?case by (simp only: take_take_append append_assoc concat.simps)
qed simp

declare bytesIndex.simps [simp del]

lemma bytesIndex_length: "bytesIndex s pat = Some i \<Longrightarrow> i + length pat \<le> length s"
proof (induction s arbitrary: i)
  case Nil
  then show ?case by (subst (asm) bytesIndex.simps) (auto split: if_splits)
next
  case (Cons c cs)
  show ?case
  proof (cases "take (length pat) (c # cs) = pat")
    case True
    then have "length pat \<le> length (c # cs)" by (metis length_take min.cobounded1)
    then show ?thesis using Cons.prems True by (subst (asm) bytesIndex.simps) simp
  next
    case False
    then show ?thesis using Cons by (subst (asm) bytesIndex.simps) auto
  qed
qed

text \<open>A first occurrence in a prefix is the first occurrence in the whole.\<close>

lemma bytesIndex_prefix: "bytesIndex s pat = Some i \<Longrightarrow> bytesIndex (s @ t) pat = Some i"
proof (induction s arbitrary: i)
  case Nil
  then have "pat = []" "i = 0" by (auto simp: bytesIndex.simps[of "[]"] split: if_splits)
  then show ?case by (subst bytesIndex.simps) simp
next
  case (Cons c cs)
  have "length pat \<le> length (c # cs)" using bytesIndex_length[OF Cons.prems] by simp
  then have same: "take (length pat) ((c # cs) @ t) = take (length pat) (c # cs)" by (simp only: take_append) simp
  show ?case
  proof (cases "take (length pat) (c # cs) = pat")
    case True
    then have "i = 0" using Cons.prems by (subst (asm) bytesIndex.simps) simp
    then show ?thesis using True same by (subst bytesIndex.simps) simp
  next
    case False
    then obtain j where "bytesIndex cs pat = Some j" "i = Suc j" using Cons.prems by (subst (asm) bytesIndex.simps) auto
    then show ?thesis using False same Cons.IH[of j] by (subst bytesIndex.simps) simp
  qed
qed

lemma afterIndex_prefix: "afterIndex s pat = Some r \<Longrightarrow> afterIndex (s @ t) pat = Some (r @ t)"
proof -
  assume "afterIndex s pat = Some r"
  then obtain i where i: "bytesIndex s pat = Some i" "r = drop (i + length pat) s" by (auto simp: afterIndex_def)
  then show ?thesis using bytesIndex_prefix[OF i(1), of t] bytesIndex_length[OF i(1)] by (simp add: afterIndex_def)
qed

lemma quotedValue_prefix:
  assumes "quotedValue r \<noteq> []"
  shows "quotedValue (r @ t) = quotedValue r"
proof -
  from assms obtain i j k where i: "bytesIndex r [CHR 0x22] = Some i" and j: "bytesIndex r '':'' = Some j" "\<not> j > i"
      and k: "bytesIndex (drop (Suc i) r) [CHR 0x22] = Some k"
    by (auto simp: quotedValue_def Let_def split: option.splits if_splits)
  have "Suc i \<le> length r" using bytesIndex_length[OF i] by simp
  then have d: "drop (Suc i) (r @ t) = drop (Suc i) r @ t" by simp
  have "take k (drop (Suc i) r @ t) = take k (drop (Suc i) r)" using bytesIndex_length[OF k] by simp
  then show ?thesis unfolding quotedValue_def
    using i j k bytesIndex_prefix[OF i, of t] bytesIndex_prefix[OF j(1), of t] bytesIndex_prefix[OF k, of t] d by (simp add: Let_def)
qed

text \<open>Truncating a body yields the UID of the whole body or none.\<close>

lemma sniff_prefix:
  assumes "sniffRequestUID s \<noteq> []"
  shows "sniffRequestUID (s @ t) = sniffRequestUID s"
proof -
  from assms obtain r r' where r: "afterIndex s (CHR 0x22 # ''request'' @ [CHR 0x22]) = Some r"
      "afterIndex r (CHR 0x22 # ''uid'' @ [CHR 0x22]) = Some r'" "quotedValue r' \<noteq> []"
    by (auto simp: sniffRequestUID_def split: option.splits)
  show ?thesis unfolding sniffRequestUID_def
    by (simp only: r(1,2) afterIndex_prefix[OF r(1)] afterIndex_prefix[OF r(2)] option.simps quotedValue_prefix[OF r(3)])
qed

lemma sniff_take: "sniffRequestUID (take n s) \<in> {[], sniffRequestUID s}"
  using sniff_prefix[of "take n s" "drop n s"] by (cases "sniffRequestUID (take n s) = []") simp_all

text \<open>The body of a review as the API server writes it, up to the UID.\<close>

definition reviewHeader :: string where
  "reviewHeader = CHR 0x7B # concat (map (\<lambda>w. CHR 0x22 # w @ [CHR 0x22])
      [''kind'']) @ '':'' @ (CHR 0x22 # ''ConversionReview'' @ [CHR 0x22]) @ '','' @ (CHR 0x22 # ''apiVersion'' @ [CHR 0x22]) @ '':''
     @ (CHR 0x22 # ''apiextensions.k8s.io/v1'' @ [CHR 0x22]) @ '','' @ (CHR 0x22 # ''request'' @ [CHR 0x22]) @ '':'' @ CHR 0x7B # CHR 0x22 # ''uid'' @ CHR 0x22 # '':'' @ [CHR 0x22]"

lemma bytesIndex_quote: "CHR 0x22 \<notin> set u \<Longrightarrow> bytesIndex (u @ CHR 0x22 # t) [CHR 0x22] = Some (length u)"
  by (induction u) (auto simp: bytesIndex.simps[of "_ # _"])

lemma sniff_reviewHeader:
  assumes "CHR 0x22 \<notin> set uid"
  shows "sniffRequestUID (reviewHeader @ uid @ CHR 0x22 # rest) = uid"
  using bytesIndex_quote[OF assms, of rest]
  by (simp add: sniffRequestUID_def reviewHeader_def afterIndex_def quotedValue_def bytesIndex.simps[of "_ # _"])

end
