(* ===== verification/Fleet.thy ===== *)
theory Fleet
  imports Assign GoLib "HOL-Library.AList"
begin

text \<open>
  Admission of webhook servers (\<open>internal/webhook/conversionwebhookserver_webhook.go\<close>,
  \<open>api/v1alpha1/extra_args.go\<close> and \<open>rollout_validation.go\<close>): the arguments an instance may add, the
  time a terminating replica has, at most one default, and the default inside the sharding pool.
  Durations are \<open>int64\<close> words and their arithmetic wraps; \<open>time.ParseDuration\<close> is a field of \<open>golib\<close>.
  Longer error texts are cut after their first sentence. The lemmas follow the fleet through a history of admitted writes and deletes.
\<close>

subsection \<open>Extra arguments\<close>

definition operatorManagedWebhookServerFlagNames :: "string list" where
  "operatorManagedWebhookServerFlagNames =
     [''webhook-server-name'', ''tls-cert-dir'', ''conversion-bind-address'', ''metrics-bind-address'',
      ''enable-xrd-support'', ''enable-crd-support'', ''cache-label-selector'']"

definition beforeEq :: "string \<Rightarrow> string" where "beforeEq s = takeWhile (\<lambda>c. c \<noteq> CHR ''='') s"
definition afterEq :: "string \<Rightarrow> string" where "afterEq s = tl (dropWhile (\<lambda>c. c \<noteq> CHR ''='') s)"

definition longFlagName :: "string \<Rightarrow> string option" where
  "longFlagName arg =
     (if \<not> hasPrefix arg ''--'' then None
      else (let name = trimPrefix arg ''--'' in
            if name = [] then None else if beforeEq name = [] then None else Some (beforeEq name)))"

text \<open>\<open>--flag value\<close>: the arguments after the value token of a flag without \<open>=\<close>.\<close>

definition skipValue :: "string \<Rightarrow> string list \<Rightarrow> string list" where
  "skipValue arg rest =
     (case rest of [] \<Rightarrow> [] | v # rest' \<Rightarrow> (if CHR ''='' \<notin> set arg \<and> \<not> hasPrefix v ''-'' then rest' else rest))"

lemma length_skipValue [simp]: "length (skipValue arg rest) < Suc (length rest)"
  by (auto simp: skipValue_def split: list.split)

lemma set_skipValue: "set rest \<subseteq> set (skipValue arg rest) \<union> {v. \<not> hasPrefix v ''-''}"
  by (cases rest) (auto simp: skipValue_def)

function ValidateWebhookServerExtraArgs :: "string list \<Rightarrow> gerr + unit" where
  "ValidateWebhookServerExtraArgs [] = Inr ()"
| "ValidateWebhookServerExtraArgs (arg # rest) =
     (case longFlagName arg of
        None \<Rightarrow> ValidateWebhookServerExtraArgs rest
      | Some name \<Rightarrow>
          (if name \<in> set operatorManagedWebhookServerFlagNames
           then Inl (Fmt ''extraArgs must not override operator-managed flag %q'' [MStr name])
           else ValidateWebhookServerExtraArgs (skipValue arg rest)))"
  by pat_completeness auto
termination by (relation "measure length") auto

text \<open>
  \<open>flag.Parse\<close> of the standard library, which the webhook server reads its arguments with: one or two
  dashes, a value after \<open>=\<close> or in the next argument, no value for a boolean flag; parsing stops at
  the first argument that is not a flag and at a syntax error. The result is the assignments made;
  for each name the last one counts.
\<close>

definition goFlag :: "string \<Rightarrow> (string \<times> string option) option" where
  "goFlag arg =
     (if length arg < 2 \<or> hd arg \<noteq> CHR ''-'' then None
      else (let name = (if hasPrefix arg ''--'' then drop 2 arg else drop 1 arg) in
            if name = [] \<or> hd name = CHR ''-'' \<or> hd name = CHR ''='' then None
            else Some (beforeEq name, if CHR ''='' \<in> set name then Some (afterEq name) else None)))"

fun goParseFlags :: "(string \<Rightarrow> bool) \<Rightarrow> string list \<Rightarrow> (string \<times> string) list" where
  "goParseFlags isBool [] = []"
| "goParseFlags isBool (arg # rest) =
     (case goFlag arg of
        None \<Rightarrow> []
      | Some (name, Some v) \<Rightarrow> (name, v) # goParseFlags isBool rest
      | Some (name, None) \<Rightarrow>
          (if isBool name then (name, ''true'') # goParseFlags isBool rest
           else (case rest of [] \<Rightarrow> [] | v # rest' \<Rightarrow> (name, v) # goParseFlags isBool rest')))"

subsection \<open>The rollout\<close>

datatype intOrString = IntVal int32 | StrVal string

record RolloutSpec =
  roPreStopSleepSeconds :: "int32 option"
  roTerminationGracePeriodSeconds :: "int64 option"
  roMaxUnavailable :: "intOrString option"
  roMaxSurge :: "intOrString option"
  roDefaultTopologySpread :: "bool option"

definition DefaultPreStopSleepSeconds :: int32 where "DefaultPreStopSleepSeconds = 5"
definition DefaultGracePeriodSeconds :: int64 where "DefaultGracePeriodSeconds = 45"
definition second :: int64 where "second = 1000000000"
definition DefaultWebhookServerShutdownTimeout :: int64 where "DefaultWebhookServerShutdownTimeout = 30 * second"

function shutdownFrom :: "golib \<Rightarrow> int64 \<Rightarrow> string list \<Rightarrow> gerr + int64" where
  "shutdownFrom lib effective [] = Inr effective"
| "shutdownFrom lib effective (arg # rest) =
     (case longFlagName arg of
        None \<Rightarrow> shutdownFrom lib effective rest
      | Some name \<Rightarrow>
          (if name \<noteq> ''shutdown-timeout'' then shutdownFrom lib effective (skipValue arg rest)
           else (let raw = (if CHR ''='' \<in> set arg then afterEq arg else case rest of [] \<Rightarrow> [] | v # _ \<Rightarrow> v)
                 in case lib_ParseDuration lib raw of
                      Inl e \<Rightarrow> Inl (Fmt ''extraArgs: --shutdown-timeout %q is not a duration: %w'' [MStr raw, e])
                    | Inr d \<Rightarrow>
                        (if sint d \<le> 0 then Inl (Fmt ''extraArgs: --shutdown-timeout must be positive, got %q'' [MStr raw])
                         else shutdownFrom lib d (if CHR ''='' \<in> set arg then rest else drop 1 rest)))))"
  by pat_completeness auto
termination by (relation "measure (\<lambda>(lib, d, args). length args)") auto

definition shutdownTimeoutFromArgs :: "golib \<Rightarrow> string list \<Rightarrow> gerr + int64" where
  "shutdownTimeoutFromArgs lib args = shutdownFrom lib DefaultWebhookServerShutdownTimeout args"

text \<open>\<open>strconv.Atoi\<close>: an optional sign and decimal digits, in the range of \<open>int64\<close>.\<close>

fun digitsValue :: "string \<Rightarrow> int \<Rightarrow> int option" where
  "digitsValue [] acc = Some acc"
| "digitsValue (c # cs) acc =
     (if c \<in> set ''0123456789'' then digitsValue cs (10 * acc + int (of_char c) - 48) else None)"

definition atoiRange :: "int \<Rightarrow> int option" where
  "atoiRange i = (if - (2 ^ 63) \<le> i \<and> i < 2 ^ 63 then Some i else None)"

definition atoi :: "string \<Rightarrow> int option" where
  "atoi s =
     (let ds = (if hasPrefix s ''-'' \<or> hasPrefix s ''+'' then tl s else s) in
      if ds = [] then None
      else (case digitsValue ds 0 of None \<Rightarrow> None | Some n \<Rightarrow> atoiRange (if hasPrefix s ''-'' then - n else n)))"

definition hasPercent :: "string \<Rightarrow> bool" where "hasPercent s \<longleftrightarrow> s \<noteq> [] \<and> last s = CHR 0x25"
definition trimPercent :: "string \<Rightarrow> string" where "trimPercent s = (if hasPercent s then butlast s else s)"

definition validateIntOrPercent :: "intOrString option \<Rightarrow> string \<Rightarrow> gerr + unit" where
  "validateIntOrPercent v field =
     (case v of
        None \<Rightarrow> Inr ()
      | Some (IntVal i) \<Rightarrow> (if sint i < 0 then Inl (Fmt ''%s must not be negative, got %d'' [MStr field, MInt (sint i)]) else Inr ())
      | Some (StrVal raw) \<Rightarrow>
          (if \<not> hasPercent raw then Inl (Fmt ''%s must be an integer or a percentage such as 25 percent, got %q'' [MStr field, MStr raw])
           else (case atoi (trimPercent raw) of
                   None \<Rightarrow> Inl (Fmt ''%s is not a valid percentage: %q'' [MStr field, MStr raw])
                 | Some n \<Rightarrow> (if n < 0 then Inl (Fmt ''%s must not be a negative percentage, got %q'' [MStr field, MStr raw]) else Inr ()))))"

definition isZeroIntOrPercent :: "intOrString \<Rightarrow> bool" where
  "isZeroIntOrPercent v = (case v of IntVal i \<Rightarrow> i = 0 | StrVal s \<Rightarrow> atoi (trimPercent s) = Some 0)"

definition intOrPercentString :: "intOrString option \<Rightarrow> string \<Rightarrow> msg" where
  "intOrPercentString v whenUnset =
     (case v of None \<Rightarrow> MStr (whenUnset @ '' (default)'') | Some (IntVal i) \<Rightarrow> MInt (sint i) | Some (StrVal s) \<Rightarrow> MStr s)"

definition validateRolloutStrategy :: "RolloutSpec option \<Rightarrow> gerr + unit" where
  "validateRolloutStrategy rollout =
     (case rollout of
        None \<Rightarrow> Inr ()
      | Some ro \<Rightarrow>
          bindR (validateIntOrPercent (roMaxUnavailable ro) ''rollout.maxUnavailable'') (\<lambda>_.
          bindR (validateIntOrPercent (roMaxSurge ro) ''rollout.maxSurge'') (\<lambda>_.
          if (case roMaxUnavailable ro of None \<Rightarrow> True | Some v \<Rightarrow> isZeroIntOrPercent v)
             \<and> (case roMaxSurge ro of None \<Rightarrow> False | Some v \<Rightarrow> isZeroIntOrPercent v)
          then Inl (Fmt ''rollout.maxUnavailable and rollout.maxSurge are both zero (got maxUnavailable=%s, maxSurge=%s)''
                 [intOrPercentString (roMaxUnavailable ro) ''0'', intOrPercentString (roMaxSurge ro) ''1''])
          else Inr ())))"

definition preStopOf :: "RolloutSpec option \<Rightarrow> int32" where
  "preStopOf rollout = (case rollout of None \<Rightarrow> DefaultPreStopSleepSeconds
     | Some ro \<Rightarrow> (case roPreStopSleepSeconds ro of None \<Rightarrow> DefaultPreStopSleepSeconds | Some s \<Rightarrow> s))"

definition graceOf :: "RolloutSpec option \<Rightarrow> int64" where
  "graceOf rollout = (case rollout of None \<Rightarrow> DefaultGracePeriodSeconds
     | Some ro \<Rightarrow> (case roTerminationGracePeriodSeconds ro of None \<Rightarrow> DefaultGracePeriodSeconds | Some s \<Rightarrow> s))"

definition ValidateWebhookServerRollout :: "golib \<Rightarrow> RolloutSpec option \<Rightarrow> string list \<Rightarrow> gerr + unit" where
  "ValidateWebhookServerRollout lib rollout extraArgs =
     bindR (shutdownTimeoutFromArgs lib extraArgs) (\<lambda>shutdown.
       let need = scast (preStopOf rollout) * second + shutdown;
           have_time = graceOf rollout * second
       in if sint have_time \<le> sint need
          then Inl (Fmt ''rollout.terminationGracePeriodSeconds (%ds) is too short: a terminating replica sleeps %ds in its preStop hook and then drains for up to %s, so it needs strictly more than %s''
                 [MInt (sint (graceOf rollout)), MInt (sint (preStopOf rollout)), MInt (sint shutdown), MInt (sint need)])
          else validateRolloutStrategy rollout)"

subsection \<open>The fleet\<close>

record ServerObject =
  soServer :: WebhookServer
  soExtraArgs :: "string list"
  soRollout :: "RolloutSpec option"
  soForceDelete :: string

definition checkDefault :: "(gerr + WebhookServer list) \<Rightarrow> WebhookServer \<Rightarrow> gerr + unit" where
  "checkDefault listed server =
     (if \<not> wsDefault server then Inr ()
      else (case listed of
              Inl e \<Rightarrow> Inl (Fmt ''listing existing ConversionWebhookServers: %w'' [e])
            | Inr items \<Rightarrow>
                (case find (\<lambda>other. wsName other \<noteq> wsName server \<and> wsDefault other) items of
                   Some other \<Rightarrow> Inl (Fmt ''ConversionWebhookServer %q is already marked default; only one instance may be default at a time (unset it first, or set spec.default=false here)'' [MStr (wsName other)])
                 | None \<Rightarrow> Inr ())))"

text \<open>The fleet as it will be: the incoming object replaces its stored copy or is appended.\<close>

definition fleetWith :: "WebhookServer \<Rightarrow> WebhookServer list \<Rightarrow> WebhookServer list" where
  "fleetWith server items =
     (let replaced = map (\<lambda>other. if wsName other = wsName server then server else other) items
      in if wsName server \<in> set (map wsName items) then replaced else replaced @ [server])"

definition checkShardPool :: "(gerr + WebhookServer list) \<Rightarrow> WebhookServer \<Rightarrow> gerr + unit" where
  "checkShardPool listed server =
     (case listed of
        Inl e \<Rightarrow> Inl (Fmt ''listing existing ConversionWebhookServers: %w'' [e])
      | Inr items \<Rightarrow>
          (let fleet = fleetWith server items; pool = ShardPool fleet in
           if pool = [] then Inr ()
           else (let defaultName = (case find wsDefault fleet of None \<Rightarrow> [] | Some s \<Rightarrow> wsName s) in
                 if defaultName = [] then Inr ()
                 else if defaultName \<in> set (map wsName pool) then Inr ()
                 else Inl (Fmt ''ConversionWebhookServer %q is marked default but is not in the sharding pool %v; while a pool exists it, not spec.default, serves configs with no explicit webhookServerRef, so this would move every unpinned config off %q at once. Set spec.sharding.enabled on %q as well (do that first when building a pool), or unset spec.default''
                        [MStr defaultName, Fmt ''%v'' (map (MStr \<circ> wsName) pool), MStr defaultName, MStr defaultName]))))"

definition validateServer :: "golib \<Rightarrow> (gerr + WebhookServer list) \<Rightarrow> ServerObject \<Rightarrow> gerr + unit" where
  "validateServer lib listed server =
     bindR (ValidateWebhookServerExtraArgs (soExtraArgs server)) (\<lambda>_.
     bindR (ValidateWebhookServerRollout lib (soRollout server) (soExtraArgs server)) (\<lambda>_.
     bindR (checkDefault listed (soServer server)) (\<lambda>_.
     checkShardPool listed (soServer server))))"

definition validateServerDelete ::
    "(float64 \<Rightarrow> float64) \<Rightarrow> (gerr + (string \<times> Config) list) \<Rightarrow> (gerr + (string \<times> Config) list) \<Rightarrow> (gerr + WebhookServer list) \<Rightarrow> ServerObject \<Rightarrow> gerr + unit" where
  "validateServerDelete logf xrds crds listed server =
     (if soForceDelete server = ''true'' then Inr ()
      else (case xrds of
        Inl e \<Rightarrow> Inl (Fmt ''listing XRDConversionConfigs: %w'' [e])
      | Inr xs \<Rightarrow> (case crds of
          Inl e \<Rightarrow> Inl (Fmt ''listing CRDConversionConfigs: %w'' [e])
        | Inr cs \<Rightarrow> (case listed of
            Inl e \<Rightarrow> Inl (Fmt ''listing ConversionWebhookServers: %w'' [e])
          | Inr servers \<Rightarrow>
              (let served = (\<lambda>nc. ServedBy logf (snd nc) servers (wsName (soServer server)));
                   names = map fst (filter served xs) @ map fst (filter served cs)
               in if names = [] then Inr ()
                  else Inl (Fmt ''%d config(s) still resolve to this instance, or still have their target pointed at it%s: %v; reassign them first, or add annotation %q=true to force''
                         [MInt (int (length names)),
                          MStr (if wsDefault (soServer server) then '' (this is the DEFAULT instance -- configs with no explicit webhookServerRef depend on it too)'' else []),
                          Fmt ''%v'' (map MStr (sort names)), MStr ''conversion.terasky.com/allow-force-delete'']))))))"


subsection \<open>Validated arguments\<close>

text \<open>Every argument with two dashes was looked at, because no skipped value starts with a dash.\<close>

lemma extraArgs_unmanaged:
  assumes "ValidateWebhookServerExtraArgs args = Inr ()" and "a \<in> set args" and "longFlagName a = Some name"
  shows "name \<notin> set operatorManagedWebhookServerFlagNames"
  using assms
proof (induction args rule: ValidateWebhookServerExtraArgs.induct)
  case (2 arg rest)
  show ?case
  proof (cases "a = arg")
    case True
    then show ?thesis using 2 by (auto split: if_splits)
  next
    case False
    have "hasPrefix a ''-''" using "2.prems"(3) by (auto simp: longFlagName_def hasPrefix_eq_prefix split: if_splits elim!: prefixE)
    then have "a \<in> set (skipValue arg rest)" using False "2.prems"(2) set_skipValue[of rest arg] by auto
    then show ?thesis using 2 False by (auto split: option.splits if_splits)
  qed
qed simp

lemma goFlag_longFlagName:
  assumes "goFlag arg = Some (name, v)" and "hasPrefix arg ''--''"
  shows "longFlagName arg = Some name"
proof -
  have n: "trimPrefix arg ''--'' = drop 2 arg" using assms(2) by (simp add: trimPrefix_def numeral_2_eq_2)
  with assms have "drop 2 arg \<noteq> []" "hd (drop 2 arg) \<noteq> CHR ''=''" "name = beforeEq (drop 2 arg)"
    by (auto simp: goFlag_def Let_def split: if_splits)
  then show ?thesis using assms(2) n by (cases "drop 2 arg") (auto simp: longFlagName_def Let_def beforeEq_def)
qed

lemma goFlag_dash: "goFlag a = Some nv \<Longrightarrow> hasPrefix a ''-''"
  by (cases a) (simp_all add: goFlag_def hasPrefix_def split: if_splits)

lemma goParseFlags_arg:
  assumes "(name, v) \<in> set (goParseFlags isBool args)"
  shows "\<exists>a\<in>set args. \<exists>w. goFlag a = Some (name, w)"
  using assms
proof (induction args rule: length_induct)
  case (1 args)
  then obtain arg rest where args: "args = arg # rest" by (cases args) auto
  with 1 obtain n w where flag: "goFlag arg = Some (n, w)" by (cases "goFlag arg") auto
  have ih: "\<exists>a\<in>set args. \<exists>w. goFlag a = Some (name, w)" if "(name, v) \<in> set (goParseFlags isBool ys)" "ys = rest \<or> ys = tl rest" for ys
  proof -
    have "length ys < length args" "set ys \<subseteq> set args" using that(2) args by (cases rest; auto)+
    then show ?thesis using 1 that(1) by blast
  qed
  show ?case
  proof (cases w)
    case (Some u)
    then have "(name, v) = (n, u) \<or> (name, v) \<in> set (goParseFlags isBool rest)" using 1 flag args by simp
    then show ?thesis using ih[of rest] flag args by auto
  next
    case None
    then have "name = n \<or> (name, v) \<in> set (goParseFlags isBool rest) \<or> (name, v) \<in> set (goParseFlags isBool (tl rest))"
      using 1 flag args by (auto split: if_splits list.splits)
    then show ?thesis using ih[of rest] ih[of "tl rest"] flag args by auto
  qed
qed

subsection \<open>The time of a terminating replica\<close>

lemma sint_second: "sint second = 1000000000"
  by (simp add: second_def sint_sbintrunc')


text \<open>
  Where the sum of sleep and drain fits in \<open>int64\<close>, the words compare as the integers do; a grace
  period that overflows is longer than any duration.
\<close>

lemma sint_need:
  assumes "0 \<le> sint p" and "0 \<le> sint d" and "sint p * 1000000000 + sint d < 2 ^ 63"
  shows "sint (scast (p :: int32) * second + d) = sint p * 1000000000 + sint d"
proof -
  have p: "sint p < 2 ^ 31" using sint_range_size[of p] by (simp add: word_size)
  have "sint (scast p :: int64) = sint p"
    by (rule sint_up_scast) (simp add: is_up)
  then have "sint (scast p * second) = sint p * 1000000000"
    using p assms(1) by (simp add: sint_word_ariths sint_second signed_take_bit_int_eq_self)
  then show ?thesis using assms by (simp add: sint_word_ariths signed_take_bit_int_eq_self)
qed


lemma sint_have:
  assumes "0 \<le> sint (g :: int64)" and "sint g * 1000000000 < 2 ^ 63"
  shows "sint (g * second) = sint g * 1000000000"
  using assms by (simp add: sint_word_ariths sint_second signed_take_bit_int_eq_self)

lemma rollout_fits:
  assumes "ValidateWebhookServerRollout lib rollout args = Inr ()" and "shutdownTimeoutFromArgs lib args = Inr d"
    and "0 \<le> sint (preStopOf rollout)" and "0 \<le> sint d" and "0 \<le> sint (graceOf rollout)"
    and "sint (preStopOf rollout) * 1000000000 + sint d < 2 ^ 63"
  shows "sint (preStopOf rollout) * 1000000000 + sint d < sint (graceOf rollout) * 1000000000"
proof (cases "sint (graceOf rollout) * 1000000000 < 2 ^ 63")
  case True
  then show ?thesis using assms(1,2) sint_need[OF assms(3,4,6)] sint_have[OF assms(5)]
    by (auto simp: ValidateWebhookServerRollout_def Let_def split: if_splits)
next
  case False
  then show ?thesis using assms(6) by linarith
qed

text \<open>The timeout is the one of the last occurrence, for arguments of the form \<open>--name=value\<close>.\<close>

definition eqArgs :: "string list \<Rightarrow> bool" where
  "eqArgs args \<longleftrightarrow> (\<forall>a\<in>set args. CHR ''='' \<in> set a)"

definition shutdownArgs :: "string list \<Rightarrow> string list" where
  "shutdownArgs args = map afterEq (filter (\<lambda>a. longFlagName a = Some ''shutdown-timeout'') args)"

lemma skipValue_eq: "CHR ''='' \<in> set arg \<Longrightarrow> skipValue arg rest = rest"
  by (cases rest) (simp_all add: skipValue_def)

lemma shutdownFrom_last:
  assumes "eqArgs args" and "shutdownFrom lib eff args = Inr d"
  shows "d = (if shutdownArgs args = [] then eff else d)
    \<and> (shutdownArgs args \<noteq> [] \<longrightarrow> lib_ParseDuration lib (last (shutdownArgs args)) = Inr d \<and> 0 < sint d)"
  using assms
proof (induction args arbitrary: eff)
  case (Cons arg rest)
  have eq: "CHR ''='' \<in> set arg" "eqArgs rest" using Cons.prems(1) by (auto simp: eqArgs_def)
  show ?case
  proof (cases "longFlagName arg = Some ''shutdown-timeout''")
    case True
    then obtain e where e: "lib_ParseDuration lib (afterEq arg) = Inr e" "0 < sint e" "shutdownFrom lib e rest = Inr d"
      using Cons.prems(2) eq by (auto simp: Let_def split: sum.splits if_splits)
    then show ?thesis using Cons.IH[OF eq(2) e(3)] True by (auto simp: shutdownArgs_def)
  next
    case False
    then have "shutdownFrom lib eff rest = Inr d"
      using Cons.prems(2) eq by (auto simp: skipValue_eq split: option.splits if_splits)
    then show ?thesis using Cons.IH[OF eq(2)] False by (simp add: shutdownArgs_def)
  qed
qed (simp add: shutdownArgs_def)


subsection \<open>The fleet over a history of admissions\<close>

definition withoutServer :: "string \<Rightarrow> WebhookServer list \<Rightarrow> WebhookServer list" where
  "withoutServer name fleet = filter (\<lambda>s. wsName s \<noteq> name) fleet"

text \<open>
  A create or update is stored when it is admitted against the current fleet; names are not empty. A
  delete may have been admitted or forced.
\<close>

inductive fleet_step :: "golib \<Rightarrow> WebhookServer list \<Rightarrow> WebhookServer list \<Rightarrow> bool" for lib where
  fleet_put: "validateServer lib (Inr fleet) server = Inr () \<Longrightarrow> wsName (soServer server) \<noteq> [] \<Longrightarrow>
    fleet_step lib fleet (fleetWith (soServer server) fleet)"
| fleet_delete: "fleet_step lib fleet (withoutServer name fleet)"

definition fleetOk :: "WebhookServer list \<Rightarrow> bool" where
  "fleetOk fleet \<longleftrightarrow> distinct (map wsName fleet) \<and> [] \<notin> set (map wsName fleet)
     \<and> (\<forall>a\<in>set fleet. \<forall>b\<in>set fleet. wsDefault a \<longrightarrow> wsDefault b \<longrightarrow> a = b)
     \<and> (\<forall>d\<in>set fleet. \<forall>p\<in>set fleet. wsDefault d \<longrightarrow> ShardingEnabled p \<longrightarrow> ShardingEnabled d)"

lemma set_fleetWith: "set (fleetWith s items) = insert s {x \<in> set items. wsName x \<noteq> wsName s}"
  by (auto simp: fleetWith_def Let_def split: if_splits)

lemma names_fleetWith: "map wsName (fleetWith s items) = map wsName items @ (if wsName s \<in> set (map wsName items) then [] else [wsName s])"
  by (auto simp: fleetWith_def Let_def)

lemma find_default:
  assumes "find wsDefault fleet = Some d"
  shows "d \<in> set fleet" and "wsDefault d"
  using assms by (auto simp: find_Some_iff)

lemma checkDefault_ok:
  assumes "checkDefault (Inr items) s = Inr ()" and "wsDefault s" and "x \<in> set items" and "wsDefault x"
  shows "wsName x = wsName s"
proof (rule ccontr)
  assume "wsName x \<noteq> wsName s"
  then have "find (\<lambda>other. wsName other \<noteq> wsName s \<and> wsDefault other) items \<noteq> None"
    using assms(3,4) by (auto simp: find_None_iff)
  then show False using assms(1,2) by (auto simp: checkDefault_def)
qed

lemma checkShardPool_ok:
  assumes "checkShardPool (Inr items) s = Inr ()" and "fleet = fleetWith s items" and "[] \<notin> set (map wsName fleet)"
    and "distinct (map wsName fleet)" and "find wsDefault fleet = Some d" and "p \<in> set fleet" and "ShardingEnabled p"
  shows "ShardingEnabled d"
proof -
  have "d \<in> set fleet" using find_default[OF assms(5)] by simp
  then have "wsName d \<noteq> []" using assms(3) by force
  moreover have "ShardPool fleet \<noteq> []" using assms(6,7) by (auto simp: ShardPool_Nil_iff)
  ultimately have "wsName d \<in> set (map wsName (ShardPool fleet))"
    using assms(1,5) unfolding checkShardPool_def assms(2)[symmetric] sum.case Let_def by (simp split: if_splits)
  then obtain q where "q \<in> set fleet" "ShardingEnabled q" "wsName q = wsName d" by auto
  then show ?thesis using assms(4) \<open>d \<in> set fleet\<close> by (auto simp: distinct_map inj_on_def)
qed

lemma fleetOk_put:
  assumes "fleetOk fleet" and "validateServer lib (Inr fleet) server = Inr ()" and "wsName (soServer server) \<noteq> []"
  shows "fleetOk (fleetWith (soServer server) fleet)"
proof -
  let ?s = "soServer server" and ?f = "fleetWith (soServer server) fleet"
  from assms(2) have cd: "checkDefault (Inr fleet) ?s = Inr ()" and cp: "checkShardPool (Inr fleet) ?s = Inr ()"
    by (auto simp: validateServer_def bindR_Inr_iff)
  have names: "distinct (map wsName ?f)" "[] \<notin> set (map wsName ?f)"
    using assms(1,3) by (auto simp: names_fleetWith fleetOk_def)
  have one: "a = b" if "a \<in> set ?f" "b \<in> set ?f" "wsDefault a" "wsDefault b" for a b
    using that assms(1) checkDefault_ok[OF cd] by (auto simp: set_fleetWith fleetOk_def)
  have "ShardingEnabled d" if d: "d \<in> set ?f" "wsDefault d" and p: "p \<in> set ?f" "ShardingEnabled p" for d p
  proof -
    obtain d' where d': "find wsDefault ?f = Some d'" using d by (cases "find wsDefault ?f") (auto simp: find_None_iff)
    then have "d' = d" using one[of d' d] d find_default[OF d'] by simp
    then show ?thesis using checkShardPool_ok[OF cp refl names(2,1) d' p] by simp
  qed
  with names one show ?thesis unfolding fleetOk_def by blast
qed

lemma fleetOk_delete: "fleetOk fleet \<Longrightarrow> fleetOk (withoutServer name fleet)"
proof -
  assume ok: "fleetOk fleet"
  have "set (withoutServer name fleet) \<subseteq> set fleet" by (auto simp: withoutServer_def)
  moreover have "distinct (map wsName (withoutServer name fleet))"
    unfolding withoutServer_def using ok by (intro distinct_map_filter) (simp add: fleetOk_def)
  moreover have "[] \<notin> set (map wsName (withoutServer name fleet))" using ok by (auto simp: fleetOk_def withoutServer_def)
  ultimately show ?thesis using ok unfolding fleetOk_def by blast
qed

lemma fleetOk_reachable:
  assumes "(fleet_step lib)\<^sup>*\<^sup>* [] fleet"
  shows "fleetOk fleet"
  using assms
proof (induction rule: rtranclp_induct)
  case (step f g)
  from step(2,3) show ?case by (cases rule: fleet_step.cases) (auto intro: fleetOk_put fleetOk_delete)
qed (simp add: fleetOk_def)

text \<open>In such a fleet the defaults are none or one.\<close>

lemma defaults_le_one:
  assumes "distinct xs" and "\<forall>a\<in>set xs. \<forall>b\<in>set xs. P a \<longrightarrow> P b \<longrightarrow> a = b"
  shows "filter P xs = [] \<or> (\<exists>d. filter P xs = [d])"
proof (cases "filter P xs" rule: remdups_adj.cases)
  case (3 x y ys)
  then have "x \<in> set (filter P xs)" "y \<in> set (filter P xs)" "x \<noteq> y" using distinct_filter[OF assms(1), of P] by auto
  then show ?thesis using assms(2) by auto
qed auto

lemma fleetOk_defaults: "fleetOk fleet \<Longrightarrow> filter wsDefault fleet = [] \<or> (\<exists>d. filter wsDefault fleet = [d])"
  unfolding fleetOk_def by (intro defaults_le_one) (auto simp: distinct_map)

subsection \<open>Deleting a server\<close>

lemma delete_keeps_assignment:
  assumes "fleetOk fleet" and "s \<in> set fleet" and "scored logf (cfgShardKey cfg) fleet"
    and "ResolveAssignment logf cfg fleet = Inr m" and "m \<noteq> wsName s"
  shows "ResolveAssignment logf cfg (withoutServer (wsName s) fleet) = Inr m"
proof -
  let ?rest = "withoutServer (wsName s) fleet"
  have set_rest: "set ?rest = set fleet - {s}"
    using assms(1,2) by (auto simp: withoutServer_def fleetOk_def distinct_map inj_on_def)
  have scored: "scored logf (cfgShardKey cfg) ?rest" using assms(3) set_rest by (auto simp: scored_def)
  show ?thesis
  proof (cases "unpinned cfg")
    case False
    then show ?thesis using assms(4,5)
      by (auto simp: ResolveAssignment_def unpinned_def withoutServer_def split: option.splits if_splits)
  next
    case True
    show ?thesis
    proof (cases "ShardPool fleet = []")
      case True
      then have pool: "ShardPool ?rest = []" using set_rest by (auto simp: ShardPool_Nil_iff)
      from True assms(4) \<open>unpinned cfg\<close> fleetOk_defaults[OF assms(1)] obtain d where d: "filter wsDefault fleet = [d]" "wsName d = m"
        by (auto simp: resolve_unpinned resolveUnpinned_def)
      have "filter wsDefault ?rest = filter (\<lambda>x. wsName x \<noteq> wsName s) (filter wsDefault fleet)"
        by (simp add: withoutServer_def conj_commute)
      then have "filter wsDefault ?rest = [d]" using d assms(5) by simp
      then show ?thesis using pool d(2) \<open>unpinned cfg\<close> by (simp add: resolve_unpinned resolveUnpinned_def)
    next
      case False
      have pick: "PickShard logf (ShardPool fleet) (cfgShardKey cfg) = m"
        using False assms(4) \<open>unpinned cfg\<close> by (simp add: resolve_unpinned resolveUnpinned_def)
      have sp: "scored logf (cfgShardKey cfg) (ShardPool fleet)" using assms(3) by (auto simp: scored_def)
      from PickShard_mem[OF False sp] pick obtain q where q: "q \<in> set fleet" "ShardingEnabled q" "wsName q = m" by auto
      then have ne: "ShardPool ?rest \<noteq> []" using assms(5) set_rest by (auto simp: ShardPool_Nil_iff)
      have "PickShard logf (ShardPool ?rest) (cfgShardKey cfg) = m"
      proof (cases "ShardingEnabled s")
        case True
        have "set (ShardPool fleet) = insert s (set (ShardPool ?rest))" using True set_rest assms(2) by auto
        from PickShard_add[OF this sp ne] show ?thesis using pick assms(5) by auto
      next
        case False
        have "PickShard logf (ShardPool ?rest) (cfgShardKey cfg) = PickShard logf (ShardPool fleet) (cfgShardKey cfg)"
          by (rule PickShard_order) (use set_rest False scored in \<open>auto simp: scored_def\<close>)
        then show ?thesis using pick by simp
      qed
      then show ?thesis using ne \<open>unpinned cfg\<close> by (simp add: resolve_unpinned resolveUnpinned_def)
    qed
  qed
qed

lemma delete_admitted_unserved:
  assumes "validateServerDelete logf (Inr xs) (Inr cs) (Inr fleet) server = Inr ()" and "soForceDelete server \<noteq> ''true''"
    and "(n, c) \<in> set xs \<union> set cs"
  shows "\<not> ServedBy logf c fleet (wsName (soServer server))"
  using assms by (auto simp: validateServerDelete_def Let_def filter_empty_conv split: if_splits)

end
