(* ===== verification/XRDObjects.thy ===== *)
theory XRDObjects
  imports Platform "HOL-Library.AList"
begin

text \<open>
  Crossplane XRDs as unstructured objects: the adapter (\<open>pkg/xrdadapter\<close>), the patches the
  controllers apply (\<open>internal/conversionpatch\<close>) and the admission guard that restores them
  (\<open>internal/webhook/xrd_conversion_guard.go\<close>). The accessors of \<open>k8s.io/apimachinery\<close> and \<open>url.Parse\<close>
  are the fields of the record \<open>k8slib\<close>. A reader gives an error, nothing, or the value.
\<close>

record OwnerReference =
  orAPIVersion :: string
  orKind :: string
  orName :: string
  orUID :: string

record k8slib =
  k8_NestedString :: "jobj \<Rightarrow> FieldPath \<Rightarrow> gerr + string option"
  k8_NestedBool :: "jobj \<Rightarrow> FieldPath \<Rightarrow> gerr + bool option"
  k8_NestedInt64 :: "jobj \<Rightarrow> FieldPath \<Rightarrow> gerr + int64 option"
  k8_NestedMap :: "jobj \<Rightarrow> FieldPath \<Rightarrow> gerr + jobj option"
  k8_NestedSlice :: "jobj \<Rightarrow> FieldPath \<Rightarrow> gerr + jval list option"
  k8_SetNestedMap :: "jobj \<Rightarrow> jobj \<Rightarrow> FieldPath \<Rightarrow> gerr + jobj"
  k8_GetAnnotations :: "jobj \<Rightarrow> (string \<times> string) list"
  k8_SetAnnotations :: "jobj \<Rightarrow> (string \<times> string) list \<Rightarrow> jobj"
  k8_GetName :: "jobj \<Rightarrow> string"
  k8_GetAPIVersion :: "jobj \<Rightarrow> string"
  k8_GetOwnerReferences :: "jobj \<Rightarrow> OwnerReference list"
  k8_SchemaProps :: "jobj \<Rightarrow> gerr + schema"
  k8_IsStatusConditionTrue :: "(string \<times> string) list \<Rightarrow> string \<Rightarrow> bool"
  k8_ParseURL :: "string \<Rightarrow> gerr + (string \<times> string)"   \<comment> \<open>scheme and host name\<close>

text \<open>\<open>v, _, _ := NestedString(...)\<close>: the zero value where there is none.\<close>

definition stringOr :: "gerr + string option \<Rightarrow> string" where
  "stringOr r = (case r of Inr (Some s) \<Rightarrow> s | _ \<Rightarrow> [])"

definition int64Or :: "gerr + int64 option \<Rightarrow> int64" where
  "int64Or r = (case r of Inr (Some i) \<Rightarrow> i | _ \<Rightarrow> 0)"

definition foundIn :: "gerr + 'a option \<Rightarrow> bool" where
  "foundIn r = (case r of Inr (Some _) \<Rightarrow> True | _ \<Rightarrow> False)"

subsection \<open>Scope\<close>

datatype Scope = ScopeNamespaced | ScopeCluster | ScopeLegacyCluster | ScopeIndeterminate
datatype Confidence = ConfidenceHigh | ConfidenceInferred | ConfidenceNone

record ScopeResolution =
  resScope :: Scope
  resConfidence :: Confidence
  resReason :: msg

abbreviation "resolution s c r \<equiv> \<lparr>resScope = s, resConfidence = c, resReason = r\<rparr>"

definition LegacyGroupVersion :: string where "LegacyGroupVersion = ''apiextensions.crossplane.io/v1''"
definition CurrentGroupVersion :: string where "CurrentGroupVersion = ''apiextensions.crossplane.io/v2''"

definition scopeString :: "Scope \<Rightarrow> string" where
  "scopeString s = (case s of ScopeNamespaced \<Rightarrow> ''Namespaced'' | ScopeCluster \<Rightarrow> ''Cluster''
     | ScopeLegacyCluster \<Rightarrow> ''LegacyCluster'' | ScopeIndeterminate \<Rightarrow> ''Indeterminate'')"

definition scopeDefaultForAPIVersion :: "string \<Rightarrow> Scope option" where
  "scopeDefaultForAPIVersion apiVersion =
     (if apiVersion = LegacyGroupVersion then Some ScopeLegacyCluster
      else if apiVersion = CurrentGroupVersion then Some ScopeNamespaced else None)"

fun joinTail :: "string list \<Rightarrow> string" where
  "joinTail [] = []"
| "joinTail [x] = '' and '' @ x"
| "joinTail (x # xs) = '', '' @ x @ joinTail xs"

definition joinSignals :: "string list \<Rightarrow> string" where
  "joinSignals s = (case s of [] \<Rightarrow> [] | x # xs \<Rightarrow> x @ joinTail xs)"

text \<open>The signals that only a \<open>LegacyCluster\<close> XRD can carry, or the error of a malformed one.\<close>

definition legacySignals :: "k8slib \<Rightarrow> jobj \<Rightarrow> msg + string list" where
  "legacySignals k xrd =
     (case k8_NestedMap k xrd [''spec'', ''claimNames''] of
        Inl e \<Rightarrow> Inl (Fmt ''spec.claimNames is not an object: %v'' [e])
      | Inr claims \<Rightarrow>
          (case k8_NestedSlice k xrd [''spec'', ''connectionSecretKeys''] of
             Inl e \<Rightarrow> Inl (Fmt ''spec.connectionSecretKeys is not a list: %v'' [e])
           | Inr keys \<Rightarrow> Inr ((if claims \<noteq> None then [''spec.claimNames''] else []) @ (if keys \<noteq> None then [''spec.connectionSecretKeys''] else []))))"

definition scopeWithoutSignals :: "string \<Rightarrow> string \<Rightarrow> ScopeResolution" where
  "scopeWithoutSignals declared apiVersion =
     (if declared = ''Namespaced'' then resolution ScopeNamespaced ConfidenceHigh (Fmt ''spec.scope is explicitly %s'' [MStr declared])
      else if declared = ''Cluster'' then resolution ScopeCluster ConfidenceHigh (Fmt ''spec.scope is explicitly %s'' [MStr declared])
      else if declared = ''LegacyCluster'' then resolution ScopeLegacyCluster ConfidenceHigh (Fmt ''spec.scope is explicitly %s'' [MStr declared])
      else if declared = [] then
        (case scopeDefaultForAPIVersion apiVersion of
           Some defaulted \<Rightarrow> resolution defaulted ConfidenceInferred
             (Fmt ''spec.scope is absent; %s defaults it to %s. Declare spec.scope explicitly to remove the dependence on which API version this is applied at''
                [MStr apiVersion, MStr (scopeString defaulted)])
         | None \<Rightarrow> resolution ScopeIndeterminate ConfidenceNone
             (Fmt ''spec.scope is absent, no claim signal is present, and apiVersion %q is not a recognized XRD API version; the apiserver defaults an absent scope to LegacyCluster at apiextensions.crossplane.io/v1 and to Namespaced at /v2, so the scope cannot be determined. Declare spec.scope explicitly'' [MStr apiVersion]))
      else resolution ScopeIndeterminate ConfidenceNone (Fmt ''spec.scope has the unrecognized value %q'' [MStr declared]))"

definition ResolveScope :: "k8slib \<Rightarrow> jobj option \<Rightarrow> ScopeResolution" where
  "ResolveScope k object =
     (case object of
        None \<Rightarrow> resolution ScopeIndeterminate ConfidenceNone (MStr ''no XRD object to read scope from'')
      | Some xrd \<Rightarrow>
          (case k8_NestedString k xrd [''spec'', ''scope''] of
             Inl e \<Rightarrow> resolution ScopeIndeterminate ConfidenceNone (Fmt ''spec.scope is not a string: %v'' [e])
           | Inr read \<Rightarrow>
               (let declared = (case read of None \<Rightarrow> [] | Some s \<Rightarrow> s) in
                case legacySignals k xrd of
                  Inl m \<Rightarrow> resolution ScopeIndeterminate ConfidenceNone m
                | Inr signals \<Rightarrow>
                    (if signals \<noteq> [] then
                       (if declared = ''LegacyCluster'' then resolution ScopeLegacyCluster ConfidenceHigh
                            (Fmt ''spec.scope is LegacyCluster, corroborated by %s'' [MStr (joinSignals signals)])
                        else if declared = [] then resolution ScopeLegacyCluster ConfidenceInferred
                            (Fmt ''spec.scope is absent, but %s can only exist on a LegacyCluster XRD'' [MStr (joinSignals signals)])
                        else resolution ScopeLegacyCluster ConfidenceInferred
                            (Fmt ''spec.scope says %q, but %s can only exist on a LegacyCluster XRD and Crossplane's own CEL rule would reject this combination; treating it as LegacyCluster''
                               [MStr declared, MStr (joinSignals signals)]))
                     else scopeWithoutSignals declared (k8_GetAPIVersion k xrd)))))"

definition WriteGroupVersion :: "k8slib \<Rightarrow> jobj option \<Rightarrow> string" where
  "WriteGroupVersion k object =
     (case object of
        None \<Rightarrow> CurrentGroupVersion
      | Some xrd \<Rightarrow> (if foundIn (k8_NestedMap k xrd [''spec'', ''claimNames'']) then LegacyGroupVersion else CurrentGroupVersion))"

subsection \<open>Injected paths\<close>

definition modernSpecInjected :: "FieldPath list" where
  "modernSpecInjected = [[''spec'', ''crossplane'']]"

definition legacySpecInjected :: "FieldPath list" where
  "legacySpecInjected = map (\<lambda>f. [''spec'', f]) [''compositionRef'', ''compositionSelector'', ''compositionRevisionRef'',
     ''compositionRevisionSelector'', ''compositionUpdatePolicy'', ''resourceRefs'', ''claimRef'', ''writeConnectionSecretToRef'']"

definition claimSpecInjected :: "FieldPath list" where
  "claimSpecInjected = map (\<lambda>f. [''spec'', f]) [''compositionRef'', ''compositionSelector'', ''compositionRevisionRef'',
     ''compositionRevisionSelector'', ''compositionUpdatePolicy'', ''compositeDeletePolicy'', ''resourceRef'', ''writeConnectionSecretToRef'']"

definition commonStatusInjected :: "FieldPath list" where
  "commonStatusInjected = [[''status'', ''conditions'']]"

definition legacyStatusInjected :: "FieldPath list" where
  "legacyStatusInjected = [[''status'', ''conditions''], [''status'', ''connectionDetails''], [''status'', ''claimConditionTypes'']]"

fun firstOccurrences :: "FieldPath list \<Rightarrow> string list \<Rightarrow> FieldPath list" where
  "firstOccurrences [] seen = []"
| "firstOccurrences (p # ps) seen =
     (if pathString p \<in> set seen then firstOccurrences ps seen else p # firstOccurrences ps (pathString p # seen))"

definition concatPaths :: "FieldPath list list \<Rightarrow> FieldPath list" where
  "concatPaths sets = firstOccurrences (concat sets) []"

definition InjectedPathsForScope :: "Scope \<Rightarrow> bool \<Rightarrow> FieldPath list" where
  "InjectedPathsForScope s claims =
     (case s of
        ScopeNamespaced \<Rightarrow> concatPaths [modernSpecInjected, commonStatusInjected]
      | ScopeCluster \<Rightarrow> concatPaths [modernSpecInjected, commonStatusInjected]
      | ScopeLegacyCluster \<Rightarrow>
          (if \<not> claims then concatPaths [legacySpecInjected, legacyStatusInjected]
           else concatPaths [legacySpecInjected, claimSpecInjected, legacyStatusInjected])
      | ScopeIndeterminate \<Rightarrow> [])"

definition InjectedPathsUnion :: "FieldPath list" where
  "InjectedPathsUnion = concatPaths [modernSpecInjected, legacySpecInjected, claimSpecInjected, legacyStatusInjected]"

definition offersClaims :: "k8slib \<Rightarrow> jobj option \<Rightarrow> bool" where
  "offersClaims k object = (case object of None \<Rightarrow> False | Some xrd \<Rightarrow> foundIn (k8_NestedMap k xrd [''spec'', ''claimNames'']))"

text \<open>\<open>sprint\<close> renders a message, as \<open>fmt.Sprintf\<close> does.\<close>

definition sourceInjectedPaths :: "k8slib \<Rightarrow> (msg \<Rightarrow> string) \<Rightarrow> jobj option \<Rightarrow> PlatformInjectedPaths" where
  "sourceInjectedPaths k sprint xrd =
     (let res = ResolveScope k xrd in
      if resScope res = ScopeIndeterminate
      then \<lparr>pipPlatform = ''Crossplane'', pipPaths = InjectedPathsUnion, pipUncertain = True,
            pipUncertainReason = ''the XRD's scope could not be determined ('' @ sprint (resReason res) @ '')''\<rparr>
      else \<lparr>pipPlatform = ''Crossplane'', pipPaths = InjectedPathsForScope (resScope res) (offersClaims k xrd),
            pipUncertain = False, pipUncertainReason = []\<rparr>)"

subsection \<open>Versions and health\<close>

record XRDVersion =
  xvName :: string
  xvSchema :: "schema option"
  xvServed :: bool
  xvReferenceable :: bool

definition atVersion :: "nat \<Rightarrow> string \<Rightarrow> gerr \<Rightarrow> gerr" where
  "atVersion i what e = Fmt ''xrdadapter: spec.versions[%d]%s: %w'' [MInt (int i), MStr what, e]"

definition readSchema :: "k8slib \<Rightarrow> nat \<Rightarrow> jobj \<Rightarrow> gerr + schema option" where
  "readSchema k i vm =
     (case k8_NestedMap k vm [''schema'', ''openAPIV3Schema''] of
        Inl e \<Rightarrow> Inl (atVersion i ''.schema.openAPIV3Schema'' e)
      | Inr None \<Rightarrow> Inr None
      | Inr (Some m) \<Rightarrow>
          (case k8_SchemaProps k m of
             Inl e \<Rightarrow> Inl (atVersion i ''.schema.openAPIV3Schema: converting'' e)
           | Inr js \<Rightarrow> Inr (Some js)))"

definition readFlag :: "k8slib \<Rightarrow> nat \<Rightarrow> string \<Rightarrow> jobj \<Rightarrow> gerr + bool" where
  "readFlag k i field vm =
     (case k8_NestedBool k vm [field] of
        Inl e \<Rightarrow> Inl (atVersion i (''.'' @ field) e)
      | Inr b \<Rightarrow> Inr (b = Some True))"

definition readVersion :: "k8slib \<Rightarrow> nat \<times> jval \<Rightarrow> gerr + XRDVersion" where
  "readVersion k iv =
     (case snd iv of
        JObj vm \<Rightarrow>
          (case k8_NestedString k vm [''name''] of
             Inl e \<Rightarrow> Inl (atVersion (fst iv) ''.name'' e)
           | Inr n \<Rightarrow>
               bindR (readFlag k (fst iv) ''served'' vm) (\<lambda>served.
               bindR (readFlag k (fst iv) ''referenceable'' vm) (\<lambda>referenceable.
               bindR (readSchema k (fst iv) vm) (\<lambda>js.
               Inr \<lparr>xvName = (case n of None \<Rightarrow> [] | Some s \<Rightarrow> s), xvSchema = js, xvServed = served, xvReferenceable = referenceable\<rparr>))))
      | _ \<Rightarrow> Inl (Fmt ''xrdadapter: spec.versions[%d] is not an object'' [MInt (int (fst iv))]))"

definition xrdVersions :: "k8slib \<Rightarrow> jobj \<Rightarrow> gerr + XRDVersion list" where
  "xrdVersions k xrd =
     (case k8_NestedSlice k xrd [''spec'', ''versions''] of
        Inl e \<Rightarrow> Inl (Fmt ''xrdadapter: reading spec.versions: %w'' [e])
      | Inr None \<Rightarrow> Inl (Fmt ''xrdadapter: XRD %q has no spec.versions'' [MStr (k8_GetName k xrd)])
      | Inr (Some raws) \<Rightarrow> mapR (readVersion k) (List.enumerate 0 raws))"

fun establishedIn :: "k8slib \<Rightarrow> jval list \<Rightarrow> bool" where
  "establishedIn k [] = False"
| "establishedIn k (c # cs) =
     (case c of
        JObj cm \<Rightarrow> (if stringOr (k8_NestedString k cm [''type'']) = ''Established''
                    then stringOr (k8_NestedString k cm [''status'']) = ''True'' else establishedIn k cs)
      | _ \<Rightarrow> establishedIn k cs)"

definition Established :: "k8slib \<Rightarrow> jobj \<Rightarrow> bool" where
  "Established k xrd =
     (case k8_NestedSlice k xrd [''status'', ''conditions''] of Inr (Some cs) \<Rightarrow> establishedIn k cs | _ \<Rightarrow> False)"

subsection \<open>Generated CRDs and package owners\<close>

record GeneratedCRD =
  gcRole :: string
  gcName :: string
  gcGroup :: string
  gcPlural :: string
  gcKind :: string
  gcNamespaced :: bool

abbreviation RoleComposite :: string where "RoleComposite \<equiv> ''composite''"
abbreviation RoleClaim :: string where "RoleClaim \<equiv> ''claim''"

definition requiredString :: "k8slib \<Rightarrow> jobj \<Rightarrow> FieldPath \<Rightarrow> string \<Rightarrow> gerr + string" where
  "requiredString k xrd path label =
     (case k8_NestedString k xrd path of
        Inr (Some s) \<Rightarrow> (if s = [] then Inl (Fmt ''xrdadapter: XRD %q is missing %s'' [MStr (k8_GetName k xrd), MStr label]) else Inr s)
      | _ \<Rightarrow> Inl (Fmt ''xrdadapter: XRD %q is missing %s'' [MStr (k8_GetName k xrd), MStr label]))"

definition generatedClaim :: "k8slib \<Rightarrow> jobj \<Rightarrow> string \<Rightarrow> gerr + GeneratedCRD list" where
  "generatedClaim k xrd grp =
     (case k8_NestedMap k xrd [''spec'', ''claimNames''] of
        Inl e \<Rightarrow> Inl (Fmt ''xrdadapter: XRD %q has a malformed spec.claimNames: %w'' [MStr (k8_GetName k xrd), e])
      | Inr None \<Rightarrow> Inr []
      | Inr (Some claimNames) \<Rightarrow>
          (let claimPlural = stringOr (k8_NestedString k claimNames [''plural'']);
               claimKind = stringOr (k8_NestedString k claimNames [''kind'']) in
           if claimPlural = []
           then Inl (Fmt ''xrdadapter: XRD %q declares spec.claimNames but no usable spec.claimNames.plural; it generates a claim CRD this operator cannot address'' [MStr (k8_GetName k xrd)])
           else if claimKind = []
           then Inl (Fmt ''xrdadapter: XRD %q declares spec.claimNames but no usable spec.claimNames.kind'' [MStr (k8_GetName k xrd)])
           else Inr [\<lparr>gcRole = RoleClaim, gcName = claimPlural @ ''.'' @ grp, gcGroup = grp, gcPlural = claimPlural,
                      gcKind = claimKind, gcNamespaced = True\<rparr>]))"

definition GeneratedCRDNames :: "k8slib \<Rightarrow> jobj option \<Rightarrow> gerr + GeneratedCRD list" where
  "GeneratedCRDNames k object =
     (case object of
        None \<Rightarrow> Inl (MStr ''xrdadapter: no XRD object'')
      | Some xrd \<Rightarrow>
          bindR (requiredString k xrd [''spec'', ''group''] ''spec.group'') (\<lambda>grp.
          bindR (requiredString k xrd [''spec'', ''names'', ''plural''] ''spec.names.plural'') (\<lambda>plural.
          bindR (requiredString k xrd [''spec'', ''names'', ''kind''] ''spec.names.kind'') (\<lambda>kind.
          bindR (generatedClaim k xrd grp) (\<lambda>claims.
          Inr (\<lparr>gcRole = RoleComposite, gcName = plural @ ''.'' @ grp, gcGroup = grp, gcPlural = plural, gcKind = kind,
                gcNamespaced = (resScope (ResolveScope k object) = ScopeNamespaced)\<rparr> # claims))))))"

record PackageOwner =
  poKind :: string
  poName :: string
  poAPIVersion :: string

definition hasSuffix :: "string \<Rightarrow> string \<Rightarrow> bool" where
  "hasSuffix s suf = hasPrefix (rev s) (rev suf)"

definition isPackageRevision :: "OwnerReference \<Rightarrow> bool" where
  "isPackageRevision ref \<longleftrightarrow> takeWhile (\<lambda>c. c \<noteq> CHR ''/'') (orAPIVersion ref) = ''pkg.crossplane.io'' \<and> hasSuffix (orKind ref) ''Revision''"

definition PackageManagedBy :: "k8slib \<Rightarrow> jobj \<Rightarrow> PackageOwner option" where
  "PackageManagedBy k xrd =
     map_option (\<lambda>ref. \<lparr>poKind = orKind ref, poName = orName ref, poAPIVersion = orAPIVersion ref\<rparr>)
       (List.find isPackageRevision (k8_GetOwnerReferences k xrd))"

subsection \<open>The patches of the controllers\<close>

abbreviation ManagedByAnnotation :: string where "ManagedByAnnotation \<equiv> ''conversion.terasky.com/managed-by''"
abbreviation PlanHashAnnotation :: string where "PlanHashAnnotation \<equiv> ''conversion.terasky.com/plan-hash''"

record Params =
  pTargetName :: string
  pXRDAPIVersion :: string
  pConfigName :: string
  pPlanHash :: string
  pServiceName :: string
  pServiceNamespace :: string
  pPath :: string
  pPort :: int32
  pCABundle :: string
  pReviewVersions :: "string list"

definition xrdWriteAPIVersion :: "string \<Rightarrow> string" where
  "xrdWriteAPIVersion apiVersion = (if apiVersion \<noteq> [] then apiVersion else CurrentGroupVersion)"

definition toAnySlice :: "string list \<Rightarrow> jval" where
  "toAnySlice ss = JArr (map JStr ss)"

text \<open>The service coordinates, which the patch and the guard write the same way.\<close>

definition serviceRef :: "string \<Rightarrow> string \<Rightarrow> string \<Rightarrow> int32 \<Rightarrow> jobj" where
  "serviceRef name namespace path port =
     [(''name'', JStr name), (''namespace'', JStr namespace), (''path'', JStr path), (''port'', JInt64 (scast port))]"

definition conversionStanza :: "jobj \<Rightarrow> string list \<Rightarrow> jobj" where
  "conversionStanza clientConfig reviewVersions =
     [(''strategy'', JStr ''Webhook''),
      (''webhook'', JObj [(''clientConfig'', JObj clientConfig), (''conversionReviewVersions'', toAnySlice reviewVersions)])]"

definition BuildXRDConversionPatch :: "Params \<Rightarrow> jobj" where
  "BuildXRDConversionPatch p =
     [(''apiVersion'', JStr (xrdWriteAPIVersion (pXRDAPIVersion p))),
      (''kind'', JStr ''CompositeResourceDefinition''),
      (''metadata'', JObj [(''name'', JStr (pTargetName p)),
         (''annotations'', JObj [(ManagedByAnnotation, JStr (pConfigName p)), (PlanHashAnnotation, JStr (pPlanHash p))])]),
      (''spec'', JObj [(''conversion'', JObj (conversionStanza
         [(''service'', JObj (serviceRef (pServiceName p) (pServiceNamespace p) (pPath p) (pPort p))), (''caBundle'', JStr (pCABundle p))]
         (pReviewVersions p)))])]"

definition BuildXRDRevertPatch :: "string \<Rightarrow> string \<Rightarrow> jobj" where
  "BuildXRDRevertPatch targetName apiVersion =
     [(''apiVersion'', JStr (xrdWriteAPIVersion apiVersion)), (''kind'', JStr ''CompositeResourceDefinition''),
      (''metadata'', JObj [(''name'', JStr targetName)]), (''spec'', JObj [(''conversion'', JObj [(''strategy'', JStr ''None'')])])]"

subsection \<open>The guard\<close>

record appliedConfig =
  acName :: string
  acLastAppliedPlanHash :: string
  acConditions :: "(string \<times> string) list"
  acAssignedWebhookServer :: string
  acWebhookPath :: string
  acWebhookURL :: string
  acWebhookPort :: int32
  acDeleting :: bool
  acReviewVersions :: "string list"

record guardService =
  gsName :: string
  gsNamespace :: string
  gsPort :: int32

definition guardWebhookService :: "k8slib \<Rightarrow> appliedConfig \<Rightarrow> gerr + guardService" where
  "guardWebhookService k cfg =
     (let unusable = Inl (Fmt ''the config's status.webhookURL %q is not a usable https URL'' [MStr (acWebhookURL cfg)]) in
      case k8_ParseURL k (acWebhookURL cfg) of
        Inl _ \<Rightarrow> unusable
      | Inr (scheme, host) \<Rightarrow>
          (if scheme \<noteq> ''https'' \<or> host = [] then unusable
           else (case splitStr host ''.'' of
                   svc # ns # _ # _ \<Rightarrow>
                     (if svc = [] \<or> ns = [] then Inl (Fmt ''the config's status.webhookURL host %q is not <service>.<namespace>.svc'' [MStr host])
                      else Inr \<lparr>gsName = svc, gsNamespace = ns, gsPort = (if acWebhookPort cfg = 0 then 443 else acWebhookPort cfg)\<rparr>)
                 | _ \<Rightarrow> Inl (Fmt ''the config's status.webhookURL host %q is not <service>.<namespace>.svc'' [MStr host]))))"

definition annotation :: "k8slib \<Rightarrow> jobj \<Rightarrow> string \<Rightarrow> string" where
  "annotation k xrd key = (case map_of (k8_GetAnnotations k xrd) key of None \<Rightarrow> [] | Some v \<Rightarrow> v)"

abbreviation servicePath :: "string \<Rightarrow> FieldPath" where
  "servicePath f \<equiv> [''spec'', ''conversion'', ''webhook'', ''clientConfig'', ''service'', f]"

text \<open>\<open>Inl\<close> is the reason for leaving the object alone.\<close>

definition shouldRestoreConversion :: "k8slib \<Rightarrow> jobj \<Rightarrow> appliedConfig \<Rightarrow> msg + unit" where
  "shouldRestoreConversion k xrd cfg =
     (if acLastAppliedPlanHash cfg = [] then Inl (MStr ''the config has never successfully applied'')
      else if \<not> k8_IsStatusConditionTrue k (acConditions cfg) ''Applied'' then Inl (MStr ''the config's Applied condition is not True'')
      else if acAssignedWebhookServer cfg = [] \<or> acWebhookPath cfg = [] then Inl (MStr ''the config has no resolved webhook coordinates'')
      else if acDeleting cfg then Inl (MStr ''the config is being deleted'')
      else (let strategy = stringOr (k8_NestedString k xrd [''spec'', ''conversion'', ''strategy'']) in
            if strategy = [] then Inr ()
            else if strategy \<noteq> ''Webhook'' then Inr ()
            else if annotation k xrd ManagedByAnnotation \<noteq> acName cfg
            then Inl (MStr ''spec.conversion points at a webhook this operator does not manage'')
            else (case guardWebhookService k cfg of
                    Inl e \<Rightarrow> Inl e
                  | Inr want \<Rightarrow>
                      (if stringOr (k8_NestedString k xrd (servicePath ''name'')) = gsName want
                          \<and> stringOr (k8_NestedString k xrd (servicePath ''namespace'')) = gsNamespace want
                          \<and> stringOr (k8_NestedString k xrd (servicePath ''path'')) = acWebhookPath cfg
                          \<and> int64Or (k8_NestedInt64 k xrd (servicePath ''port'')) = scast (gsPort want)
                          \<and> annotation k xrd PlanHashAnnotation = acLastAppliedPlanHash cfg
                       then Inl (MStr ''the incoming XRD already carries the applied conversion stanza'')
                       else Inr ()))))"

definition restoredClientConfig :: "k8slib \<Rightarrow> jobj \<Rightarrow> appliedConfig \<Rightarrow> guardService \<Rightarrow> jobj" where
  "restoredClientConfig k xrd cfg svc =
     (let service = [(''service'', JObj (serviceRef (gsName svc) (gsNamespace svc) (acWebhookPath cfg) (gsPort svc)))];
          existing = stringOr (k8_NestedString k xrd [''spec'', ''conversion'', ''webhook'', ''clientConfig'', ''caBundle''])
      in if existing \<noteq> [] then AList.update ''caBundle'' (JStr existing) service else service)"

definition restoredVersions :: "appliedConfig \<Rightarrow> string list" where
  "restoredVersions cfg = (if acReviewVersions cfg = [] then [''v1''] else acReviewVersions cfg)"

definition stampAnnotations :: "k8slib \<Rightarrow> appliedConfig \<Rightarrow> jobj \<Rightarrow> jobj" where
  "stampAnnotations k cfg xrd =
     k8_SetAnnotations k xrd (AList.update PlanHashAnnotation (acLastAppliedPlanHash cfg)
       (AList.update ManagedByAnnotation (acName cfg) (k8_GetAnnotations k xrd)))"

definition applyConversionToXRD :: "k8slib \<Rightarrow> jobj \<Rightarrow> appliedConfig \<Rightarrow> gerr + jobj" where
  "applyConversionToXRD k xrd cfg =
     bindR (guardWebhookService k cfg) (\<lambda>svc.
       case k8_SetNestedMap k xrd (conversionStanza (restoredClientConfig k xrd cfg svc) (restoredVersions cfg)) [''spec'', ''conversion''] of
         Inl e \<Rightarrow> Inl (Fmt ''setting spec.conversion: %w'' [e])
       | Inr xrd' \<Rightarrow> Inr (stampAnnotations k cfg xrd'))"

text \<open>The configurations the index lists for a name; the guard acts on exactly one.\<close>

definition lookupConfig :: "(string \<Rightarrow> gerr + appliedConfig list) \<Rightarrow> string \<Rightarrow> appliedConfig option" where
  "lookupConfig index xrdName =
     (if xrdName = [] then None else (case index xrdName of Inr [cfg] \<Rightarrow> Some cfg | _ \<Rightarrow> None))"

text \<open>The patched object, or \<open>None\<close> where the write is allowed as it is.\<close>

definition Handle :: "golib \<Rightarrow> k8slib \<Rightarrow> (string \<Rightarrow> gerr + appliedConfig list) \<Rightarrow> string \<Rightarrow> gerr + jobj \<Rightarrow> jobj option" where
  "Handle lib k index name decoded =
     (case decoded of
        Inl _ \<Rightarrow> None
      | Inr xrd \<Rightarrow>
          (case lookupConfig index name of
             None \<Rightarrow> None
           | Some cfg \<Rightarrow>
               (case shouldRestoreConversion k xrd cfg of
                  Inl _ \<Rightarrow> None
                | Inr _ \<Rightarrow>
                    (case applyConversionToXRD k xrd cfg of
                       Inl _ \<Rightarrow> None
                     | Inr patched \<Rightarrow> (case lib_Marshal lib (JObj patched) of Inl _ \<Rightarrow> None | Inr _ \<Rightarrow> Some patched)))))"


subsection \<open>What the guard does\<close>

text \<open>
  The documented behaviour of the accessors: a reader returns a value of its type that is there, a
  writer sets its field and no other, and the annotations read are those last set on an object that
  has metadata.
\<close>

definition k8sLaws :: "k8slib \<Rightarrow> bool" where
  "k8sLaws k \<longleftrightarrow>
     (\<forall>obj p s. getValue obj p = Some (JStr s) \<longrightarrow> k8_NestedString k obj p = Inr (Some s))
   \<and> (\<forall>obj p i. getValue obj p = Some (JInt64 i) \<longrightarrow> k8_NestedInt64 k obj p = Inr (Some i))
   \<and> (\<forall>obj m p obj'. k8_SetNestedMap k obj m p = Inr obj' \<longrightarrow>
        getValue obj' p = Some (JObj m) \<and> (\<forall>q. parallel p q \<longrightarrow> getValue obj' q = getValue obj q))
   \<and> (\<forall>obj anns md. getValue obj [''metadata''] = Some (JObj md) \<longrightarrow>
        map_of (k8_GetAnnotations k (k8_SetAnnotations k obj anns)) = map_of anns
      \<and> (\<forall>q. parallel [''metadata'', ''annotations''] q \<longrightarrow> getValue (k8_SetAnnotations k obj anns) q = getValue obj q))"

lemma k8sLawsD:
  assumes "k8sLaws k"
  shows "getValue obj p = Some (JStr s) \<Longrightarrow> k8_NestedString k obj p = Inr (Some s)"
    and "getValue obj p = Some (JInt64 i) \<Longrightarrow> k8_NestedInt64 k obj p = Inr (Some i)"
    and "k8_SetNestedMap k obj m p = Inr obj' \<Longrightarrow> getValue obj' p = Some (JObj m)"
    and "k8_SetNestedMap k obj m p = Inr obj' \<Longrightarrow> parallel p q \<Longrightarrow> getValue obj' q = getValue obj q"
    and "getValue obj [''metadata''] = Some (JObj md) \<Longrightarrow> map_of (k8_GetAnnotations k (k8_SetAnnotations k obj anns)) = map_of anns"
    and "getValue obj [''metadata''] = Some (JObj md) \<Longrightarrow> parallel [''metadata'', ''annotations''] q \<Longrightarrow>
      getValue (k8_SetAnnotations k obj anns) q = getValue obj q"
  using assms unfolding k8sLaws_def by blast+

text \<open>What an applied stanza leaves in the object.\<close>

lemma applied_stanza:
  assumes "k8sLaws k" and "applyConversionToXRD k xrd cfg = Inr patched" and "getValue xrd [''metadata''] = Some (JObj md)"
  obtains svc where "guardWebhookService k cfg = Inr svc"
    and "getValue patched [''spec'', ''conversion''] = Some (JObj (conversionStanza (restoredClientConfig k xrd cfg svc) (restoredVersions cfg)))"
    and "annotation k patched ManagedByAnnotation = acName cfg"
    and "annotation k patched PlanHashAnnotation = acLastAppliedPlanHash cfg"
    and "\<And>q. parallel [''spec'', ''conversion''] q \<Longrightarrow> parallel [''metadata'', ''annotations''] q \<Longrightarrow> getValue patched q = getValue xrd q"
proof -
  from assms(2) obtain svc where svc: "guardWebhookService k cfg = Inr svc" by (auto simp: applyConversionToXRD_def bindR_Inr_iff)
  with assms(2) obtain xrd' where xrd': "k8_SetNestedMap k xrd (conversionStanza (restoredClientConfig k xrd cfg svc) (restoredVersions cfg)) [''spec'', ''conversion''] = Inr xrd'"
    and patched: "patched = stampAnnotations k cfg xrd'"
    by (auto simp: applyConversionToXRD_def split: sum.splits)
  have md: "getValue xrd' [''metadata''] = Some (JObj md)"
    using k8sLawsD(4)[OF assms(1) xrd', of "[''metadata'']"] assms(3) by (simp add: parallel_def)
  note anns = k8sLawsD(5)[OF assms(1) md] and keep = k8sLawsD(6)[OF assms(1) md]
  show thesis
  proof (rule that[OF svc])
    show "getValue patched [''spec'', ''conversion''] = Some (JObj (conversionStanza (restoredClientConfig k xrd cfg svc) (restoredVersions cfg)))"
      using keep[of "[''spec'', ''conversion'']"] k8sLawsD(3)[OF assms(1) xrd'] by (simp add: patched stampAnnotations_def parallel_def)
    show "annotation k patched ManagedByAnnotation = acName cfg" "annotation k patched PlanHashAnnotation = acLastAppliedPlanHash cfg"
      by (simp_all add: annotation_def patched stampAnnotations_def anns)
    show "getValue patched q = getValue xrd q" if "parallel [''spec'', ''conversion''] q" "parallel [''metadata'', ''annotations''] q" for q
      using keep[OF that(2)] k8sLawsD(4)[OF assms(1) xrd' that(1)] by (simp add: patched stampAnnotations_def)
  qed
qed

lemma Handle_Some:
  assumes "Handle lib k index name (Inr xrd) = Some patched"
  obtains cfg where "index name = Inr [cfg]" and "name \<noteq> []" and "shouldRestoreConversion k xrd cfg = Inr ()"
    and "applyConversionToXRD k xrd cfg = Inr patched"
  using assms
  by (auto simp: Handle_def lookupConfig_def split: option.splits sum.splits if_splits list.splits)

text \<open>The guard's own result needs no restoring.\<close>

lemma restored_is_stable:
  assumes "k8sLaws k" and "applyConversionToXRD k xrd cfg = Inr patched" and "getValue xrd [''metadata''] = Some (JObj md)"
  shows "\<exists>reason. shouldRestoreConversion k patched cfg = Inl reason"
proof -
  from applied_stanza[OF assms] obtain svc where svc: "guardWebhookService k cfg = Inr svc"
    and st: "getValue patched [''spec'', ''conversion''] = Some (JObj (conversionStanza (restoredClientConfig k xrd cfg svc) (restoredVersions cfg)))"
    and ann: "annotation k patched ManagedByAnnotation = acName cfg" "annotation k patched PlanHashAnnotation = acLastAppliedPlanHash cfg"
    by metis
  define cc where "cc = restoredClientConfig k xrd cfg svc"
  define vs where "vs = restoredVersions cfg"
  have stanza: "getValue patched [''spec'', ''conversion''] = Some (JObj (conversionStanza cc vs))" using st by (simp add: cc_def vs_def)
  have service: "map_of cc ''service'' = Some (JObj (serviceRef (gsName svc) (gsNamespace svc) (acWebhookPath cfg) (gsPort svc)))"
    by (simp add: cc_def restoredClientConfig_def Let_def)
  have at: "getValue patched ([''spec'', ''conversion''] @ q) = getValue (conversionStanza cc vs) q" for q
    by (simp only: getValue_append stanza option.case) (simp only: getValue_def)
  have strategy: "k8_NestedString k patched [''spec'', ''conversion'', ''strategy''] = Inr (Some ''Webhook'')"
    using at[of "[''strategy'']"] by (intro k8sLawsD(1)[OF assms(1)]) (simp add: conversionStanza_def getValue_def)
  have svcAt: "getValue patched (servicePath f) = map_of (serviceRef (gsName svc) (gsNamespace svc) (acWebhookPath cfg) (gsPort svc)) f" for f
    using at[of "[''webhook'', ''clientConfig'', ''service'', f]"] service
    by (simp add: conversionStanza_def getValue_def split: option.splits)
  have "k8_NestedString k patched (servicePath ''name'') = Inr (Some (gsName svc))"
      "k8_NestedString k patched (servicePath ''namespace'') = Inr (Some (gsNamespace svc))"
      "k8_NestedString k patched (servicePath ''path'') = Inr (Some (acWebhookPath cfg))"
      "k8_NestedInt64 k patched (servicePath ''port'') = Inr (Some (scast (gsPort svc)))"
    using svcAt by (intro k8sLawsD(1,2)[OF assms(1)]; simp add: serviceRef_def)+
  then show ?thesis using svc strategy ann by (simp add: shouldRestoreConversion_def stringOr_def int64Or_def)
qed

text \<open>The path of the CA bundle, the one field the guard does not take from the configuration.\<close>

abbreviation caPath :: FieldPath where
  "caPath \<equiv> [''spec'', ''conversion'', ''webhook'', ''clientConfig'', ''caBundle'']"

text \<open>Two stanzas that differ in the CA bundle only.\<close>

lemma stanza_caBundle:
  "parallel [''webhook'', ''clientConfig'', ''caBundle''] q \<Longrightarrow>
     getValue (conversionStanza [(''service'', s), (''caBundle'', v)] vs) q = getValue (conversionStanza [(''service'', s)] vs) q"
proof -
  assume "parallel [''webhook'', ''clientConfig'', ''caBundle''] q"
  moreover have "setValue (conversionStanza [(''service'', s)] vs) [''webhook'', ''clientConfig'', ''caBundle''] v
    = Inr (conversionStanza [(''service'', s), (''caBundle'', v)] vs)"
    by (simp add: conversionStanza_def)
  ultimately show ?thesis using getValue_setValue_parallel by blast
qed

lemma restored_fields:
  assumes "k8sLaws k" and "applyConversionToXRD k xrd cfg = Inr patched" and "getValue xrd [''metadata''] = Some (JObj md)"
    and "guardWebhookService k cfg = Inr svc"
  shows "getValue patched caPath = (let ca = stringOr (k8_NestedString k xrd caPath) in if ca = [] then None else Some (JStr ca))"
    and "parallel caPath ([''spec'', ''conversion''] @ q) \<Longrightarrow> pServiceName p = gsName svc \<Longrightarrow> pServiceNamespace p = gsNamespace svc
      \<Longrightarrow> pPath p = acWebhookPath cfg \<Longrightarrow> pPort p = gsPort svc \<Longrightarrow> pReviewVersions p = restoredVersions cfg
      \<Longrightarrow> getValue patched ([''spec'', ''conversion''] @ q) = getValue (BuildXRDConversionPatch p) ([''spec'', ''conversion''] @ q)"
proof -
  let ?service = "JObj (serviceRef (gsName svc) (gsNamespace svc) (acWebhookPath cfg) (gsPort svc))"
  let ?ca = "stringOr (k8_NestedString k xrd caPath)"
  have st: "getValue patched [''spec'', ''conversion''] = Some (JObj (conversionStanza (restoredClientConfig k xrd cfg svc) (restoredVersions cfg)))"
    using applied_stanza[OF assms(1-3)] assms(4) by (metis sum.inject(2))
  have at: "getValue patched ([''spec'', ''conversion''] @ q) = getValue (conversionStanza (restoredClientConfig k xrd cfg svc) (restoredVersions cfg)) q" for q
    by (simp only: getValue_append st option.case) (simp only: getValue_def)
  have cc: "restoredClientConfig k xrd cfg svc = (if ?ca = [] then [(''service'', ?service)] else [(''service'', ?service), (''caBundle'', JStr ?ca)])"
    by (simp add: restoredClientConfig_def Let_def)
  show "getValue patched caPath = (let ca = ?ca in if ca = [] then None else Some (JStr ca))"
    using at[of "[''webhook'', ''clientConfig'', ''caBundle'']"] cc by (simp add: conversionStanza_def getValue_def Let_def)
  assume q: "parallel caPath ([''spec'', ''conversion''] @ q)" and p: "pServiceName p = gsName svc" "pServiceNamespace p = gsNamespace svc"
    "pPath p = acWebhookPath cfg" "pPort p = gsPort svc" "pReviewVersions p = restoredVersions cfg"
  have patch: "getValue (BuildXRDConversionPatch p) [''spec'', ''conversion'']
      = Some (JObj (conversionStanza [(''service'', ?service), (''caBundle'', JStr (pCABundle p))] (restoredVersions cfg)))"
    by (simp add: BuildXRDConversionPatch_def getValue_def p)
  have "getValue (BuildXRDConversionPatch p) ([''spec'', ''conversion''] @ q)
      = getValue (conversionStanza [(''service'', ?service), (''caBundle'', JStr (pCABundle p))] (restoredVersions cfg)) q"
    by (simp only: getValue_append patch option.case) (simp only: getValue_def)
  then show "getValue patched ([''spec'', ''conversion''] @ q) = getValue (BuildXRDConversionPatch p) ([''spec'', ''conversion''] @ q)"
    using q unfolding at cc by (simp add: stanza_caBundle parallel_Cons_Cons)
qed

subsection \<open>Scopes\<close>

lemma claims_mean_legacy:
  assumes "k8_NestedMap k xrd [''spec'', ''claimNames''] = Inr (Some m)" and "k8_NestedString k xrd [''spec'', ''scope''] = Inr declared"
    and "k8_NestedSlice k xrd [''spec'', ''connectionSecretKeys''] = Inr keys"
  shows "resScope (ResolveScope k (Some xrd)) = ScopeLegacyCluster"
  using assms by (auto simp: ResolveScope_def legacySignals_def Let_def)

lemma injected_union: "set (InjectedPathsForScope s c) \<subseteq> set InjectedPathsUnion"
proof -
  have "list_all (\<lambda>sc. list_all (\<lambda>p. p \<in> set InjectedPathsUnion) (InjectedPathsForScope (fst sc) (snd sc)))
      (List.product [ScopeNamespaced, ScopeCluster, ScopeLegacyCluster, ScopeIndeterminate] [True, False])" by code_simp
  then show ?thesis by (cases s; cases c) (simp_all add: list_all_iff subset_iff)
qed

end
