(* ===== verification/Handover.thy ===== *)
theory Handover
  imports Registry Assign XRDObjects
begin

text \<open>
  How a target moves from one webhook server to another. Every replica publishes the targets it can
  serve in a lease of its own (\<open>internal/servedtargets\<close>, \<open>internal/webhookserver/publisher.go\<close>); the
  operator aggregates the leases of an instance and decides whether the move may go on
  (\<open>internal/controller/servedtargets.go\<close>). Packages \<open>compress/gzip\<close> and \<open>encoding/base64\<close> are the
  fields of \<open>ziplib\<close>: a gzip reader is the bytes it yields and the error it ends with. Status
  conditions are kept through the helpers of \<open>apimachinery\<close>, the fields of \<open>condlib\<close>, whose documented
  behaviour is \<open>condLaws\<close>. Times and durations are integers, in nanoseconds; replica counts are
  integers, since they stay far below the bounds of \<open>int32\<close>.

  The lemmas show that an encoded set decodes to itself, that the aggregate is the intersection of what
  the live replicas serve, and that an approved move with reports leads to replicas that all have the plan.
\<close>

abbreviation second :: int where "second \<equiv> 1000000000"

subsection \<open>Status conditions\<close>

record condition =
  cnType :: string
  cnStatus :: string
  cnReason :: string
  cnMessage :: msg
  cnTransition :: "int option"   \<comment> \<open>the zero time is \<open>None\<close>\<close>

abbreviation "newCondition t s r m \<equiv> \<lparr>cnType = t, cnStatus = s, cnReason = r, cnMessage = m, cnTransition = None\<rparr>"

record condlib =
  cl_set :: "int \<Rightarrow> condition list \<Rightarrow> condition \<Rightarrow> condition list"
  cl_remove :: "condition list \<Rightarrow> string \<Rightarrow> condition list"
  cl_find :: "condition list \<Rightarrow> string \<Rightarrow> condition option"

definition isConditionTrue :: "condlib \<Rightarrow> condition list \<Rightarrow> string \<Rightarrow> bool" where
  "isConditionTrue cl cs t = (case cl_find cl cs t of None \<Rightarrow> False | Some c \<Rightarrow> cnStatus c = ''True'')"

text \<open>
  \<open>SetStatusCondition\<close> updates the condition of the type or adds it, and stamps the transition time
  when the status differs; \<open>RemoveStatusCondition\<close> removes it; neither touches other types.
\<close>

definition stamped :: "int \<Rightarrow> condition option \<Rightarrow> condition \<Rightarrow> condition" where
  "stamped now old c =
     c\<lparr>cnTransition := (case old of Some o' \<Rightarrow> (if cnStatus o' = cnStatus c then cnTransition o' else Some now) | None \<Rightarrow> Some now)\<rparr>"

definition condLaws :: "condlib \<Rightarrow> bool" where
  "condLaws cl \<longleftrightarrow>
     (\<forall>now cs c t. cnTransition c = None \<longrightarrow> cl_find cl (cl_set cl now cs c) t =
        (if t = cnType c then Some (stamped now (cl_find cl cs t) c) else cl_find cl cs t))
   \<and> (\<forall>cs t t'. cl_find cl (cl_remove cl cs t) t' = (if t' = t then None else cl_find cl cs t'))
   \<and> (\<forall>t. cl_find cl [] t = None)"

subsection \<open>The wire format\<close>

record ziplib =
  zl_gzip :: "string \<Rightarrow> string"
  zl_NewReader :: "string \<Rightarrow> gerr + string \<times> gerr option"
  zl_EncodeToString :: "string \<Rightarrow> string"
  zl_DecodeString :: "string \<Rightarrow> gerr + string"

definition zipLaws :: "ziplib \<Rightarrow> bool" where
  "zipLaws z \<longleftrightarrow>
     (\<forall>x. zl_NewReader z (zl_gzip z x) = Inr (x, None)) \<and> (\<forall>x. zl_gzip z x \<noteq> [])
   \<and> (\<forall>x. zl_DecodeString z (zl_EncodeToString z x) = Inr x) \<and> (\<forall>x. x \<noteq> [] \<longrightarrow> zl_EncodeToString z x \<noteq> [])"

definition MaxEncodedBytes :: nat where "MaxEncodedBytes = 192 * 1024"
definition MaxDecodedBytes :: nat where "MaxDecodedBytes = 1024 * 1024"
definition Heartbeat :: int where "Heartbeat = 30 * second"
definition LeaseDuration :: int where "LeaseDuration = 90 * second"
definition StaleAfter :: int where "StaleAfter = 3 * Heartbeat"
definition MaxClockSkew :: int where "MaxClockSkew = 5 * 60 * second"

abbreviation WebhookServerLabel :: string where "WebhookServerLabel \<equiv> ''conversion.terasky.com/webhook-server''"
abbreviation TargetsAnnotation :: string where "TargetsAnnotation \<equiv> ''conversion.terasky.com/served-targets''"
abbreviation TruncatedAnnotation :: string where "TruncatedAnnotation \<equiv> ''conversion.terasky.com/served-targets-truncated''"

definition LeaseName :: "string \<Rightarrow> string" where
  "LeaseName podName = ''dco-served-'' @ podName"

definition newline :: string where "newline = [CHR 0x0A]"

text \<open>The value, and whether the set was too large to publish.\<close>

definition Encode :: "ziplib \<Rightarrow> string list \<Rightarrow> string \<times> bool" where
  "Encode z targets =
     (let joined = joinStr (sort targets) newline;
          encoded = zl_EncodeToString z (zl_gzip z joined)
      in if length encoded > MaxEncodedBytes \<or> length joined > MaxDecodedBytes then ([], True) else (encoded, False))"

text \<open>\<open>io.ReadAll(io.LimitReader(zr, n))\<close>: the error is only seen when the limit does not come first.\<close>

definition readLimited :: "nat \<Rightarrow> string \<times> gerr option \<Rightarrow> gerr + string" where
  "readLimited n stream =
     (if length (fst stream) \<ge> n then Inr (take n (fst stream))
      else case snd stream of Some e \<Rightarrow> Inl e | None \<Rightarrow> Inr (fst stream))"

definition Decode :: "ziplib \<Rightarrow> string \<Rightarrow> gerr + string list" where
  "Decode z value =
     (if value = [] then Inr []
      else (case zl_DecodeString z value of
              Inl e \<Rightarrow> Inl (Fmt ''decoding served-targets annotation: %w'' [e])
            | Inr raw \<Rightarrow>
                (case zl_NewReader z raw of
                   Inl e \<Rightarrow> Inl (Fmt ''decompressing served-targets annotation: %w'' [e])
                 | Inr zr \<Rightarrow>
                     (case readLimited (MaxDecodedBytes + 1) zr of
                        Inl e \<Rightarrow> Inl (Fmt ''reading served-targets annotation: %w'' [e])
                      | Inr out \<Rightarrow>
                          (if length out > MaxDecodedBytes
                           then Inl (Fmt ''served-targets annotation decodes to more than %d bytes'' [MInt (int MaxDecodedBytes)])
                           else if out = [] then Inr [] else Inr (splitStr out newline))))))"

subsection \<open>Leases\<close>

record Lease =
  lsName :: string
  lsNamespace :: string
  lsLabels :: "string \<rightharpoonup> string"
  lsAnnotations :: "string \<rightharpoonup> string"
  lsOwners :: "OwnerReference list"
  lsHolder :: "string option"
  lsDurationSeconds :: "int option"
  lsRenewTime :: "int option"
  lsAcquireTime :: "int option"

definition annotationOf :: "Lease \<Rightarrow> string \<Rightarrow> string" where
  "annotationOf l key = (case lsAnnotations l key of None \<Rightarrow> [] | Some v \<Rightarrow> v)"

definition isLive :: "int \<Rightarrow> Lease \<Rightarrow> bool" where
  "isLive now l =
     (case lsRenewTime l of
        None \<Rightarrow> False
      | Some t \<Rightarrow> (let age = now - t in \<not> (age > StaleAfter \<or> age < - MaxClockSkew)))"

definition countName :: "string \<Rightarrow> (string \<times> int) list \<Rightarrow> (string \<times> int) list" where
  "countName n counts = AList.update n ((case map_of counts n of None \<Rightarrow> 0 | Some c \<Rightarrow> c) + 1) counts"

record aggregation =
  agCounts :: "(string \<times> int) list"
  agReporting :: int
  agTruncated :: bool

definition aggregateLease :: "ziplib \<Rightarrow> int \<Rightarrow> Lease \<Rightarrow> aggregation \<Rightarrow> aggregation" where
  "aggregateLease z now l st =
     (if \<not> isLive now l then st
      else (let st' = st\<lparr>agReporting := agReporting st + 1\<rparr> in
            if annotationOf l TruncatedAnnotation = ''true'' then st'\<lparr>agTruncated := True\<rparr>
            else (case Decode z (annotationOf l TargetsAnnotation) of
                    Inl _ \<Rightarrow> st'\<lparr>agTruncated := True\<rparr>
                  | Inr names \<Rightarrow> st'\<lparr>agCounts := fold countName names (agCounts st)\<rparr>)))"

definition Aggregate :: "ziplib \<Rightarrow> Lease list \<Rightarrow> int \<Rightarrow> string list \<times> int \<times> bool" where
  "Aggregate z leases now =
     (let st = fold (aggregateLease z now) leases \<lparr>agCounts = [], agReporting = 0, agTruncated = False\<rparr> in
      if agTruncated st \<or> agReporting st = 0 then ([], agReporting st, agTruncated st)
      else (sort (map fst (filter (\<lambda>nc. snd nc = agReporting st) (agCounts st))), agReporting st, False))"

text \<open>\<open>sort.Search\<close>: the smallest index in \<open>[i, j)\<close> where a monotone predicate holds, or \<open>j\<close>.\<close>

function goSearch :: "(nat \<Rightarrow> bool) \<Rightarrow> nat \<Rightarrow> nat \<Rightarrow> nat" where
  "goSearch f i j =
     (if i < j then (let h = (i + j) div 2 in if \<not> f h then goSearch f (h + 1) j else goSearch f i h) else i)"
  by pat_completeness auto
termination
  by (relation "measure (\<lambda>(f, i, j). j - i)") auto

declare goSearch.simps [simp del]

definition Contains :: "string list \<Rightarrow> string \<Rightarrow> bool" where
  "Contains sortedSet name =
     (let i = goSearch (\<lambda>i. sortedSet ! i \<ge> name) 0 (length sortedSet)
      in i < length sortedSet \<and> sortedSet ! i = name)"

subsection \<open>Publishing\<close>

record TargetPublisher =
  tpConnected :: bool   \<comment> \<open>the client and the registry are set\<close>
  tpServerName :: string
  tpNamespace :: string
  tpPodName :: string
  tpPodUID :: string

definition publisherEnabled :: "TargetPublisher \<Rightarrow> bool" where
  "publisherEnabled p \<longleftrightarrow> tpConnected p \<and> tpServerName p \<noteq> [] \<and> tpNamespace p \<noteq> [] \<and> tpPodName p \<noteq> [] \<and> tpPodUID p \<noteq> []"

text \<open>\<open>keys\<close> is the order in which ranging over the registry visits its entries.\<close>

definition servableTargets :: "string list \<Rightarrow> Registry \<Rightarrow> string list" where
  "servableTargets keys r = sort (filter (\<lambda>n. case registrySnapshot r n of None \<Rightarrow> False | Some e \<Rightarrow> ceRouter e \<noteq> None) keys)"

definition stamp :: "TargetPublisher \<Rightarrow> Lease \<Rightarrow> string \<Rightarrow> bool \<Rightarrow> int \<Rightarrow> Lease" where
  "stamp p lease encoded truncated now =
     lease\<lparr>
       lsLabels := (lsLabels lease)(WebhookServerLabel \<mapsto> tpServerName p,
          ''app.kubernetes.io/managed-by'' \<mapsto> ''declarative-conversion-operator''),
       lsAnnotations := (if truncated
          then (lsAnnotations lease)(TargetsAnnotation := None, TruncatedAnnotation := Some ''true'')
          else (lsAnnotations lease)(TargetsAnnotation := Some encoded, TruncatedAnnotation := None)),
       lsOwners := (if lsOwners lease = []
          then [\<lparr>orAPIVersion = ''v1'', orKind = ''Pod'', orName = tpPodName p, orUID = tpPodUID p\<rparr>] else lsOwners lease),
       lsHolder := Some (tpPodName p),
       lsDurationSeconds := Some (LeaseDuration div second),
       lsRenewTime := Some now,
       lsAcquireTime := (case lsAcquireTime lease of None \<Rightarrow> Some now | Some t \<Rightarrow> Some t)\<rparr>"

definition emptyLease :: "string \<Rightarrow> string \<Rightarrow> Lease" where
  "emptyLease name namespace =
     \<lparr>lsName = name, lsNamespace = namespace, lsLabels = Map.empty, lsAnnotations = Map.empty, lsOwners = [],
      lsHolder = None, lsDurationSeconds = None, lsRenewTime = None, lsAcquireTime = None\<rparr>"

text \<open>
  What reading the lease gave, and what the API server says to a create or an update. The result is
  the stored lease of the pod afterwards and the error.
\<close>

datatype leaseRead = NoLease | LeaseError gerr | HasLease Lease
datatype writeOutcome = Written | AlreadyExists gerr | WriteError gerr

definition Publish ::
    "ziplib \<Rightarrow> TargetPublisher \<Rightarrow> string list \<Rightarrow> Registry \<Rightarrow> int \<Rightarrow> leaseRead \<Rightarrow> writeOutcome \<Rightarrow> Lease option \<times> gerr option" where
  "Publish z p keys r now read written =
     (if \<not> publisherEnabled p then (None, None)
      else (let (encoded, truncated) = Encode z (servableTargets keys r) in
            case read of
              NoLease \<Rightarrow>
                (let lease = stamp p (emptyLease (LeaseName (tpPodName p)) (tpNamespace p)) encoded truncated now in
                 case written of
                   Written \<Rightarrow> (Some lease, None)
                 | AlreadyExists _ \<Rightarrow> (None, None)
                 | WriteError e \<Rightarrow> (None, Some (Fmt ''creating served-targets lease: %w'' [e])))
            | LeaseError e \<Rightarrow> (None, Some (Fmt ''getting served-targets lease: %w'' [e]))
            | HasLease lease \<Rightarrow>
                (case written of
                   Written \<Rightarrow> (Some (stamp p lease encoded truncated now), None)
                 | AlreadyExists e \<Rightarrow> (None, Some (Fmt ''updating served-targets lease: %w'' [e]))
                 | WriteError e \<Rightarrow> (None, Some (Fmt ''updating served-targets lease: %w'' [e])))))"

subsection \<open>The verdict\<close>

record HandoverVerdict =
  hvOK :: bool
  hvReason :: string
  hvMessage :: msg

abbreviation "handoverVerdict b r m \<equiv> \<lparr>hvOK = b, hvReason = r, hvMessage = m\<rparr>"

definition UnreportedGracePeriod :: int where "UnreportedGracePeriod = 30 * second"

definition canServeTarget :: "string list \<Rightarrow> int \<Rightarrow> int \<Rightarrow> bool \<Rightarrow> string \<Rightarrow> string \<Rightarrow> int \<Rightarrow> HandoverVerdict" where
  "canServeTarget servedNames reporting readyReplicas truncated target serverName blocked =
     (if readyReplicas = 0 then handoverVerdict False ''HandoverPending''
        (Fmt ''ConversionWebhookServer %q has no ready replicas, so it cannot serve %q; the target stays on its current server'' [MStr serverName, MStr target])
      else if reporting = 0 \<and> blocked < UnreportedGracePeriod then handoverVerdict False ''HandoverAwaitingReports''
        (Fmt ''no replica of ConversionWebhookServer %q has published its served targets yet, so whether it can serve %q is unknown; waiting up to %s for a report before moving the target''
           [MStr serverName, MStr target, MInt UnreportedGracePeriod])
      else if reporting = 0 then handoverVerdict True ''HandoverUnverified''
        (Fmt ''no replica of ConversionWebhookServer %q published its served targets within %s, so the handover of %q could not be verified; proceeding as earlier releases did. Check that the webhook-server replicas are up to date and permitted to write Leases in their namespace''
           [MStr serverName, MInt UnreportedGracePeriod, MStr target])
      else if truncated then handoverVerdict False ''HandoverUnknown''
        (Fmt ''a replica of ConversionWebhookServer %q could not report its served targets, so whether it can serve %q is unknown; the target stays on its current server'' [MStr serverName, MStr target])
      else if reporting < readyReplicas then handoverVerdict False ''HandoverPending''
        (Fmt ''%d of %d ready replicas of ConversionWebhookServer %q have reported their served targets; waiting before repointing %q''
           [MInt reporting, MInt readyReplicas, MStr serverName, MStr target])
      else if \<not> Contains servedNames target then handoverVerdict False ''HandoverPending''
        (Fmt ''ConversionWebhookServer %q is not yet serving %q on all %d reporting replicas; the target stays on its current server until it is''
           [MStr serverName, MStr target, MInt reporting])
      else handoverVerdict True ''HandoverReady''
        (Fmt ''all %d reporting replicas of ConversionWebhookServer %q already serve %q'' [MInt reporting, MStr serverName, MStr target]))"

definition blockedFor :: "condlib \<Rightarrow> condition list \<Rightarrow> int \<Rightarrow> int" where
  "blockedFor cl conditions now =
     (case cl_find cl conditions ''HandoverReady'' of
        None \<Rightarrow> 0
      | Some c \<Rightarrow>
          (if cnStatus c \<noteq> ''False'' then 0
           else case cnTransition c of
                  None \<Rightarrow> 0
                | Some t \<Rightarrow> (if now - t > 0 then now - t else 0)))"

text \<open>A webhook server as the controllers see it, and the leases a namespace holds for it.\<close>

record liveServer =
  lvServer :: WebhookServer
  lvNamespace :: string
  lvPort :: int32
  lvReadyReplicas :: int
  lvConditions :: "condition list"

type_synonym leaseLister = "string \<Rightarrow> string \<Rightarrow> gerr + Lease list"

definition serverNamespace :: "string \<Rightarrow> liveServer \<Rightarrow> string" where
  "serverNamespace defaultNamespace s = (if lvNamespace s = [] then defaultNamespace else lvNamespace s)"

definition readServedTargets :: "ziplib \<Rightarrow> leaseLister \<Rightarrow> string \<Rightarrow> liveServer \<Rightarrow> int \<Rightarrow> gerr + (string list \<times> int \<times> bool)" where
  "readServedTargets z list defaultNamespace server now =
     (case list (serverNamespace defaultNamespace server) (wsName (lvServer server)) of
        Inl e \<Rightarrow> Inl (Fmt ''listing served-target leases for %q: %w'' [MStr (wsName (lvServer server)), e])
      | Inr leases \<Rightarrow> Inr (Aggregate z leases now))"

definition checkHandover ::
    "ziplib \<Rightarrow> condlib \<Rightarrow> leaseLister \<Rightarrow> string \<Rightarrow> liveServer \<Rightarrow> string \<Rightarrow> condition list \<Rightarrow> int \<Rightarrow> gerr + HandoverVerdict" where
  "checkHandover z cl list defaultNamespace server target conditions now =
     (case readServedTargets z list defaultNamespace server now of
        Inl e \<Rightarrow> Inl e
      | Inr (servedNames, reporting, truncated) \<Rightarrow>
          Inr (canServeTarget servedNames reporting (lvReadyReplicas server) truncated target (wsName (lvServer server))
                 (blockedFor cl conditions now)))"

subsection \<open>The encoding\<close>

lemma newline_nonempty [simp]: "newline \<noteq> []"
  by (simp add: newline_def)

text \<open>Names a lease can carry: no line break in them, and not the empty name alone.\<close>

definition publishable :: "string list \<Rightarrow> bool" where
  "publishable ts \<longleftrightarrow> ts \<noteq> [[]] \<and> (\<forall>t\<in>set ts. CHR 0x0A \<notin> set t)"

lemma sort_singleton_iff: "sort ts = [x] \<longleftrightarrow> ts = [x]"
  by (metis length_Suc_conv length_0_conv length_sort list.set_intros(1) set_sort sort_key_simps(2) singletonD empty_set list.simps(15))

lemma Decode_Encode:
  assumes "zipLaws z" and "publishable ts" and "Encode z ts = (v, False)"
  shows "Decode z v = Inr (sort ts)"
proof -
  let ?j = "joinStr (sort ts) newline"
  have v: "v = zl_EncodeToString z (zl_gzip z ?j)" and len: "length ?j \<le> MaxDecodedBytes"
    using assms(3) by (auto simp: Encode_def Let_def split: if_splits)
  have read: "zl_DecodeString z v = Inr (zl_gzip z ?j)" "zl_NewReader z (zl_gzip z ?j) = Inr (?j, None)" "v \<noteq> []"
    using assms(1) by (simp_all add: v zipLaws_def)
  have limited: "readLimited (MaxDecodedBytes + 1) (?j, None) = Inr ?j" using len by (simp add: readLimited_def)
  have "splitStr ?j newline = sort ts" if "?j \<noteq> []"
  proof (rule splitStr_joinStr)
    show "sort ts \<noteq> []" using that by auto
    show "\<forall>p\<in>set (sort ts). hd newline \<notin> set p" using assms(2) by (simp add: publishable_def newline_def)
  qed simp
  moreover have "sort ts = []" if "?j = []"
    using that assms(2) by (simp add: joinStr_empty sort_singleton_iff publishable_def)
  ultimately show ?thesis using read limited len by (cases "?j = []") (simp_all add: Decode_def)
qed

subsection \<open>Binary search\<close>

lemma goSearch_spec:
  assumes "i \<le> j" and "\<And>a b. i \<le> a \<Longrightarrow> a \<le> b \<Longrightarrow> b < j \<Longrightarrow> f a \<Longrightarrow> f b"
  shows "i \<le> goSearch f i j \<and> goSearch f i j \<le> j \<and> (\<forall>k. i \<le> k \<and> k < goSearch f i j \<longrightarrow> \<not> f k)
     \<and> (goSearch f i j < j \<longrightarrow> f (goSearch f i j))"
  using assms
proof (induction f i j rule: goSearch.induct)
  case (1 f i j)
  show ?case
  proof (cases "i < j")
    case False
    then have "goSearch f i j = i" by (subst goSearch.simps) simp
    then show ?thesis using 1(3) False by auto
  next
    case True
    define h where "h = (i + j) div 2"
    have h: "i \<le> h" "h < j" using True by (auto simp: h_def)
    show ?thesis
    proof (cases "f h")
      case below: True
      define g where "g = goSearch f i h"
      have eq: "goSearch f i j = g"
        using True below by (subst goSearch.simps) (simp add: Let_def h_def g_def)
      have "i \<le> g \<and> g \<le> h \<and> (\<forall>k. i \<le> k \<and> k < g \<longrightarrow> \<not> f k) \<and> (g < h \<longrightarrow> f g)"
        unfolding g_def
      proof (rule 1(2)[OF True h_def])
        show "f b" if "i \<le> a" "a \<le> b" "b < h" "f a" for a b
          using 1(4)[OF that(1,2) _ that(4)] that(3) h by simp
      qed (use below h in simp_all)
      then show ?thesis unfolding eq using below h by (cases "g = h") auto
    next
      case above: False
      define g where "g = goSearch f (h + 1) j"
      have eq: "goSearch f i j = g"
        using True above by (subst goSearch.simps) (simp add: Let_def h_def g_def)
      have ih: "h + 1 \<le> g \<and> g \<le> j \<and> (\<forall>k. h + 1 \<le> k \<and> k < g \<longrightarrow> \<not> f k) \<and> (g < j \<longrightarrow> f g)"
        unfolding g_def
      proof (rule 1(1)[OF True h_def])
        show "f b" if "h + 1 \<le> a" "a \<le> b" "b < j" "f a" for a b
          using 1(4)[OF _ that(2-4)] that(1) h by simp
      qed (use above h in simp_all)
      have "\<not> f k" if "i \<le> k" "k < g" for k
      proof (cases "k \<le> h")
        case True
        then show ?thesis using 1(4)[OF that(1) True h(2)] above by blast
      next
        case False
        then show ?thesis using ih that by simp
      qed
      then show ?thesis unfolding eq using ih h by simp
    qed
  qed
qed

lemma Contains_sorted:
  assumes "sorted xs"
  shows "Contains xs x \<longleftrightarrow> x \<in> set xs"
proof -
  let ?f = "\<lambda>i. xs ! i \<ge> x"
  let ?i = "goSearch ?f 0 (length xs)"
  have spec: "0 \<le> ?i \<and> ?i \<le> length xs \<and> (\<forall>k. 0 \<le> k \<and> k < ?i \<longrightarrow> \<not> ?f k) \<and> (?i < length xs \<longrightarrow> ?f ?i)"
    using assms by (intro goSearch_spec) (auto simp: sorted_iff_nth_mono intro: order_trans)
  show ?thesis
  proof
    assume "Contains xs x"
    then have "?i < length xs" "xs ! ?i = x" by (simp_all add: Contains_def Let_def)
    then show "x \<in> set xs" using nth_mem by metis
  next
    assume "x \<in> set xs"
    then obtain k where k: "k < length xs" "xs ! k = x" by (auto simp: in_set_conv_nth)
    then have le: "?i \<le> k" using spec by (metis not_le order_refl zero_le)
    then have "xs ! ?i \<le> x" using assms k by (auto simp: sorted_iff_nth_mono)
    then show "Contains xs x" using spec le k by (auto simp: Contains_def Let_def)
  qed
qed

subsection \<open>Aggregation\<close>

lemma countName_keys: "distinct (map fst counts) \<Longrightarrow> distinct (map fst (countName n counts))"
  by (simp add: countName_def distinct_update)

lemma fold_countName_keys: "distinct (map fst counts) \<Longrightarrow> distinct (map fst (fold countName names counts))"
  by (induction names arbitrary: counts) (simp_all add: countName_keys)

definition countOf :: "(string \<times> int) list \<Rightarrow> string \<Rightarrow> int" where
  "countOf counts n = (case map_of counts n of None \<Rightarrow> 0 | Some c \<Rightarrow> c)"

lemma countOf_countName: "countOf (countName n counts) m = countOf counts m + (if m = n then 1 else 0)"
  by (simp add: countOf_def countName_def update_conv')

lemma countOf_fold: "countOf (fold countName names counts) m = countOf counts m + int (count_list names m)"
  by (induction names arbitrary: counts) (simp_all add: countOf_countName)

text \<open>What a live lease says, when it says it in full.\<close>

definition leaseNames :: "ziplib \<Rightarrow> Lease \<Rightarrow> string list option" where
  "leaseNames z l =
     (if annotationOf l TruncatedAnnotation = ''true'' then None
      else case Decode z (annotationOf l TargetsAnnotation) of Inl _ \<Rightarrow> None | Inr names \<Rightarrow> Some names)"

definition leaseCount :: "ziplib \<Rightarrow> string \<Rightarrow> Lease \<Rightarrow> nat" where
  "leaseCount z n l = (case leaseNames z l of None \<Rightarrow> 0 | Some names \<Rightarrow> count_list names n)"

lemma aggregateLease_live:
  "aggregateLease z now l st =
     (if \<not> isLive now l then st
      else case leaseNames z l of
             None \<Rightarrow> st\<lparr>agReporting := agReporting st + 1, agTruncated := True\<rparr>
           | Some names \<Rightarrow> st\<lparr>agReporting := agReporting st + 1, agCounts := fold countName names (agCounts st)\<rparr>)"
  by (auto simp: aggregateLease_def leaseNames_def Let_def split: sum.split)

lemma fold_aggregate:
  fixes z now leases st
  defines "st' \<equiv> fold (aggregateLease z now) leases st" and "live \<equiv> filter (isLive now) leases"
  assumes "distinct (map fst (agCounts st))"
  shows "agReporting st' = agReporting st + int (length live)"
    and "agTruncated st' \<longleftrightarrow> agTruncated st \<or> (\<exists>l\<in>set live. leaseNames z l = None)"
    and "distinct (map fst (agCounts st'))"
    and "countOf (agCounts st') n = countOf (agCounts st) n + int (sum_list (map (leaseCount z n) live))"
proof -
  have "agReporting st' = agReporting st + int (length live)
    \<and> (agTruncated st' \<longleftrightarrow> agTruncated st \<or> (\<exists>l\<in>set live. leaseNames z l = None))
    \<and> distinct (map fst (agCounts st'))
    \<and> countOf (agCounts st') n = countOf (agCounts st) n + int (sum_list (map (leaseCount z n) live))"
    using assms(3) unfolding st'_def live_def
  proof (induction leases arbitrary: st)
    case (Cons l ls)
    have "distinct (map fst (agCounts (aggregateLease z now l st)))"
      using Cons.prems by (simp add: aggregateLease_live fold_countName_keys split: option.split)
    note ih = Cons.IH[OF this]
    show ?case
    proof (cases "leaseNames z l")
      case None
      then show ?thesis using ih by (auto simp: aggregateLease_live leaseCount_def)
    next
      case (Some names)
      then show ?thesis using ih by (auto simp: aggregateLease_live leaseCount_def countOf_fold)
    qed
  qed simp
  then show "agReporting st' = agReporting st + int (length live)"
    and "agTruncated st' \<longleftrightarrow> agTruncated st \<or> (\<exists>l\<in>set live. leaseNames z l = None)"
    and "distinct (map fst (agCounts st'))"
    and "countOf (agCounts st') n = countOf (agCounts st) n + int (sum_list (map (leaseCount z n) live))"
    by blast+
qed

text \<open>Counting to the length of a list: every element contributes its one.\<close>

lemma sum_list_full:
  assumes "\<And>x. x \<in> set xs \<Longrightarrow> f x \<le> (1 :: nat)"
  shows "sum_list (map f xs) = length xs \<longleftrightarrow> (\<forall>x\<in>set xs. f x = 1)"
  using assms
proof (induction xs)
  case (Cons x xs)
  have "sum_list (map f xs) \<le> length xs"
    using sum_list_mono[of xs f "\<lambda>_. 1"] Cons.prems by (simp add: sum_list_triv)
  moreover have "f x \<le> 1" using Cons.prems by simp
  ultimately have "sum_list (map f (x # xs)) = length (x # xs) \<longleftrightarrow> f x = 1 \<and> sum_list (map f xs) = length xs" by auto
  then show ?case using Cons.IH Cons.prems by simp
qed simp

lemma count_list_distinct: "distinct xs \<Longrightarrow> count_list xs x = (if x \<in> set xs then 1 else 0)"
  by (induction xs) (auto simp: count_list_0_iff)

text \<open>Every live replica reported a set, and the instance serves what all of them serve.\<close>

lemma Aggregate_intersection:
  assumes "Aggregate z leases now = (servedNames, reporting, False)"
    and "\<forall>l\<in>set leases. \<forall>names. leaseNames z l = Some names \<longrightarrow> distinct names"
  shows "reporting = int (length (filter (isLive now) leases))"
    and "sorted servedNames"
    and "reporting > 0 \<Longrightarrow> set servedNames = {n. \<forall>l\<in>set leases. isLive now l \<longrightarrow> (\<exists>names. leaseNames z l = Some names \<and> n \<in> set names)}"
proof -
  let ?live = "filter (isLive now) leases"
  let ?st = "fold (aggregateLease z now) leases \<lparr>agCounts = [], agReporting = 0, agTruncated = False\<rparr>"
  note f = fold_aggregate[of "\<lparr>agCounts = [], agReporting = 0, agTruncated = False\<rparr>" z now leases]
  have rep: "agReporting ?st = int (length ?live)" using f(1) by simp
  have keys: "distinct (map fst (agCounts ?st))" using f(3) by simp
  have cnt: "countOf (agCounts ?st) n = int (sum_list (map (leaseCount z n) ?live))" for n
    using f(4)[of n] by (simp add: countOf_def)
  show r: "reporting = int (length ?live)" using assms(1) rep by (simp add: Aggregate_def Let_def split: if_splits)
  show "sorted servedNames" using assms(1) by (auto simp: Aggregate_def Let_def split: if_splits)
  assume pos: "reporting > 0"
  have tr: "\<not> agTruncated ?st" using assms(1) pos by (simp add: Aggregate_def Let_def split: if_splits)
  then have all: "leaseNames z l \<noteq> None" if "l \<in> set ?live" for l using f(2) that by auto
  have sn: "set servedNames = fst ` {nc \<in> set (agCounts ?st). snd nc = reporting}"
  proof -
    have "servedNames = sort (map fst (filter (\<lambda>nc. snd nc = reporting) (agCounts ?st)))"
      using assms(1) tr pos rep r by (simp add: Aggregate_def Let_def split: if_splits)
    then show ?thesis by auto
  qed
  have one: "leaseCount z n l \<le> 1 \<and> (leaseCount z n l = 1 \<longleftrightarrow> (\<exists>names. leaseNames z l = Some names \<and> n \<in> set names))"
    if "l \<in> set ?live" for n l
  proof -
    obtain names where n: "leaseNames z l = Some names" using all[OF \<open>l \<in> set ?live\<close>] by auto
    then have "distinct names" using assms(2) that by auto
    then show ?thesis using n by (simp add: leaseCount_def count_list_distinct)
  qed
  have "n \<in> set servedNames \<longleftrightarrow> countOf (agCounts ?st) n = reporting" for n
  proof
    assume "n \<in> set servedNames"
    then show "countOf (agCounts ?st) n = reporting" using keys sn by (auto simp: countOf_def)
  next
    assume "countOf (agCounts ?st) n = reporting"
    then have "map_of (agCounts ?st) n = Some reporting" using pos by (auto simp: countOf_def split: option.splits)
    then show "n \<in> set servedNames" using sn map_of_SomeD by force
  qed
  then have "n \<in> set servedNames \<longleftrightarrow> (\<forall>l\<in>set ?live. leaseCount z n l = 1)" for n
    using sum_list_full[of ?live "leaseCount z n"] one cnt[of n] r by (simp add: of_nat_eq_iff)
  then show "set servedNames = {n. \<forall>l\<in>set leases. isLive now l \<longrightarrow> (\<exists>names. leaseNames z l = Some names \<and> n \<in> set names)}"
    using one by (auto simp: set_eq_iff)
qed

subsection \<open>Published leases\<close>

text \<open>A lease that a replica with registry \<open>r\<close> wrote, over whatever lease it had found.\<close>

definition publishedBy :: "ziplib \<Rightarrow> Lease \<Rightarrow> Registry \<Rightarrow> bool" where
  "publishedBy z l r \<longleftrightarrow>
     (\<exists>p keys read now. distinct keys \<and> set keys = dom r \<and> Publish z p keys r now read Written = (Some l, None))"

definition nameOk :: "string \<Rightarrow> bool" where
  "nameOk n \<longleftrightarrow> n \<noteq> [] \<and> CHR 0x0A \<notin> set n"

lemma servableTargets_set:
  assumes "set keys = dom r"
  shows "set (servableTargets keys r) = {n. served r n \<noteq> None}"
  using assms by (auto simp: servableTargets_def registrySnapshot_def served_def split: option.splits)

lemma publishedBy_stamp:
  assumes "publishedBy z l r"
  obtains p keys old now where "distinct keys" and "set keys = dom r"
    and "l = stamp p old (fst (Encode z (servableTargets keys r))) (snd (Encode z (servableTargets keys r))) now"
  using assms unfolding publishedBy_def Publish_def
  by (auto simp: Let_def split: if_splits leaseRead.splits prod.splits)

lemma leaseNames_published:
  assumes "zipLaws z" and "publishedBy z l r" and "\<forall>n\<in>dom r. nameOk n" and "leaseNames z l = Some names"
  shows "distinct names" and "set names = {n. served r n \<noteq> None}"
proof -
  obtain p keys old now where k: "distinct keys" "set keys = dom r"
    and l: "l = stamp p old (fst (Encode z (servableTargets keys r))) (snd (Encode z (servableTargets keys r))) now"
    using publishedBy_stamp[OF assms(2)] .
  obtain v t where enc: "Encode z (servableTargets keys r) = (v, t)" by fastforce
  let ?ts = "servableTargets keys r"
  have t: "\<not> t" using assms(4) by (auto simp: l enc leaseNames_def annotationOf_def stamp_def split: if_splits)
  have "set ?ts \<subseteq> dom r" using k(2) by (auto simp: servableTargets_def)
  then have "publishable ?ts" using assms(3) by (fastforce simp: publishable_def nameOk_def)
  then have dec: "Decode z v = Inr (sort ?ts)" using Decode_Encode[OF assms(1)] enc t by simp
  have "sort ?ts = ?ts" by (simp add: servableTargets_def sorted_sort_id)
  then have "names = ?ts"
    using assms(4) dec t by (simp add: l enc leaseNames_def annotationOf_def stamp_def split: if_splits)
  then show "distinct names" "set names = {n. served r n \<noteq> None}"
    using k(1) servableTargets_set[OF k(2)] by (simp_all add: servableTargets_def)
qed

subsection \<open>Moves\<close>

lemma canServeTarget_ok:
  assumes "hvOK (canServeTarget names reporting ready truncated target serverName blocked)"
  shows "ready \<noteq> 0" and "reporting = 0 \<and> blocked \<ge> UnreportedGracePeriod \<or> reporting \<noteq> 0 \<and> \<not> truncated \<and> reporting \<ge> ready \<and> Contains names target"
  using assms by (auto simp: canServeTarget_def split: if_splits)

text \<open>What an approved move rests on: reports of all ready replicas, or a grace period without any.\<close>

lemma blockedFor_grace:
  "blockedFor cl conditions now \<ge> UnreportedGracePeriod \<longleftrightarrow>
     (\<exists>c t. cl_find cl conditions ''HandoverReady'' = Some c \<and> cnStatus c = ''False'' \<and> cnTransition c = Some t \<and> now - t \<ge> UnreportedGracePeriod)"
  by (auto simp: blockedFor_def UnreportedGracePeriod_def split: option.splits)

lemma checkHandover_ok:
  assumes "zipLaws z" and leases: "list (serverNamespace ns server) (wsName (lvServer server)) = Inr leases"
    and "list_all2 (publishedBy z) leases regs" and "\<forall>r\<in>set regs. \<forall>n\<in>dom r. nameOk n"
    and "checkHandover z cl list ns server target conditions now = Inr v" and "hvOK v"
  shows "lvReadyReplicas server \<noteq> 0"
    and "(filter (isLive now) leases = [] \<and> blockedFor cl conditions now \<ge> UnreportedGracePeriod)
       \<or> (filter (isLive now) leases \<noteq> [] \<and> int (length (filter (isLive now) leases)) \<ge> lvReadyReplicas server
         \<and> (\<forall>i<length leases. isLive now (leases ! i) \<longrightarrow> served (regs ! i) target \<noteq> None))"
proof -
  obtain names reporting truncated where agg: "Aggregate z leases now = (names, reporting, truncated)"
    by (metis prod_cases3)
  have v: "v = canServeTarget names reporting (lvReadyReplicas server) truncated target (wsName (lvServer server)) (blockedFor cl conditions now)"
    using assms(5) by (simp add: checkHandover_def readServedTargets_def leases agg)
  note ok = canServeTarget_ok[OF assms(6)[unfolded v]]
  show "lvReadyReplicas server \<noteq> 0" by (rule ok(1))
  have pub: "publishedBy z (leases ! i) (regs ! i)" "\<forall>n\<in>dom (regs ! i). nameOk n" if "i < length leases" for i
  proof -
    have i: "i < length regs" "publishedBy z (leases ! i) (regs ! i)" using assms(3) that by (simp_all add: list_all2_conv_all_nth)
    show "publishedBy z (leases ! i) (regs ! i)" by (rule i(2))
    show "\<forall>n\<in>dom (regs ! i). nameOk n" by (rule bspec[OF assms(4) nth_mem[OF i(1)]])
  qed
  have dist: "\<forall>l\<in>set leases. \<forall>names. leaseNames z l = Some names \<longrightarrow> distinct names"
    using leaseNames_published(1)[OF assms(1)] pub by (metis in_set_conv_nth)
  have rep: "reporting = int (length (filter (isLive now) leases))"
    using agg fold_aggregate(1)[of "\<lparr>agCounts = [], agReporting = 0, agTruncated = False\<rparr>" z now leases]
    by (simp add: Aggregate_def Let_def split: if_splits)
  show "(filter (isLive now) leases = [] \<and> blockedFor cl conditions now \<ge> UnreportedGracePeriod)
       \<or> (filter (isLive now) leases \<noteq> [] \<and> int (length (filter (isLive now) leases)) \<ge> lvReadyReplicas server
         \<and> (\<forall>i<length leases. isLive now (leases ! i) \<longrightarrow> served (regs ! i) target \<noteq> None))"
  proof (cases "reporting = 0")
    case True
    then show ?thesis using ok(2) rep by simp
  next
    case False
    then have sure: "\<not> truncated" "reporting \<ge> lvReadyReplicas server" "Contains names target" using ok(2) by simp_all
    note inter = Aggregate_intersection[OF agg[simplified sure(1)] dist]
    have "target \<in> set names" using sure(3) Contains_sorted[OF inter(2)] by simp
    then have "\<exists>ns. leaseNames z (leases ! i) = Some ns \<and> target \<in> set ns" if "i < length leases" "isLive now (leases ! i)" for i
      using inter(3) False rep that nth_mem by force
    then have "served (regs ! i) target \<noteq> None" if "i < length leases" "isLive now (leases ! i)" for i
      using leaseNames_published(2)[OF assms(1) pub[OF that(1)]] that by blast
    then show ?thesis using False sure(2) rep by auto
  qed
qed

end
