(* ===== verification/Replica.thy ===== *)
theory Replica
  imports Admission Registry Assign
begin

text \<open>
  The reconciler of one webhook-server replica (\<open>internal/webhookserver/reconciler.go\<close> and
  \<open>handover.go\<close>). Its state is the registry, the target each configuration was last seen with, and
  the deadlines of targets being drained. One call reads the configuration, the servers and the
  target from the cluster; what it read and the time are arguments. The XRD and CRD paths differ in
  the kind only. A call returns the time to requeue after, or the error of a failed read. Durations
  and times are integers, in nanoseconds; metrics and the publisher's notification are left out.
\<close>

datatype 'a reading = NotFound | ReadError gerr | Found 'a

record liveConfig =
  lcConfig :: conversionConfig
  lcReviewVersions :: "string list"
  lcDeleting :: bool
  lcGeneration :: int

record liveTarget =
  ltSource :: schemaSource
  ltServiceName :: "string option"   \<comment> \<open>the service its conversion webhook names\<close>

record replica =
  rpRegistry :: Registry
  rpTargets :: "string \<rightharpoonup> string"
  rpDrain :: "string \<rightharpoonup> int"

record replicaConfig =
  rcServerName :: string
  rcDrainPeriod :: int

definition DefaultTargetDrainPeriod :: int where "DefaultTargetDrainPeriod = 30 * 1000000000"

definition drainPeriod :: "replicaConfig \<Rightarrow> int" where
  "drainPeriod rc = (if rcDrainPeriod rc = 0 then DefaultTargetDrainPeriod else rcDrainPeriod rc)"

definition configKey :: "configKind \<Rightarrow> string \<Rightarrow> string" where
  "configKey k name = (case k of XRDKind \<Rightarrow> ''xrd'' | CRDKind \<Rightarrow> ''crd'') @ ''/'' @ name"

definition pointsAtServer :: "liveTarget \<Rightarrow> string \<Rightarrow> bool" where
  "pointsAtServer t serverName = (ltServiceName t = Some (WebhookServerServiceName serverName))"

subsection \<open>Bookkeeping\<close>

definition rememberConfig :: "string \<Rightarrow> string \<Rightarrow> replica \<Rightarrow> replica" where
  "rememberConfig key targetName r = r\<lparr>rpTargets := (rpTargets r)(key \<mapsto> targetName)\<rparr>"

definition cancelDrain :: "string \<Rightarrow> replica \<Rightarrow> replica" where
  "cancelDrain key r = r\<lparr>rpDrain := (rpDrain r)(key := None)\<rparr>"

definition dropTarget :: "string \<Rightarrow> string \<Rightarrow> replica \<Rightarrow> replica" where
  "dropTarget key targetName r = (cancelDrain key r)\<lparr>rpRegistry := registryRemove (rpRegistry r) targetName\<rparr>"

definition forgetConfig :: "string \<Rightarrow> replica \<Rightarrow> replica" where
  "forgetConfig key r =
     (let r' = r\<lparr>rpTargets := (rpTargets r)(key := None), rpDrain := (rpDrain r)(key := None)\<rparr>
      in case rpTargets r key of
           None \<Rightarrow> r'
         | Some targetName \<Rightarrow> r'\<lparr>rpRegistry := registryRemove (rpRegistry r) targetName\<rparr>)"

definition recordFailure :: "(msg \<Rightarrow> string) \<Rightarrow> int \<Rightarrow> string \<Rightarrow> msg \<Rightarrow> replica \<Rightarrow> replica" where
  "recordFailure sprint now targetName m r = r\<lparr>rpRegistry := RecordError (rpRegistry r) targetName (sprint m) now\<rparr>"

text \<open>The time that is left of a drain: nothing to do, the whole period when it starts, or the rest.\<close>

definition drainRemaining :: "replicaConfig \<Rightarrow> int \<Rightarrow> string \<Rightarrow> string \<Rightarrow> replica \<Rightarrow> int \<times> replica" where
  "drainRemaining rc now key targetName r =
     (let period = drainPeriod rc in
      if period < 0 then (0, r)
      else if registryGet (rpRegistry r) targetName = None then (0, cancelDrain key r)
      else (case rpDrain r key of
              None \<Rightarrow> (period, r\<lparr>rpDrain := (rpDrain r)(key \<mapsto> now + period)\<rparr>)
            | Some deadline \<Rightarrow>
                (if deadline - now > 0 then (deadline - now, r)
                 else (0, r\<lparr>rpDrain := (rpDrain r)(key := None)\<rparr>))))"

definition compiledEntry :: "string \<Rightarrow> string list \<Rightarrow> AnalyzeReport \<Rightarrow> string \<Rightarrow> int \<Rightarrow> CompiledEntry" where
  "compiledEntry hubVersion reviewVersions report planHash now =
     \<lparr>ceRouter = Some \<lparr>routerHub = hubVersion, routerPlans = rev (map (\<lambda>sr. (srVersion sr, srCompiledPlan sr)) (arSpokeReports report))\<rparr>,
      ceReviewVersions = (if reviewVersions = [] then [''v1''] else reviewVersions),
      ceLossless = rev (map (\<lambda>sr. (srVersion sr, (lossH2S (srLossless sr), lossS2H (srLossless sr)))) (arSpokeReports report)),
      cePlanHash = planHash, ceCompiledAt = now, ceLastError = [], ceLastErrorAt = 0\<rparr>"

definition compileAndRegister :: "string \<Rightarrow> string \<Rightarrow> string list \<Rightarrow> AnalyzeReport \<Rightarrow> string \<Rightarrow> int \<Rightarrow> replica \<Rightarrow> replica" where
  "compileAndRegister targetName hubVersion reviewVersions report planHash now r =
     r\<lparr>rpRegistry := registrySet (rpRegistry r) targetName (compiledEntry hubVersion reviewVersions report planHash now)\<rparr>"

subsection \<open>Reconciling one configuration\<close>

definition kindName :: "configKind \<Rightarrow> string" where
  "kindName k = (case k of XRDKind \<Rightarrow> ''XRD'' | CRDKind \<Rightarrow> ''CRD'')"

definition assignConfig :: "conversionConfig \<Rightarrow> Config" where
  "assignConfig cfg = \<lparr>cfgRef = ccWebhookServerRef cfg, cfgShardKey = ccTarget cfg, cfgAppliedURL = []\<rparr>"

definition compileTarget :: "golib \<Rightarrow> (msg \<Rightarrow> string) \<Rightarrow> liveConfig \<Rightarrow> liveTarget \<Rightarrow> int \<Rightarrow> replica \<Rightarrow> replica" where
  "compileTarget lib sprint lc target now r =
     (let cfg = lcConfig lc; src = ltSource target in
      case ToRuleSets lib cfg of
        Inl e \<Rightarrow> recordFailure sprint now (ccTarget cfg) (Fmt ''invalid rule configuration: %v'' [e]) r
      | Inr ruleSets \<Rightarrow>
          (case analyzeTarget lib cfg src ruleSets of
             Inl e \<Rightarrow> recordFailure sprint now (ccTarget cfg) (Fmt ''analysis failed: %v'' [e]) r
           | Inr report \<Rightarrow>
               (if HasErrors report
                then recordFailure sprint now (ccTarget cfg) (MStr ''analysis produced validation errors; keeping any previously compiled plan in place'') r
                else compileAndRegister (ccTarget cfg) (ccHubVersion cfg) (lcReviewVersions lc) report
                       (sprint (Fmt ''gen=%d/%d'' [MInt (ssGeneration src), MInt (lcGeneration lc)])) now r)))"

definition isMine :: "(float64 \<Rightarrow> float64) \<Rightarrow> replicaConfig \<Rightarrow> conversionConfig \<Rightarrow> WebhookServer list \<Rightarrow> bool" where
  "isMine logf rc cfg servers = (ResolveAssignment logf (assignConfig cfg) servers = Inr (rcServerName rc))"

definition reconcileTarget ::
    "golib \<Rightarrow> (msg \<Rightarrow> string) \<Rightarrow> replicaConfig \<Rightarrow> configKind \<Rightarrow> string \<Rightarrow> liveConfig \<Rightarrow> bool \<Rightarrow> liveTarget reading \<Rightarrow> int \<Rightarrow> replica \<Rightarrow> (gerr + int) \<times> replica" where
  "reconcileTarget lib sprint rc k key lc mine target now r =
     (let targetName = ccTarget (lcConfig lc) in
      case target of
        ReadError e \<Rightarrow> (Inl (Fmt ''getting target %s %q: %w'' [MStr (kindName k), MStr targetName, e]), r)
      | NotFound \<Rightarrow>
          (if \<not> mine then (Inr 0, dropTarget key targetName r)
           else (Inr 0, recordFailure sprint now targetName (Fmt ''target %s %q not found'' [MStr (kindName k), MStr targetName]) r))
      | Found t \<Rightarrow>
          (if \<not> mine \<and> \<not> pointsAtServer t (rcServerName rc)
           then (let (wait, r') = drainRemaining rc now key targetName r in
                 if wait > 0 then (Inr wait, r') else (Inr 0, dropTarget key targetName r'))
           else (Inr 0, compileTarget lib sprint lc t now (cancelDrain key r))))"

definition reconcileOne ::
    "golib \<Rightarrow> (float64 \<Rightarrow> float64) \<Rightarrow> (msg \<Rightarrow> string) \<Rightarrow> replicaConfig \<Rightarrow> configKind \<Rightarrow> string \<Rightarrow>
     liveConfig reading \<Rightarrow> gerr + WebhookServer list \<Rightarrow> liveTarget reading \<Rightarrow> int \<Rightarrow> replica \<Rightarrow> (gerr + int) \<times> replica" where
  "reconcileOne lib logf sprint rc k name config servers target now r =
     (let key = configKey k name in
      case config of
        NotFound \<Rightarrow> (Inr 0, forgetConfig key r)
      | ReadError e \<Rightarrow> (Inl (Fmt ''getting %sConversionConfig %q: %w'' [MStr (kindName k), MStr name, e]), r)
      | Found lc \<Rightarrow>
          (if lcDeleting lc then (Inr 0, forgetConfig key r)
           else (let r1 = rememberConfig key (ccTarget (lcConfig lc)) r in
                 case servers of
                   Inl e \<Rightarrow> (Inl (Fmt ''listing ConversionWebhookServers: %w'' [e]), r1)
                 | Inr items \<Rightarrow> reconcileTarget lib sprint rc k key lc (isMine logf rc (lcConfig lc) items) target now r1)))"

subsection \<open>The initial synchronisation\<close>

text \<open>A unit of work: one call with what it reads and when. The errors are collected, the state threaded.\<close>

record workUnit =
  wuKind :: configKind
  wuName :: string
  wuConfig :: "liveConfig reading"
  wuServers :: "gerr + WebhookServer list"
  wuTarget :: "liveTarget reading"
  wuNow :: int

definition runUnit :: "golib \<Rightarrow> (float64 \<Rightarrow> float64) \<Rightarrow> (msg \<Rightarrow> string) \<Rightarrow> replicaConfig \<Rightarrow> workUnit \<Rightarrow> replica \<Rightarrow> (gerr + int) \<times> replica" where
  "runUnit lib logf sprint rc u r = reconcileOne lib logf sprint rc (wuKind u) (wuName u) (wuConfig u) (wuServers u) (wuTarget u) (wuNow u) r"

fun runInitialSyncWork :: "golib \<Rightarrow> (float64 \<Rightarrow> float64) \<Rightarrow> (msg \<Rightarrow> string) \<Rightarrow> replicaConfig \<Rightarrow> workUnit list \<Rightarrow> gerr list \<times> replica \<Rightarrow> gerr list \<times> replica" where
  "runInitialSyncWork lib logf sprint rc [] er = er"
| "runInitialSyncWork lib logf sprint rc (u # us) er =
     (case runUnit lib logf sprint rc u (snd er) of
        (Inl e, r) \<Rightarrow> runInitialSyncWork lib logf sprint rc us (fst er @ [e], r)
      | (Inr _, r) \<Rightarrow> runInitialSyncWork lib logf sprint rc us (fst er, r))"

definition InitialSync :: "golib \<Rightarrow> (float64 \<Rightarrow> float64) \<Rightarrow> (msg \<Rightarrow> string) \<Rightarrow> replicaConfig \<Rightarrow> gerr + workUnit list \<Rightarrow> gerr + workUnit list \<Rightarrow> replica \<Rightarrow> (gerr + nat) \<times> replica" where
  "InitialSync lib logf sprint rc xrds crds r =
     (case xrds of
        Inl e \<Rightarrow> (Inl (Fmt ''listing XRDConversionConfigs for initial sync: %w'' [e]), r)
      | Inr xs \<Rightarrow> (case crds of
          Inl e \<Rightarrow> (Inl (Fmt ''listing CRDConversionConfigs for initial sync: %w'' [e]), r)
        | Inr cs \<Rightarrow>
            (let (errs, r') = runInitialSyncWork lib logf sprint rc (xs @ cs) ([], r) in
             (if errs \<noteq> [] then Inl (Fmt ''initial sync: %d of %d targets failed to load: %w'' ([MInt (int (length errs)), MInt (int (length (xs @ cs)))] @ errs))
              else Inr (length (xs @ cs)), r'))))"


subsection \<open>What is served\<close>

lemma served_simps [simp]:
  "served (RecordError reg x m t) = served reg"
  "served (registrySet reg x e) = (served reg)(x := ceRouter e)"
  "served (registryRemove reg x) = (served reg)(x := None)"
  by (auto simp: served_def RecordError_def registrySet_def registryRemove_def zeroEntry_def Let_def split: option.splits)

lemma bookkeeping_registry [simp]:
  "rpRegistry (rememberConfig key t r) = rpRegistry r"
  "rpRegistry (cancelDrain key r) = rpRegistry r"
  "rpRegistry (dropTarget key t r) = registryRemove (rpRegistry r) t"
  "rpRegistry (recordFailure sprint now t m r) = RecordError (rpRegistry r) t (sprint m) now"
  "rpRegistry (snd (drainRemaining rc now key t r)) = rpRegistry r"
  by (simp_all add: rememberConfig_def cancelDrain_def dropTarget_def recordFailure_def drainRemaining_def Let_def split: option.splits)

text \<open>The router that a clean report gives.\<close>

definition reportRouter :: "string \<Rightarrow> AnalyzeReport \<Rightarrow> Router" where
  "reportRouter hubVersion report =
     \<lparr>routerHub = hubVersion, routerPlans = rev (map (\<lambda>sr. (srVersion sr, srCompiledPlan sr)) (arSpokeReports report))\<rparr>"

definition cleanReport :: "golib \<Rightarrow> conversionConfig \<Rightarrow> schemaSource \<Rightarrow> AnalyzeReport \<Rightarrow> bool" where
  "cleanReport lib cfg src report \<longleftrightarrow>
     (\<exists>ruleSets. ToRuleSets lib cfg = Inr ruleSets \<and> analyzeTarget lib cfg src ruleSets = Inr report) \<and> \<not> HasErrors report"

lemma compileTarget_served:
  "cleanReport lib (lcConfig lc) (ltSource t) report \<Longrightarrow>
     served (rpRegistry (compileTarget lib sprint lc t now r)) = (served (rpRegistry r))(ccTarget (lcConfig lc) \<mapsto> reportRouter (ccHubVersion (lcConfig lc)) report)"
  "\<nexists>report. cleanReport lib (lcConfig lc) (ltSource t) report \<Longrightarrow> served (rpRegistry (compileTarget lib sprint lc t now r)) = served (rpRegistry r)"
  by (auto simp: cleanReport_def compileTarget_def Let_def compileAndRegister_def compiledEntry_def reportRouter_def split: sum.splits)

text \<open>A configuration this replica is responsible for: assigned to it, or its target still calls it.\<close>

definition responsible :: "(float64 \<Rightarrow> float64) \<Rightarrow> replicaConfig \<Rightarrow> conversionConfig \<Rightarrow> WebhookServer list \<Rightarrow> liveTarget reading \<Rightarrow> bool" where
  "responsible logf rc cfg items target \<longleftrightarrow>
     isMine logf rc cfg items \<or> (\<exists>t. target = Found t \<and> pointsAtServer t (rcServerName rc))"

text \<open>Such a configuration gets the router of a clean analysis, and otherwise keeps what is served.\<close>

lemma responsible_served:
  assumes "\<not> lcDeleting lc" and "responsible logf rc (lcConfig lc) items target"
  shows "served (rpRegistry (snd (reconcileOne lib logf sprint rc k name (Found lc) (Inr items) target now r))) = served (rpRegistry r)
    \<or> (\<exists>t report. target = Found t \<and> cleanReport lib (lcConfig lc) (ltSource t) report
        \<and> served (rpRegistry (snd (reconcileOne lib logf sprint rc k name (Found lc) (Inr items) target now r)))
          = (served (rpRegistry r))(ccTarget (lcConfig lc) \<mapsto> reportRouter (ccHubVersion (lcConfig lc)) report))"
proof (cases target)
  case (Found t)
  then have "snd (reconcileOne lib logf sprint rc k name (Found lc) (Inr items) target now r)
      = compileTarget lib sprint lc t now (cancelDrain (configKey k name) (rememberConfig (configKey k name) (ccTarget (lcConfig lc)) r))"
    using assms by (auto simp: reconcileOne_def reconcileTarget_def responsible_def Let_def)
  then show ?thesis using Found compileTarget_served[of lib lc t] by (cases "\<exists>report. cleanReport lib (lcConfig lc) (ltSource t) report") auto
qed (use assms in \<open>auto simp: reconcileOne_def reconcileTarget_def responsible_def Let_def\<close>)

subsection \<open>Draining\<close>

definition handedOver :: "(float64 \<Rightarrow> float64) \<Rightarrow> replicaConfig \<Rightarrow> liveConfig \<Rightarrow> WebhookServer list \<Rightarrow> liveTarget \<Rightarrow> bool" where
  "handedOver logf rc lc items t \<longleftrightarrow> \<not> lcDeleting lc \<and> \<not> isMine logf rc (lcConfig lc) items \<and> \<not> pointsAtServer t (rcServerName rc)"

lemma drain_call:
  assumes "handedOver logf rc lc items t" and "0 < drainPeriod rc" and "rpRegistry r (ccTarget (lcConfig lc)) = Some e"
    and "key = configKey k name" and "d = (case rpDrain r key of None \<Rightarrow> now + drainPeriod rc | Some d \<Rightarrow> d)"
  shows "now < d \<Longrightarrow> reconcileOne lib logf sprint rc k name (Found lc) (Inr items) (Found t) now r =
      (Inr (d - now), r\<lparr>rpTargets := (rpTargets r)(key \<mapsto> ccTarget (lcConfig lc)), rpDrain := (rpDrain r)(key \<mapsto> d)\<rparr>)"
    and "d \<le> now \<Longrightarrow> reconcileOne lib logf sprint rc k name (Found lc) (Inr items) (Found t) now r =
      (Inr 0, r\<lparr>rpRegistry := (rpRegistry r)(ccTarget (lcConfig lc) := None), rpTargets := (rpTargets r)(key \<mapsto> ccTarget (lcConfig lc)),
         rpDrain := (rpDrain r)(key := None)\<rparr>)"
  using assms
  by (auto simp: reconcileOne_def reconcileTarget_def handedOver_def drainRemaining_def Let_def rememberConfig_def
      registryGet_def registryRemove_def dropTarget_def cancelDrain_def fun_upd_idem split: option.splits)


text \<open>Calls for one configuration after its target was handed over, at the times of the units.\<close>

definition drainingUnit :: "(float64 \<Rightarrow> float64) \<Rightarrow> replicaConfig \<Rightarrow> configKind \<Rightarrow> string \<Rightarrow> string \<Rightarrow> workUnit \<Rightarrow> bool" where
  "drainingUnit logf rc k name targetName u \<longleftrightarrow> wuKind u = k \<and> wuName u = name
     \<and> (\<exists>lc items t. wuConfig u = Found lc \<and> wuServers u = Inr items \<and> wuTarget u = Found t
          \<and> ccTarget (lcConfig lc) = targetName \<and> handedOver logf rc lc items t)"

definition after :: "golib \<Rightarrow> (float64 \<Rightarrow> float64) \<Rightarrow> (msg \<Rightarrow> string) \<Rightarrow> replicaConfig \<Rightarrow> workUnit list \<Rightarrow> replica \<Rightarrow> replica" where
  "after lib logf sprint rc us r = fold (\<lambda>u r. snd (runUnit lib logf sprint rc u r)) us r"

lemma drain_unit:
  assumes "drainingUnit logf rc k name tn u" and "0 < drainPeriod rc" and "rpRegistry r tn = Some e"
    and "d = (case rpDrain r (configKey k name) of None \<Rightarrow> wuNow u + drainPeriod rc | Some d \<Rightarrow> d)"
  shows "wuNow u < d \<Longrightarrow> runUnit lib logf sprint rc u r =
      (Inr (d - wuNow u), r\<lparr>rpTargets := (rpTargets r)(configKey k name \<mapsto> tn), rpDrain := (rpDrain r)(configKey k name \<mapsto> d)\<rparr>)"
    and "d \<le> wuNow u \<Longrightarrow> rpRegistry (snd (runUnit lib logf sprint rc u r)) tn = None"
  using assms drain_call[of logf rc _ _ _ r e "configKey k name" k name d "wuNow u" lib sprint]
  by (auto simp: drainingUnit_def runUnit_def)

lemma drain_keeps:
  assumes "0 < drainPeriod rc" and "\<forall>u\<in>set us. drainingUnit logf rc k name tn u \<and> wuNow u < d"
    and "rpRegistry r tn = Some e" and "rpDrain r (configKey k name) = Some d"
  shows "rpRegistry (after lib logf sprint rc us r) tn = Some e \<and> rpDrain (after lib logf sprint rc us r) (configKey k name) = Some d"
  using assms
proof (induction us arbitrary: r)
  case (Cons u us)
  have "runUnit lib logf sprint rc u r = (Inr (d - wuNow u),
      r\<lparr>rpTargets := (rpTargets r)(configKey k name \<mapsto> tn), rpDrain := (rpDrain r)(configKey k name \<mapsto> d)\<rparr>)"
    using Cons.prems by (intro drain_unit(1)) auto
  with Cons show ?case by (simp add: after_def)
qed (simp add: after_def)

subsection \<open>Calls for different configurations commute\<close>

text \<open>An operation that reads and writes the registry at one target and the deadlines at one key.\<close>

definition local_at :: "string \<Rightarrow> string \<Rightarrow> (replica \<Rightarrow> replica) \<Rightarrow> bool" where
  "local_at key tn f \<longleftrightarrow> (\<exists>h. \<forall>r. f r =
     r\<lparr>rpRegistry := (rpRegistry r)(tn := fst (h (rpRegistry r tn) (rpDrain r key))),
       rpDrain := (rpDrain r)(key := snd (h (rpRegistry r tn) (rpDrain r key)))\<rparr>)"

lemma local_atI:
  assumes "\<And>r. f r = r\<lparr>rpRegistry := (rpRegistry r)(tn := fst (h (rpRegistry r tn) (rpDrain r key))),
      rpDrain := (rpDrain r)(key := snd (h (rpRegistry r tn) (rpDrain r key)))\<rparr>"
  shows "local_at key tn f"
  using assms unfolding local_at_def by blast

lemma local_id: "local_at key tn (\<lambda>r. r)"
  by (rule local_atI[where h = Pair]) simp

lemma local_cancelDrain: "local_at key tn (cancelDrain key)"
  by (rule local_atI[where h = "\<lambda>reg d. (reg, None)"]) (simp add: cancelDrain_def)

lemma local_dropTarget: "local_at key tn (dropTarget key tn)"
  by (rule local_atI[where h = "\<lambda>reg d. (None, None)"])
    (auto simp: dropTarget_def cancelDrain_def registryRemove_def fun_upd_idem)

lemma local_recordFailure: "local_at key tn (recordFailure sprint now tn m)"
  by (rule local_atI[where h = "\<lambda>reg d. (RecordError (Map.empty(tn := reg)) tn (sprint m) now tn, d)"])
    (simp add: recordFailure_def RecordError_def Let_def)

lemma local_compileAndRegister: "local_at key tn (compileAndRegister tn hv vs report planHash now)"
  by (rule local_atI[where h = "\<lambda>reg d. (Some (compiledEntry hv vs report planHash now), d)"])
    (simp add: compileAndRegister_def registrySet_def)

lemma local_comp:
  assumes "local_at key tn f" and "local_at key tn g"
  shows "local_at key tn (\<lambda>r. f (g r))"
proof -
  obtain h where h: "\<And>r. f r = r\<lparr>rpRegistry := (rpRegistry r)(tn := fst (h (rpRegistry r tn) (rpDrain r key))),
      rpDrain := (rpDrain r)(key := snd (h (rpRegistry r tn) (rpDrain r key)))\<rparr>" using assms(1) unfolding local_at_def by blast
  obtain l where l: "\<And>r. g r = r\<lparr>rpRegistry := (rpRegistry r)(tn := fst (l (rpRegistry r tn) (rpDrain r key))),
      rpDrain := (rpDrain r)(key := snd (l (rpRegistry r tn) (rpDrain r key)))\<rparr>" using assms(2) unfolding local_at_def by blast
  show ?thesis
    by (rule local_atI[where h = "\<lambda>reg d. h (fst (l reg d)) (snd (l reg d))"]) (simp add: h l)
qed

lemma local_drain: "local_at key tn (\<lambda>r. let (wait, r') = drainRemaining rc now key tn r in if wait > 0 then r' else dropTarget key tn r')"
  by (rule local_atI[where h = "\<lambda>reg d. if drainPeriod rc < 0 \<or> reg = None then (None, None)
      else (case d of None \<Rightarrow> if drainPeriod rc > 0 then (reg, Some (now + drainPeriod rc)) else (None, None)
            | Some dl \<Rightarrow> if dl - now > 0 then (reg, d) else (None, None))"])
    (auto simp: drainRemaining_def Let_def registryGet_def dropTarget_def cancelDrain_def registryRemove_def fun_upd_idem split: option.splits)


lemma local_compileTarget: "local_at key (ccTarget (lcConfig lc)) (compileTarget lib sprint lc t now)"
proof (cases "ToRuleSets lib (lcConfig lc)")
  case (Inl e)
  then show ?thesis using local_recordFailure by (simp add: compileTarget_def[abs_def])
next
  case (Inr ruleSets)
  note rules = this
  show ?thesis
  proof (cases "analyzeTarget lib (lcConfig lc) (ltSource t) ruleSets")
    case (Inl e)
    then show ?thesis using rules local_recordFailure by (simp add: compileTarget_def[abs_def])
  next
    case (Inr report)
    then show ?thesis using rules local_recordFailure local_compileAndRegister
      by (cases "HasErrors report") (simp_all add: compileTarget_def[abs_def] Let_def)
  qed
qed

lemma local_reconcileTarget:
  "local_at key (ccTarget (lcConfig lc)) (\<lambda>r. snd (reconcileTarget lib sprint rc k key lc mine target now r))"
proof (cases target)
  case NotFound
  then show ?thesis by (cases mine) (simp_all add: reconcileTarget_def Let_def local_dropTarget local_recordFailure)
next
  case (ReadError e)
  then show ?thesis by (simp add: reconcileTarget_def local_id)
next
  case (Found t)
  show ?thesis
  proof (cases "\<not> mine \<and> \<not> pointsAtServer t (rcServerName rc)")
    case True
    then have "(\<lambda>r. snd (reconcileTarget lib sprint rc k key lc mine target now r)) =
        (\<lambda>r. let (wait, r') = drainRemaining rc now key (ccTarget (lcConfig lc)) r in if wait > 0 then r' else dropTarget key (ccTarget (lcConfig lc)) r')"
      using Found by (auto simp: reconcileTarget_def Let_def fun_eq_iff split: prod.splits)
    then show ?thesis by (simp only: local_drain)
  next
    case False
    then have "(\<lambda>r. snd (reconcileTarget lib sprint rc k key lc mine target now r)) =
        (\<lambda>r. compileTarget lib sprint lc t now (cancelDrain key r))"
      using Found by (auto simp: reconcileTarget_def Let_def)
    then show ?thesis using local_comp[OF local_compileTarget local_cancelDrain] by simp
  qed
qed

definition unitKey :: "workUnit \<Rightarrow> string" where
  "unitKey u = configKey (wuKind u) (wuName u)"

text \<open>The target a unit works on, if its configuration is there and not being deleted.\<close>

definition unitTarget :: "workUnit \<Rightarrow> string option" where
  "unitTarget u = (case wuConfig u of Found lc \<Rightarrow> if lcDeleting lc then None else Some (ccTarget (lcConfig lc)) | _ \<Rightarrow> None)"

text \<open>On a replica that has not seen the configuration, a unit notes its target and then works locally.\<close>

lemma unit_form:
  "\<exists>f. (\<forall>tn. unitTarget u \<in> {None, Some tn} \<longrightarrow> local_at (unitKey u) tn f) \<and>
    (\<forall>r. rpTargets r (unitKey u) = None \<longrightarrow>
      snd (runUnit lib logf sprint rc u r) = f (r\<lparr>rpTargets := (rpTargets r)(unitKey u := unitTarget u)\<rparr>))"
proof (cases "\<exists>lc. wuConfig u = Found lc \<and> \<not> lcDeleting lc")
  case True
  then obtain lc where lc: "wuConfig u = Found lc" "\<not> lcDeleting lc" by blast
  then have tn: "unitTarget u = Some (ccTarget (lcConfig lc))" by (simp add: unitTarget_def)
  show ?thesis
  proof (cases "wuServers u")
    case (Inl e)
    then show ?thesis using lc tn
      by (intro exI[of _ "\<lambda>r. r"]) (simp add: local_id runUnit_def reconcileOne_def rememberConfig_def unitKey_def Let_def)
  next
    case (Inr items)
    let ?f = "\<lambda>r. snd (reconcileTarget lib sprint rc (wuKind u) (unitKey u) lc (isMine logf rc (lcConfig lc) items) (wuTarget u) (wuNow u) r)"
    have "\<forall>tn. unitTarget u \<in> {None, Some tn} \<longrightarrow> local_at (unitKey u) tn ?f" using tn local_reconcileTarget by auto
    then show ?thesis using lc tn Inr
      by (intro exI[of _ ?f]) (simp add: runUnit_def reconcileOne_def rememberConfig_def unitKey_def Let_def)
  qed
next
  case False
  then have none: "unitTarget u = None" by (auto simp: unitTarget_def split: reading.splits)
  have upd: "m(x := None) = m" if "m x = None" for m :: "string \<rightharpoonup> string" and x using that by (simp add: fun_upd_idem)
  show ?thesis
  proof (cases "wuConfig u")
    case (ReadError e)
    then show ?thesis using none upd
      by (intro exI[of _ "\<lambda>r. r"]) (simp add: local_id runUnit_def reconcileOne_def Let_def)
  next
    case NotFound
    then show ?thesis using none
      by (intro exI[of _ "cancelDrain (unitKey u)"])
        (simp add: local_cancelDrain runUnit_def reconcileOne_def forgetConfig_def cancelDrain_def unitKey_def Let_def)
  next
    case (Found lc)
    then have "lcDeleting lc" using False by simp
    then show ?thesis using none Found
      by (intro exI[of _ "cancelDrain (unitKey u)"])
        (simp add: local_cancelDrain runUnit_def reconcileOne_def forgetConfig_def cancelDrain_def unitKey_def Let_def)
  qed
qed

lemma local_targets: "local_at key tn f \<Longrightarrow> rpTargets (f r) = rpTargets r"
  unfolding local_at_def by (elim exE) simp

lemma local_commute:
  assumes "local_at key tn f" and "local_at key' tn' g" and "key \<noteq> key'" and "tn \<noteq> tn'"
  shows "f ((g r)\<lparr>rpTargets := m\<rparr>) = g ((f (r\<lparr>rpTargets := m\<rparr>)))"
proof -
  obtain h where h: "\<And>r. f r = r\<lparr>rpRegistry := (rpRegistry r)(tn := fst (h (rpRegistry r tn) (rpDrain r key))),
      rpDrain := (rpDrain r)(key := snd (h (rpRegistry r tn) (rpDrain r key)))\<rparr>" using assms(1) unfolding local_at_def by blast
  obtain l where l: "\<And>r. g r = r\<lparr>rpRegistry := (rpRegistry r)(tn' := fst (l (rpRegistry r tn') (rpDrain r key'))),
      rpDrain := (rpDrain r)(key' := snd (l (rpRegistry r tn') (rpDrain r key')))\<rparr>" using assms(2) unfolding local_at_def by blast
  show ?thesis using assms(3,4) by (simp add: h l fun_upd_twist)
qed


lemma local_keeps_targets:
  assumes "\<And>tn. unitTarget u \<in> {None, Some tn} \<Longrightarrow> local_at (unitKey u) tn f"
  shows "rpTargets (f r) = rpTargets r"
proof -
  have "\<exists>tn. unitTarget u \<in> {None, Some tn}" by (cases "unitTarget u") auto
  then show ?thesis using assms local_targets by blast
qed

text \<open>Targets for which two units of different targets act locally.\<close>

lemma separate_targets:
  assumes "unitTarget u = None \<or> unitTarget v = None \<or> unitTarget u \<noteq> unitTarget v"
  shows "\<exists>tn tn'. unitTarget u \<in> {None, Some tn} \<and> unitTarget v \<in> {None, Some tn'} \<and> tn \<noteq> tn'"
proof -
  have "\<exists>t'. t' \<noteq> t" for t :: string by (rule exI[of _ "CHR ''x'' # t"]) simp
  then show ?thesis using assms by (cases "unitTarget u"; cases "unitTarget v") (simp_all, blast+)
qed

definition freshUnit :: "golib \<Rightarrow> (float64 \<Rightarrow> float64) \<Rightarrow> (msg \<Rightarrow> string) \<Rightarrow> replicaConfig \<Rightarrow> workUnit \<Rightarrow> replica \<Rightarrow> replica" where
  "freshUnit lib logf sprint rc u r = (if rpTargets r (unitKey u) = None then snd (runUnit lib logf sprint rc u r) else r)"

lemma freshUnit_targets: "key \<noteq> unitKey u \<Longrightarrow> rpTargets (freshUnit lib logf sprint rc u r) key = rpTargets r key"
proof -
  obtain f where f: "\<And>tn. unitTarget u \<in> {None, Some tn} \<Longrightarrow> local_at (unitKey u) tn f"
    "\<And>r. rpTargets r (unitKey u) = None \<Longrightarrow> snd (runUnit lib logf sprint rc u r) = f (r\<lparr>rpTargets := (rpTargets r)(unitKey u := unitTarget u)\<rparr>)"
    using unit_form[of u lib logf sprint rc] by blast
  assume "key \<noteq> unitKey u"
  then show ?thesis using f(2)[of r] local_keeps_targets[OF f(1)] by (simp add: freshUnit_def)
qed

lemma freshUnit_commute:
  assumes "unitKey u \<noteq> unitKey v" and "unitTarget u = None \<or> unitTarget v = None \<or> unitTarget u \<noteq> unitTarget v"
  shows "freshUnit lib logf sprint rc u (freshUnit lib logf sprint rc v r) = freshUnit lib logf sprint rc v (freshUnit lib logf sprint rc u r)"
proof (cases "rpTargets r (unitKey u) = None \<and> rpTargets r (unitKey v) = None")
  case True
  obtain f where f: "\<And>tn. unitTarget u \<in> {None, Some tn} \<Longrightarrow> local_at (unitKey u) tn f"
    "\<And>r. rpTargets r (unitKey u) = None \<Longrightarrow> snd (runUnit lib logf sprint rc u r) = f (r\<lparr>rpTargets := (rpTargets r)(unitKey u := unitTarget u)\<rparr>)"
    using unit_form[of u lib logf sprint rc] by blast
  obtain g where g: "\<And>tn. unitTarget v \<in> {None, Some tn} \<Longrightarrow> local_at (unitKey v) tn g"
    "\<And>r. rpTargets r (unitKey v) = None \<Longrightarrow> snd (runUnit lib logf sprint rc v r) = g (r\<lparr>rpTargets := (rpTargets r)(unitKey v := unitTarget v)\<rparr>)"
    using unit_form[of v lib logf sprint rc] by blast
  obtain tn tn' where tn: "unitTarget u \<in> {None, Some tn}" "unitTarget v \<in> {None, Some tn'}" "tn \<noteq> tn'"
    using separate_targets[OF assms(2)] by blast
  note lf = f(1)[OF tn(1)] and lg = g(1)[OF tn(2)]
  let ?ru = "r\<lparr>rpTargets := (rpTargets r)(unitKey u := unitTarget u)\<rparr>" and ?rv = "r\<lparr>rpTargets := (rpTargets r)(unitKey v := unitTarget v)\<rparr>"
  let ?m = "(rpTargets r)(unitKey u := unitTarget u, unitKey v := unitTarget v)"
  have "freshUnit lib logf sprint rc u (freshUnit lib logf sprint rc v r) = f ((g ?rv)\<lparr>rpTargets := ?m\<rparr>)"
    using True assms(1) g(2)[of r] f(2)[of "g ?rv"] by (simp add: freshUnit_def local_targets[OF lg] fun_upd_twist)
  also have "\<dots> = g (f (?rv\<lparr>rpTargets := ?m\<rparr>))" by (rule local_commute[OF lf lg assms(1) tn(3)])
  also have "\<dots> = g ((f ?ru)\<lparr>rpTargets := ?m\<rparr>)"
  proof -
    have "f (?rv\<lparr>rpTargets := ?m\<rparr>) = (f ?ru)\<lparr>rpTargets := ?m\<rparr>"
      using lf unfolding local_at_def by (elim exE) simp
    then show ?thesis by simp
  qed
  also have "\<dots> = freshUnit lib logf sprint rc v (freshUnit lib logf sprint rc u r)"
    using True assms(1) f(2)[of r] g(2)[of "f ?ru"] by (simp add: freshUnit_def local_targets[OF lf])
  finally show ?thesis .
next
  case False
  then show ?thesis using freshUnit_targets[of "unitKey u" v lib logf sprint rc r] freshUnit_targets[of "unitKey v" u lib logf sprint rc r] assms(1)
    by (auto simp: freshUnit_def)
qed


lemma after_freshUnit:
  assumes "distinct (map unitKey us)" and "\<forall>u\<in>set us. rpTargets r (unitKey u) = None"
  shows "after lib logf sprint rc us r = fold (freshUnit lib logf sprint rc) us r"
  using assms
proof (induction us arbitrary: r)
  case (Cons u us)
  have "snd (runUnit lib logf sprint rc u r) = freshUnit lib logf sprint rc u r" using Cons.prems(2) by (simp add: freshUnit_def)
  moreover have "after lib logf sprint rc us (freshUnit lib logf sprint rc u r) = fold (freshUnit lib logf sprint rc) us (freshUnit lib logf sprint rc u r)"
  proof (rule Cons.IH)
    show "\<forall>v\<in>set us. rpTargets (freshUnit lib logf sprint rc u r) (unitKey v) = None"
    proof
      fix v assume "v \<in> set us"
      then have "unitKey v \<in> set (map unitKey us)" by simp
      then have "unitKey v \<noteq> unitKey u" "rpTargets r (unitKey v) = None" using Cons.prems by auto
      then show "rpTargets (freshUnit lib logf sprint rc u r) (unitKey v) = None" by (simp add: freshUnit_targets)
    qed
  qed (use Cons.prems(1) in simp)
  ultimately show ?case by (simp add: after_def)
qed (simp add: after_def)

text \<open>On a fresh replica the order of units with different targets does not matter.\<close>

lemma initial_order:
  assumes "mset us = mset vs" and "distinct (map unitKey us)" and "\<forall>u\<in>set us. rpTargets r (unitKey u) = None"
    and "\<forall>u\<in>set us. \<forall>v\<in>set us. u \<noteq> v \<longrightarrow> unitTarget u \<noteq> None \<longrightarrow> unitTarget u \<noteq> unitTarget v"
  shows "after lib logf sprint rc us r = after lib logf sprint rc vs r"
proof -
  have comm: "freshUnit lib logf sprint rc u \<circ> freshUnit lib logf sprint rc v = freshUnit lib logf sprint rc v \<circ> freshUnit lib logf sprint rc u"
    if "u \<in> set us" "v \<in> set us" for u v
  proof (cases "u = v")
    case False
    then have "unitKey u \<noteq> unitKey v" using assms(2) that by (auto simp: distinct_map inj_on_def)
    moreover have "unitTarget u = None \<or> unitTarget v = None \<or> unitTarget u \<noteq> unitTarget v" using assms(4) that False by blast
    ultimately show ?thesis unfolding fun_eq_iff comp_def using freshUnit_commute by blast
  qed simp
  have "distinct (map unitKey vs)" using assms(1,2) by (metis mset_eq_imp_distinct_iff mset_map)
  moreover have "\<forall>u\<in>set vs. rpTargets r (unitKey u) = None" using assms(1,3) by (metis mset_eq_setD)
  ultimately have "after lib logf sprint rc vs r = fold (freshUnit lib logf sprint rc) vs r" by (rule after_freshUnit)
  moreover have "fold (freshUnit lib logf sprint rc) us = fold (freshUnit lib logf sprint rc) vs"
    using comm assms(1) by (rule fold_multiset_equiv)
  ultimately show ?thesis using after_freshUnit[OF assms(2,3)] by simp
qed

lemma runInitialSyncWork_state: "snd (runInitialSyncWork lib logf sprint rc us er) = after lib logf sprint rc us (snd er)"
  by (induction us arbitrary: er) (auto simp: after_def split: prod.splits sum.splits)

subsection \<open>A configuration that changes its target\<close>

lemma reconcileOne_other_target:
  assumes "\<not> lcDeleting lc" and "t \<noteq> ccTarget (lcConfig lc)"
  shows "rpRegistry (snd (reconcileOne lib logf sprint rc k name (Found lc) servers target now r)) t = rpRegistry r t"
proof (cases servers)
  case (Inl e)
  then show ?thesis using assms(1) by (simp add: reconcileOne_def Let_def)
next
  case (Inr items)
  obtain h where h: "\<And>r. snd (reconcileTarget lib sprint rc k (configKey k name) lc (isMine logf rc (lcConfig lc) items) target now r) =
      r\<lparr>rpRegistry := (rpRegistry r)(ccTarget (lcConfig lc) := fst (h (rpRegistry r (ccTarget (lcConfig lc))) (rpDrain r (configKey k name)))),
        rpDrain := (rpDrain r)(configKey k name := snd (h (rpRegistry r (ccTarget (lcConfig lc))) (rpDrain r (configKey k name))))\<rparr>"
    using local_reconcileTarget unfolding local_at_def by metis
  then show ?thesis using Inr assms by (simp add: reconcileOne_def Let_def)
qed

lemma reconcileOne_remembers:
  assumes "\<not> lcDeleting lc"
  shows "rpTargets (snd (reconcileOne lib logf sprint rc k name (Found lc) servers target now r)) (configKey k name) = Some (ccTarget (lcConfig lc))"
proof (cases servers)
  case (Inr items)
  have "rpTargets (snd (reconcileTarget lib sprint rc k (configKey k name) lc (isMine logf rc (lcConfig lc) items) target now r')) = rpTargets r'" for r'
    using local_targets[OF local_reconcileTarget] .
  then show ?thesis using Inr assms by (simp add: reconcileOne_def rememberConfig_def Let_def)
qed (use assms in \<open>simp add: reconcileOne_def rememberConfig_def Let_def\<close>)

end
