(* ===== verification/Propagation.thy ===== *)
theory Propagation
  imports Handover Replica
begin

text \<open>
  The status of a configuration and what the operator verifies after it has patched a target
  (\<open>internal/controller/propagation.go\<close>): every CRD Crossplane generates from the XRD has to carry the
  conversion webhook that was applied. CRDs are the typed objects of \<open>apiextensions\<close>, cut to the fields
  the operator reads (\<open>pkg/crdadapter\<close>); the apply configuration of a CRD is the record of the fields its
  builder sets. \<open>sha256\<close>, \<open>hex\<close> and the URL alphabet of \<open>base64\<close> are fields of \<open>ctrllib\<close>, which gathers the
  libraries a controller calls. One reconcile happens at one time, \<open>now\<close>.
\<close>

record ctrllib =
  ct_go :: golib
  ct_k8s :: k8slib
  ct_cond :: condlib
  ct_zip :: ziplib
  ct_sprint :: "msg \<Rightarrow> string"
  ct_log :: "float64 \<Rightarrow> float64"
  ct_sum256 :: "string \<Rightarrow> string"
  ct_hex :: "string \<Rightarrow> string"
  ct_rawURL :: "string \<Rightarrow> string"

subsection \<open>Custom resource definitions\<close>

record ServiceReference =
  srvNamespace :: string
  srvName :: string
  srvPath :: "string option"
  srvPort :: "int32 option"

record WebhookClientConfig =
  wccService :: "ServiceReference option"
  wccCABundle :: string

record WebhookConversion =
  wcvClientConfig :: "WebhookClientConfig option"
  wcvReviewVersions :: "string list"

record CustomResourceConversion =
  crcStrategy :: string
  crcWebhook :: "WebhookConversion option"

record CRDVersion =
  cvName :: string
  cvSchema :: schema
  cvServed :: bool
  cvStorage :: bool

record CustomResourceDefinition =
  crdName :: string
  crdGeneration :: int
  crdVersions :: "CRDVersion list"
  crdConditions :: "(string \<times> string) list"
  crdConversion :: "CustomResourceConversion option"

definition crdSourceVersions :: "CustomResourceDefinition \<Rightarrow> VersionSchema list" where
  "crdSourceVersions crd =
     map (\<lambda>v. \<lparr>vsName = cvName v, vsSchema = cvSchema v, vsServed = cvServed v, vsStorage = cvStorage v\<rparr>) (crdVersions crd)"

definition crdEstablished :: "CustomResourceDefinition \<Rightarrow> bool" where
  "crdEstablished crd = (map_of (crdConditions crd) ''Established'' = Some ''True'')"

text \<open>The apply configurations of a CRD.\<close>

record CRDApplyConfiguration =
  aplName :: string
  aplAnnotations :: "(string \<times> string) list"
  aplConversion :: CustomResourceConversion

definition BuildCRDConversionPatch :: "ziplib \<Rightarrow> Params \<Rightarrow> gerr + CRDApplyConfiguration" where
  "BuildCRDConversionPatch z p =
     (case zl_DecodeString z (pCABundle p) of
        Inl e \<Rightarrow> Inl (Fmt ''decoding CA bundle: %w'' [e])
      | Inr caBundleBytes \<Rightarrow>
          Inr \<lparr>aplName = pTargetName p,
               aplAnnotations = [(ManagedByAnnotation, pConfigName p), (PlanHashAnnotation, pPlanHash p)],
               aplConversion = \<lparr>crcStrategy = ''Webhook'',
                 crcWebhook = Some \<lparr>wcvClientConfig = Some \<lparr>
                     wccService = Some \<lparr>srvNamespace = pServiceNamespace p, srvName = pServiceName p,
                        srvPath = Some (pPath p), srvPort = Some (pPort p)\<rparr>,
                     wccCABundle = caBundleBytes\<rparr>,
                   wcvReviewVersions = pReviewVersions p\<rparr>\<rparr>\<rparr>)"

definition BuildCRDRevertPatch :: "string \<Rightarrow> CRDApplyConfiguration" where
  "BuildCRDRevertPatch targetName =
     \<lparr>aplName = targetName, aplAnnotations = [], aplConversion = \<lparr>crcStrategy = ''None'', crcWebhook = None\<rparr>\<rparr>"

subsection \<open>Status\<close>

record apiSpokeStatus =
  scsVersion :: string
  scsLossless :: LosslessVerdict
  scsUncoveredHub :: "string list"
  scsUncoveredSpoke :: "string list"
  scsRuleResults :: "RuleResult list"
  scsErrors :: "msg list"
  scsWarnings :: "msg list"

record GeneratedCRDStatus =
  gcsName :: string
  gcsRole :: string
  gcsPropagated :: bool
  gcsObservedCABundleHash :: string
  gcsObservedAt :: int
  gcsMessage :: "msg option"   \<comment> \<open>the empty message is \<open>None\<close>\<close>

record configStatus =
  stObservedGeneration :: int
  stObservedTargetGeneration :: int
  stSchemaHash :: string
  stPhase :: string
  stConditions :: "condition list"
  stAssignedWebhookServer :: string
  stWebhookPath :: string
  stWebhookURL :: string
  stWebhookPort :: int32
  stOverallLossless :: bool
  stSpokeStatuses :: "apiSpokeStatus list"
  stLastAppliedPlanHash :: string
  stGeneratedCRDs :: "GeneratedCRDStatus list"
  stMessage :: msg

definition setStatusCondition :: "ctrllib \<Rightarrow> int \<Rightarrow> string \<Rightarrow> string \<Rightarrow> string \<Rightarrow> msg \<Rightarrow> configStatus \<Rightarrow> configStatus" where
  "setStatusCondition lib now t s r m st = st\<lparr>stConditions := cl_set (ct_cond lib) now (stConditions st) (newCondition t s r m)\<rparr>"

definition removeStatusCondition :: "ctrllib \<Rightarrow> string \<Rightarrow> configStatus \<Rightarrow> configStatus" where
  "removeStatusCondition lib t st = st\<lparr>stConditions := cl_remove (ct_cond lib) (stConditions st) t\<rparr>"

definition statusTrue :: "ctrllib \<Rightarrow> configStatus \<Rightarrow> string \<Rightarrow> bool" where
  "statusTrue lib st t = isConditionTrue (ct_cond lib) (stConditions st) t"

abbreviation ConditionValidated :: string where "ConditionValidated \<equiv> ''Validated''"
abbreviation ConditionWebhookServerReady :: string where "ConditionWebhookServerReady \<equiv> ''WebhookServerReady''"
abbreviation ConditionApplied :: string where "ConditionApplied \<equiv> ''Applied''"
abbreviation ConditionStale :: string where "ConditionStale \<equiv> ''Stale''"
abbreviation ConditionDeletionBlocked :: string where "ConditionDeletionBlocked \<equiv> ''DeletionBlocked''"
abbreviation ConditionPackageManaged :: string where "ConditionPackageManaged \<equiv> ''PackageManaged''"
abbreviation ConditionConversionPropagated :: string where "ConditionConversionPropagated \<equiv> ''ConversionPropagated''"
abbreviation ConditionHandoverReady :: string where "ConditionHandoverReady \<equiv> ''HandoverReady''"
abbreviation ReasonNotPropagated :: string where "ReasonNotPropagated \<equiv> ''NotPropagated''"
abbreviation ReasonCABundleStale :: string where "ReasonCABundleStale \<equiv> ''CABundleStale''"

subsection \<open>Comparing a generated CRD\<close>

record expectedConversion =
  ecvServiceName :: string
  ecvServiceNamespace :: string
  ecvPath :: string
  ecvPort :: int32
  ecvCABundle :: string
  ecvReviewVersions :: "string list"

definition caBundleHash :: "ctrllib \<Rightarrow> string \<Rightarrow> string" where
  "caBundleHash lib b64 =
     (if b64 = [] then []
      else ''sha256:'' @ ct_hex lib (ct_sum256 lib (case zl_DecodeString (ct_zip lib) b64 of Inl _ \<Rightarrow> b64 | Inr raw \<Rightarrow> raw)))"

definition sameStrings :: "string list \<Rightarrow> string list \<Rightarrow> bool" where
  "sameStrings a b = (if length a \<noteq> length b then False else sort a = sort b)"

text \<open>\<open>None\<close> when the CRD matches, otherwise the reason and the detail.\<close>

definition compareService :: "expectedConversion \<Rightarrow> WebhookConversion \<Rightarrow> ServiceReference \<Rightarrow> (string \<times> msg) option" where
  "compareService want wh svc =
     (let port = (case srvPort svc of None \<Rightarrow> 443 | Some p \<Rightarrow> p);
          path = (case srvPath svc of None \<Rightarrow> [] | Some p \<Rightarrow> p) in
      if srvName svc \<noteq> ecvServiceName want \<or> srvNamespace svc \<noteq> ecvServiceNamespace want
      then Some (ReasonNotPropagated, Fmt ''points at service %s/%s, expected %s/%s''
             [MStr (srvNamespace svc), MStr (srvName svc), MStr (ecvServiceNamespace want), MStr (ecvServiceName want)])
      else if path \<noteq> ecvPath want
      then Some (ReasonNotPropagated, Fmt ''webhook path is %q, expected %q'' [MStr path, MStr (ecvPath want)])
      else if port \<noteq> ecvPort want
      then Some (ReasonNotPropagated, Fmt ''webhook port is %d, expected %d'' [MInt (sint port), MInt (sint (ecvPort want))])
      else if \<not> sameStrings (wcvReviewVersions wh) (ecvReviewVersions want)
      then Some (ReasonNotPropagated, Fmt ''conversionReviewVersions are %v, expected %v''
             [Fmt [] (map MStr (wcvReviewVersions wh)), Fmt [] (map MStr (ecvReviewVersions want))])
      else None)"

definition clientConfigOf :: "CustomResourceConversion option \<Rightarrow> WebhookClientConfig option" where
  "clientConfigOf conv = Option.bind (Option.bind conv crcWebhook) wcvClientConfig"

definition strategyMessage :: "string \<Rightarrow> msg" where
  "strategyMessage strategy = Fmt ''spec.conversion.strategy is %q, so the apiserver relabels stored objects without converting them'' [MStr strategy]"

definition compareBundle :: "ctrllib \<Rightarrow> expectedConversion \<Rightarrow> string \<Rightarrow> (string \<times> msg) option" where
  "compareBundle lib want bundle =
     (let observed = caBundleHash lib (zl_EncodeToString (ct_zip lib) bundle);
          expected = caBundleHash lib (ecvCABundle want) in
      if observed \<noteq> expected then Some (ReasonCABundleStale, Fmt ''caBundle is %s, expected %s'' [MStr observed, MStr expected])
      else None)"

definition compareGeneratedConversion :: "ctrllib \<Rightarrow> CustomResourceDefinition \<Rightarrow> expectedConversion \<Rightarrow> (string \<times> msg) option" where
  "compareGeneratedConversion lib crd want =
     (case crdConversion crd of
        None \<Rightarrow> Some (ReasonNotPropagated, strategyMessage ''None'')
      | Some conv \<Rightarrow>
          (if crcStrategy conv \<noteq> ''Webhook'' then Some (ReasonNotPropagated, strategyMessage (crcStrategy conv))
           else (case (crcWebhook conv, clientConfigOf (Some conv)) of
                   (Some wh, Some cc) \<Rightarrow>
                     (case wccService cc of
                        None \<Rightarrow> Some (ReasonNotPropagated, MStr ''spec.conversion.webhook has no service client config'')
                      | Some svc \<Rightarrow>
                          (case compareService want wh svc of
                             Some m \<Rightarrow> Some m
                           | None \<Rightarrow> compareBundle lib want (wccCABundle cc)))
                 | _ \<Rightarrow> Some (ReasonNotPropagated, MStr ''spec.conversion.webhook has no service client config''))))"

subsection \<open>Verification\<close>

definition observedBundle :: "ctrllib \<Rightarrow> CustomResourceDefinition \<Rightarrow> string" where
  "observedBundle lib crd =
     (case clientConfigOf (crdConversion crd) of
        None \<Rightarrow> []
      | Some cc \<Rightarrow> zl_EncodeToString (ct_zip lib) (wccCABundle cc))"

datatype crdFinding = CRDMissing | CRDMismatch | CRDStale | CRDPropagated

definition verifyOne ::
    "ctrllib \<Rightarrow> int \<Rightarrow> (string \<Rightarrow> CustomResourceDefinition reading) \<Rightarrow> expectedConversion \<Rightarrow> GeneratedCRD \<Rightarrow> crdFinding \<times> GeneratedCRDStatus" where
  "verifyOne lib now getCRD want g =
     (let st = \<lparr>gcsName = gcName g, gcsRole = gcRole g, gcsPropagated = False, gcsObservedCABundleHash = [], gcsObservedAt = now, gcsMessage = None\<rparr> in
      case getCRD (gcName g) of
        NotFound \<Rightarrow> (CRDMissing, st\<lparr>gcsMessage := Some (MStr ''Crossplane has not created this CRD yet'')\<rparr>)
      | ReadError e \<Rightarrow> (CRDMismatch, st\<lparr>gcsMessage := Some (Fmt ''reading the generated CRD failed: %v'' [e])\<rparr>)
      | Found crd \<Rightarrow>
          (let st' = st\<lparr>gcsObservedCABundleHash := caBundleHash lib (observedBundle lib crd)\<rparr> in
           case compareGeneratedConversion lib crd want of
             None \<Rightarrow> (CRDPropagated, st'\<lparr>gcsPropagated := True\<rparr>)
           | Some (reason, detail) \<Rightarrow>
               ((if reason = ReasonCABundleStale then CRDStale else CRDMismatch), st'\<lparr>gcsMessage := Some detail\<rparr>)))"

fun firstMessage :: "GeneratedCRDStatus list \<Rightarrow> string list \<Rightarrow> msg" where
  "firstMessage [] names = MStr ''see status.generatedCRDs''"
| "firstMessage (s # ss) names =
     (case gcsMessage s of
        Some m \<Rightarrow> (if gcsName s \<in> set names then m else firstMessage ss names)
      | None \<Rightarrow> firstMessage ss names)"

definition namesFound :: "crdFinding \<Rightarrow> (crdFinding \<times> GeneratedCRDStatus) list \<Rightarrow> string list" where
  "namesFound f results = map (gcsName \<circ> snd) (filter (\<lambda>r. fst r = f) results)"

definition setPropagationCondition :: "ctrllib \<Rightarrow> int \<Rightarrow> string \<Rightarrow> string \<Rightarrow> msg \<Rightarrow> configStatus \<Rightarrow> configStatus" where
  "setPropagationCondition lib now s r m = setStatusCondition lib now ConditionConversionPropagated s r m"

text \<open>The new status; the gauge is whether the condition it sets is true.\<close>

definition verifyPropagation ::
    "ctrllib \<Rightarrow> int \<Rightarrow> (string \<Rightarrow> CustomResourceDefinition reading) \<Rightarrow> jobj \<Rightarrow> expectedConversion \<Rightarrow> configStatus \<Rightarrow> configStatus" where
  "verifyPropagation lib now getCRD xrd want st =
     (case GeneratedCRDNames (ct_k8s lib) (Some xrd) of
        Inl e \<Rightarrow> setPropagationCondition lib now ''False'' ReasonNotPropagated
                   (Fmt ''cannot determine which CRDs the XRD generates: %v'' [e]) st
      | Inr generated \<Rightarrow>
          (let results = map (verifyOne lib now getCRD want) generated;
               statuses = map snd results;
               notFound = namesFound CRDMissing results;
               mismatch = namesFound CRDMismatch results;
               stale = namesFound CRDStale results;
               st' = st\<lparr>stGeneratedCRDs := statuses\<rparr> in
           if notFound \<noteq> [] then setPropagationCondition lib now ''False'' ''GeneratedCRDNotFound''
             (Fmt ''Crossplane has not created %s yet; conversion cannot work until it does'' [MStr (joinStr notFound '', '')]) st'
           else if mismatch \<noteq> [] then setPropagationCondition lib now ''False'' ReasonNotPropagated
             (Fmt ''%s does not carry the conversion webhook applied to the XRD: %s'' [MStr (joinStr mismatch '', ''), firstMessage statuses mismatch]) st'
           else if stale \<noteq> [] then setPropagationCondition lib now ''False'' ReasonCABundleStale
             (Fmt ''%s carries a stale caBundle; conversion requests will fail TLS verification until Crossplane re-renders it'' [MStr (joinStr stale '', '')]) st'
           else setPropagationCondition lib now ''True'' ''Propagated''
             (Fmt ''every CRD generated from the XRD (%s) carries the applied conversion webhook'' [MStr (joinStr (map gcsName statuses) '', '')]) st'))"

subsection \<open>What the comparison means\<close>

lemma sameStrings_iff: "sameStrings a b \<longleftrightarrow> mset a = mset b"
proof -
  have "sort a = sort b \<longleftrightarrow> mset a = mset b" by (metis mset_sort properties_for_sort sorted_sort)
  then show ?thesis by (auto simp: sameStrings_def dest: mset_eq_length)
qed

text \<open>A CRD that carries the applied webhook, whatever the order of its review versions.\<close>

definition carriesConversion :: "ctrllib \<Rightarrow> expectedConversion \<Rightarrow> CustomResourceDefinition \<Rightarrow> bool" where
  "carriesConversion lib want crd \<longleftrightarrow>
     (\<exists>conv wh cc svc. crdConversion crd = Some conv \<and> crcStrategy conv = ''Webhook''
        \<and> crcWebhook conv = Some wh \<and> wcvClientConfig wh = Some cc \<and> wccService cc = Some svc
        \<and> srvName svc = ecvServiceName want \<and> srvNamespace svc = ecvServiceNamespace want
        \<and> (case srvPath svc of None \<Rightarrow> [] | Some p \<Rightarrow> p) = ecvPath want
        \<and> (case srvPort svc of None \<Rightarrow> 443 | Some p \<Rightarrow> p) = ecvPort want
        \<and> mset (wcvReviewVersions wh) = mset (ecvReviewVersions want)
        \<and> caBundleHash lib (zl_EncodeToString (ct_zip lib) (wccCABundle cc)) = caBundleHash lib (ecvCABundle want))"

lemma compareService_None:
  "compareService want wh svc = None \<longleftrightarrow>
     srvName svc = ecvServiceName want \<and> srvNamespace svc = ecvServiceNamespace want
   \<and> (case srvPath svc of None \<Rightarrow> [] | Some p \<Rightarrow> p) = ecvPath want
   \<and> (case srvPort svc of None \<Rightarrow> 443 | Some p \<Rightarrow> p) = ecvPort want
   \<and> mset (wcvReviewVersions wh) = mset (ecvReviewVersions want)"
  by (auto simp: compareService_def Let_def sameStrings_iff)

lemma compareGeneratedConversion_None: "compareGeneratedConversion lib crd want = None \<longleftrightarrow> carriesConversion lib want crd"
proof (cases "crdConversion crd")
  case None
  then show ?thesis by (simp add: compareGeneratedConversion_def carriesConversion_def)
next
  case (Some conv)
  show ?thesis
  proof (cases "crcStrategy conv = ''Webhook'' \<and> crcWebhook conv \<noteq> None \<and> clientConfigOf (Some conv) \<noteq> None")
    case False
    then show ?thesis using Some
      by (auto simp: compareGeneratedConversion_def carriesConversion_def clientConfigOf_def split: option.splits)
  next
    case True
    then obtain wh cc where wh: "crcStrategy conv = ''Webhook''" "crcWebhook conv = Some wh" "wcvClientConfig wh = Some cc"
      by (auto simp: clientConfigOf_def)
    have "compareGeneratedConversion lib crd want =
        (case wccService cc of None \<Rightarrow> Some (ReasonNotPropagated, MStr ''spec.conversion.webhook has no service client config'')
         | Some svc \<Rightarrow> (case compareService want wh svc of Some m \<Rightarrow> Some m | None \<Rightarrow> compareBundle lib want (wccCABundle cc)))"
      using Some wh by (simp add: compareGeneratedConversion_def clientConfigOf_def)
    moreover have "carriesConversion lib want crd \<longleftrightarrow> (\<exists>svc. wccService cc = Some svc \<and> compareService want wh svc = None
        \<and> caBundleHash lib (zl_EncodeToString (ct_zip lib) (wccCABundle cc)) = caBundleHash lib (ecvCABundle want))"
      using Some wh by (auto simp: carriesConversion_def compareService_None)
    moreover have "compareBundle lib want (wccCABundle cc) = None \<longleftrightarrow>
        caBundleHash lib (zl_EncodeToString (ct_zip lib) (wccCABundle cc)) = caBundleHash lib (ecvCABundle want)"
      by (simp add: compareBundle_def Let_def)
    ultimately show ?thesis by (simp split: option.split)
  qed
qed

text \<open>The operator's own CRD patch passes the comparison with what it was built from.\<close>

lemma built_patch_carries:
  assumes "zipLaws (ct_zip lib)" and "pCABundle p = zl_EncodeToString (ct_zip lib) raw"
    and "BuildCRDConversionPatch (ct_zip lib) p = Inr apl" and "crdConversion crd = Some (aplConversion apl)"
  shows "carriesConversion lib \<lparr>ecvServiceName = pServiceName p, ecvServiceNamespace = pServiceNamespace p, ecvPath = pPath p,
      ecvPort = pPort p, ecvCABundle = pCABundle p, ecvReviewVersions = pReviewVersions p\<rparr> crd"
proof -
  have "zl_DecodeString (ct_zip lib) (pCABundle p) = Inr raw" using assms(1,2) by (simp add: zipLaws_def)
  then show ?thesis using assms(2-4) by (auto simp: BuildCRDConversionPatch_def carriesConversion_def)
qed

subsection \<open>Conditions of a status\<close>

definition statusCondition :: "ctrllib \<Rightarrow> configStatus \<Rightarrow> string \<Rightarrow> condition option" where
  "statusCondition lib st t = cl_find (ct_cond lib) (stConditions st) t"

lemma statusCondition_set:
  "condLaws (ct_cond lib) \<Longrightarrow> statusCondition lib (setStatusCondition lib now t s r m st) t' =
     (if t' = t then Some (stamped now (statusCondition lib st t) (newCondition t s r m)) else statusCondition lib st t')"
  by (simp add: statusCondition_def setStatusCondition_def condLaws_def)

lemma statusCondition_remove:
  "condLaws (ct_cond lib) \<Longrightarrow> statusCondition lib (removeStatusCondition lib t st) t' =
     (if t' = t then None else statusCondition lib st t')"
  by (simp add: statusCondition_def removeStatusCondition_def condLaws_def)

lemma statusTrue_alt: "statusTrue lib st t \<longleftrightarrow> (\<exists>c. statusCondition lib st t = Some c \<and> cnStatus c = ''True'')"
  by (simp add: statusTrue_def isConditionTrue_def statusCondition_def split: option.split)

lemma stamped_simps [simp]:
  "cnType (stamped now old c) = cnType c" "cnStatus (stamped now old c) = cnStatus c"
  "cnReason (stamped now old c) = cnReason c" "cnMessage (stamped now old c) = cnMessage c"
  by (simp_all add: stamped_def)

lemma statusTrue_set:
  "condLaws (ct_cond lib) \<Longrightarrow> statusTrue lib (setStatusCondition lib now t s r m st) t' \<longleftrightarrow>
     (if t' = t then s = ''True'' else statusTrue lib st t')"
  by (simp add: statusTrue_alt statusCondition_set)

text \<open>The condition is true exactly when every generated CRD was read and carries the webhook.\<close>

lemma verifyOne_finding:
  "fst (verifyOne lib now getCRD want g) = CRDPropagated \<longleftrightarrow>
     (\<exists>crd. getCRD (gcName g) = Found crd \<and> carriesConversion lib want crd)"
  by (simp add: verifyOne_def Let_def compareGeneratedConversion_None[symmetric] split: reading.split option.split)

lemma namesFound_empty: "namesFound f results = [] \<longleftrightarrow> (\<forall>r\<in>set results. fst r \<noteq> f)"
  by (simp add: namesFound_def filter_empty_conv)

lemma verifyPropagation_true:
  assumes "condLaws (ct_cond lib)"
  shows "statusTrue lib (verifyPropagation lib now getCRD xrd want st) ConditionConversionPropagated \<longleftrightarrow>
     (\<exists>generated. GeneratedCRDNames (ct_k8s lib) (Some xrd) = Inr generated
        \<and> (\<forall>g\<in>set generated. \<exists>crd. getCRD (gcName g) = Found crd \<and> carriesConversion lib want crd))"
proof (cases "GeneratedCRDNames (ct_k8s lib) (Some xrd)")
  case (Inl e)
  then show ?thesis using assms by (simp add: verifyPropagation_def setPropagationCondition_def statusTrue_set)
next
  case (Inr generated)
  let ?results = "map (verifyOne lib now getCRD want) generated"
  have all: "(\<forall>r\<in>set ?results. fst r \<noteq> CRDMissing \<and> fst r \<noteq> CRDMismatch \<and> fst r \<noteq> CRDStale) \<longleftrightarrow>
      (\<forall>g\<in>set generated. \<exists>crd. getCRD (gcName g) = Found crd \<and> carriesConversion lib want crd)"
  proof -
    have "(f \<noteq> CRDMissing \<and> f \<noteq> CRDMismatch \<and> f \<noteq> CRDStale) \<longleftrightarrow> f = CRDPropagated" for f by (cases f) simp_all
    then show ?thesis by (simp add: verifyOne_finding)
  qed
  have "statusTrue lib (verifyPropagation lib now getCRD xrd want st) ConditionConversionPropagated \<longleftrightarrow>
      (namesFound CRDMissing ?results = [] \<and> namesFound CRDMismatch ?results = [] \<and> namesFound CRDStale ?results = [])"
    using assms Inr by (simp add: verifyPropagation_def Let_def setPropagationCondition_def statusTrue_set del: map_map)
  then show ?thesis using all Inr by (simp add: namesFound_empty) blast
qed

end
