(* ===== verification/ConfigController.thy ===== *)
theory ConfigController
  imports Propagation
begin

text \<open>
  The controllers of the two kinds of conversion configuration
  (\<open>internal/controller/xrdconversionconfig_controller.go\<close>, \<open>crdconversionconfig_controller.go\<close>,
  \<open>finalizers.go\<close>, \<open>cws_fanout.go\<close>). The two files are copies of one another but for the type of the
  target; here the kind is an argument and what differs is a case on it. A reconcile is a function of
  the configuration and of what it reads (\<open>clusterReads\<close>, which also says how the API server answers its
  writes): the writes that succeeded, in order, and the time to requeue after or the error. Durations
  of metrics are left out. One reconcile happens at one time.
\<close>

datatype targetObject = XRDObject jobj | CRDObject CustomResourceDefinition

text \<open>A target as fetched: the object and what its adapter answers the engine.\<close>

record fetchedTarget =
  ftObject :: targetObject
  ftSource :: schemaSource

datatype targetPatch = XRDPatch jobj | CRDPatch CRDApplyConfiguration

datatype clusterWrite =
    ApplyTarget targetPatch | PatchStatus configStatus | AddFinalizer string | RemoveFinalizer string
  | CountAnalyzeFailure string | CountTransition string string string | CountRevert | SetPropagated bool

record configObject =
  coConfig :: conversionConfig
  coReviewVersions :: "string list"
  coDriftPolicy :: string
  coGeneration :: int
  coDeleting :: bool
  coFinalizers :: "string list"
  coAnnotations :: "string \<rightharpoonup> string"
  coStatus :: configStatus

record clusterReads =
  crTarget :: "fetchedTarget reading"
  crTargetAgain :: "fetchedTarget reading"   \<comment> \<open>the second read of the same reconcile\<close>
  crServers :: "gerr + WebhookServer list"
  crServer :: "string \<Rightarrow> gerr + liveServer"
  crLeases :: leaseLister
  crSecret :: "string \<Rightarrow> string \<Rightarrow> gerr + (string \<rightharpoonup> string)"
  crGeneratedCRD :: "string \<Rightarrow> CustomResourceDefinition reading"
  crApply :: "gerr option"
  crStatusPatch :: "gerr option"
  crFinalizerPatch :: "gerr option"
  crNow :: int
  crDefaultNamespace :: string

type_synonym outcome = "clusterWrite list \<times> (gerr + int)"

abbreviation PhasePending :: string where "PhasePending \<equiv> ''Pending''"
abbreviation PhaseInvalid :: string where "PhaseInvalid \<equiv> ''Invalid''"
abbreviation PhaseApplied :: string where "PhaseApplied \<equiv> ''Applied''"
abbreviation PhaseStale :: string where "PhaseStale \<equiv> ''Stale''"
abbreviation PhaseFailed :: string where "PhaseFailed \<equiv> ''Failed''"
abbreviation DriftPolicyFailClosed :: string where "DriftPolicyFailClosed \<equiv> ''FailClosed''"
abbreviation ReasonRevertFailed :: string where "ReasonRevertFailed \<equiv> ''RevertFailed''"
abbreviation ReasonReverted :: string where "ReasonReverted \<equiv> ''Reverted''"
abbreviation AllowUnsafeDeleteAnnotation :: string where "AllowUnsafeDeleteAnnotation \<equiv> ''conversion.terasky.com/allow-unsafe-delete''"

definition targetNoun :: "configKind \<Rightarrow> string" where
  "targetNoun k = (case k of XRDKind \<Rightarrow> ''target XRD'' | CRDKind \<Rightarrow> ''target CustomResourceDefinition'')"

definition finalizerOf :: "configKind \<Rightarrow> string" where
  "finalizerOf k = (case k of XRDKind \<Rightarrow> ''conversion.terasky.com/safe-revert'' | CRDKind \<Rightarrow> ''conversion.terasky.com/safe-revert-crd'')"

definition healthCondition :: "configKind \<Rightarrow> string" where
  "healthCondition k = kindName k @ ''Healthy''"

definition targetName :: "configObject \<Rightarrow> string" where
  "targetName cfg = ccTarget (coConfig cfg)"

definition cwsCertificateSecretName :: "string \<Rightarrow> string" where
  "cwsCertificateSecretName server = server @ ''-webhook-server-tls''"

subsection \<open>Phases\<close>

definition recordPhaseTransition :: "string \<Rightarrow> string \<Rightarrow> string \<Rightarrow> clusterWrite list" where
  "recordPhaseTransition fromPhase toPhase reason =
     (if fromPhase = toPhase \<or> toPhase = [] then []
      else [CountTransition (if fromPhase = [] then ''None'' else fromPhase) toPhase reason])"

definition setPhaseStale :: "ctrllib \<Rightarrow> int \<Rightarrow> string \<Rightarrow> msg \<Rightarrow> configStatus \<Rightarrow> configStatus" where
  "setPhaseStale lib now reason m st = setStatusCondition lib now ConditionStale ''True'' reason m (st\<lparr>stPhase := PhaseStale\<rparr>)"

definition setPhasePendingOrStale :: "ctrllib \<Rightarrow> int \<Rightarrow> bool \<Rightarrow> string \<Rightarrow> msg \<Rightarrow> configStatus \<Rightarrow> configStatus" where
  "setPhasePendingOrStale lib now wasApplied reason m st =
     (if wasApplied then setPhaseStale lib now reason m st
      else removeStatusCondition lib ConditionStale (st\<lparr>stPhase := PhasePending\<rparr>))"

definition setInvalid :: "ctrllib \<Rightarrow> int \<Rightarrow> bool \<Rightarrow> msg \<Rightarrow> configStatus \<Rightarrow> configStatus" where
  "setInvalid lib now wasApplied m st =
     (let st' = (if wasApplied then setPhaseStale lib now ''PostApplyInvalid'' m st
                 else removeStatusCondition lib ConditionStale (st\<lparr>stPhase := PhaseInvalid\<rparr>))
      in setStatusCondition lib now ConditionValidated ''False'' ''Invalid'' m (st'\<lparr>stMessage := m\<rparr>))"

definition failClosedShouldRevert :: "ctrllib \<Rightarrow> string \<Rightarrow> string \<Rightarrow> condition list \<Rightarrow> bool" where
  "failClosedShouldRevert lib driftPolicy phase conditions =
     (if driftPolicy \<noteq> DriftPolicyFailClosed then False
      else if phase = PhaseApplied then True
      else if phase = PhaseFailed then
        (case cl_find (ct_cond lib) conditions ConditionApplied of
           None \<Rightarrow> False
         | Some c \<Rightarrow> cnStatus c = ''False'' \<and> cnReason c = ReasonRevertFailed)
      else False)"

definition wasApplied :: "configStatus \<Rightarrow> bool" where
  "wasApplied st \<longleftrightarrow> stPhase st = PhaseApplied \<or> stPhase st = PhaseStale"

definition populateSpokeStatuses :: "AnalyzeReport \<Rightarrow> configStatus \<Rightarrow> configStatus" where
  "populateSpokeStatuses report st =
     st\<lparr>stSpokeStatuses := map (\<lambda>sr.
          \<lparr>scsVersion = srVersion sr, scsLossless = srLossless sr,
           scsUncoveredHub = UncoveredHub (srUncovered sr), scsUncoveredSpoke = UncoveredSpoke (srUncovered sr),
           scsRuleResults = srRuleResults sr,
           scsErrors = map dMessage (srErrors sr), scsWarnings = map dMessage (srWarnings sr)\<rparr>) (arSpokeReports report)\<rparr>"

definition computeSchemaHash :: "ctrllib \<Rightarrow> configObject \<Rightarrow> AnalyzeReport \<Rightarrow> string" where
  "computeSchemaHash lib cfg report =
     ''sha256:'' @ ct_rawURL lib (ct_sum256 lib (ct_sprint lib
        (Fmt ''gen=%d;hub=%s;cfgGen=%d'' [MInt (arResourceGeneration report), MStr (ccHubVersion (coConfig cfg)), MInt (coGeneration cfg)])))"

definition patchStatus :: "clusterReads \<Rightarrow> configObject \<Rightarrow> configStatus \<Rightarrow> clusterWrite list \<Rightarrow> int \<Rightarrow> outcome" where
  "patchStatus view cfg st writes requeue =
     (case crStatusPatch view of
        Some e \<Rightarrow> (writes, Inl e)
      | None \<Rightarrow> (writes @ [PatchStatus (st\<lparr>stObservedGeneration := coGeneration cfg\<rparr>)], Inr requeue))"

subsection \<open>Reading the target\<close>

definition targetEstablished :: "ctrllib \<Rightarrow> targetObject \<Rightarrow> bool" where
  "targetEstablished lib t = (case t of XRDObject xrd \<Rightarrow> Established (ct_k8s lib) xrd | CRDObject crd \<Rightarrow> crdEstablished crd)"

definition countServedVersions :: "ctrllib \<Rightarrow> targetObject \<Rightarrow> nat" where
  "countServedVersions lib t =
     (case t of
        XRDObject xrd \<Rightarrow>
          (case k8_NestedSlice (ct_k8s lib) xrd [''spec'', ''versions''] of
             Inr (Some versions) \<Rightarrow>
               length (filter (\<lambda>v. case v of JObj vm \<Rightarrow> k8_NestedBool (ct_k8s lib) vm [''served''] = Inr (Some True) | _ \<Rightarrow> False) versions)
           | _ \<Rightarrow> 0)
      | CRDObject crd \<Rightarrow> length (filter cvServed (crdVersions crd)))"

definition conversionIsOurs :: "ctrllib \<Rightarrow> jobj \<Rightarrow> string \<Rightarrow> bool" where
  "conversionIsOurs lib xrd configName \<longleftrightarrow>
     k8_NestedString (ct_k8s lib) xrd [''spec'', ''conversion'', ''strategy''] = Inr (Some ''Webhook'')
   \<and> annotation (ct_k8s lib) xrd ManagedByAnnotation = configName"

definition setPackageManagedCondition :: "ctrllib \<Rightarrow> int \<Rightarrow> jobj \<Rightarrow> configStatus \<Rightarrow> configStatus" where
  "setPackageManagedCondition lib now xrd st =
     (case PackageManagedBy (ct_k8s lib) xrd of
        None \<Rightarrow> setStatusCondition lib now ConditionPackageManaged ''False'' ''NotPackageManaged''
          (MStr ''the target XRD has no Crossplane package-revision owner reference, so nothing re-establishes it out of band'') st
      | Some owner \<Rightarrow> setStatusCondition lib now ConditionPackageManaged ''True'' ''OwnedByPackageRevision''
          (Fmt ''the target XRD is owned by %s %q; Crossplane's package establisher re-writes established objects with a full Update on every revision reconcile (default --sync is one hour), which strips spec.conversion and this operator's annotations.''
             [MStr (poKind owner), MStr (poName owner)]) st)"

definition observeConversionRevert :: "ctrllib \<Rightarrow> configObject \<Rightarrow> jobj \<Rightarrow> configStatus \<Rightarrow> clusterWrite list" where
  "observeConversionRevert lib cfg xrd st =
     (if stLastAppliedPlanHash st = [] then []
      else if \<not> statusTrue lib st ConditionApplied then []
      else if conversionIsOurs lib xrd (ccName (coConfig cfg)) then []
      else [CountRevert])"

text \<open>What only the XRD controller looks at before it analyses.\<close>

definition observeTarget :: "ctrllib \<Rightarrow> clusterReads \<Rightarrow> configObject \<Rightarrow> fetchedTarget \<Rightarrow> configStatus \<times> clusterWrite list" where
  "observeTarget lib view cfg t =
     (let st = (coStatus cfg)\<lparr>stObservedTargetGeneration := ssGeneration (ftSource t)\<rparr> in
      case ftObject t of
        CRDObject crd \<Rightarrow> (st, [])
      | XRDObject xrd \<Rightarrow>
          (let st' = setPackageManagedCondition lib (crNow view) xrd st in (st', observeConversionRevert lib cfg xrd st')))"

subsection \<open>Patches\<close>

definition isServerReady :: "ctrllib \<Rightarrow> liveServer \<Rightarrow> bool" where
  "isServerReady lib server =
     (if lvReadyReplicas server = 0 then False
      else list_all (isConditionTrue (ct_cond lib) (lvConditions server)) [''Available'', ''CertificateReady'', ''ServiceReady''])"

definition readCABundle :: "ctrllib \<Rightarrow> clusterReads \<Rightarrow> liveServer \<Rightarrow> gerr + string" where
  "readCABundle lib view server =
     (let name = cwsCertificateSecretName (wsName (lvServer server)) in
      case crSecret view (serverNamespace (crDefaultNamespace view) server) name of
        Inl e \<Rightarrow> Inl (Fmt ''getting certificate secret: %w'' [e])
      | Inr secretData \<Rightarrow>
          (let field = (\<lambda>f. case secretData f of None \<Rightarrow> [] | Some v \<Rightarrow> v) in
           if field ''ca.crt'' \<noteq> [] then Inr (zl_EncodeToString (ct_zip lib) (field ''ca.crt''))
           else if field ''tls.crt'' \<noteq> [] then Inr (zl_EncodeToString (ct_zip lib) (field ''tls.crt''))
           else Inl (Fmt ''certificate secret %q has neither ca.crt nor tls.crt'' [MStr name])))"

definition webhookParams ::
    "ctrllib \<Rightarrow> clusterReads \<Rightarrow> configObject \<Rightarrow> targetObject \<Rightarrow> string \<Rightarrow> liveServer \<Rightarrow> string \<Rightarrow> configStatus \<Rightarrow> Params" where
  "webhookParams lib view cfg t serverName server caBundle st =
     \<lparr>pTargetName = targetName cfg,
      pXRDAPIVersion = (case t of XRDObject xrd \<Rightarrow> WriteGroupVersion (ct_k8s lib) (Some xrd) | CRDObject _ \<Rightarrow> []),
      pConfigName = ccName (coConfig cfg), pPlanHash = stSchemaHash st,
      pServiceName = WebhookServerServiceName serverName,
      pServiceNamespace = serverNamespace (crDefaultNamespace view) server,
      pPath = ''/convert/'' @ targetName cfg,
      pPort = (if lvPort server = 0 then 443 else lvPort server),
      pCABundle = caBundle,
      pReviewVersions = (if coReviewVersions cfg = [] then [''v1''] else coReviewVersions cfg)\<rparr>"

definition conversionPatch :: "ctrllib \<Rightarrow> targetObject \<Rightarrow> Params \<Rightarrow> gerr + targetPatch" where
  "conversionPatch lib t p =
     (case t of
        XRDObject _ \<Rightarrow> Inr (XRDPatch (BuildXRDConversionPatch p))
      | CRDObject _ \<Rightarrow> (case BuildCRDConversionPatch (ct_zip lib) p of Inl e \<Rightarrow> Inl e | Inr a \<Rightarrow> Inr (CRDPatch a)))"

definition applyPatch :: "clusterReads \<Rightarrow> targetPatch \<Rightarrow> gerr + clusterWrite list" where
  "applyPatch view patch = (case crApply view of Some e \<Rightarrow> Inl e | None \<Rightarrow> Inr [ApplyTarget patch])"

text \<open>\<open>revertXRD\<close> reads the XRD again, to learn which API version to write at; \<open>again\<close> is what it gets.\<close>

definition revertTarget :: "ctrllib \<Rightarrow> configKind \<Rightarrow> clusterReads \<Rightarrow> fetchedTarget reading \<Rightarrow> string \<Rightarrow> gerr + clusterWrite list" where
  "revertTarget lib k view again name =
     (case k of
        CRDKind \<Rightarrow> applyPatch view (CRDPatch (BuildCRDRevertPatch name))
      | XRDKind \<Rightarrow>
          (case again of
             NotFound \<Rightarrow> Inr []
           | ReadError _ \<Rightarrow> applyPatch view (XRDPatch (BuildXRDRevertPatch name (WriteGroupVersion (ct_k8s lib) None)))
           | Found t \<Rightarrow> applyPatch view (XRDPatch (BuildXRDRevertPatch name
               (WriteGroupVersion (ct_k8s lib) (case ftObject t of XRDObject xrd \<Rightarrow> Some xrd | CRDObject _ \<Rightarrow> None))))))"

subsection \<open>Drift\<close>

definition staleDriftMessage :: "configKind \<Rightarrow> msg" where
  "staleDriftMessage k = Fmt ''schema drift invalidated this config, but the previously-applied webhook configuration is left untouched (driftPolicy=KeepServingStale); fix the config or the %s to clear this'' [MStr (kindName k)]"

text \<open>The status, writes, message and revert error of a configuration that no longer validates.\<close>

definition driftVerdict ::
    "ctrllib \<Rightarrow> configKind \<Rightarrow> clusterReads \<Rightarrow> configObject \<Rightarrow> configStatus \<Rightarrow> configStatus \<times> clusterWrite list \<times> msg \<times> gerr option" where
  "driftVerdict lib k view cfg st =
     (let now = crNow view; fromPhase = stPhase st;
          failed = removeStatusCondition lib ConditionStale (st\<lparr>stPhase := PhaseFailed\<rparr>) in
      if failClosedShouldRevert lib (coDriftPolicy cfg) fromPhase (stConditions st) then
        (case revertTarget lib k view (crTargetAgain view) (targetName cfg) of
           Inl e \<Rightarrow>
             (let m = Fmt ''schema drift invalidated a previously-applied config; failed to revert to strategy=None per driftPolicy=FailClosed: %v'' [e] in
              (setStatusCondition lib now ConditionApplied ''False'' ReasonRevertFailed m failed,
               recordPhaseTransition fromPhase PhaseFailed ReasonRevertFailed, m, Some e))
         | Inr reverted \<Rightarrow>
             (let m = MStr ''schema drift invalidated a previously-applied config; reverted to strategy=None per driftPolicy=FailClosed'' in
              (setStatusCondition lib now ConditionApplied ''False'' ReasonReverted m failed,
               reverted @ recordPhaseTransition fromPhase PhaseFailed ReasonReverted, m, None)))
      else if wasApplied (coStatus cfg) then
        (let m = staleDriftMessage k in
         (setPhaseStale lib now ''SchemaDrift'' m st, recordPhaseTransition fromPhase PhaseStale ''SchemaDrift'', m, None))
      else (removeStatusCondition lib ConditionStale (st\<lparr>stPhase := PhaseInvalid\<rparr>),
            recordPhaseTransition fromPhase PhaseInvalid ''ValidationFailed'',
            MStr ''one or more spoke versions failed validation; see status.spokeStatuses for details'', None))"

definition driftStep :: "ctrllib \<Rightarrow> configKind \<Rightarrow> clusterReads \<Rightarrow> configObject \<Rightarrow> configStatus \<Rightarrow> clusterWrite list \<Rightarrow> outcome" where
  "driftStep lib k view cfg st writes =
     (let (st', more, m, revertErr) = driftVerdict lib k view cfg st;
          st'' = (setStatusCondition lib (crNow view) ConditionValidated ''False'' ''ValidationFailed'' m st')\<lparr>stMessage := m\<rparr>;
          (done, result) = patchStatus view cfg st'' (writes @ CountAnalyzeFailure ''ValidationErrors'' # more) 0 in
      (done, (case (result, revertErr) of
                (Inr _, Some e) \<Rightarrow> Inl (Fmt ''reverting %s after FailClosed drift: %w'' [MStr (kindName k), e])
              | _ \<Rightarrow> result)))"

subsection \<open>Applying\<close>

definition appliedStatus :: "ctrllib \<Rightarrow> configKind \<Rightarrow> int \<Rightarrow> Params \<Rightarrow> configStatus \<Rightarrow> configStatus" where
  "appliedStatus lib k now p st =
     (let st' = st\<lparr>stPhase := PhaseApplied, stWebhookPath := pPath p,
                stWebhookURL := ''https://'' @ pServiceName p @ ''.'' @ pServiceNamespace p @ ''.svc'' @ pPath p,
                stWebhookPort := (case k of XRDKind \<Rightarrow> pPort p | CRDKind \<Rightarrow> stWebhookPort st),
                stLastAppliedPlanHash := stSchemaHash st,
                stMessage := Fmt ''conversion webhook configuration applied to the target %s'' [MStr (kindName k)]\<rparr>
      in removeStatusCondition lib ConditionStale
           (setStatusCondition lib now ConditionApplied ''True'' ''Applied'' (Fmt ''%s spec.conversion has been patched'' [MStr (kindName k)]) st'))"

definition expectedOf :: "Params \<Rightarrow> expectedConversion" where
  "expectedOf p = \<lparr>ecvServiceName = pServiceName p, ecvServiceNamespace = pServiceNamespace p, ecvPath = pPath p,
     ecvPort = pPort p, ecvCABundle = pCABundle p, ecvReviewVersions = pReviewVersions p\<rparr>"

definition finishApply ::
    "ctrllib \<Rightarrow> configKind \<Rightarrow> clusterReads \<Rightarrow> configObject \<Rightarrow> targetObject \<Rightarrow> Params \<Rightarrow> configStatus \<Rightarrow> clusterWrite list \<Rightarrow> outcome" where
  "finishApply lib k view cfg t p st writes =
     (let st' = appliedStatus lib k (crNow view) p st in
      case t of
        CRDObject _ \<Rightarrow> patchStatus view cfg st' writes (300 * second)
      | XRDObject xrd \<Rightarrow>
          (let verifyXRD = (case crTargetAgain view of
                              Found fresh \<Rightarrow> (case ftObject fresh of XRDObject x \<Rightarrow> x | CRDObject _ \<Rightarrow> xrd)
                            | _ \<Rightarrow> xrd);
               st'' = verifyPropagation lib (crNow view) (crGeneratedCRD view) verifyXRD (expectedOf p) st';
               propagated = statusTrue lib st'' ConditionConversionPropagated
           in patchStatus view cfg st'' (writes @ [SetPropagated propagated]) (if propagated then 300 * second else 15 * second)))"

definition applyStep ::
    "ctrllib \<Rightarrow> configKind \<Rightarrow> clusterReads \<Rightarrow> configObject \<Rightarrow> targetObject \<Rightarrow> string \<Rightarrow> liveServer \<Rightarrow> configStatus \<Rightarrow> clusterWrite list \<Rightarrow> outcome" where
  "applyStep lib k view cfg t serverName server st writes =
     (case readCABundle lib view server of
        Inl e \<Rightarrow> (writes, Inl (Fmt ''reading CA bundle for server %q: %w'' [MStr serverName, e]))
      | Inr caBundle \<Rightarrow>
          (let p = webhookParams lib view cfg t serverName server caBundle st in
           case bindR (conversionPatch lib t p) (applyPatch view) of
             Inl e \<Rightarrow> (writes, Inl (Fmt ''patching %s conversion webhook config: %w'' [MStr (kindName k), e]))
           | Inr applied \<Rightarrow>
               finishApply lib k view cfg t p st (writes @ applied @ recordPhaseTransition (stPhase st) PhaseApplied ''Applied'')))"

subsection \<open>The gates\<close>

definition boolStatus :: "bool \<Rightarrow> string" where
  "boolStatus b = (if b then ''True'' else ''False'')"

definition movingServers :: "configStatus \<Rightarrow> string \<Rightarrow> bool" where
  "movingServers st serverName \<longleftrightarrow> wasApplied st \<and> stWebhookURL st \<noteq> [] \<and> \<not> TargetPointsAt (stWebhookURL st) serverName"

definition handoverGate ::
    "ctrllib \<Rightarrow> configKind \<Rightarrow> clusterReads \<Rightarrow> configObject \<Rightarrow> targetObject \<Rightarrow> string \<Rightarrow> liveServer \<Rightarrow> configStatus \<Rightarrow> clusterWrite list \<Rightarrow> outcome" where
  "handoverGate lib k view cfg t serverName server st writes =
     (if \<not> movingServers (coStatus cfg) serverName then applyStep lib k view cfg t serverName server st writes
      else (case checkHandover (ct_zip lib) (ct_cond lib) (crLeases view) (crDefaultNamespace view) server (targetName cfg)
                   (stConditions (coStatus cfg)) (crNow view) of
              Inl e \<Rightarrow> (writes, Inl e)
            | Inr v \<Rightarrow>
                (let st' = setStatusCondition lib (crNow view) ConditionHandoverReady (boolStatus (hvOK v)) (hvReason v) (hvMessage v) st in
                 if \<not> hvOK v
                 then patchStatus view cfg
                        ((setPhasePendingOrStale lib (crNow view) (wasApplied (coStatus cfg)) (hvReason v) (hvMessage v) st')\<lparr>stMessage := hvMessage v\<rparr>)
                        writes (5 * second)
                 else applyStep lib k view cfg t serverName server st' writes)))"

definition serverGate ::
    "ctrllib \<Rightarrow> configKind \<Rightarrow> clusterReads \<Rightarrow> configObject \<Rightarrow> targetObject \<Rightarrow> string \<Rightarrow> configStatus \<Rightarrow> clusterWrite list \<Rightarrow> outcome" where
  "serverGate lib k view cfg t serverName st writes =
     (case crServer view serverName of
        Inl e \<Rightarrow> (writes, Inl (Fmt ''getting assigned ConversionWebhookServer %q: %w'' [MStr serverName, e]))
      | Inr server \<Rightarrow>
          (if \<not> isServerReady lib server
           then (let m = Fmt ''ConversionWebhookServer %q is not yet Available'' [MStr serverName] in
                 patchStatus view cfg (setPhasePendingOrStale lib (crNow view) (wasApplied (coStatus cfg)) ''ServerNotReady'' m
                   (setStatusCondition lib (crNow view) ConditionWebhookServerReady ''False'' ''ServerNotReady'' m st)) writes (15 * second))
           else handoverGate lib k view cfg t serverName server
                  (setStatusCondition lib (crNow view) ConditionWebhookServerReady ''True'' ''ServerReady''
                     (Fmt ''ConversionWebhookServer %q is Available'' [MStr serverName]) st) writes))"

definition healthGate ::
    "ctrllib \<Rightarrow> configKind \<Rightarrow> clusterReads \<Rightarrow> configObject \<Rightarrow> targetObject \<Rightarrow> string \<Rightarrow> configStatus \<Rightarrow> clusterWrite list \<Rightarrow> outcome" where
  "healthGate lib k view cfg t serverName st writes =
     (if \<not> targetEstablished lib t
      then (let m = Fmt ''%s is not yet Established'' [MStr (targetNoun k)] in
            patchStatus view cfg (setPhasePendingOrStale lib (crNow view) (wasApplied (coStatus cfg)) ''NotEstablished'' m
              (setStatusCondition lib (crNow view) (healthCondition k) ''False'' ''NotEstablished'' m st)) writes (15 * second))
      else serverGate lib k view cfg t serverName
             (setStatusCondition lib (crNow view) (healthCondition k) ''True'' ''Established'' (Fmt ''%s is Established'' [MStr (targetNoun k)]) st) writes)"

definition assignStep :: "ctrllib \<Rightarrow> configKind \<Rightarrow> clusterReads \<Rightarrow> configObject \<Rightarrow> targetObject \<Rightarrow> configStatus \<Rightarrow> clusterWrite list \<Rightarrow> outcome" where
  "assignStep lib k view cfg t st writes =
     (let now = crNow view;
          st' = setStatusCondition lib now ConditionValidated ''True'' ''Validated''
                  (Fmt ''configuration validated against the live %s schema'' [MStr (kindName k)]) st in
      case crServers view of
        Inl e \<Rightarrow> (writes, Inl (Fmt ''listing ConversionWebhookServers: %w'' [e]))
      | Inr servers \<Rightarrow>
          (case ResolveAssignment (ct_log lib) (assignConfig (coConfig cfg)) servers of
             Inl parts \<Rightarrow> patchStatus view cfg (setInvalid lib now (wasApplied (coStatus cfg))
               (Fmt ''could not resolve a ConversionWebhookServer: %v'' (map MStr parts)) st') writes 0
           | Inr serverName \<Rightarrow> healthGate lib k view cfg t serverName (st'\<lparr>stAssignedWebhookServer := serverName\<rparr>) writes))"

subsection \<open>Reconciling\<close>

definition analyzedStatus :: "ctrllib \<Rightarrow> configObject \<Rightarrow> AnalyzeReport \<Rightarrow> configStatus \<Rightarrow> configStatus" where
  "analyzedStatus lib cfg report st =
     (populateSpokeStatuses report st)\<lparr>stOverallLossless := OverallLossless report, stSchemaHash := computeSchemaHash lib cfg report\<rparr>"

definition invalidStep ::
    "ctrllib \<Rightarrow> clusterReads \<Rightarrow> configObject \<Rightarrow> string \<Rightarrow> msg \<Rightarrow> configStatus \<Rightarrow> clusterWrite list \<Rightarrow> outcome" where
  "invalidStep lib view cfg reason m st writes =
     (let st' = setInvalid lib (crNow view) (wasApplied (coStatus cfg)) m st in
      patchStatus view cfg st' (writes @ CountAnalyzeFailure reason # recordPhaseTransition (stPhase st) (stPhase st') reason) 0)"

definition reconcileNormal :: "ctrllib \<Rightarrow> configKind \<Rightarrow> clusterReads \<Rightarrow> configObject \<Rightarrow> outcome" where
  "reconcileNormal lib k view cfg =
     (case crTarget view of
        NotFound \<Rightarrow> patchStatus view cfg (setInvalid lib (crNow view) (wasApplied (coStatus cfg))
            (Fmt ''%s %q not found'' [MStr (targetNoun k), MStr (targetName cfg)]) (coStatus cfg)) [] 0
      | ReadError e \<Rightarrow> ([], Inl (Fmt ''getting target %s: %w'' [MStr (kindName k), e]))
      | Found t \<Rightarrow>
          (let (st, writes) = observeTarget lib view cfg t in
           case ToRuleSets (ct_go lib) (coConfig cfg) of
             Inl e \<Rightarrow> invalidStep lib view cfg ''InvalidConfig'' (Fmt ''invalid rule configuration: %v'' [e]) st writes
           | Inr ruleSets \<Rightarrow>
               (case analyzeTarget (ct_go lib) (coConfig cfg) (ftSource t) ruleSets of
                  Inl e \<Rightarrow> invalidStep lib view cfg ''AnalyzeFailed'' (Fmt ''analysis failed: %v'' [e]) st writes
                | Inr report \<Rightarrow>
                    (let st' = analyzedStatus lib cfg report st in
                     if HasErrors report then driftStep lib k view cfg st' writes
                     else assignStep lib k view cfg (ftObject t) st' writes))))"

definition removeFinalizer :: "configKind \<Rightarrow> clusterReads \<Rightarrow> configObject \<Rightarrow> clusterWrite list \<Rightarrow> outcome" where
  "removeFinalizer k view cfg writes =
     (if finalizerOf k \<notin> set (coFinalizers cfg) then (writes, Inr 0)
      else (case crFinalizerPatch view of Some e \<Rightarrow> (writes, Inl e) | None \<Rightarrow> (writes @ [RemoveFinalizer (finalizerOf k)], Inr 0)))"

definition reconcileDelete :: "ctrllib \<Rightarrow> configKind \<Rightarrow> clusterReads \<Rightarrow> configObject \<Rightarrow> outcome" where
  "reconcileDelete lib k view cfg =
     (if finalizerOf k \<notin> set (coFinalizers cfg) then ([], Inr 0)
      else if stPhase (coStatus cfg) \<noteq> PhaseApplied \<and> stPhase (coStatus cfg) \<noteq> PhaseStale then removeFinalizer k view cfg []
      else (case crTarget view of
              NotFound \<Rightarrow> removeFinalizer k view cfg []
            | ReadError e \<Rightarrow> ([], Inl (Fmt ''getting target %s during delete: %w'' [MStr (kindName k), e]))
            | Found t \<Rightarrow>
                (let servedCount = countServedVersions lib (ftObject t);
                     allowUnsafe = (coAnnotations cfg AllowUnsafeDeleteAnnotation = Some ''true'') in
                 if servedCount > 1 \<and> \<not> allowUnsafe
                 then patchStatus view cfg (setStatusCondition lib (crNow view) ConditionDeletionBlocked ''True'' ''MultipleServedVersions''
                        (Fmt ''target %s %q still serves %d versions; reverting conversion would risk serving the wrong shape to clients on a non-storage version. Add annotation %q to force.''
                           [MStr (kindName k), MStr (targetName cfg), MInt (int servedCount), MStr AllowUnsafeDeleteAnnotation]) (coStatus cfg))
                        [] (30 * second)
                 else (case revertTarget lib k view (crTargetAgain view) (targetName cfg) of
                         Inl e \<Rightarrow> ([], Inl (Fmt ''reverting %s conversion config: %w'' [MStr (kindName k), e]))
                       | Inr reverted \<Rightarrow> removeFinalizer k view cfg reverted))))"

definition addFinalizer :: "configKind \<Rightarrow> clusterReads \<Rightarrow> configObject \<Rightarrow> gerr + clusterWrite list" where
  "addFinalizer k view cfg =
     (if finalizerOf k \<in> set (coFinalizers cfg) then Inr []
      else (case crFinalizerPatch view of Some e \<Rightarrow> Inl e | None \<Rightarrow> Inr [AddFinalizer (finalizerOf k)]))"

definition Reconcile :: "ctrllib \<Rightarrow> configKind \<Rightarrow> clusterReads \<Rightarrow> configObject reading \<Rightarrow> outcome" where
  "Reconcile lib k view config =
     (case config of
        NotFound \<Rightarrow> ([], Inr 0)
      | ReadError e \<Rightarrow> ([], Inl e)
      | Found cfg \<Rightarrow>
          (if coDeleting cfg then reconcileDelete lib k view cfg
           else (case addFinalizer k view cfg of
                   Inl e \<Rightarrow> ([], Inl (Fmt ''adding finalizer: %w'' [e]))
                 | Inr added \<Rightarrow> (let (writes, result) = reconcileNormal lib k view cfg in (added @ writes, result)))))"

text \<open>The entry points of the CRD controller.\<close>

definition crdReconcileNormal :: "ctrllib \<Rightarrow> clusterReads \<Rightarrow> configObject \<Rightarrow> outcome" where
  "crdReconcileNormal lib view cfg = reconcileNormal lib CRDKind view cfg"

definition crdReconcileDelete :: "ctrllib \<Rightarrow> clusterReads \<Rightarrow> configObject \<Rightarrow> outcome" where
  "crdReconcileDelete lib view cfg = reconcileDelete lib CRDKind view cfg"

definition crdReconcile :: "ctrllib \<Rightarrow> clusterReads \<Rightarrow> configObject reading \<Rightarrow> outcome" where
  "crdReconcile lib view config = Reconcile lib CRDKind view config"

subsection \<open>Fan-out\<close>

definition serversWithView :: "WebhookServer list \<Rightarrow> WebhookServer \<Rightarrow> WebhookServer list" where
  "serversWithView live view =
     (let out = map (\<lambda>s. if wsName s = wsName view then view else if wsDefault view then s\<lparr>wsDefault := False\<rparr> else s) live
      in if wsName view \<in> set (map wsName live) then out else out @ [view])"

text \<open>
  The names of the configurations to reconcile after a change of a server; \<open>configs\<close> are the names
  with the configurations, \<open>views\<close> the states of the server before and after, nil ones left out.
\<close>

definition mapConfigsForServerViews ::
    "(float64 \<Rightarrow> float64) \<Rightarrow> (string \<times> Config) list \<Rightarrow> WebhookServer list \<Rightarrow> string \<Rightarrow> WebhookServer list \<Rightarrow> string list" where
  "mapConfigsForServerViews logf configs servers serverName views =
     sort (remdups (concat (map (\<lambda>view. map fst (filter (\<lambda>nc. IsAssignedTo logf (snd nc) (serversWithView servers view) serverName) configs)) views)))"

subsection \<open>What is written to a target, and when\<close>

lemma recordPhaseTransition_quiet [simp]:
  "ApplyTarget p \<notin> set (recordPhaseTransition a b c)" "PatchStatus s \<notin> set (recordPhaseTransition a b c)"
  "RemoveFinalizer f \<notin> set (recordPhaseTransition a b c)"
  by (simp_all add: recordPhaseTransition_def)

lemma patchStatus_apply [simp]: "ApplyTarget p \<in> set (fst (patchStatus view cfg st writes r)) \<longleftrightarrow> ApplyTarget p \<in> set writes"
  by (simp add: patchStatus_def split: option.split)

lemma observeTarget_quiet: "ApplyTarget p \<notin> set (snd (observeTarget lib view cfg t))" "PatchStatus s \<notin> set (snd (observeTarget lib view cfg t))"
  by (simp_all add: observeTarget_def Let_def observeConversionRevert_def split: targetObject.split)

lemma finishApply_apply [simp]: "ApplyTarget p \<in> set (fst (finishApply lib k view cfg t q st writes)) \<longleftrightarrow> ApplyTarget p \<in> set writes"
  by (simp add: finishApply_def Let_def split: targetObject.split)

text \<open>The patch of a step that applies, and the gates that were open.\<close>

definition patchFor :: "ctrllib \<Rightarrow> clusterReads \<Rightarrow> configObject \<Rightarrow> targetObject \<Rightarrow> string \<Rightarrow> liveServer \<Rightarrow> targetPatch \<Rightarrow> bool" where
  "patchFor lib view cfg t serverName server p \<longleftrightarrow>
     (\<exists>caBundle st. readCABundle lib view server = Inr caBundle
        \<and> conversionPatch lib t (webhookParams lib view cfg t serverName server caBundle st) = Inr p)"

definition handoverApproved :: "ctrllib \<Rightarrow> clusterReads \<Rightarrow> configObject \<Rightarrow> string \<Rightarrow> liveServer \<Rightarrow> bool" where
  "handoverApproved lib view cfg serverName server \<longleftrightarrow>
     (movingServers (coStatus cfg) serverName \<longrightarrow>
       (\<exists>v. checkHandover (ct_zip lib) (ct_cond lib) (crLeases view) (crDefaultNamespace view) server (targetName cfg)
              (stConditions (coStatus cfg)) (crNow view) = Inr v \<and> hvOK v))"

definition gatesOpen :: "ctrllib \<Rightarrow> clusterReads \<Rightarrow> configObject \<Rightarrow> targetObject \<Rightarrow> string \<Rightarrow> liveServer \<Rightarrow> bool" where
  "gatesOpen lib view cfg t serverName server \<longleftrightarrow>
     (\<exists>servers. crServers view = Inr servers \<and> ResolveAssignment (ct_log lib) (assignConfig (coConfig cfg)) servers = Inr serverName)
   \<and> targetEstablished lib t \<and> crServer view serverName = Inr server \<and> isServerReady lib server
   \<and> handoverApproved lib view cfg serverName server"

lemma applyStep_apply:
  assumes "ApplyTarget p \<in> set (fst (applyStep lib k view cfg t serverName server st writes))" and "ApplyTarget p \<notin> set writes"
  shows "patchFor lib view cfg t serverName server p"
  using assms
  by (auto simp: applyStep_def patchFor_def Let_def bindR_Inr_iff applyPatch_def split: sum.splits option.splits)

lemma handoverGate_apply:
  assumes "ApplyTarget p \<in> set (fst (handoverGate lib k view cfg t serverName server st writes))" and "ApplyTarget p \<notin> set writes"
  shows "handoverApproved lib view cfg serverName server \<and> patchFor lib view cfg t serverName server p"
  using assms unfolding handoverGate_def handoverApproved_def
  by (auto simp: Let_def dest: applyStep_apply split: if_splits sum.splits)

lemma assignStep_apply:
  assumes "ApplyTarget p \<in> set (fst (assignStep lib k view cfg t st writes))" and "ApplyTarget p \<notin> set writes"
  shows "\<exists>serverName server. gatesOpen lib view cfg t serverName server \<and> patchFor lib view cfg t serverName server p"
  using assms unfolding assignStep_def healthGate_def serverGate_def gatesOpen_def
  by (auto simp: Let_def dest!: handoverGate_apply split: if_splits sum.splits)

lemma driftStep_fst:
  assumes "driftVerdict lib k view cfg st = (st', extra, m, revertErr)"
  shows "fst (driftStep lib k view cfg st writes) =
     fst (patchStatus view cfg ((setStatusCondition lib (crNow view) ConditionValidated ''False'' ''ValidationFailed'' m st')\<lparr>stMessage := m\<rparr>)
            (writes @ CountAnalyzeFailure ''ValidationErrors'' # extra) 0)"
  by (simp add: driftStep_def assms split: prod.split)

lemma driftStep_apply:
  assumes "ApplyTarget p \<in> set (fst (driftStep lib k view cfg st writes))" and "ApplyTarget p \<notin> set writes"
  shows "failClosedShouldRevert lib (coDriftPolicy cfg) (stPhase st) (stConditions st)
    \<and> (\<exists>ws. revertTarget lib k view (crTargetAgain view) (targetName cfg) = Inr ws \<and> ApplyTarget p \<in> set ws)"
proof -
  obtain st' extra m revertErr where v: "driftVerdict lib k view cfg st = (st', extra, m, revertErr)" by (metis prod_cases4)
  then have p: "ApplyTarget p \<in> set (fst (snd (driftVerdict lib k view cfg st)))" using assms by (simp add: driftStep_fst)
  then have should: "failClosedShouldRevert lib (coDriftPolicy cfg) (stPhase st) (stConditions st)"
    by (cases "wasApplied (coStatus cfg)") (simp_all add: driftVerdict_def Let_def split: if_split_asm)
  show ?thesis
  proof (cases "revertTarget lib k view (crTargetAgain view) (targetName cfg)")
    case (Inl e)
    then show ?thesis using p should by (simp add: driftVerdict_def Let_def)
  next
    case (Inr ws)
    then show ?thesis using p should by (simp add: driftVerdict_def Let_def)
  qed
qed

text \<open>
  Every write to a target of a live configuration is the patch of a clean analysis with all gates
  open, or the revert of a configuration that fails closed.
\<close>

lemma reconcileNormal_apply:
  assumes "ApplyTarget p \<in> set (fst (reconcileNormal lib k view cfg))"
  obtains t ruleSets report where "crTarget view = Found t" and "ToRuleSets (ct_go lib) (coConfig cfg) = Inr ruleSets"
    and "analyzeTarget (ct_go lib) (coConfig cfg) (ftSource t) ruleSets = Inr report"
    and "(\<not> HasErrors report \<and> (\<exists>serverName server. gatesOpen lib view cfg (ftObject t) serverName server
            \<and> patchFor lib view cfg (ftObject t) serverName server p))
       \<or> (HasErrors report \<and> coDriftPolicy cfg = DriftPolicyFailClosed
          \<and> (\<exists>ws. revertTarget lib k view (crTargetAgain view) (targetName cfg) = Inr ws \<and> ApplyTarget p \<in> set ws))"
proof -
  obtain t where t: "crTarget view = Found t" using assms by (auto simp: reconcileNormal_def split: reading.splits)
  obtain st writes where ob: "observeTarget lib view cfg t = (st, writes)" by fastforce
  have quiet: "ApplyTarget p \<notin> set writes" using observeTarget_quiet(1)[of p lib view cfg t] ob by simp
  obtain ruleSets report where r: "ToRuleSets (ct_go lib) (coConfig cfg) = Inr ruleSets"
    "analyzeTarget (ct_go lib) (coConfig cfg) (ftSource t) ruleSets = Inr report"
    using assms quiet t ob by (auto simp: reconcileNormal_def invalidStep_def Let_def split: sum.splits)
  show thesis
  proof (rule that[OF t r], cases "HasErrors report")
    case True
    then have "ApplyTarget p \<in> set (fst (driftStep lib k view cfg (analyzedStatus lib cfg report st) writes))"
      using assms t ob r by (simp add: reconcileNormal_def)
    from driftStep_apply[OF this quiet] show "(\<not> HasErrors report \<and> (\<exists>serverName server. gatesOpen lib view cfg (ftObject t) serverName server
            \<and> patchFor lib view cfg (ftObject t) serverName server p))
       \<or> (HasErrors report \<and> coDriftPolicy cfg = DriftPolicyFailClosed
          \<and> (\<exists>ws. revertTarget lib k view (crTargetAgain view) (targetName cfg) = Inr ws \<and> ApplyTarget p \<in> set ws))"
      using True by (auto simp: failClosedShouldRevert_def split: if_splits)
  next
    case False
    then have "ApplyTarget p \<in> set (fst (assignStep lib k view cfg (ftObject t) (analyzedStatus lib cfg report st) writes))"
      using assms t ob r by (simp add: reconcileNormal_def)
    from assignStep_apply[OF this quiet] show "(\<not> HasErrors report \<and> (\<exists>serverName server. gatesOpen lib view cfg (ftObject t) serverName server
            \<and> patchFor lib view cfg (ftObject t) serverName server p))
       \<or> (HasErrors report \<and> coDriftPolicy cfg = DriftPolicyFailClosed
          \<and> (\<exists>ws. revertTarget lib k view (crTargetAgain view) (targetName cfg) = Inr ws \<and> ApplyTarget p \<in> set ws))"
      using False by simp
  qed
qed

text \<open>A patch that points its target at a webhook, as opposed to one that reverts it.\<close>

definition webhookPatch :: "targetPatch \<Rightarrow> bool" where
  "webhookPatch p =
     (case p of
        XRDPatch x \<Rightarrow> getValue x [''spec'', ''conversion'', ''strategy''] = Some (JStr ''Webhook'')
      | CRDPatch a \<Rightarrow> crcStrategy (aplConversion a) = ''Webhook'')"

lemma patchFor_webhook: "patchFor lib view cfg t n server p \<Longrightarrow> webhookPatch p"
  by (cases t) (auto simp: patchFor_def conversionPatch_def webhookPatch_def BuildXRDConversionPatch_def conversionStanza_def BuildCRDConversionPatch_def getValue_def
      split: sum.splits)

lemma revert_no_webhook: "revertTarget lib k view again name = Inr ws \<Longrightarrow> ApplyTarget p \<in> set ws \<Longrightarrow> \<not> webhookPatch p"
  by (auto simp: revertTarget_def applyPatch_def webhookPatch_def BuildXRDRevertPatch_def BuildCRDRevertPatch_def getValue_def
      split: configKind.splits reading.splits option.splits)

lemma webhook_gatesOpen:
  assumes "ApplyTarget p \<in> set (fst (reconcileNormal lib k view cfg))"
  shows "coDriftPolicy cfg \<noteq> DriftPolicyFailClosed \<Longrightarrow> webhookPatch p"
    and "webhookPatch p \<Longrightarrow> \<exists>t n server. gatesOpen lib view cfg t n server"
proof -
  obtain t where "(\<exists>n server. gatesOpen lib view cfg t n server \<and> webhookPatch p) \<or> (coDriftPolicy cfg = DriftPolicyFailClosed \<and> \<not> webhookPatch p)"
    by (rule reconcileNormal_apply[OF assms]) (use patchFor_webhook revert_no_webhook in blast)
  then show "coDriftPolicy cfg \<noteq> DriftPolicyFailClosed \<Longrightarrow> webhookPatch p" "webhookPatch p \<Longrightarrow> \<exists>t n server. gatesOpen lib view cfg t n server"
    by blast+
qed

subsection \<open>The status over time\<close>

text \<open>
  What the status promises its readers: the phase is one of those the reconciler uses, the Stale
  condition is there exactly in phase Stale, and a configuration that counts as applied has the webhook
  coordinates, the plan hash and the Applied condition of an apply.
\<close>

definition statusOk :: "ctrllib \<Rightarrow> configStatus \<Rightarrow> bool" where
  "statusOk lib st \<longleftrightarrow>
     stPhase st \<in> {[], PhasePending, PhaseInvalid, PhaseApplied, PhaseStale, PhaseFailed}
   \<and> (if stPhase st = PhaseStale then statusTrue lib st ConditionStale else statusCondition lib st ConditionStale = None)
   \<and> (wasApplied st \<longrightarrow> stWebhookURL st \<noteq> [] \<and> stLastAppliedPlanHash st \<noteq> [] \<and> statusTrue lib st ConditionApplied)"

text \<open>The part of a status this depends on.\<close>

definition statusCore :: "ctrllib \<Rightarrow> configStatus \<Rightarrow> string \<times> string \<times> string \<times> condition option \<times> condition option" where
  "statusCore lib st = (stPhase st, stWebhookURL st, stLastAppliedPlanHash st,
     statusCondition lib st ConditionStale, statusCondition lib st ConditionApplied)"

lemma statusOk_core: "statusCore lib a = statusCore lib b \<Longrightarrow> statusOk lib a = statusOk lib b"
  by (simp add: statusOk_def statusCore_def statusTrue_alt wasApplied_def)

lemma wasApplied_core: "statusCore lib a = statusCore lib b \<Longrightarrow> wasApplied a = wasApplied b"
  by (simp add: statusCore_def wasApplied_def)

lemma statusCore_set [simp]:
  "condLaws (ct_cond lib) \<Longrightarrow> t \<noteq> ConditionStale \<Longrightarrow> t \<noteq> ConditionApplied \<Longrightarrow>
     statusCore lib (setStatusCondition lib now t s r m st) = statusCore lib st"
  by (simp add: statusCore_def statusCondition_set) (simp add: setStatusCondition_def)

lemma statusCore_update [simp]:
  "statusCore lib (st\<lparr>stMessage := a\<rparr>) = statusCore lib st"
  "statusCore lib (st\<lparr>stObservedGeneration := b\<rparr>) = statusCore lib st"
  "statusCore lib (st\<lparr>stObservedTargetGeneration := b\<rparr>) = statusCore lib st"
  "statusCore lib (st\<lparr>stAssignedWebhookServer := c\<rparr>) = statusCore lib st"
  "statusCore lib (st\<lparr>stGeneratedCRDs := d\<rparr>) = statusCore lib st"
  "statusCore lib (analyzedStatus lib cfg report st) = statusCore lib st"
  by (simp_all add: statusCore_def statusCondition_def analyzedStatus_def populateSpokeStatuses_def)

lemma statusCore_verify [simp]:
  "condLaws (ct_cond lib) \<Longrightarrow> statusCore lib (verifyPropagation lib now getCRD xrd want st) = statusCore lib st"
  by (simp add: verifyPropagation_def setPropagationCondition_def Let_def split: sum.split)

lemma status_fields_set [simp]:
  "stPhase (setStatusCondition lib now t s r m st) = stPhase st" "stPhase (removeStatusCondition lib t st) = stPhase st"
  "stWebhookURL (setStatusCondition lib now t s r m st) = stWebhookURL st" "stWebhookURL (removeStatusCondition lib t st) = stWebhookURL st"
  "stLastAppliedPlanHash (setStatusCondition lib now t s r m st) = stLastAppliedPlanHash st"
  "stLastAppliedPlanHash (removeStatusCondition lib t st) = stLastAppliedPlanHash st"
  "stSchemaHash (setStatusCondition lib now t s r m st) = stSchemaHash st" "stSchemaHash (removeStatusCondition lib t st) = stSchemaHash st"
  "stMessage (setStatusCondition lib now t s r m st) = stMessage st" "stMessage (removeStatusCondition lib t st) = stMessage st"
  by (simp_all add: setStatusCondition_def removeStatusCondition_def)

lemma statusCondition_fields [simp]:
  "statusCondition lib (st\<lparr>stPhase := ph\<rparr>) t = statusCondition lib st t"
  "statusCondition lib (st\<lparr>stMessage := m\<rparr>) t = statusCondition lib st t"
  by (simp_all add: statusCondition_def)

lemmas conditionRules = statusTrue_alt statusCondition_set statusCondition_remove

lemma setPhaseStale_ok:
  assumes "condLaws (ct_cond lib)" and "statusOk lib st" and "wasApplied st"
  shows "statusOk lib (setPhaseStale lib now r m st)"
  using assms by (auto simp: statusOk_def setPhaseStale_def wasApplied_def conditionRules)

lemma notApplied_ok:
  assumes "condLaws (ct_cond lib)" and "ph \<in> {PhasePending, PhaseInvalid, PhaseFailed}"
  shows "statusOk lib (removeStatusCondition lib ConditionStale (st\<lparr>stPhase := ph\<rparr>))"
  using assms by (auto simp: statusOk_def wasApplied_def conditionRules)

lemma setPhasePendingOrStale_ok:
  assumes "condLaws (ct_cond lib)" and "statusOk lib st"
  shows "statusOk lib (setPhasePendingOrStale lib now (wasApplied st) r m st)"
  using assms setPhaseStale_ok notApplied_ok by (simp add: setPhasePendingOrStale_def)

lemma setInvalid_ok:
  assumes "condLaws (ct_cond lib)" and "statusOk lib st"
  shows "statusOk lib (setInvalid lib now (wasApplied st) m st)"
proof -
  define st' where "st' = (if wasApplied st then setPhaseStale lib now ''PostApplyInvalid'' m st
      else removeStatusCondition lib ConditionStale (st\<lparr>stPhase := PhaseInvalid\<rparr>))"
  have "statusOk lib st'" using assms setPhaseStale_ok notApplied_ok by (simp add: st'_def)
  moreover have "statusCore lib (setInvalid lib now (wasApplied st) m st) = statusCore lib st'"
    using assms(1) by (simp add: setInvalid_def Let_def st'_def[symmetric])
  ultimately show ?thesis using statusOk_core by blast
qed

lemma appliedStatus_ok:
  assumes "condLaws (ct_cond lib)" and "stSchemaHash st \<noteq> []"
  shows "statusOk lib (appliedStatus lib k now p st)"
  using assms by (simp add: appliedStatus_def Let_def statusOk_def conditionRules)

lemma driftVerdict_ok:
  assumes "condLaws (ct_cond lib)" and "statusOk lib st" and "statusCore lib st = statusCore lib (coStatus cfg)"
  shows "statusOk lib (fst (driftVerdict lib k view cfg st))"
proof -
  have failed: "statusOk lib (setStatusCondition lib (crNow view) ConditionApplied s r m
      (removeStatusCondition lib ConditionStale (st\<lparr>stPhase := PhaseFailed\<rparr>)))" for s r m
    using assms(1) by (simp add: statusOk_def wasApplied_def conditionRules)
  have same: "wasApplied (coStatus cfg) = wasApplied st" using wasApplied_core[OF assms(3)] by simp
  show ?thesis
  proof (cases "failClosedShouldRevert lib (coDriftPolicy cfg) (stPhase st) (stConditions st)")
    case True
    then show ?thesis using failed by (simp add: driftVerdict_def Let_def split: sum.split)
  next
    case False
    then show ?thesis using setPhaseStale_ok[OF assms(1,2)] notApplied_ok[OF assms(1)] same
      by (simp add: driftVerdict_def Let_def)
  qed
qed

text \<open>A status on its way through a reconcile: nothing the promise depends on has changed yet.\<close>

definition underway :: "ctrllib \<Rightarrow> configObject \<Rightarrow> configStatus \<Rightarrow> bool" where
  "underway lib cfg st \<longleftrightarrow> statusOk lib st \<and> statusCore lib st = statusCore lib (coStatus cfg)"

lemma underway_start: "statusOk lib (coStatus cfg) \<Longrightarrow> statusCore lib st = statusCore lib (coStatus cfg) \<Longrightarrow> underway lib cfg st"
  using statusOk_core[of lib st "coStatus cfg"] by (simp add: underway_def)

lemma underway_core: "statusCore lib st' = statusCore lib st \<Longrightarrow> underway lib cfg st \<Longrightarrow> underway lib cfg st'"
  using statusOk_core[of lib st' st] by (simp add: underway_def)

lemma underway_applied: "underway lib cfg st \<Longrightarrow> wasApplied (coStatus cfg) = wasApplied st"
  using wasApplied_core[of lib st "coStatus cfg"] by (simp add: underway_def)

lemma patchStatus_status:
  assumes "PatchStatus s \<in> set (fst (patchStatus view cfg st writes r))" and "PatchStatus s \<notin> set writes" and "statusOk lib st"
  shows "statusOk lib s"
proof -
  have "s = st\<lparr>stObservedGeneration := coGeneration cfg\<rparr>" using assms by (simp add: patchStatus_def split: option.splits)
  then show ?thesis using statusOk_core[of lib s st] assms(3) by simp
qed

lemma finishApply_status:
  assumes "condLaws (ct_cond lib)" and "stSchemaHash st \<noteq> []"
    and "PatchStatus s \<in> set (fst (finishApply lib k view cfg t p st writes))" and "PatchStatus s \<notin> set writes"
  shows "statusOk lib s"
proof (cases t)
  case (XRDObject xrd)
  define ap where "ap = appliedStatus lib k (crNow view) p st"
  have ok: "statusOk lib ap" using appliedStatus_ok[OF assms(1,2)] by (simp add: ap_def)
  have "statusOk lib (verifyPropagation lib now getCRD x want ap)" for now getCRD x want
    using ok statusOk_core[of lib "verifyPropagation lib now getCRD x want ap" ap] assms(1) by simp
  then show ?thesis using assms(3,4) XRDObject patchStatus_status
    by (fastforce simp: finishApply_def Let_def ap_def[symmetric] simp del: patchStatus_apply)
next
  case (CRDObject crd)
  then show ?thesis using assms appliedStatus_ok[OF assms(1,2)] patchStatus_status by (fastforce simp: finishApply_def Let_def)
qed

lemma applyStep_status:
  assumes "condLaws (ct_cond lib)" and "stSchemaHash st \<noteq> []"
    and "PatchStatus s \<in> set (fst (applyStep lib k view cfg t serverName server st writes))" and "PatchStatus s \<notin> set writes"
  shows "statusOk lib s"
proof -
  obtain caBundle p applied where "bindR (conversionPatch lib t p) (applyPatch view) = Inr applied"
    and s: "PatchStatus s \<in> set (fst (finishApply lib k view cfg t p st (writes @ applied @ recordPhaseTransition (stPhase st) PhaseApplied ''Applied'')))"
    using assms(3,4) by (auto simp: applyStep_def Let_def split: sum.splits)
  then have "PatchStatus s \<notin> set applied" by (auto simp: bindR_Inr_iff applyPatch_def split: option.splits)
  then show ?thesis using finishApply_status[OF assms(1,2) s] assms(4) by simp
qed

lemma handoverGate_status:
  assumes laws: "condLaws (ct_cond lib)" and "stSchemaHash st \<noteq> []" and st: "underway lib cfg st"
    and s: "PatchStatus s \<in> set (fst (handoverGate lib k view cfg t serverName server st writes))" and quiet: "PatchStatus s \<notin> set writes"
  shows "statusOk lib s"
proof -
  define st' where "st' v = setStatusCondition lib (crNow view) ConditionHandoverReady (boolStatus (hvOK v)) (hvReason v) (hvMessage v) st" for v :: HandoverVerdict
  have u: "underway lib cfg (st' v)" for v using underway_core[OF _ st] laws by (simp add: st'_def)
  have hash: "stSchemaHash (st' v) \<noteq> []" for v using assms(2) by (simp add: st'_def)
  have waiting: "statusOk lib ((setPhasePendingOrStale lib now (wasApplied (coStatus cfg)) r m (st' v))\<lparr>stMessage := m\<rparr>)" for now r m v
  proof -
    have "statusOk lib (setPhasePendingOrStale lib now (wasApplied (coStatus cfg)) r m (st' v))"
      unfolding underway_applied[OF u[of v]] using u[of v] by (intro setPhasePendingOrStale_ok[OF laws]) (simp add: underway_def)
    then show ?thesis using statusOk_core statusCore_update(1) by blast
  qed
  show ?thesis
  proof (cases "movingServers (coStatus cfg) serverName")
    case False
    then show ?thesis using s applyStep_status[OF laws assms(2) _ quiet] by (simp add: handoverGate_def)
  next
    case True
    then obtain v where v: "checkHandover (ct_zip lib) (ct_cond lib) (crLeases view) (crDefaultNamespace view) server (targetName cfg)
        (stConditions (coStatus cfg)) (crNow view) = Inr v"
      using s quiet by (auto simp: handoverGate_def split: sum.splits)
    show ?thesis
    proof (cases "hvOK v")
      case ok: True
      then show ?thesis using s True v applyStep_status[OF laws hash[of v] _ quiet] by (simp add: handoverGate_def Let_def st'_def)
    next
      case blocked: False
      then show ?thesis using s True v patchStatus_status[OF _ quiet waiting[of _ _ _ v]] by (simp add: handoverGate_def Let_def st'_def)
    qed
  qed
qed

lemma waiting_ok:
  assumes "condLaws (ct_cond lib)" and "underway lib cfg st" and "t \<noteq> ConditionStale" and "t \<noteq> ConditionApplied"
  shows "statusOk lib (setPhasePendingOrStale lib now (wasApplied (coStatus cfg)) r m (setStatusCondition lib now t b r' m' st))"
proof -
  have u: "underway lib cfg (setStatusCondition lib now t b r' m' st)" using underway_core[OF _ assms(2)] assms(1,3,4) by simp
  show ?thesis unfolding underway_applied[OF u] using u by (intro setPhasePendingOrStale_ok[OF assms(1)]) (simp add: underway_def)
qed

lemma serverGate_status:
  assumes laws: "condLaws (ct_cond lib)" and "stSchemaHash st \<noteq> []" and st: "underway lib cfg st"
    and s: "PatchStatus s \<in> set (fst (serverGate lib k view cfg t serverName st writes))" and quiet: "PatchStatus s \<notin> set writes"
  shows "statusOk lib s"
proof (cases "crServer view serverName")
  case (Inl e)
  then show ?thesis using s quiet by (simp add: serverGate_def)
next
  case (Inr server)
  have u: "underway lib cfg (setStatusCondition lib now ConditionWebhookServerReady b r m st)" for now b r m
    using underway_core[OF _ st] laws by simp
  show ?thesis
  proof (cases "isServerReady lib server")
    case True
    then show ?thesis using s Inr handoverGate_status[OF laws _ u _ quiet] assms(2) by (simp add: serverGate_def)
  next
    case False
    then show ?thesis using s Inr patchStatus_status[OF _ quiet waiting_ok[OF laws st, of ConditionWebhookServerReady]]
      by (simp add: serverGate_def Let_def)
  qed
qed

lemma healthCondition_other: "healthCondition k \<noteq> ConditionStale" "healthCondition k \<noteq> ConditionApplied" "healthCondition k \<noteq> ConditionHandoverReady"
  by (simp_all add: healthCondition_def kindName_def split: configKind.split)

lemma healthGate_status:
  assumes laws: "condLaws (ct_cond lib)" and "stSchemaHash st \<noteq> []" and st: "underway lib cfg st"
    and s: "PatchStatus s \<in> set (fst (healthGate lib k view cfg t serverName st writes))" and quiet: "PatchStatus s \<notin> set writes"
  shows "statusOk lib s"
proof (cases "targetEstablished lib t")
  case True
  have u: "underway lib cfg (setStatusCondition lib now (healthCondition k) b r m st)" for now b r m
    using underway_core[OF _ st] laws healthCondition_other by simp
  then show ?thesis using True s serverGate_status[OF laws _ u _ quiet] assms(2) by (simp add: healthGate_def)
next
  case False
  then show ?thesis using s patchStatus_status[OF _ quiet waiting_ok[OF laws st healthCondition_other(1,2)[of k]]]
    by (simp add: healthGate_def Let_def)
qed

lemma setInvalid_status:
  assumes "condLaws (ct_cond lib)" and "underway lib cfg st"
  shows "statusOk lib (setInvalid lib now (wasApplied (coStatus cfg)) m st)"
  unfolding underway_applied[OF assms(2)] using assms by (intro setInvalid_ok) (simp_all add: underway_def)

lemma assignStep_status:
  assumes laws: "condLaws (ct_cond lib)" and "stSchemaHash st \<noteq> []" and st: "underway lib cfg st"
    and s: "PatchStatus s \<in> set (fst (assignStep lib k view cfg t st writes))" and quiet: "PatchStatus s \<notin> set writes"
  shows "statusOk lib s"
proof -
  have u: "underway lib cfg (setStatusCondition lib now ConditionValidated b r m st)" for now b r m
    using underway_core[OF _ st] laws by simp
  have u': "underway lib cfg ((setStatusCondition lib now ConditionValidated b r m st)\<lparr>stAssignedWebhookServer := n\<rparr>)" for now b r m n
    using underway_core[OF _ u] by simp
  obtain servers where sv: "crServers view = Inr servers" using s quiet by (auto simp: assignStep_def Let_def split: sum.splits)
  show ?thesis
  proof (cases "ResolveAssignment (ct_log lib) (assignConfig (coConfig cfg)) servers")
    case (Inl e)
    then show ?thesis using s sv patchStatus_status[OF _ quiet setInvalid_status[OF laws u]] by (simp add: assignStep_def Let_def)
  next
    case (Inr n)
    then show ?thesis using s sv healthGate_status[OF laws _ u' _ quiet] assms(2) by (simp add: assignStep_def Let_def)
  qed
qed

lemma driftVerdict_quiet: "PatchStatus s \<notin> set (fst (snd (driftVerdict lib k view cfg st)))"
proof (cases "failClosedShouldRevert lib (coDriftPolicy cfg) (stPhase st) (stConditions st)")
  case True
  have "PatchStatus s \<notin> set ws" if "revertTarget lib k view again name = Inr ws" for again name ws
    using that by (auto simp: revertTarget_def applyPatch_def split: configKind.splits reading.splits option.splits)
  then show ?thesis using True by (simp add: driftVerdict_def Let_def split: sum.split)
next
  case False
  then show ?thesis by (simp add: driftVerdict_def Let_def)
qed

lemma driftStep_status:
  assumes laws: "condLaws (ct_cond lib)" and st: "underway lib cfg st"
    and s: "PatchStatus s \<in> set (fst (driftStep lib k view cfg st writes))" and quiet: "PatchStatus s \<notin> set writes"
  shows "statusOk lib s"
proof -
  obtain st' extra m revertErr where v: "driftVerdict lib k view cfg st = (st', extra, m, revertErr)" by (metis prod_cases4)
  have ok: "statusOk lib st'" using driftVerdict_ok[OF laws, of st cfg k view] st v by (simp add: underway_def)
  have "PatchStatus s \<notin> set extra" using driftVerdict_quiet[of s lib k view cfg st] v by simp
  then have q: "PatchStatus s \<notin> set (writes @ CountAnalyzeFailure ''ValidationErrors'' # extra)" using quiet by simp
  have "statusOk lib ((setStatusCondition lib now ConditionValidated b r m st')\<lparr>stMessage := m\<rparr>)" for now b r
    using ok statusOk_core[of lib "(setStatusCondition lib now ConditionValidated b r m st')\<lparr>stMessage := m\<rparr>" st'] laws by simp
  from patchStatus_status[OF s[unfolded driftStep_fst[OF v]] q this] show ?thesis .
qed

lemma invalidStep_status:
  assumes "condLaws (ct_cond lib)" and "underway lib cfg st"
    and "PatchStatus s \<in> set (fst (invalidStep lib view cfg reason m st writes))" and "PatchStatus s \<notin> set writes"
  shows "statusOk lib s"
  using patchStatus_status[OF _ _ setInvalid_status[OF assms(1,2)], where s = s] assms(3,4)
  by (simp add: invalidStep_def Let_def)

lemma observeTarget_core:
  assumes "condLaws (ct_cond lib)"
  shows "statusCore lib (fst (observeTarget lib view cfg t)) = statusCore lib (coStatus cfg)"
  using assms by (simp add: observeTarget_def Let_def setPackageManagedCondition_def split: targetObject.split option.split)

lemma analyzedStatus_hash [simp]: "stSchemaHash (analyzedStatus lib cfg report st) \<noteq> []"
  by (simp add: analyzedStatus_def computeSchemaHash_def)

lemma reconcileNormal_status:
  assumes laws: "condLaws (ct_cond lib)" and start: "statusOk lib (coStatus cfg)"
    and s: "PatchStatus s \<in> set (fst (reconcileNormal lib k view cfg))"
  shows "statusOk lib s"
proof (cases "crTarget view")
  case NotFound
  have "PatchStatus s \<notin> set ([] :: clusterWrite list)" by simp
  from patchStatus_status[OF _ this setInvalid_status[OF laws underway_start[OF start]]] show ?thesis
    using s NotFound by (simp add: reconcileNormal_def)
next
  case (ReadError e)
  then show ?thesis using s by (simp add: reconcileNormal_def)
next
  case (Found t)
  obtain st writes where ob: "observeTarget lib view cfg t = (st, writes)" by fastforce
  have quiet: "PatchStatus s \<notin> set writes" using observeTarget_quiet(2)[of s lib view cfg t] ob by simp
  have u: "underway lib cfg st" using observeTarget_core[OF laws, of view cfg t] ob by (intro underway_start[OF start]) simp
  have u': "underway lib cfg (analyzedStatus lib cfg report st)" for report by (rule underway_core[OF _ u]) simp
  note steps = invalidStep_status[OF laws u _ quiet] driftStep_status[OF laws u' _ quiet] assignStep_status[OF laws _ u' _ quiet]
  show ?thesis
  proof (cases "ToRuleSets (ct_go lib) (coConfig cfg)")
    case (Inl e)
    then show ?thesis using s Found ob steps(1) by (simp add: reconcileNormal_def)
  next
    case rules: (Inr ruleSets)
    show ?thesis
    proof (cases "analyzeTarget (ct_go lib) (coConfig cfg) (ftSource t) ruleSets")
      case (Inl e)
      then show ?thesis using s Found ob rules steps(1) by (simp add: reconcileNormal_def)
    next
      case (Inr report)
      then show ?thesis using s Found ob rules steps(2,3) by (cases "HasErrors report") (simp_all add: reconcileNormal_def)
    qed
  qed
qed

lemma revertTarget_writes:
  assumes "revertTarget lib k view again name = Inr ws" and "w \<in> set ws"
  shows "\<exists>p. w = ApplyTarget p"
  using assms by (auto simp: revertTarget_def applyPatch_def split: configKind.splits reading.splits option.splits)

lemma removeFinalizer_status [simp]:
  "PatchStatus s \<in> set (fst (removeFinalizer k view cfg writes)) \<longleftrightarrow> PatchStatus s \<in> set writes"
  by (simp add: removeFinalizer_def split: option.split)

lemma reconcileDelete_status:
  assumes laws: "condLaws (ct_cond lib)" and start: "statusOk lib (coStatus cfg)"
    and s: "PatchStatus s \<in> set (fst (reconcileDelete lib k view cfg))"
  shows "statusOk lib s"
proof -
  have reverted: "PatchStatus s \<notin> set ws" if "revertTarget lib k view again name = Inr ws" for again name ws
    using revertTarget_writes[OF that] by blast
  obtain t where t: "crTarget view = Found t" using s by (auto simp: reconcileDelete_def split: if_splits reading.splits)
  have "countServedVersions lib (ftObject t) > 1 \<and> coAnnotations cfg AllowUnsafeDeleteAnnotation \<noteq> Some ''true''"
    using s t reverted by (auto simp: reconcileDelete_def Let_def split: if_splits sum.splits)
  then have "\<exists>m. PatchStatus s \<in> set (fst (patchStatus view cfg
      (setStatusCondition lib (crNow view) ConditionDeletionBlocked ''True'' ''MultipleServedVersions'' m (coStatus cfg)) [] (30 * second)))"
    using s t by (auto simp: reconcileDelete_def Let_def split: if_splits)
  then obtain m where m: "PatchStatus s \<in> set (fst (patchStatus view cfg
      (setStatusCondition lib (crNow view) ConditionDeletionBlocked ''True'' ''MultipleServedVersions'' m (coStatus cfg)) [] (30 * second)))" ..
  have "statusOk lib (setStatusCondition lib (crNow view) ConditionDeletionBlocked ''True'' ''MultipleServedVersions'' m (coStatus cfg))"
    using start statusOk_core[of lib "setStatusCondition lib (crNow view) ConditionDeletionBlocked ''True'' ''MultipleServedVersions'' m (coStatus cfg)"
      "coStatus cfg"] laws by simp
  with patchStatus_status[OF m] show ?thesis by simp
qed

text \<open>
  A configuration over time: a reconcile writes its status, users and other controllers change
  everything else.
\<close>

inductive config_step :: "ctrllib \<Rightarrow> configKind \<Rightarrow> configObject \<Rightarrow> configObject \<Rightarrow> bool" for lib k where
  reconciled: "PatchStatus s \<in> set (fst (Reconcile lib k view (Found cfg))) \<Longrightarrow> config_step lib k cfg (cfg\<lparr>coStatus := s\<rparr>)"
| edited: "coStatus cfg' = coStatus cfg \<Longrightarrow> config_step lib k cfg cfg'"

inductive_cases config_stepE: "config_step lib k cfg cfg'"

definition freshStatus :: configStatus where
  "freshStatus = \<lparr>stObservedGeneration = 0, stObservedTargetGeneration = 0, stSchemaHash = [], stPhase = [], stConditions = [],
     stAssignedWebhookServer = [], stWebhookPath = [], stWebhookURL = [], stWebhookPort = 0, stOverallLossless = False,
     stSpokeStatuses = [], stLastAppliedPlanHash = [], stGeneratedCRDs = [], stMessage = MStr []\<rparr>"

lemma freshStatus_ok: "condLaws (ct_cond lib) \<Longrightarrow> statusOk lib freshStatus"
  by (simp add: statusOk_def freshStatus_def statusCondition_def wasApplied_def condLaws_def)

lemma Reconcile_status:
  assumes "condLaws (ct_cond lib)" and "statusOk lib (coStatus cfg)" and "PatchStatus s \<in> set (fst (Reconcile lib k view (Found cfg)))"
  shows "statusOk lib s"
proof (cases "coDeleting cfg")
  case True
  then show ?thesis using assms reconcileDelete_status by (simp add: Reconcile_def)
next
  case False
  then obtain added where "addFinalizer k view cfg = Inr added" and "PatchStatus s \<in> set (added @ fst (reconcileNormal lib k view cfg))"
    using assms(3) by (auto simp: Reconcile_def split: sum.splits prod.splits)
  then have "PatchStatus s \<in> set (fst (reconcileNormal lib k view cfg))" by (auto simp: addFinalizer_def split: if_splits option.splits)
  then show ?thesis by (rule reconcileNormal_status[OF assms(1,2)])
qed

lemma config_step_ok:
  assumes "condLaws (ct_cond lib)" and "config_step lib k cfg cfg'" and "statusOk lib (coStatus cfg)"
  shows "statusOk lib (coStatus cfg')"
  using assms(2) by (cases rule: config_step.cases) (use assms Reconcile_status in simp_all)

lemma config_run_ok:
  assumes "condLaws (ct_cond lib)" and "(config_step lib k)\<^sup>*\<^sup>* cfg cfg'" and "statusOk lib (coStatus cfg)"
  shows "statusOk lib (coStatus cfg')"
  using assms(2,3) by (induction rule: rtranclp_induct) (use config_step_ok[OF assms(1)] in blast)+

subsection \<open>Moves over time\<close>

text \<open>A reconcile that gets as far as the handover gate.\<close>

definition reachesHandover :: "ctrllib \<Rightarrow> clusterReads \<Rightarrow> configObject \<Rightarrow> fetchedTarget \<Rightarrow> string \<Rightarrow> liveServer \<Rightarrow> bool" where
  "reachesHandover lib view cfg t serverName server \<longleftrightarrow>
     crTarget view = Found t
   \<and> (\<exists>ruleSets report. ToRuleSets (ct_go lib) (coConfig cfg) = Inr ruleSets
        \<and> analyzeTarget (ct_go lib) (coConfig cfg) (ftSource t) ruleSets = Inr report \<and> \<not> HasErrors report)
   \<and> (\<exists>servers. crServers view = Inr servers \<and> ResolveAssignment (ct_log lib) (assignConfig (coConfig cfg)) servers = Inr serverName)
   \<and> targetEstablished lib (ftObject t) \<and> crServer view serverName = Inr server \<and> isServerReady lib server"

text \<open>Nothing stands in the way of a patch once the gate is passed.\<close>

definition canPatch :: "ctrllib \<Rightarrow> clusterReads \<Rightarrow> configObject \<Rightarrow> fetchedTarget \<Rightarrow> string \<Rightarrow> liveServer \<Rightarrow> bool" where
  "canPatch lib view cfg t serverName server \<longleftrightarrow>
     crApply view = None
   \<and> (case readCABundle lib view server of
        Inl _ \<Rightarrow> False
      | Inr caBundle \<Rightarrow> (case ftObject t of XRDObject _ \<Rightarrow> True | CRDObject _ \<Rightarrow> (case zl_DecodeString (ct_zip lib) caBundle of Inl _ \<Rightarrow> False | Inr _ \<Rightarrow> True)))"

abbreviation handoverCondition :: "ctrllib \<Rightarrow> configStatus \<Rightarrow> condition option" where
  "handoverCondition lib st \<equiv> statusCondition lib st ConditionHandoverReady"

lemma statusCondition_updates [simp]:
  "statusCondition lib (st\<lparr>stAssignedWebhookServer := a\<rparr>) t = statusCondition lib st t"
  "statusCondition lib (st\<lparr>stObservedGeneration := b\<rparr>) t = statusCondition lib st t"
  "statusCondition lib (st\<lparr>stObservedTargetGeneration := b\<rparr>) t = statusCondition lib st t"
  "statusCondition lib (st\<lparr>stGeneratedCRDs := d\<rparr>) t = statusCondition lib st t"
  "statusCondition lib (analyzedStatus lib cfg report st) t = statusCondition lib st t"
  by (simp_all add: statusCondition_def analyzedStatus_def populateSpokeStatuses_def)

lemma observeTarget_handover:
  "condLaws (ct_cond lib) \<Longrightarrow> handoverCondition lib (fst (observeTarget lib view cfg t)) = handoverCondition lib (coStatus cfg)"
  by (simp add: observeTarget_def Let_def setPackageManagedCondition_def statusCondition_set split: targetObject.split option.split)

lemma reachesHandover_gate:
  assumes laws: "condLaws (ct_cond lib)" and "reachesHandover lib view cfg t serverName server"
  obtains st writes where "reconcileNormal lib k view cfg = handoverGate lib k view cfg (ftObject t) serverName server st writes"
    and "handoverCondition lib st = handoverCondition lib (coStatus cfg)"
    and "\<And>p. ApplyTarget p \<notin> set writes" and "\<And>s. PatchStatus s \<notin> set writes"
proof -
  obtain ruleSets report servers where r: "crTarget view = Found t" "ToRuleSets (ct_go lib) (coConfig cfg) = Inr ruleSets"
    "analyzeTarget (ct_go lib) (coConfig cfg) (ftSource t) ruleSets = Inr report" "\<not> HasErrors report"
    "crServers view = Inr servers" "ResolveAssignment (ct_log lib) (assignConfig (coConfig cfg)) servers = Inr serverName"
    "targetEstablished lib (ftObject t)" "crServer view serverName = Inr server" "isServerReady lib server"
    using assms(2) by (auto simp: reachesHandover_def)
  obtain st writes where ob: "observeTarget lib view cfg t = (st, writes)" by fastforce
  have "handoverCondition lib st = handoverCondition lib (coStatus cfg)" using observeTarget_handover[OF laws, of view cfg t] ob by simp
  then show thesis
    using that observeTarget_quiet[of _ lib view cfg t] r ob laws healthCondition_other(3)[of k]
    by (simp add: reconcileNormal_def assignStep_def healthGate_def serverGate_def Let_def statusCondition_set)
qed

lemma applyStep_patches:
  assumes "canPatch lib view cfg t serverName server"
  shows "\<exists>p. ApplyTarget p \<in> set (fst (applyStep lib k view cfg (ftObject t) serverName server st writes))
     \<and> patchFor lib view cfg (ftObject t) serverName server p"
proof -
  obtain caBundle where ca: "readCABundle lib view server = Inr caBundle" and none: "crApply view = None"
    using assms by (auto simp: canPatch_def split: sum.splits)
  let ?p = "webhookParams lib view cfg (ftObject t) serverName server caBundle st"
  obtain patch where patch: "conversionPatch lib (ftObject t) ?p = Inr patch"
    using assms ca by (auto simp: canPatch_def conversionPatch_def BuildCRDConversionPatch_def webhookParams_def split: targetObject.splits sum.splits)
  then have "ApplyTarget patch \<in> set (fst (applyStep lib k view cfg (ftObject t) serverName server st writes))"
    using ca none patch by (simp add: applyStep_def Let_def applyPatch_def)
  moreover have "patchFor lib view cfg (ftObject t) serverName server patch" using patch ca by (auto simp: patchFor_def)
  ultimately show ?thesis by blast
qed

text \<open>The verdict on an instance that nobody reports for.\<close>

lemma checkHandover_unreported:
  assumes "crLeases view (serverNamespace (crDefaultNamespace view) server) (wsName (lvServer server)) = Inr leases"
    and "filter (isLive (crNow view)) leases = []" and "lvReadyReplicas server \<noteq> 0"
  obtains v where "checkHandover z cl (crLeases view) (crDefaultNamespace view) server target conditions (crNow view) = Inr v"
    and "hvOK v \<longleftrightarrow> blockedFor cl conditions (crNow view) \<ge> UnreportedGracePeriod"
proof -
  have "fold (aggregateLease z (crNow view)) leases st = st" for st
    using assms(2) by (induction leases) (auto simp: aggregateLease_def split: if_splits)
  then have "Aggregate z leases (crNow view) = ([], 0, False)" by (simp add: Aggregate_def)
  then show thesis using that assms(1,3) by (auto simp: checkHandover_def readServedTargets_def canServeTarget_def)
qed

lemma blockedFor_condition:
  assumes "handoverCondition lib st = Some c" and "cnStatus c = ''False''" and "cnTransition c = Some since"
  shows "blockedFor (ct_cond lib) (stConditions st) now = max 0 (now - since)"
  using assms by (simp add: blockedFor_def statusCondition_def)

text \<open>A move that was refused at some time goes through unverified once the grace period is over.\<close>

lemma waited_move_patches:
  assumes laws: "condLaws (ct_cond lib)" and "reachesHandover lib view cfg t serverName server"
    and "canPatch lib view cfg t serverName server"
    and "handoverCondition lib (coStatus cfg) = Some c" "cnStatus c = ''False''" "cnTransition c = Some since"
    and "since + UnreportedGracePeriod \<le> crNow view"
    and "crLeases view (serverNamespace (crDefaultNamespace view) server) (wsName (lvServer server)) = Inr leases"
    and "filter (isLive (crNow view)) leases = []"
  shows "\<exists>p. ApplyTarget p \<in> set (fst (reconcileNormal lib k view cfg)) \<and> patchFor lib view cfg (ftObject t) serverName server p"
proof -
  have ready: "lvReadyReplicas server \<noteq> 0" using assms(2) by (auto simp: reachesHandover_def isServerReady_def split: if_splits)
  obtain v where v: "checkHandover (ct_zip lib) (ct_cond lib) (crLeases view) (crDefaultNamespace view) server (targetName cfg)
      (stConditions (coStatus cfg)) (crNow view) = Inr v"
    and ok: "hvOK v \<longleftrightarrow> blockedFor (ct_cond lib) (stConditions (coStatus cfg)) (crNow view) \<ge> UnreportedGracePeriod"
    using checkHandover_unreported[OF assms(8,9) ready] .
  have "hvOK v" using ok assms(7) blockedFor_condition[OF assms(4-6)] by simp
  moreover obtain st writes where "reconcileNormal lib k view cfg = handoverGate lib k view cfg (ftObject t) serverName server st writes"
    using reachesHandover_gate[OF laws assms(2), where k = k] by metis
  ultimately show ?thesis using v applyStep_patches[OF assms(3), where k = k] by (simp add: handoverGate_def Let_def)
qed

text \<open>A refusal: the gate is reached, a status is written and the target is left alone.\<close>

definition refused :: "ctrllib \<Rightarrow> configKind \<Rightarrow> clusterReads \<Rightarrow> configObject \<Rightarrow> configStatus \<Rightarrow> bool" where
  "refused lib k view cfg s \<longleftrightarrow>
     (\<exists>t serverName server. reachesHandover lib view cfg t serverName server)
   \<and> PatchStatus s \<in> set (fst (reconcileNormal lib k view cfg)) \<and> (\<forall>p. ApplyTarget p \<notin> set (fst (reconcileNormal lib k view cfg)))"

inductive refusals :: "ctrllib \<Rightarrow> configKind \<Rightarrow> int \<Rightarrow> configObject \<Rightarrow> configObject \<Rightarrow> bool" for lib k where
  first_refusal: "refused lib k view cfg s \<Longrightarrow> refusals lib k (crNow view) cfg (cfg\<lparr>coStatus := s\<rparr>)"
| next_refusal: "refusals lib k since cfg cfg' \<Longrightarrow> refused lib k view cfg' s \<Longrightarrow> refusals lib k since cfg (cfg'\<lparr>coStatus := s\<rparr>)"

lemma applyStep_status_applied:
  assumes "PatchStatus s \<in> set (fst (applyStep lib k view cfg t serverName server st writes))" and "PatchStatus s \<notin> set writes"
  shows "\<exists>p. ApplyTarget p \<in> set (fst (applyStep lib k view cfg t serverName server st writes))"
proof -
  obtain caBundle where ca: "readCABundle lib view server = Inr caBundle" using assms by (auto simp: applyStep_def split: sum.splits)
  let ?p = "webhookParams lib view cfg t serverName server caBundle st"
  obtain applied where ap: "bindR (conversionPatch lib t ?p) (applyPatch view) = Inr applied"
    using assms ca by (auto simp: applyStep_def Let_def split: sum.splits)
  then obtain q where "applied = [ApplyTarget q]" by (auto simp: bindR_Inr_iff applyPatch_def split: option.splits)
  then show ?thesis using ca ap by (auto simp: applyStep_def Let_def)
qed

lemma waiting_handover:
  "condLaws (ct_cond lib) \<Longrightarrow> handoverCondition lib (setPhasePendingOrStale lib now b r m st) = handoverCondition lib st"
  by (simp add: setPhasePendingOrStale_def setPhaseStale_def statusCondition_set statusCondition_remove)

lemma refused_condition:
  assumes laws: "condLaws (ct_cond lib)" and "refused lib k view cfg s"
  obtains r m where "handoverCondition lib s =
     Some (stamped (crNow view) (handoverCondition lib (coStatus cfg)) (newCondition ConditionHandoverReady ''False'' r m))"
proof -
  obtain t serverName server where reach: "reachesHandover lib view cfg t serverName server"
    and s: "PatchStatus s \<in> set (fst (reconcileNormal lib k view cfg))" and none: "\<And>p. ApplyTarget p \<notin> set (fst (reconcileNormal lib k view cfg))"
    using assms(2) by (auto simp: refused_def)
  obtain st writes where gate: "reconcileNormal lib k view cfg = handoverGate lib k view cfg (ftObject t) serverName server st writes"
    and cond: "handoverCondition lib st = handoverCondition lib (coStatus cfg)" and untouched: "\<And>p. ApplyTarget p \<notin> set writes"
    and quiet: "\<And>s. PatchStatus s \<notin> set writes"
    using reachesHandover_gate[OF laws reach, where k = k] by blast
  note step = applyStep_status_applied[OF _ quiet]
  have moving: "movingServers (coStatus cfg) serverName"
  proof (rule ccontr)
    assume "\<not> ?thesis"
    then have "reconcileNormal lib k view cfg = applyStep lib k view cfg (ftObject t) serverName server st writes"
      unfolding gate by (simp add: handoverGate_def)
    then show False using s none step by metis
  qed
  then obtain v where v: "checkHandover (ct_zip lib) (ct_cond lib) (crLeases view) (crDefaultNamespace view) server (targetName cfg)
        (stConditions (coStatus cfg)) (crNow view) = Inr v"
    using s quiet unfolding gate by (auto simp: handoverGate_def split: sum.splits)
  let ?st = "setStatusCondition lib (crNow view) ConditionHandoverReady ''False'' (hvReason v) (hvMessage v) st"
  have no: "\<not> hvOK v"
  proof
    assume "hvOK v"
    then have "\<exists>st'. reconcileNormal lib k view cfg = applyStep lib k view cfg (ftObject t) serverName server st' writes"
      unfolding gate using moving v by (auto simp: handoverGate_def Let_def)
    then show False using s none step by metis
  qed
  then have "PatchStatus s \<in> set (fst (patchStatus view cfg
      ((setPhasePendingOrStale lib (crNow view) (wasApplied (coStatus cfg)) (hvReason v) (hvMessage v) ?st)\<lparr>stMessage := hvMessage v\<rparr>) writes (5 * second)))"
    using s moving v unfolding gate by (simp add: handoverGate_def Let_def boolStatus_def)
  then have "handoverCondition lib s = handoverCondition lib ?st"
    using quiet laws by (auto simp: patchStatus_def waiting_handover split: option.splits)
  then show thesis using that[of "hvReason v" "hvMessage v"] laws cond by (simp add: statusCondition_set)
qed

lemma refusals_condition:
  assumes "refusals lib k since cfg cfg'" and laws: "condLaws (ct_cond lib)"
    and "\<forall>c. handoverCondition lib (coStatus cfg) = Some c \<longrightarrow> cnStatus c \<noteq> ''False''"
  shows "\<exists>c. handoverCondition lib (coStatus cfg') = Some c \<and> cnStatus c = ''False'' \<and> cnTransition c = Some since"
  using assms(1,3)
proof (induction rule: refusals.induct)
  case (first_refusal view cfg s)
  obtain r m where "handoverCondition lib s =
      Some (stamped (crNow view) (handoverCondition lib (coStatus cfg)) (newCondition ConditionHandoverReady ''False'' r m))"
    using refused_condition[OF laws first_refusal.hyps] .
  then show ?case using first_refusal.prems by (auto simp: stamped_def split: option.splits)
next
  case (next_refusal since cfg cfg' view s)
  then obtain c where c: "handoverCondition lib (coStatus cfg') = Some c" "cnStatus c = ''False''" "cnTransition c = Some since" by blast
  obtain r m where "handoverCondition lib s =
      Some (stamped (crNow view) (handoverCondition lib (coStatus cfg')) (newCondition ConditionHandoverReady ''False'' r m))"
    using refused_condition[OF laws next_refusal.hyps(2)] .
  then show ?case using c by (simp add: stamped_def)
qed

text \<open>A reconcile that is no move leaves the verdict of the last one in place.\<close>

lemma verifyPropagation_handover:
  "condLaws (ct_cond lib) \<Longrightarrow> handoverCondition lib (verifyPropagation lib now getCRD xrd want st) = handoverCondition lib st"
  by (simp add: verifyPropagation_def setPropagationCondition_def Let_def statusCondition_set split: sum.split)

lemma appliedStatus_handover:
  assumes "condLaws (ct_cond lib)"
  shows "handoverCondition lib (appliedStatus lib k now p st) = handoverCondition lib st"
proof -
  have "handoverCondition lib (st\<lparr>stPhase := a, stWebhookPath := b, stWebhookURL := c, stWebhookPort := d, stLastAppliedPlanHash := e, stMessage := f\<rparr>)
      = handoverCondition lib st" for a b c d e f by (simp add: statusCondition_def)
  then show ?thesis using assms by (simp add: appliedStatus_def Let_def statusCondition_set statusCondition_remove)
qed

lemma applyStep_handover:
  assumes "condLaws (ct_cond lib)"
    and "PatchStatus s \<in> set (fst (applyStep lib k view cfg t serverName server st writes))" and "PatchStatus s \<notin> set writes"
  shows "handoverCondition lib s = handoverCondition lib st \<and> stPhase s = PhaseApplied"
proof -
  obtain p ws where f: "PatchStatus s \<in> set (fst (finishApply lib k view cfg t p st ws))" and q: "PatchStatus s \<notin> set ws"
    using assms(2,3) by (auto simp: applyStep_def Let_def bindR_Inr_iff applyPatch_def split: sum.splits option.splits)
  have core: "stPhase (verifyPropagation lib now g x w st') = stPhase st'" for now g x w st'
    by (simp add: verifyPropagation_def setPropagationCondition_def Let_def split: sum.split)
  have ph: "stPhase (appliedStatus lib k now p st) = PhaseApplied" for now by (simp add: appliedStatus_def Let_def)
  show ?thesis
  proof (cases t)
    case (XRDObject xrd)
    then show ?thesis using f q assms(1) core ph
      by (auto simp: finishApply_def Let_def patchStatus_def verifyPropagation_handover appliedStatus_handover split: option.splits)
  next
    case (CRDObject crd)
    then show ?thesis using f q assms(1) ph by (auto simp: finishApply_def Let_def patchStatus_def appliedStatus_handover split: option.splits)
  qed
qed

lemma settled_reconcile_keeps_verdict:
  assumes laws: "condLaws (ct_cond lib)" and "reachesHandover lib view cfg t serverName server"
    and "\<not> movingServers (coStatus cfg) serverName" and "PatchStatus s \<in> set (fst (reconcileNormal lib k view cfg))"
  shows "handoverCondition lib s = handoverCondition lib (coStatus cfg) \<and> stPhase s = PhaseApplied"
proof -
  obtain st writes where gate: "reconcileNormal lib k view cfg = handoverGate lib k view cfg (ftObject t) serverName server st writes"
    and cond: "handoverCondition lib st = handoverCondition lib (coStatus cfg)" and untouched: "\<And>p. ApplyTarget p \<notin> set writes"
    and quiet: "\<And>s. PatchStatus s \<notin> set writes"
    using reachesHandover_gate[OF laws assms(2), where k = k] by blast
  have "PatchStatus s \<in> set (fst (applyStep lib k view cfg (ftObject t) serverName server st writes))"
    using assms(3,4) unfolding gate by (simp add: handoverGate_def)
  from applyStep_handover[OF laws this quiet] show ?thesis using cond by simp
qed

subsection \<open>Deletion\<close>

text \<open>A configuration that counts as applied is let go only when its target is gone or was reverted.\<close>

lemma reconcileDelete_release:
  assumes "RemoveFinalizer f \<in> set (fst (reconcileDelete lib k view cfg))" and "wasApplied (coStatus cfg)"
  obtains (gone) "crTarget view = NotFound"
  | (reverted) t ws where "crTarget view = Found t"
      and "countServedVersions lib (ftObject t) \<le> 1 \<or> coAnnotations cfg AllowUnsafeDeleteAnnotation = Some ''true''"
      and "revertTarget lib k view (crTargetAgain view) (targetName cfg) = Inr ws"
      and "fst (reconcileDelete lib k view cfg) = ws @ [RemoveFinalizer (finalizerOf k)]"
proof (cases "crTarget view")
  case NotFound
  then show thesis by (rule gone)
next
  case (ReadError e)
  then show thesis using assms by (auto simp: reconcileDelete_def wasApplied_def split: if_splits)
next
  case (Found t)
  have finalizer: "finalizerOf k \<in> set (coFinalizers cfg)" using assms(1) by (auto simp: reconcileDelete_def split: if_splits)
  have blocked: "RemoveFinalizer f \<notin> set (fst (patchStatus view cfg st [] r))" for st r by (simp add: patchStatus_def split: option.split)
  have safe: "countServedVersions lib (ftObject t) \<le> 1 \<or> coAnnotations cfg AllowUnsafeDeleteAnnotation = Some ''true''"
    using assms Found finalizer blocked by (auto simp: reconcileDelete_def wasApplied_def Let_def split: if_splits)
  then have step: "reconcileDelete lib k view cfg =
      (case revertTarget lib k view (crTargetAgain view) (targetName cfg) of
         Inl e \<Rightarrow> ([], Inl (Fmt ''reverting %s conversion config: %w'' [MStr (kindName k), e]))
       | Inr reverted \<Rightarrow> removeFinalizer k view cfg reverted)"
    using assms(2) Found finalizer by (auto simp: reconcileDelete_def wasApplied_def Let_def)
  then obtain ws where ws: "revertTarget lib k view (crTargetAgain view) (targetName cfg) = Inr ws"
    using assms(1) by (auto split: sum.splits)
  have "RemoveFinalizer f \<notin> set ws" using revertTarget_writes[OF ws] by blast
  then have "fst (reconcileDelete lib k view cfg) = ws @ [RemoveFinalizer (finalizerOf k)]"
    using assms(1) step ws finalizer by (simp add: removeFinalizer_def split: option.splits)
  with Found safe ws show thesis by (rule reverted)
qed

subsection \<open>Fan-out of a server change\<close>

lemma mapConfigsForServerViews_iff:
  "name \<in> set (mapConfigsForServerViews logf configs servers serverName views) \<longleftrightarrow>
     (\<exists>view\<in>set views. \<exists>c. (name, c) \<in> set configs \<and> IsAssignedTo logf c (serversWithView servers view) serverName)"
  by (force simp: mapConfigsForServerViews_def)

lemma serversWithView_live:
  assumes "view \<in> set servers" and "distinct (map wsName servers)" and "wsDefault view \<longrightarrow> (\<forall>s\<in>set servers. s \<noteq> view \<longrightarrow> \<not> wsDefault s)"
  shows "serversWithView servers view = servers"
proof -
  have "(if wsName s = wsName view then view else if wsDefault view then s\<lparr>wsDefault := False\<rparr> else s) = s" if "s \<in> set servers" for s
  proof (cases "s = view")
    case False
    then have "wsName s \<noteq> wsName view" using assms(1,2) that by (metis distinct_map inj_onD)
    then show ?thesis using assms(3) that False by auto
  qed simp
  then show ?thesis using assms(1) by (simp add: serversWithView_def map_idI)
qed

subsection \<open>Drift of a stale configuration\<close>

lemma observeTarget_phase: "stPhase (fst (observeTarget lib view cfg t)) = stPhase (coStatus cfg)"
  by (simp add: observeTarget_def Let_def setPackageManagedCondition_def split: targetObject.split option.split)

lemma analyzedStatus_phase [simp]: "stPhase (analyzedStatus lib cfg report st) = stPhase st"
  by (simp add: analyzedStatus_def populateSpokeStatuses_def)

lemma stale_drift:
  assumes "stPhase st = PhaseStale" and "stPhase (coStatus cfg) = PhaseStale" and "crStatusPatch view = None"
  shows "(\<exists>s. PatchStatus s \<in> set (fst (driftStep lib k view cfg st writes)) \<and> stPhase s = PhaseStale \<and> stMessage s = staleDriftMessage k)
    \<and> (\<forall>p. ApplyTarget p \<in> set (fst (driftStep lib k view cfg st writes)) \<longrightarrow> ApplyTarget p \<in> set writes)"
proof -
  have "\<not> failClosedShouldRevert lib (coDriftPolicy cfg) (stPhase st) (stConditions st)"
    using assms(1) by (simp add: failClosedShouldRevert_def)
  then have v: "driftVerdict lib k view cfg st = (setPhaseStale lib (crNow view) ''SchemaDrift'' (staleDriftMessage k) st, [], staleDriftMessage k, None)"
    using assms(1,2) by (simp add: driftVerdict_def Let_def wasApplied_def recordPhaseTransition_def)
  let ?s = "((setStatusCondition lib (crNow view) ConditionValidated ''False'' ''ValidationFailed'' (staleDriftMessage k)
      (setPhaseStale lib (crNow view) ''SchemaDrift'' (staleDriftMessage k) st))\<lparr>stMessage := staleDriftMessage k\<rparr>)
      \<lparr>stObservedGeneration := coGeneration cfg\<rparr>"
  have eq: "fst (driftStep lib k view cfg st writes) = writes @ [CountAnalyzeFailure ''ValidationErrors'', PatchStatus ?s]"
    unfolding driftStep_fst[OF v] using assms(3) by (simp add: patchStatus_def)
  have s: "stPhase ?s = PhaseStale" "stMessage ?s = staleDriftMessage k" by (simp_all add: setPhaseStale_def)
  show ?thesis
  proof
    show "\<exists>s. PatchStatus s \<in> set (fst (driftStep lib k view cfg st writes)) \<and> stPhase s = PhaseStale \<and> stMessage s = staleDriftMessage k"
      by (rule exI[of _ ?s], intro conjI s) (simp add: eq)
    show "\<forall>p. ApplyTarget p \<in> set (fst (driftStep lib k view cfg st writes)) \<longrightarrow> ApplyTarget p \<in> set writes" by (simp add: eq)
  qed
qed

subsection \<open>Reconciles that go through\<close>

text \<open>The gate lets a settled configuration pass, and a moving one whose handover is approved.\<close>

lemma approved_gate:
  assumes "handoverApproved lib view cfg n server"
  shows "\<exists>st'. handoverGate lib k view cfg t n server st writes = applyStep lib k view cfg t n server st' writes"
proof (cases "movingServers (coStatus cfg) n")
  case True
  then obtain v where "checkHandover (ct_zip lib) (ct_cond lib) (crLeases view) (crDefaultNamespace view) server (targetName cfg)
      (stConditions (coStatus cfg)) (crNow view) = Inr v" "hvOK v" using assms by (auto simp: handoverApproved_def)
  with True show ?thesis by (auto simp: handoverGate_def Let_def)
next
  case False
  then show ?thesis by (auto simp: handoverGate_def)
qed

lemma approved_patches:
  assumes laws: "condLaws (ct_cond lib)" and "reachesHandover lib view cfg t n server" and "canPatch lib view cfg t n server"
    and "handoverApproved lib view cfg n server"
  shows "\<exists>p. ApplyTarget p \<in> set (fst (reconcileNormal lib k view cfg))"
    and "crStatusPatch view = None \<Longrightarrow> \<exists>s. PatchStatus s \<in> set (fst (reconcileNormal lib k view cfg)) \<and> stPhase s = PhaseApplied"
proof -
  obtain st writes where gate: "reconcileNormal lib k view cfg = handoverGate lib k view cfg (ftObject t) n server st writes"
    and "handoverCondition lib st = handoverCondition lib (coStatus cfg)"
    and "\<And>p. ApplyTarget p \<notin> set writes" and quiet: "\<And>s. PatchStatus s \<notin> set writes"
    using reachesHandover_gate[OF laws assms(2), where k = k] by blast
  obtain st' where step: "reconcileNormal lib k view cfg = applyStep lib k view cfg (ftObject t) n server st' writes"
    using approved_gate[OF assms(4)] gate by metis
  show "\<exists>p. ApplyTarget p \<in> set (fst (reconcileNormal lib k view cfg))"
    unfolding step using applyStep_patches[OF assms(3)] by blast
  assume none: "crStatusPatch view = None"
  obtain ca where ca: "readCABundle lib view server = Inr ca" using assms(3) by (auto simp: canPatch_def split: sum.splits)
  obtain q ws where "applyStep lib k view cfg (ftObject t) n server st' writes = finishApply lib k view cfg (ftObject t) q st' ws"
    using applyStep_patches[OF assms(3), of k st' writes] ca \<open>\<And>p. ApplyTarget p \<notin> set writes\<close>
    by (auto simp: applyStep_def Let_def split: sum.splits)
  then have "\<exists>s. PatchStatus s \<in> set (fst (reconcileNormal lib k view cfg))"
    unfolding step using none by (auto simp: finishApply_def Let_def patchStatus_def split: targetObject.split)
  then show "\<exists>s. PatchStatus s \<in> set (fst (reconcileNormal lib k view cfg)) \<and> stPhase s = PhaseApplied"
    unfolding step using applyStep_handover[OF laws _ quiet] by blast
qed

lemma refused_move:
  assumes laws: "condLaws (ct_cond lib)" and reach: "reachesHandover lib view cfg t n server" and "movingServers (coStatus cfg) n"
    and "checkHandover (ct_zip lib) (ct_cond lib) (crLeases view) (crDefaultNamespace view) server (targetName cfg)
      (stConditions (coStatus cfg)) (crNow view) = Inr v" and "\<not> hvOK v" and "crStatusPatch view = None"
  shows "\<exists>s. refused lib k view cfg s"
proof -
  obtain st writes where gate: "reconcileNormal lib k view cfg = handoverGate lib k view cfg (ftObject t) n server st writes"
    and "handoverCondition lib st = handoverCondition lib (coStatus cfg)"
    and quiet: "\<And>p. ApplyTarget p \<notin> set writes" and "\<And>s. PatchStatus s \<notin> set writes"
    using reachesHandover_gate[OF laws reach, where k = k] by blast
  obtain st' r where eq: "reconcileNormal lib k view cfg = patchStatus view cfg st' writes r"
    unfolding gate using assms(3-5) by (auto simp: handoverGate_def Let_def)
  then have "PatchStatus (st'\<lparr>stObservedGeneration := coGeneration cfg\<rparr>) \<in> set (fst (reconcileNormal lib k view cfg))"
    using assms(6) by (simp add: patchStatus_def)
  moreover have "\<forall>p. ApplyTarget p \<notin> set (fst (reconcileNormal lib k view cfg))" unfolding eq using quiet by simp
  ultimately show ?thesis unfolding refused_def using reach by blast
qed

end
