(* ===== verification/Examples.thy ===== *)
theory Examples
  imports Analyze RoundTrip Assign Registry Rehub Admission Server Fleet XRDObjects ConfigController
begin

text \<open>
  A small configuration the theorems are applied to: a hub and a spoke version that differ in the
  name of one field, an object of the hub version, and a sharded pair of servers.
\<close>

definition exHub :: schema where
  "exHub = objectSchema [(''spec'', objectSchema [(''size'', leafSchema ''integer''), (''zone'', leafSchema ''string'')] [''zone''])] []"

definition exSpoke :: schema where
  "exSpoke = objectSchema [(''spec'', objectSchema [(''replicas'', leafSchema ''integer''), (''zone'', leafSchema ''string'')] [''zone''])] []"

definition exRules :: "rule list" where
  "exRules = [Rule StrategyFieldRename (FieldRenameParams [''spec'', ''size''] [''spec'', ''replicas'']) False [] 0 None]"

definition exObject :: jobj where
  "exObject = [(''kind'', JStr ''Widget''), (''metadata'', JObj [(''name'', JStr ''w'')]),
     (''spec'', JObj [(''size'', JInt64 3), (''zone'', JStr ''eu''), (''extra'', JBool True)])]"

definition exPlan :: Plan where
  "exPlan = \<lparr>HubVersion = ''v2'', SpokeVersion = ''v1'',
     planHubToSpoke = [RenameOp [''spec'', ''size''] [''spec'', ''replicas''], IdentityOp [''spec'', ''zone'']],
     planSpokeToHub = [RenameOp [''spec'', ''replicas''] [''spec'', ''size''], IdentityOp [''spec'', ''zone'']]\<rparr>"

definition exRuleSet :: RuleSet where
  "exRuleSet = \<lparr>rsHubVersion = ''v2'', rsSpokeVersion = ''v1'', rsRules = exRules, rsUnmappedFieldPolicy = []\<rparr>"

definition exVersions :: "VersionSchema list" where
  "exVersions = [\<lparr>vsName = ''v1'', vsSchema = exSpoke, vsServed = True, vsStorage = False\<rparr>,
     \<lparr>vsName = ''v2'', vsSchema = exHub, vsServed = True, vsStorage = True\<rparr>]"

definition exServers :: "WebhookServer list" where
  "exServers = [\<lparr>wsName = ''a'', wsDefault = False, wsSharding = Some \<lparr>shEnabled = None, shWeight = None\<rparr>\<rparr>,
     \<lparr>wsName = ''b'', wsDefault = False, wsSharding = Some \<lparr>shEnabled = None, shWeight = None\<rparr>\<rparr>]"

text \<open>A second configuration, which joins a list of the hub into a string of the spoke.\<close>

definition exListHub :: schema where
  "exListHub = objectSchema [(''spec'', objectSchema [(''tags'', arraySchema (leafSchema ''string'') None), (''zone'', leafSchema ''string'')] [])] []"

definition exListSpoke :: schema where
  "exListSpoke = objectSchema [(''spec'', objectSchema [(''labels'', leafSchema ''string''), (''zone'', leafSchema ''string'')] [])] []"

definition exListSet :: RuleSet where
  "exListSet = \<lparr>rsHubVersion = ''v2'', rsSpokeVersion = ''v1'',
     rsRules = [Rule ''ListJoin'' (ListJoinParams [''spec'', ''tags''] [''spec'', ''labels''] '','') True [] 0 None],
     rsUnmappedFieldPolicy = []\<rparr>"

definition exListObject :: jobj where
  "exListObject = [(''kind'', JStr ''Widget''), (''spec'', JObj [(''tags'', JArr [JStr ''a'', JStr ''b'']), (''extra'', JNull)])]"

text \<open>Three configurations whose rules lose something.\<close>

definition exKeyHub :: schema where
  "exKeyHub = objectSchema [(''spec'', objectSchema [(''m'', mapSchema)] [])] []"

definition exKeySet :: RuleSet where
  "exKeySet = \<lparr>rsHubVersion = ''v2'', rsSpokeVersion = ''v1'',
     rsRules = [Rule StrategyMapKeyRename (MapKeyRenameParams [''spec'', ''m''] [''spec'', ''m''] [(''a'', ''b'')]) False [] 0 None],
     rsUnmappedFieldPolicy = []\<rparr>"

definition exDupHub :: schema where
  "exDupHub = objectSchema [(''spec'', objectSchema [(''tier'', leafSchema ''string'')] [])] []"

definition exDupSet :: RuleSet where
  "exDupSet = \<lparr>rsHubVersion = ''v2'', rsSpokeVersion = ''v1'',
     rsRules = [Rule StrategyEnumRemap (EnumRemapParams [''spec'', ''tier'']
       [\<lparr>evHub = JStr ''h'', evSpoke = JStr ''s1''\<rparr>, \<lparr>evHub = JStr ''h'', evSpoke = JStr ''s2''\<rparr>] [] []) False [] 0 None],
     rsUnmappedFieldPolicy = []\<rparr>"

definition exStashHub :: schema where
  "exStashHub = objectSchema [(''spec'', objectSchema [(''size'', leafSchema ''string'')] [])] []"

definition exStashSet :: RuleSet where
  "exStashSet = \<lparr>rsHubVersion = ''v2'', rsSpokeVersion = ''v1'',
     rsRules = [Rule StrategyToAnnotation (ToMetadataParams [''spec'', ''size''] ''x/size'' ''String'' True) False [] 0 None],
     rsUnmappedFieldPolicy = []\<rparr>"

definition exConfig :: Config where
  "exConfig = \<lparr>cfgRef = None, cfgShardKey = ''k'', cfgAppliedURL = []\<rparr>"

text \<open>A stand-in for the logarithm: like it, negative and finite below one.\<close>

definition exLog :: "float64 \<Rightarrow> float64" where
  "exLog x = Fin (-1)"

lemma exServers_scored: "scored exLog key exServers"
  using round64_of_int[of 1]
  by (simp add: scored_def scoreOf_def shardScore_def exLog_def exServers_def ShardWeight_def)

text \<open>What compiling the first configuration reports of its rule.\<close>

definition exResults :: "RuleResult list" where
  "exResults = bResults (resolveAndBuildOps nolib exRules exHub exSpoke UnmappedFieldPolicyError 0)"

lemma exRules_clean: "errorFree (bDiags (resolveAndBuildOps nolib exRules exHub exSpoke UnmappedFieldPolicyError 0))"
  by code_simp

text \<open>The same rule between schemas that require the field it moves.\<close>

definition exNeededHub :: schema where
  "exNeededHub = objectSchema [(''spec'', objectSchema [(''size'', leafSchema ''integer'')] [''size''])] []"

definition exNeededSpoke :: schema where
  "exNeededSpoke = objectSchema [(''spec'', objectSchema [(''replicas'', leafSchema ''integer'')] [''replicas''])] []"

definition exNeededResults :: "RuleResult list" where
  "exNeededResults = bResults (resolveAndBuildOps nolib exRules exNeededHub exNeededSpoke UnmappedFieldPolicyError 0)"

lemma exNeeded_results:
  "\<forall>rr\<in>set exNeededResults. rrStrategy rr = ''FieldRename''" "map rrSpokePaths exNeededResults = [[''spec.replicas'']]"
  "\<exists>rr\<in>set exNeededResults. ''spec.replicas'' \<in> set (rrSpokePaths rr)"
  by code_simp+

lemma exNeeded_parents: "parentsPresent exNeededSpoke [''spec'', ''replicas''] [''spec.replicas'']"
proof -
  have "hasPrefix ''spec.replicas'' (pathString (take (Suc 0) [''spec'', ''replicas'']) @ ''.'')" by code_simp
  then show ?thesis by (auto simp: parentsPresent_def less_Suc_eq)
qed

text \<open>The first configuration as an API object with a second spoke, and a rule that rescales a field.\<close>

definition exApiRename :: conversionRule where
  "exApiRename = ConversionRule ''FieldRename'' [AFieldRename ''spec.size'' ''spec.replicas''] False [] None"

definition exApiScale :: conversionRule where
  "exApiScale = ConversionRule ''NumericScale'' [ANumericScale ''spec.memoryMB'' ''spec.memoryGB'' (Fin 1024)] True [] None"

definition exScaleHub :: schema where
  "exScaleHub = objectSchema [(''spec'', objectSchema [(''memoryMB'', leafSchema ''number'')] [])] []"

definition exScaleSpoke :: schema where
  "exScaleSpoke = objectSchema [(''spec'', objectSchema [(''memoryGB'', leafSchema ''number'')] [])] []"

definition exScaleValue :: jobj where
  "exScaleValue = [(''spec'', JObj [(''memoryMB'', JFloat (Fin 2048))])]"

definition exSpokes :: "SpokeVersionRules list" where
  "exSpokes = [\<lparr>svVersion = ''v1'', svRules = [exApiRename]\<rparr>, \<lparr>svVersion = ''v1alpha1'', svRules = []\<rparr>]"

definition exLeaves :: "string \<Rightarrow> string set option" where
  "exLeaves v = (if v = ''v1alpha1'' then Some {''spec.size'', ''spec.zone''} else None)"

text \<open>What promoting \<open>v1\<close> makes of the spokes.\<close>

definition exPromoted :: "SpokeVersionRules list" where
  "exPromoted = [\<lparr>svVersion = ''v2'', svRules = [ConversionRule ''FieldRename'' [AFieldRename ''spec.replicas'' ''spec.size''] False [] None]\<rparr>,
     \<lparr>svVersion = ''v1alpha1'', svRules = [liftedRename ''spec.replicas'' ''spec.size'']\<rparr>]"

definition exDemoted :: "SpokeVersionRules list" where
  "exDemoted = [\<lparr>svVersion = ''v1'', svRules = [exApiRename]\<rparr>,
     \<lparr>svVersion = ''v1alpha1'', svRules = [liftedRename ''spec.size'' ''spec.size'']\<rparr>]"

text \<open>A schema with a reference and an \<open>allOf\<close>, and what it normalises to.\<close>

definition exPort :: schema where
  "exPort = Schema [] [] [] None None None None (Some ''#/definitions/port'') [] [] [] None False [] [] []"

definition exRefDoc :: schema where
  "exRefDoc = Schema ''object'' [(''port'', exPort), (''host'', leafSchema ''string'')] [] None None None None None
     [Schema [] [] [''port''] None None None None None [] [] [] None False [] [] []] [] [] None False []
     [(''port'', leafSchema ''integer'')] []"

definition exRefNormal :: schema where
  "exRefNormal = Schema ''object'' [(''port'', leafSchema ''integer''), (''host'', leafSchema ''string'')] [''port'']
     None None None None None [] [] [] None False [] [(''port'', leafSchema ''integer'')] []"

lemma exRef_normalises: "NormalizeSchema nolib exRefDoc = Inr exRefNormal"
  by code_simp

text \<open>The first configuration as an object under admission, and one whose parameters are not those of its strategy.\<close>

definition exConfigObject :: conversionConfig where
  "exConfigObject = \<lparr>ccName = ''widgets'', ccTarget = ''xwidgets'', ccHubVersion = ''v2'',
     ccSpokes = [\<lparr>svVersion = ''v1'', svRules = [exApiRename]\<rparr>], ccUnmappedFieldPolicy = ''Error'', ccUnmappedFieldReason = [],
     ccWebhookServerRef = None\<rparr>"

definition exSource :: schemaSource where
  "exSource = \<lparr>ssVersions = Inr exVersions, ssGeneration = 1, ssInjected = None\<rparr>"

definition exCluster :: clusterView where
  "exCluster = \<lparr>clXRDConfigs = Inr [], clCRDConfigs = Inr [], clServerExists = (\<lambda>_. True), clTarget = (\<lambda>_. Some exSource)\<rparr>"

definition exMismatch :: conversionConfig where
  "exMismatch = exConfigObject\<lparr>ccSpokes := [\<lparr>svVersion = ''v1'',
     svRules = [ConversionRule ''ScalarToObject'' [AFieldRename ''spec.size'' ''spec.replicas''] False [] None]\<rparr>]\<rparr>"

definition noConfigs :: configStore where
  "noConfigs = \<lparr>stXRDs = [], stCRDs = []\<rparr>"

lemma exConfigObject_admitted: "validateConfig nolib XRDKind True (viewOf exCluster noConfigs) exConfigObject = ([], None)"
  by code_simp

text \<open>
  A replica that serves the first configuration, a codec that knows one object, and a request for it.
\<close>

definition exRouter :: Router where
  "exRouter = \<lparr>routerHub = ''v2'', routerPlans = [(''v1'', Some exPlan)]\<rparr>"

definition exEntry :: CompiledEntry where
  "exEntry = zeroEntry\<lparr>ceRouter := Some exRouter, ceLossless := [(''v1'', (True, False))]\<rparr>"

definition exRegistry :: Registry where
  "exRegistry = registrySet NewRegistry ''xwidgets'' exEntry"

definition exServer :: Server where
  "exServer = \<lparr>srvMaxRequestBytes = 0, srvRequestTimeout = 0, srvHasMetrics = True, srvReady = True\<rparr>"

definition exSent :: jobj where
  "exSent = [(''apiVersion'', JStr ''example.org/v2''), (''kind'', JStr ''Widget''), (''spec'', JObj [(''zone'', JStr ''eu'')])]"

definition exLib :: golib where
  "exLib = nolib\<lparr>lib_Unmarshal := (\<lambda>raw. if raw = ''sent'' then Inr (JObj exSent) else Inl (MStr ''syntax error'')),
     lib_Marshal := (\<lambda>v. Inr ''answered'')\<rparr>"

definition exRequest :: ConversionRequest where
  "exRequest = \<lparr>rqUID = ''u-1'', rqDesiredAPIVersion = ''example.org/v1'', rqObjects = [''sent'', ''sent'']\<rparr>"

definition exNever :: "nat \<Rightarrow> bool" where
  "exNever i = False"

text \<open>A codec for objects with one number, which it decodes as \<open>encoding/json\<close> does.\<close>

definition exNumRaw :: "int \<Rightarrow> string" where
  "exNumRaw k = (if k = 9007199254740993 then ''odd'' else ''even'')"

definition exNumObject :: "jval \<Rightarrow> jobj" where
  "exNumObject v = [(''apiVersion'', JStr ''example.org/v2''), (''spec'', JObj [(''size'', v)])]"

definition exNumLib :: golib where
  "exNumLib = nolib\<lparr>lib_Unmarshal := (\<lambda>raw. Inr (JObj (exNumObject (JFloat (round64 (if raw = ''odd'' then 9007199254740993 else 9007199254740992))))))\<rparr>"

text \<open>A server under admission, a rollout of one whose drain never ends, and the codec that reads its timeout.\<close>

definition exServerObject :: ServerObject where
  "exServerObject = \<lparr>soServer = hd exServers, soExtraArgs = [''--request-timeout=10s''], soRollout = None, soForceDelete = []\<rparr>"

lemma exServerObject_admitted: "validateServer nolib (Inr []) exServerObject = Inr ()"
  by code_simp

definition exSecondServer :: ServerObject where
  "exSecondServer = exServerObject\<lparr>soServer := exServers ! 1\<rparr>"

lemma exServers_reached: "(fleet_step nolib)\<^sup>*\<^sup>* [] exServers"
proof -
  have "fleet_step nolib [] (fleetWith (soServer exServerObject) [])" using exServerObject_admitted by (rule fleet_put) code_simp
  moreover have "validateServer nolib (Inr [hd exServers]) exSecondServer = Inr ()" by code_simp
  then have "fleet_step nolib [hd exServers] (fleetWith (soServer exSecondServer) [hd exServers])" by (rule fleet_put) code_simp
  ultimately show ?thesis
    by (simp add: fleetWith_def exServerObject_def exSecondServer_def exServers_def)
qed

definition exDurationLib :: golib where
  "exDurationLib = nolib\<lparr>lib_ParseDuration := (\<lambda>s. if s = ''2562047h47m16s'' then Inr 9223372036000000000 else Inl (MStr []))\<rparr>"

text \<open>
  Accessors over nested maps with the documented behaviour, an XRD whose conversion was stripped, and
  a configuration that had been applied to it.
\<close>

definition exGetAnnotations :: "jobj \<Rightarrow> (string \<times> string) list" where
  "exGetAnnotations obj =
     (case getValue obj [''metadata'', ''annotations''] of
        Some (JObj m) \<Rightarrow> concat (map (\<lambda>kv. case snd kv of JStr s \<Rightarrow> [(fst kv, s)] | _ \<Rightarrow> []) m) | _ \<Rightarrow> [])"

definition exSetAnnotations :: "jobj \<Rightarrow> (string \<times> string) list \<Rightarrow> jobj" where
  "exSetAnnotations obj anns =
     (case setValue obj [''metadata'', ''annotations''] (JObj (map (\<lambda>kv. (fst kv, JStr (snd kv))) anns)) of Inr obj' \<Rightarrow> obj' | Inl _ \<Rightarrow> obj)"

definition exK8s :: k8slib where
  "exK8s = \<lparr>k8_NestedString = (\<lambda>obj p. case getValue obj p of None \<Rightarrow> Inr None | Some (JStr s) \<Rightarrow> Inr (Some s) | _ \<Rightarrow> Inl (MStr [])),
     k8_NestedBool = (\<lambda>obj p. Inr None),
     k8_NestedInt64 = (\<lambda>obj p. case getValue obj p of None \<Rightarrow> Inr None | Some (JInt64 i) \<Rightarrow> Inr (Some i) | _ \<Rightarrow> Inl (MStr [])),
     k8_NestedMap = (\<lambda>obj p. Inr None), k8_NestedSlice = (\<lambda>obj p. Inr None),
     k8_SetNestedMap = (\<lambda>obj m p. setValue obj p (JObj m)),
     k8_GetAnnotations = exGetAnnotations, k8_SetAnnotations = exSetAnnotations,
     k8_GetName = (\<lambda>obj. []), k8_GetAPIVersion = (\<lambda>obj. []), k8_GetOwnerReferences = (\<lambda>obj. []), k8_SchemaProps = (\<lambda>obj. Inl (MStr [])),
     k8_IsStatusConditionTrue = (\<lambda>cs t. map_of cs t = Some ''True''),
     k8_ParseURL = (\<lambda>u. Inr (''https'', ''main-webhook-server.dco.svc''))\<rparr>"

lemma exAnnotations_roundtrip:
  "map_of (concat (map (\<lambda>kv. case snd kv of JStr s \<Rightarrow> [(fst kv, s)] | _ \<Rightarrow> []) (map (\<lambda>kv. (fst kv, JStr (snd kv))) anns))) = map_of anns"
  by (induction anns) auto

lemma exK8s_laws: "k8sLaws exK8s"
proof -
  have set_ok: "\<exists>obj'. setValue obj [''metadata'', ''annotations''] v = Inr obj'" if "getValue obj [''metadata''] = Some (JObj md)" for obj md v
  proof -
    have "map_of obj ''metadata'' = Some (JObj md)" using that by (simp add: getValue_Cons split: option.splits)
    then show ?thesis by (simp add: setValue_ok_iff settable_Cons)
  qed
  have "map_of (exGetAnnotations (exSetAnnotations obj anns)) = map_of anns
      \<and> (\<forall>q. parallel [''metadata'', ''annotations''] q \<longrightarrow> getValue (exSetAnnotations obj anns) q = getValue obj q)"
    if md: "getValue obj [''metadata''] = Some (JObj md)" for obj md anns
  proof -
    obtain obj' where obj': "setValue obj [''metadata'', ''annotations''] (JObj (map (\<lambda>kv. (fst kv, JStr (snd kv))) anns)) = Inr obj'"
      using set_ok[OF md] by blast
    then show ?thesis using getValue_setValue[OF obj'] getValue_setValue_parallel[OF obj'] exAnnotations_roundtrip[of anns]
      by (simp add: exSetAnnotations_def exGetAnnotations_def)
  qed
  then show ?thesis using getValue_setValue getValue_setValue_parallel by (simp add: k8sLaws_def exK8s_def)
qed

definition exXRD :: jobj where
  "exXRD = [(''kind'', JStr ''CompositeResourceDefinition''), (''metadata'', JObj [(''name'', JStr ''xwidgets'')]),
     (''spec'', JObj [(''group'', JStr ''example.org'')])]"

definition exApplied :: appliedConfig where
  "exApplied = \<lparr>acName = ''widgets'', acLastAppliedPlanHash = ''h1'', acConditions = [(''Applied'', ''True'')],
     acAssignedWebhookServer = ''main'', acWebhookPath = ''/convert/xwidgets'', acWebhookURL = ''https://main-webhook-server.dco.svc/convert/xwidgets'',
     acWebhookPort = 0, acDeleting = False, acReviewVersions = []\<rparr>"

definition exIndex :: "string \<Rightarrow> gerr + appliedConfig list" where
  "exIndex name = (if name = ''xwidgets'' then Inr [exApplied] else Inr [])"

definition exRestored :: jobj where
  "exRestored = the (Handle exLib exK8s exIndex ''xwidgets'' (Inr exXRD))"

lemma exXRD_restored: "Handle exLib exK8s exIndex ''xwidgets'' (Inr exXRD) = Some exRestored"
proof -
  have "Handle exLib exK8s exIndex ''xwidgets'' (Inr exXRD) \<noteq> None" by code_simp
  then show ?thesis by (simp add: exRestored_def)
qed

text \<open>A replica of the first server, a configuration pinned to it, and calls for it once it has moved to another.\<close>

definition exPinned :: liveConfig where
  "exPinned = \<lparr>lcConfig = exConfigObject\<lparr>ccWebhookServerRef := Some ''a''\<rparr>, lcReviewVersions = [], lcDeleting = False, lcGeneration = 1\<rparr>"

definition exMoved :: liveConfig where
  "exMoved = \<lparr>lcConfig = exConfigObject\<lparr>ccWebhookServerRef := Some ''b''\<rparr>, lcReviewVersions = [], lcDeleting = False, lcGeneration = 2\<rparr>"

definition exTarget :: liveTarget where
  "exTarget = \<lparr>ltSource = exSource, ltServiceName = None\<rparr>"

definition exReplica :: replicaConfig where
  "exReplica = \<lparr>rcServerName = ''a'', rcDrainPeriod = 0\<rparr>"

definition exSprint :: "msg \<Rightarrow> string" where
  "exSprint m = []"

definition exEmptyReplica :: replica where
  "exEmptyReplica = \<lparr>rpRegistry = NewRegistry, rpTargets = Map.empty, rpDrain = Map.empty\<rparr>"

definition exServingReplica :: replica where
  "exServingReplica = \<lparr>rpRegistry = exRegistry, rpTargets = Map.empty, rpDrain = Map.empty\<rparr>"

definition exUnit :: "string \<Rightarrow> liveConfig \<Rightarrow> int \<Rightarrow> workUnit" where
  "exUnit name lc now = \<lparr>wuKind = XRDKind, wuName = name, wuConfig = Found lc, wuServers = Inr exServers, wuTarget = Found exTarget, wuNow = now\<rparr>"

lemma exPinned_mine: "isMine exLog exReplica (lcConfig exPinned) exServers"
  by (simp add: isMine_def ResolveAssignment_def assignConfig_def exPinned_def exServers_def exReplica_def)

lemma exMoved_draining: "drainingUnit exLog exReplica XRDKind ''widgets'' ''xwidgets'' (exUnit ''widgets'' exMoved now)"
  by (simp add: drainingUnit_def handedOver_def isMine_def ResolveAssignment_def assignConfig_def exMoved_def exServers_def exReplica_def
      exUnit_def exTarget_def pointsAtServer_def exConfigObject_def)

end
