(* ===== verification/ServerChildren.thy ===== *)
theory ServerChildren
  imports ConfigController Fleet
begin

text \<open>
  The API object of a webhook server (\<open>api/v1alpha1/conversionwebhookserver_types.go\<close>) and the child
  objects its controller applies (\<open>internal/controller/conversionwebhookserver_controller.go\<close>,
  \<open>naming.go\<close>). The typed apply configurations of the client library are records with the fields the
  controller sets; the certificate is an unstructured object. What a server's specification passes on
  verbatim (tolerations, affinity, volumes) is a JSON value and goes through \<open>viaJSON\<close>.
\<close>

subsection \<open>The API object\<close>

record ImageSpec =
  imRepository :: string
  imTag :: string
  imDigest :: string
  imPullPolicy :: string

record AutoscalingSpec =
  auMinReplicas :: int32
  auMaxReplicas :: int32
  auTargetCPU :: int32

record CertificateSpec =
  ceIssuerName :: string
  ceIssuerKind :: string
  ceDNSNames :: "string list"
  ceDuration :: "int64 option"
  ceRenewBefore :: "int64 option"

record ServiceSpec =
  svType :: string
  svPort :: int32
  svAnnotations :: "(string \<times> string) list"

record PodDisruptionBudgetSpec =
  pdMinAvailable :: "intOrString option"
  pdMaxUnavailable :: "intOrString option"

record StartupProbeSpec =
  suEnabled :: "bool option"
  suPeriodSeconds :: "int32 option"
  suFailureThreshold :: "int32 option"

record LabelSelector =
  lsMatchLabels :: "(string \<times> string) list"
  lsMatchExpressions :: "jval list"

record EnvVar =
  evName :: string
  evJSON :: jval   \<comment> \<open>the whole variable as it is encoded\<close>

record AssignedConfigRef =
  acrName :: string
  acrXRDName :: string
  acrPhase :: string

record serverStatus =
  ssObservedGeneration :: int
  ssConditions :: "condition list"
  ssReplicas :: int
  ssReadyReplicas :: int
  ssEndpoint :: string
  ssAssignedConfigs :: "AssignedConfigRef list"
  ssServedTargets :: "string list"
  ssReportingReplicas :: int

text \<open>The object admission checks, with the rest of its specification, its metadata and status.\<close>

record ConversionWebhookServer = ServerObject +
  cwNamespace :: string
  cwReplicas :: "int32 option"
  cwAutoscaling :: "AutoscalingSpec option"
  cwImage :: "ImageSpec option"
  cwRequests :: "(string \<times> string) list"
  cwLimits :: "(string \<times> string) list"
  cwNodeSelector :: "(string \<times> string) list"
  cwTolerations :: "jval list"
  cwAffinity :: "jval option"
  cwPriorityClassName :: string
  cwServiceAccountName :: string
  cwExtraEnv :: "EnvVar list"
  cwExtraVolumes :: "jval list"
  cwExtraVolumeMounts :: "jval list"
  cwTopologySpreadConstraints :: "jval list"
  cwPodLabels :: "(string \<times> string) list"
  cwPodAnnotations :: "(string \<times> string) list"
  cwCacheSelector :: "LabelSelector option"
  cwStartupProbe :: "StartupProbeSpec option"
  cwCertificate :: CertificateSpec
  cwService :: ServiceSpec
  cwPodDisruptionBudget :: "PodDisruptionBudgetSpec option"
  cwUID :: string
  cwGeneration :: int
  cwDeleting :: bool
  cwFinalizers :: "string list"
  cwStatus :: serverStatus

abbreviation cwName :: "ConversionWebhookServer \<Rightarrow> string" where
  "cwName server \<equiv> wsName (soServer server)"

text \<open>What the configuration controllers read of a server.\<close>

definition liveOf :: "ConversionWebhookServer \<Rightarrow> liveServer" where
  "liveOf server = \<lparr>lvServer = soServer server, lvNamespace = cwNamespace server, lvPort = svPort (cwService server),
     lvReadyReplicas = ssReadyReplicas (cwStatus server), lvConditions = ssConditions (cwStatus server)\<rparr>"

definition DefaultStartupProbePeriodSeconds :: int32 where "DefaultStartupProbePeriodSeconds = 5"
definition DefaultStartupProbeFailureThreshold :: int32 where "DefaultStartupProbeFailureThreshold = 60"

definition StartupProbeEnabled :: "StartupProbeSpec option \<Rightarrow> bool" where
  "StartupProbeEnabled sp = (case sp of None \<Rightarrow> True | Some s \<Rightarrow> (case suEnabled s of None \<Rightarrow> True | Some b \<Rightarrow> b))"

definition StartupProbeTiming :: "StartupProbeSpec option \<Rightarrow> int32 \<times> int32" where
  "StartupProbeTiming sp =
     (case sp of None \<Rightarrow> (DefaultStartupProbePeriodSeconds, DefaultStartupProbeFailureThreshold)
      | Some s \<Rightarrow> (case suPeriodSeconds s of None \<Rightarrow> DefaultStartupProbePeriodSeconds | Some p \<Rightarrow> p,
                  case suFailureThreshold s of None \<Rightarrow> DefaultStartupProbeFailureThreshold | Some t \<Rightarrow> t))"

subsection \<open>Library functions and settings\<close>

text \<open>
  \<open>sv_UnmarshalAs\<close> decodes into the type of the given name, \<open>sv_MarshalSelector\<close> is \<open>json.Marshal\<close> of a
  label selector, \<open>sv_QuantityValue\<close> is \<open>Quantity.Value\<close>, and \<open>sv_SetControllerReference\<close> is the helper of the
  controller library, applied to the name and UID of the owner.
\<close>

record serverlib =
  sv_ctrl :: ctrllib
  sv_UnmarshalAs :: "string \<Rightarrow> string \<Rightarrow> gerr + jval"
  sv_MarshalSelector :: "LabelSelector \<Rightarrow> gerr + string"
  sv_QuantityValue :: "string \<Rightarrow> int64"
  sv_SetControllerReference :: "string \<Rightarrow> string \<Rightarrow> jobj \<Rightarrow> gerr + jobj"

record serverReconciler =
  srDefaultNamespace :: string
  srDefaultImage :: string
  srEnableXRDSupport :: bool
  srEnableCRDSupport :: bool

definition viaJSON :: "serverlib \<Rightarrow> string \<Rightarrow> jval \<Rightarrow> gerr + jval" where
  "viaJSON lib dst src =
     (case lib_Marshal (ct_go (sv_ctrl lib)) src of Inl e \<Rightarrow> Inl e | Inr b \<Rightarrow> sv_UnmarshalAs lib dst b)"

text \<open>The loop over one list of the specification: every element converted, or the first error.\<close>

fun eachViaJSON :: "serverlib \<Rightarrow> string \<Rightarrow> string \<Rightarrow> jval list \<Rightarrow> gerr + jval list" where
  "eachViaJSON lib dst field [] = Inr []"
| "eachViaJSON lib dst field (x # xs) =
     (case viaJSON lib dst x of
        Inl e \<Rightarrow> Inl (Fmt (''converting '' @ field @ '': %w'') [e])
      | Inr y \<Rightarrow> bindR (eachViaJSON lib dst field xs) (\<lambda>ys. Inr (y # ys)))"

definition orString :: "string \<Rightarrow> string \<Rightarrow> string" where
  "orString s d = (if s = [] then d else s)"

subsection \<open>Names and labels\<close>

definition webhookServerConversionPort :: int32 where "webhookServerConversionPort = 9443"
definition webhookServerMetricsPort :: int32 where "webhookServerMetricsPort = 8443"
definition defaultWebhookServerImage :: string where
  "defaultWebhookServerImage = ''ghcr.io/terasky-oss/declarative-conversion-webhook-server:latest''"
definition defaultServiceAccountName :: string where
  "defaultServiceAccountName = ''declarative-conversion-webhook-server''"

definition cwsDeploymentName :: "string \<Rightarrow> string" where "cwsDeploymentName server = server @ ''-webhook-server''"
definition cwsServiceName :: "string \<Rightarrow> string" where "cwsServiceName server = WebhookServerServiceName server"
definition cwsCertificateName :: "string \<Rightarrow> string" where "cwsCertificateName server = server @ ''-webhook-server-cert''"
definition cwsPDBName :: "string \<Rightarrow> string" where "cwsPDBName server = server @ ''-webhook-server''"
definition cwsHPAName :: "string \<Rightarrow> string" where "cwsHPAName server = server @ ''-webhook-server''"

definition podLabels :: "string \<Rightarrow> (string \<times> string) list" where
  "podLabels server =
     [(''app.kubernetes.io/name'', ''declarative-conversion-webhook-server''),
      (''app.kubernetes.io/instance'', server),
      (''app.kubernetes.io/managed-by'', ''declarative-conversion-operator'')]"

definition addLabel :: "string \<times> string \<Rightarrow> (string \<times> string) list \<Rightarrow> (string \<times> string) list" where
  "addLabel kv out = (if fst kv \<in> set (map fst out) then out else AList.update (fst kv) (snd kv) out)"

definition templateLabels :: "string \<Rightarrow> (string \<times> string) list \<Rightarrow> (string \<times> string) list" where
  "templateLabels server extra = fold addLabel extra (podLabels server)"

record OwnerRefApply =
  owAPIVersion :: string
  owKind :: string
  owName :: string
  owUID :: string
  owController :: bool
  owBlockOwnerDeletion :: bool

definition ownerReferenceApplyConfiguration :: "ConversionWebhookServer \<Rightarrow> OwnerRefApply" where
  "ownerReferenceApplyConfiguration server =
     \<lparr>owAPIVersion = ''terasky.com/v1alpha1'', owKind = ''ConversionWebhookServer'', owName = cwName server,
      owUID = cwUID server, owController = True, owBlockOwnerDeletion = True\<rparr>"

subsection \<open>Certificate and service\<close>

definition certificateSpec :: "serverlib \<Rightarrow> ConversionWebhookServer \<Rightarrow> string \<Rightarrow> jobj" where
  "certificateSpec lib server namespace =
     (let c = cwCertificate server; svc = cwsServiceName (cwName server);
          dnsNames = (if ceDNSNames c \<noteq> [] then ceDNSNames c
                      else [svc, svc @ ''.'' @ namespace, svc @ ''.'' @ namespace @ ''.svc'', svc @ ''.'' @ namespace @ ''.svc.cluster.local''])
      in [(''secretName'', JStr (cwsCertificateSecretName (cwName server))),
          (''dnsNames'', JArr (map JStr dnsNames)),
          (''issuerRef'', JObj [(''name'', JStr (ceIssuerName c)), (''kind'', JStr (orString (ceIssuerKind c) ''ClusterIssuer''))])]
         @ (case ceDuration c of None \<Rightarrow> [] | Some d \<Rightarrow> [(''duration'', JStr (lib_DurationString (ct_go (sv_ctrl lib)) d))])
         @ (case ceRenewBefore c of None \<Rightarrow> [] | Some d \<Rightarrow> [(''renewBefore'', JStr (lib_DurationString (ct_go (sv_ctrl lib)) d))]))"

definition certificateObject :: "serverlib \<Rightarrow> ConversionWebhookServer \<Rightarrow> string \<Rightarrow> gerr + jobj" where
  "certificateObject lib server namespace =
     sv_SetControllerReference lib (cwName server) (cwUID server)
       [(''apiVersion'', JStr ''cert-manager.io/v1''), (''kind'', JStr ''Certificate''),
        (''metadata'', JObj [(''name'', JStr (cwsCertificateName (cwName server))), (''namespace'', JStr namespace)]),
        (''spec'', JObj (certificateSpec lib server namespace))]"

record ServicePortApply =
  spName :: string
  spPort :: int32
  spTargetPort :: intOrString

record ServiceApply =
  saName :: string
  saNamespace :: string
  saLabels :: "(string \<times> string) list"
  saAnnotations :: "(string \<times> string) list"
  saOwner :: OwnerRefApply
  saType :: string
  saSelector :: "(string \<times> string) list"
  saPorts :: "ServicePortApply list"

definition servicePort :: "ConversionWebhookServer \<Rightarrow> int32" where
  "servicePort server = (if svPort (cwService server) = 0 then 443 else svPort (cwService server))"

definition serviceObject :: "ConversionWebhookServer \<Rightarrow> string \<Rightarrow> ServiceApply" where
  "serviceObject server namespace =
     \<lparr>saName = cwsServiceName (cwName server), saNamespace = namespace, saLabels = podLabels (cwName server),
      saAnnotations = svAnnotations (cwService server), saOwner = ownerReferenceApplyConfiguration server,
      saType = orString (svType (cwService server)) ''ClusterIP'', saSelector = podLabels (cwName server),
      saPorts = [\<lparr>spName = ''conversion'', spPort = servicePort server, spTargetPort = IntVal webhookServerConversionPort\<rparr>,
                 \<lparr>spName = ''metrics'', spPort = webhookServerMetricsPort, spTargetPort = IntVal webhookServerMetricsPort\<rparr>]\<rparr>"

subsection \<open>The deployment\<close>

definition serverImage :: "serverReconciler \<Rightarrow> ImageSpec option \<Rightarrow> string" where
  "serverImage r spec =
     (let image = orString (srDefaultImage r) defaultWebhookServerImage in
      case spec of
        None \<Rightarrow> image
      | Some im \<Rightarrow>
          (if imRepository im = [] then image
           else if imDigest im \<noteq> [] then imRepository im @ ''@'' @ imDigest im
           else if imTag im \<noteq> [] then imRepository im @ '':'' @ imTag im
           else image))"

definition serverReplicas :: "ConversionWebhookServer \<Rightarrow> int32 option" where
  "serverReplicas server =
     (case cwAutoscaling server of
        Some _ \<Rightarrow> None
      | None \<Rightarrow> (case cwReplicas server of None \<Rightarrow> Some 2 | Some n \<Rightarrow> Some n))"

definition cacheSelectorArg :: "serverlib \<Rightarrow> LabelSelector option \<Rightarrow> gerr + string" where
  "cacheSelectorArg lib selector =
     (case selector of
        None \<Rightarrow> Inr []
      | Some sel \<Rightarrow>
          (if lsMatchLabels sel = [] \<and> lsMatchExpressions sel = [] then Inr []
           else (case sv_MarshalSelector lib sel of
                   Inl e \<Rightarrow> Inl (Fmt ''encoding cacheSelector: %w'' [e])
                 | Inr raw \<Rightarrow> Inr (''--cache-label-selector='' @ raw))))"

definition managedArgs :: "serverReconciler \<Rightarrow> string \<Rightarrow> string list" where
  "managedArgs r name =
     [''--webhook-server-name='' @ name,
      ''--tls-cert-dir=/tls'',
      ''--conversion-bind-address=:'' @ showInt (sint webhookServerConversionPort),
      ''--metrics-bind-address=:'' @ showInt (sint webhookServerMetricsPort),
      ''--enable-xrd-support='' @ showBool (srEnableXRDSupport r),
      ''--enable-crd-support='' @ showBool (srEnableCRDSupport r)]"

definition serverArgs :: "serverlib \<Rightarrow> serverReconciler \<Rightarrow> ConversionWebhookServer \<Rightarrow> gerr + string list" where
  "serverArgs lib r server =
     bindR (ValidateWebhookServerExtraArgs (soExtraArgs server)) (\<lambda>_.
     bindR (cacheSelectorArg lib (cwCacheSelector server)) (\<lambda>arg.
     Inr (managedArgs r (cwName server) @ (if arg \<noteq> [] then [arg] else []) @ soExtraArgs server)))"

datatype EnvApply = EnvFieldRef string string | EnvValue string string | EnvJSON jval
datatype MountApply = MountAt string string bool | MountJSON jval
datatype VolumeApply = SecretVolume string string | EmptyDirVolume string | VolumeJSON jval
datatype SpreadApply = SpreadOver int32 string string "(string \<times> string) list" | SpreadJSON jval

definition goMemLimitEnv :: string where "goMemLimitEnv = ''GOMEMLIMIT''"
definition goMemLimitFraction :: int64 where "goMemLimitFraction = 90"

definition webhookServerMemoryLimitBytes :: "serverlib \<Rightarrow> ConversionWebhookServer \<Rightarrow> int64 option" where
  "webhookServerMemoryLimitBytes lib server =
     (case map_of (cwLimits server) ''memory'' of
        None \<Rightarrow> None
      | Some limit \<Rightarrow>
          (let bytes = sv_QuantityValue lib limit in
           if sint bytes \<le> 0 then None
           else (let derived = word_of_int (sint bytes div 100) * goMemLimitFraction in if sint derived \<le> 0 then None else Some derived)))"

definition hasEnvVar :: "EnvVar list \<Rightarrow> string \<Rightarrow> bool" where
  "hasEnvVar env name \<longleftrightarrow> (\<exists>e\<in>set env. evName e = name)"

definition containerEnv :: "serverlib \<Rightarrow> ConversionWebhookServer \<Rightarrow> gerr + EnvApply list" where
  "containerEnv lib server =
     (let identity = [EnvFieldRef ''POD_NAME'' ''metadata.name'', EnvFieldRef ''POD_NAMESPACE'' ''metadata.namespace'', EnvFieldRef ''POD_UID'' ''metadata.uid''];
          limit = (case webhookServerMemoryLimitBytes lib server of
                     None \<Rightarrow> []
                   | Some n \<Rightarrow> (if hasEnvVar (cwExtraEnv server) goMemLimitEnv then [] else [EnvValue goMemLimitEnv (showInt (sint n))]))
      in bindR (eachViaJSON lib ''EnvVar'' ''extraEnv'' (map evJSON (cwExtraEnv server))) (\<lambda>extra.
         Inr (identity @ limit @ map EnvJSON extra)))"

record ProbeApply =
  pbPath :: string
  pbPort :: int32
  pbScheme :: string
  pbPeriodSeconds :: int32
  pbFailureThreshold :: int32

definition httpProbe :: "string \<Rightarrow> int32 \<Rightarrow> int32 \<Rightarrow> ProbeApply" where
  "httpProbe path period threshold =
     \<lparr>pbPath = path, pbPort = webhookServerMetricsPort, pbScheme = ''HTTP'', pbPeriodSeconds = period, pbFailureThreshold = threshold\<rparr>"

record SecurityApply =
  seRunAsNonRoot :: bool
  seAllowPrivilegeEscalation :: "bool option"
  seReadOnlyRootFilesystem :: "bool option"
  seDropCapabilities :: "string list"
  seSeccompProfile :: string

definition containerSec :: SecurityApply where
  "containerSec = \<lparr>seRunAsNonRoot = True, seAllowPrivilegeEscalation = Some False, seReadOnlyRootFilesystem = Some True,
     seDropCapabilities = [''ALL''], seSeccompProfile = ''RuntimeDefault''\<rparr>"

definition podSec :: SecurityApply where
  "podSec = \<lparr>seRunAsNonRoot = True, seAllowPrivilegeEscalation = None, seReadOnlyRootFilesystem = None,
     seDropCapabilities = [], seSeccompProfile = ''RuntimeDefault''\<rparr>"

record ContainerApply =
  knName :: string
  knImage :: string
  knPullPolicy :: "string option"
  knArgs :: "string list"
  knSecurityContext :: SecurityApply
  knPorts :: "(string \<times> int32) list"
  knVolumeMounts :: "MountApply list"
  knReadinessProbe :: ProbeApply
  knLivenessProbe :: ProbeApply
  knStartupProbe :: "ProbeApply option"
  knRequests :: "(string \<times> string) list"
  knLimits :: "(string \<times> string) list"
  knEnv :: "EnvApply list"
  knPreStopSleep :: "int64 option"

definition rolloutPreStopSeconds :: "RolloutSpec option \<Rightarrow> int32" where
  "rolloutPreStopSeconds rollout =
     (case rollout of None \<Rightarrow> DefaultPreStopSleepSeconds
      | Some ro \<Rightarrow> (case roPreStopSleepSeconds ro of None \<Rightarrow> DefaultPreStopSleepSeconds | Some s \<Rightarrow> s))"

definition rolloutGracePeriod :: "RolloutSpec option \<Rightarrow> int64" where
  "rolloutGracePeriod rollout =
     (case rollout of None \<Rightarrow> DefaultGracePeriodSeconds
      | Some ro \<Rightarrow> (case roTerminationGracePeriodSeconds ro of None \<Rightarrow> DefaultGracePeriodSeconds | Some s \<Rightarrow> s))"

definition rolloutDefaultSpread :: "RolloutSpec option \<Rightarrow> bool" where
  "rolloutDefaultSpread rollout =
     (case rollout of None \<Rightarrow> True | Some ro \<Rightarrow> (case roDefaultTopologySpread ro of None \<Rightarrow> True | Some b \<Rightarrow> b))"

definition defaultHostnameSpread :: "string \<Rightarrow> SpreadApply" where
  "defaultHostnameSpread serverName = SpreadOver 1 ''kubernetes.io/hostname'' ''ScheduleAnyway'' (podLabels serverName)"

text \<open>\<open>maxUnavailable\<close> and \<open>maxSurge\<close> of the rolling update.\<close>

definition rolloutStrategy :: "RolloutSpec option \<Rightarrow> intOrString \<times> intOrString" where
  "rolloutStrategy rollout =
     (case rollout of None \<Rightarrow> (IntVal 0, IntVal 1)
      | Some ro \<Rightarrow> (case roMaxUnavailable ro of None \<Rightarrow> IntVal 0 | Some v \<Rightarrow> v, case roMaxSurge ro of None \<Rightarrow> IntVal 1 | Some v \<Rightarrow> v))"

definition startupProbe :: "StartupProbeSpec option \<Rightarrow> ProbeApply option" where
  "startupProbe sp =
     (if StartupProbeEnabled sp then (case StartupProbeTiming sp of (period, threshold) \<Rightarrow> Some (httpProbe ''/readyz'' period threshold))
      else None)"

definition containerObject :: "serverlib \<Rightarrow> serverReconciler \<Rightarrow> ConversionWebhookServer \<Rightarrow> gerr + ContainerApply" where
  "containerObject lib r server =
     bindR (serverArgs lib r server) (\<lambda>args.
     bindR (containerEnv lib server) (\<lambda>env.
     bindR (eachViaJSON lib ''VolumeMount'' ''extraVolumeMounts'' (cwExtraVolumeMounts server)) (\<lambda>mounts.
     let pullPolicy = (case cwImage server of None \<Rightarrow> [] | Some im \<Rightarrow> imPullPolicy im);
         sleep = rolloutPreStopSeconds (soRollout server) in
     Inr \<lparr>knName = ''webhook-server'', knImage = serverImage r (cwImage server),
          knPullPolicy = (if pullPolicy = [] then None else Some pullPolicy), knArgs = args, knSecurityContext = containerSec,
          knPorts = [(''conversion'', webhookServerConversionPort), (''metrics'', webhookServerMetricsPort)],
          knVolumeMounts = [MountAt ''tls'' ''/tls'' True, MountAt ''tmp'' ''/tmp'' False] @ map MountJSON mounts,
          knReadinessProbe = httpProbe ''/readyz'' 5 3, knLivenessProbe = httpProbe ''/healthz'' 10 3,
          knStartupProbe = startupProbe (cwStartupProbe server),
          knRequests = cwRequests server, knLimits = cwLimits server, knEnv = env,
          knPreStopSleep = (if sint sleep > 0 then Some (scast sleep) else None)\<rparr>)))"

record PodSpecApply =
  psServiceAccountName :: string
  psSecurityContext :: SecurityApply
  psTerminationGracePeriodSeconds :: int64
  psContainer :: ContainerApply
  psVolumes :: "VolumeApply list"
  psNodeSelector :: "(string \<times> string) list"
  psPriorityClassName :: "string option"
  psTopologySpread :: "SpreadApply list"
  psTolerations :: "jval list"
  psAffinity :: "jval option"

definition convertAffinity :: "serverlib \<Rightarrow> jval option \<Rightarrow> gerr + jval option" where
  "convertAffinity lib affinity =
     (case affinity of
        None \<Rightarrow> Inr None
      | Some a \<Rightarrow> (case viaJSON lib ''Affinity'' a of Inl e \<Rightarrow> Inl (Fmt ''converting affinity: %w'' [e]) | Inr c \<Rightarrow> Inr (Some c)))"

definition podSpecObject :: "serverlib \<Rightarrow> serverReconciler \<Rightarrow> ConversionWebhookServer \<Rightarrow> gerr + PodSpecApply" where
  "podSpecObject lib r server =
     bindR (containerObject lib r server) (\<lambda>container.
     bindR (eachViaJSON lib ''Volume'' ''extraVolumes'' (cwExtraVolumes server)) (\<lambda>volumes.
     bindR (eachViaJSON lib ''TopologySpreadConstraint'' ''topologySpreadConstraints'' (cwTopologySpreadConstraints server)) (\<lambda>spread.
     bindR (eachViaJSON lib ''Toleration'' ''toleration'' (cwTolerations server)) (\<lambda>tolerations.
     bindR (convertAffinity lib (cwAffinity server)) (\<lambda>affinity.
     Inr \<lparr>psServiceAccountName = orString (cwServiceAccountName server) defaultServiceAccountName, psSecurityContext = podSec,
          psTerminationGracePeriodSeconds = rolloutGracePeriod (soRollout server), psContainer = container,
          psVolumes = [SecretVolume ''tls'' (cwsCertificateSecretName (cwName server)), EmptyDirVolume ''tmp''] @ map VolumeJSON volumes,
          psNodeSelector = cwNodeSelector server,
          psPriorityClassName = (if cwPriorityClassName server = [] then None else Some (cwPriorityClassName server)),
          psTopologySpread = map SpreadJSON spread
            @ (if cwTopologySpreadConstraints server = [] \<and> rolloutDefaultSpread (soRollout server) then [defaultHostnameSpread (cwName server)] else []),
          psTolerations = tolerations, psAffinity = affinity\<rparr>)))))"

record DeploymentApply =
  dpName :: string
  dpNamespace :: string
  dpLabels :: "(string \<times> string) list"
  dpOwner :: OwnerRefApply
  dpReplicas :: "int32 option"
  dpSelector :: "(string \<times> string) list"
  dpMaxUnavailable :: intOrString
  dpMaxSurge :: intOrString
  dpTemplateLabels :: "(string \<times> string) list"
  dpTemplateAnnotations :: "(string \<times> string) list"
  dpPodSpec :: PodSpecApply

definition deploymentObject :: "serverlib \<Rightarrow> serverReconciler \<Rightarrow> ConversionWebhookServer \<Rightarrow> string \<Rightarrow> gerr + DeploymentApply" where
  "deploymentObject lib r server namespace =
     bindR (podSpecObject lib r server) (\<lambda>pod.
     Inr \<lparr>dpName = cwsDeploymentName (cwName server), dpNamespace = namespace, dpLabels = podLabels (cwName server),
          dpOwner = ownerReferenceApplyConfiguration server, dpReplicas = serverReplicas server,
          dpSelector = podLabels (cwName server),
          dpMaxUnavailable = fst (rolloutStrategy (soRollout server)), dpMaxSurge = snd (rolloutStrategy (soRollout server)),
          dpTemplateLabels = templateLabels (cwName server) (cwPodLabels server), dpTemplateAnnotations = cwPodAnnotations server,
          dpPodSpec = pod\<rparr>)"

subsection \<open>Autoscaler and disruption budget\<close>

record HPAApply =
  hpName :: string
  hpNamespace :: string
  hpLabels :: "(string \<times> string) list"
  hpOwner :: OwnerRefApply
  hpTarget :: "string \<times> string \<times> string"
  hpMinReplicas :: int32
  hpMaxReplicas :: int32
  hpAverageUtilization :: int32

definition hpaObject :: "ConversionWebhookServer \<Rightarrow> string \<Rightarrow> HPAApply option" where
  "hpaObject server namespace =
     (case cwAutoscaling server of
        None \<Rightarrow> None
      | Some au \<Rightarrow>
          Some \<lparr>hpName = cwsHPAName (cwName server), hpNamespace = namespace, hpLabels = podLabels (cwName server),
            hpOwner = ownerReferenceApplyConfiguration server, hpTarget = (''apps/v1'', ''Deployment'', cwsDeploymentName (cwName server)),
            hpMinReplicas = auMinReplicas au, hpMaxReplicas = auMaxReplicas au,
            hpAverageUtilization = (if auTargetCPU au = 0 then 75 else auTargetCPU au)\<rparr>)"

record PDBApply =
  pbName :: string
  pbNamespace :: string
  pbLabels :: "(string \<times> string) list"
  pbOwner :: OwnerRefApply
  pbSelector :: "(string \<times> string) list"
  pbMinAvailable :: "intOrString option"
  pbMaxUnavailable :: "intOrString option"

definition pdbObject :: "ConversionWebhookServer \<Rightarrow> string \<Rightarrow> PDBApply option" where
  "pdbObject server namespace =
     (case cwPodDisruptionBudget server of
        None \<Rightarrow> None
      | Some pd \<Rightarrow>
          Some \<lparr>pbName = cwsPDBName (cwName server), pbNamespace = namespace, pbLabels = podLabels (cwName server),
            pbOwner = ownerReferenceApplyConfiguration server, pbSelector = podLabels (cwName server),
            pbMinAvailable = pdMinAvailable pd, pbMaxUnavailable = pdMaxUnavailable pd\<rparr>)"

end
