(* ===== verification/ServerController.thy ===== *)
theory ServerController
  imports ServerChildren
begin

text \<open>
  The controller of webhook servers (\<open>internal/controller/conversionwebhookserver_controller.go\<close>): the order
  in which it applies the children of a server, the status it derives from what it then reads, the
  guard on deletion, and the events it reconciles on. A reconcile is a function of the server and of what
  it reads; its result is the list of writes that succeeded and the time to requeue after or the error.
\<close>

datatype serverWrite =
    ApplyCertificate jobj | ApplyService ServiceApply | ApplyDeployment DeploymentApply
  | ApplyHPA HPAApply | DeleteHPA string string | ApplyPDB PDBApply | DeletePDB string string
  | PatchServerStatus serverStatus | AddServerFinalizer string | RemoveServerFinalizer string

record deploymentView =
  dvReplicas :: int
  dvReadyReplicas :: int
  dvConditions :: "(string \<times> string) list"

text \<open>\<open>swAnswer\<close> says how the API server answers a write; deleting what is not there counts as done.\<close>

record serverReads =
  swServers :: "gerr + WebhookServer list"
  swXRDConfigs :: "gerr + configObject list"
  swCRDConfigs :: "gerr + configObject list"
  swDeployment :: "gerr + deploymentView"
  swService :: "gerr option"
  swSecret :: "gerr + (string \<rightharpoonup> string)"
  swLeases :: leaseLister
  swAnswer :: "serverWrite \<Rightarrow> gerr option"
  swNow :: int

type_synonym serverOutcome = "serverWrite list \<times> (gerr + int)"

abbreviation ConversionWebhookServerFinalizer :: string where
  "ConversionWebhookServerFinalizer \<equiv> ''conversion.terasky.com/protect-in-use''"
abbreviation CWSConditionAvailable :: string where "CWSConditionAvailable \<equiv> ''Available''"
abbreviation CWSConditionCertificateReady :: string where "CWSConditionCertificateReady \<equiv> ''CertificateReady''"
abbreviation CWSConditionServiceReady :: string where "CWSConditionServiceReady \<equiv> ''ServiceReady''"
abbreviation CWSConditionDeletionBlocked :: string where "CWSConditionDeletionBlocked \<equiv> ''DeletionBlocked''"
abbreviation CWSConditionDefaultConflict :: string where "CWSConditionDefaultConflict \<equiv> ''DefaultConflict''"

definition setServerCondition :: "serverlib \<Rightarrow> int \<Rightarrow> string \<Rightarrow> string \<Rightarrow> string \<Rightarrow> msg \<Rightarrow> serverStatus \<Rightarrow> serverStatus" where
  "setServerCondition lib now t s reason m st =
     st\<lparr>ssConditions := cl_set (ct_cond (sv_ctrl lib)) now (ssConditions st) (newCondition t s reason m)\<rparr>"

definition removeServerCondition :: "serverlib \<Rightarrow> string \<Rightarrow> serverStatus \<Rightarrow> serverStatus" where
  "removeServerCondition lib t st = st\<lparr>ssConditions := cl_remove (ct_cond (sv_ctrl lib)) (ssConditions st) t\<rparr>"

definition reasonFor :: "bool \<Rightarrow> string \<Rightarrow> string \<Rightarrow> string" where
  "reasonFor b trueReason falseReason = (if b then trueReason else falseReason)"

subsection \<open>Applying the children\<close>

definition checkDefaultConflict :: "serverlib \<Rightarrow> serverReads \<Rightarrow> ConversionWebhookServer \<Rightarrow> gerr + serverStatus" where
  "checkDefaultConflict lib view server =
     (if \<not> wsDefault (soServer server) then Inr (removeServerCondition lib CWSConditionDefaultConflict (cwStatus server))
      else (case swServers view of
              Inl e \<Rightarrow> Inl e
            | Inr items \<Rightarrow>
                (let defaults = map wsName (filter wsDefault items) in
                 if length defaults > 1
                 then Inr (setServerCondition lib (swNow view) CWSConditionDefaultConflict ''True'' ''MultipleDefaults''
                        (Fmt ''multiple ConversionWebhookServer instances are marked default: %v; this must be resolved manually''
                           [Fmt ''%v'' (map MStr (sort defaults))]) (cwStatus server))
                 else Inr (removeServerCondition lib CWSConditionDefaultConflict (cwStatus server)))))"

definition applyChild :: "serverReads \<Rightarrow> string \<Rightarrow> gerr + serverWrite \<Rightarrow> gerr + serverWrite" where
  "applyChild view what built =
     (case (case built of Inl e \<Rightarrow> Inl e | Inr w \<Rightarrow> (case swAnswer view w of Some e \<Rightarrow> Inl e | None \<Rightarrow> Inr w)) of
        Inl e \<Rightarrow> Inl (Fmt (''reconciling '' @ what @ '': %w'') [e])
      | Inr w \<Rightarrow> Inr w)"

definition reconcileCertificate :: "serverlib \<Rightarrow> ConversionWebhookServer \<Rightarrow> string \<Rightarrow> gerr + serverWrite" where
  "reconcileCertificate lib server namespace = bindR (certificateObject lib server namespace) (\<lambda>cert. Inr (ApplyCertificate cert))"

definition reconcileService :: "ConversionWebhookServer \<Rightarrow> string \<Rightarrow> gerr + serverWrite" where
  "reconcileService server namespace = Inr (ApplyService (serviceObject server namespace))"

definition reconcileDeployment :: "serverlib \<Rightarrow> serverReconciler \<Rightarrow> ConversionWebhookServer \<Rightarrow> string \<Rightarrow> gerr + serverWrite" where
  "reconcileDeployment lib r server namespace = bindR (deploymentObject lib r server namespace) (\<lambda>dep. Inr (ApplyDeployment dep))"

definition reconcileHPA :: "ConversionWebhookServer \<Rightarrow> string \<Rightarrow> gerr + serverWrite" where
  "reconcileHPA server namespace =
     Inr (case hpaObject server namespace of None \<Rightarrow> DeleteHPA (cwsHPAName (cwName server)) namespace | Some hpa \<Rightarrow> ApplyHPA hpa)"

definition reconcilePDB :: "ConversionWebhookServer \<Rightarrow> string \<Rightarrow> gerr + serverWrite" where
  "reconcilePDB server namespace =
     Inr (case pdbObject server namespace of None \<Rightarrow> DeletePDB (cwsPDBName (cwName server)) namespace | Some pdb \<Rightarrow> ApplyPDB pdb)"

text \<open>The children in their order, up to the first that fails.\<close>

fun applyChildren :: "serverReads \<Rightarrow> (string \<times> (gerr + serverWrite)) list \<Rightarrow> serverWrite list \<times> gerr option" where
  "applyChildren view [] = ([], None)"
| "applyChildren view ((what, built) # rest) =
     (case applyChild view what built of
        Inl e \<Rightarrow> ([], Some e)
      | Inr w \<Rightarrow> (case applyChildren view rest of (ws, e) \<Rightarrow> (w # ws, e)))"

definition childSteps :: "serverlib \<Rightarrow> serverReconciler \<Rightarrow> ConversionWebhookServer \<Rightarrow> string \<Rightarrow> (string \<times> (gerr + serverWrite)) list" where
  "childSteps lib r server namespace =
     [(''certificate'', reconcileCertificate lib server namespace), (''service'', reconcileService server namespace),
      (''deployment'', reconcileDeployment lib r server namespace), (''HPA'', reconcileHPA server namespace),
      (''PDB'', reconcilePDB server namespace)]"

subsection \<open>The status\<close>

definition deploymentAvailable :: "deploymentView \<Rightarrow> bool" where
  "deploymentAvailable dep \<longleftrightarrow> (\<exists>c\<in>set (dvConditions dep). fst c = ''Available'' \<and> snd c = ''True'')"

definition availableMessage :: "bool \<Rightarrow> gerr option \<Rightarrow> msg" where
  "availableMessage available err =
     (if available then MStr ''deployment is Available''
      else (case err of None \<Rightarrow> MStr ''deployment is not yet Available'' | Some e \<Rightarrow> Fmt ''deployment lookup error: %v'' [e]))"

definition setAvailable :: "serverlib \<Rightarrow> serverReads \<Rightarrow> serverStatus \<Rightarrow> serverStatus" where
  "setAvailable lib view st =
     (let available = (case swDeployment view of Inl _ \<Rightarrow> False | Inr dep \<Rightarrow> deploymentAvailable dep);
          err = (case swDeployment view of Inl e \<Rightarrow> Some e | Inr _ \<Rightarrow> None);
          st' = (case swDeployment view of Inl _ \<Rightarrow> st | Inr dep \<Rightarrow> st\<lparr>ssReplicas := dvReplicas dep, ssReadyReplicas := dvReadyReplicas dep\<rparr>)
      in setServerCondition lib (swNow view) CWSConditionAvailable (boolStatus available)
           (reasonFor available ''DeploymentAvailable'' ''DeploymentNotAvailable'') (availableMessage available err) st')"

definition setServiceReady :: "serverlib \<Rightarrow> serverReads \<Rightarrow> ConversionWebhookServer \<Rightarrow> string \<Rightarrow> serverStatus \<Rightarrow> serverStatus" where
  "setServiceReady lib view server namespace st =
     (let ready = (swService view = None);
          st' = setServerCondition lib (swNow view) CWSConditionServiceReady (boolStatus ready) (reasonFor ready ''ServiceReady'' ''ServiceMissing'')
                  (Fmt ''service lookup error: %v'' [case swService view of None \<Rightarrow> MStr ''<nil>'' | Some e \<Rightarrow> e]) st
      in if ready
         then st'\<lparr>ssEndpoint := ''https://'' @ cwsServiceName (cwName server) @ ''.'' @ namespace @ ''.svc:'' @ showInt (sint (servicePort server))\<rparr>
         else st')"

definition certMessage :: "gerr option \<Rightarrow> bool \<Rightarrow> msg" where
  "certMessage err ready =
     (case err of
        Some e \<Rightarrow> Fmt ''certificate secret lookup error: %v'' [e]
      | None \<Rightarrow> MStr (if ready then ''certificate secret contains a TLS certificate'' else ''certificate secret does not yet contain a TLS certificate''))"

definition setCertificateReady :: "serverlib \<Rightarrow> serverReads \<Rightarrow> serverStatus \<Rightarrow> serverStatus" where
  "setCertificateReady lib view st =
     (let ready = (case swSecret view of Inl _ \<Rightarrow> False | Inr secretData \<Rightarrow> (case secretData ''tls.crt'' of None \<Rightarrow> False | Some v \<Rightarrow> v \<noteq> []));
          err = (case swSecret view of Inl e \<Rightarrow> Some e | Inr _ \<Rightarrow> None)
      in setServerCondition lib (swNow view) CWSConditionCertificateReady (boolStatus ready)
           (reasonFor ready ''CertificateReady'' ''CertificateNotReady'') (certMessage err ready) st)"

text \<open>A stored configuration as the assignment sees it, with the URL it was last applied with.\<close>

definition servedConfig :: "configObject \<Rightarrow> Config" where
  "servedConfig c = (assignConfig (coConfig c))\<lparr>cfgAppliedURL := stWebhookURL (coStatus c)\<rparr>"

definition assignedRef :: "configObject \<Rightarrow> AssignedConfigRef" where
  "assignedRef c = \<lparr>acrName = ccName (coConfig c), acrXRDName = targetName c, acrPhase = stPhase (coStatus c)\<rparr>"

text \<open>\<open>sort.Slice\<close> leaves the order of equal names open; the model keeps XRD configurations first.\<close>

definition assignedRefs :: "serverlib \<Rightarrow> configObject list \<Rightarrow> configObject list \<Rightarrow> WebhookServer list \<Rightarrow> string \<Rightarrow> AssignedConfigRef list" where
  "assignedRefs lib xrds crds servers name =
     sort_key acrName (map assignedRef (filter (\<lambda>c. IsAssignedTo (ct_log (sv_ctrl lib)) (servedConfig c) servers name) (xrds @ crds)))"

definition updateStatus :: "serverlib \<Rightarrow> serverReconciler \<Rightarrow> serverReads \<Rightarrow> ConversionWebhookServer \<Rightarrow> string \<Rightarrow> serverStatus \<Rightarrow> gerr + serverStatus" where
  "updateStatus lib r view server namespace st =
     (let st1 = setAvailable lib view (st\<lparr>ssObservedGeneration := cwGeneration server\<rparr>);
          st2 = setServiceReady lib view server namespace st1;
          st3 = setCertificateReady lib view st2 in
      case swXRDConfigs view of Inl e \<Rightarrow> Inl e | Inr xrds \<Rightarrow>
     (case swCRDConfigs view of Inl e \<Rightarrow> Inl e | Inr crds \<Rightarrow>
     (case swServers view of Inl e \<Rightarrow> Inl e | Inr servers \<Rightarrow>
     (case readServedTargets (ct_zip (sv_ctrl lib)) (swLeases view) (srDefaultNamespace r) (liveOf server) (swNow view) of
        Inl e \<Rightarrow> Inl e
      | Inr (servedNames, reporting, truncated) \<Rightarrow>
          Inr (st3\<lparr>ssAssignedConfigs := assignedRefs lib xrds crds servers (cwName server),
                   ssServedTargets := (if truncated then [] else servedNames), ssReportingReplicas := reporting\<rparr>)))))"

definition cwsReconcileNormal :: "serverlib \<Rightarrow> serverReconciler \<Rightarrow> serverReads \<Rightarrow> ConversionWebhookServer \<Rightarrow> serverOutcome" where
  "cwsReconcileNormal lib r view server =
     (let namespace = orString (cwNamespace server) (srDefaultNamespace r) in
      case checkDefaultConflict lib view server of
        Inl e \<Rightarrow> ([], Inl e)
      | Inr st \<Rightarrow>
          (case applyChildren view (childSteps lib r server namespace) of
             (writes, Some e) \<Rightarrow> (writes, Inl e)
           | (writes, None) \<Rightarrow>
               (case updateStatus lib r view server namespace st of
                  Inl e \<Rightarrow> (writes, Inl (Fmt ''updating status: %w'' [e]))
                | Inr st' \<Rightarrow>
                    (case swAnswer view (PatchServerStatus st') of
                       Some e \<Rightarrow> (writes, Inl (Fmt ''patching status: %w'' [e]))
                     | None \<Rightarrow> (writes @ [PatchServerStatus st'], Inr (300 * Handover.second))))))"

subsection \<open>Deletion\<close>

definition dependentNames :: "serverlib \<Rightarrow> configObject list \<Rightarrow> WebhookServer list \<Rightarrow> string \<Rightarrow> string list" where
  "dependentNames lib cfgs servers name =
     map (\<lambda>c. ccName (coConfig c)) (filter (\<lambda>c. ServedBy (ct_log (sv_ctrl lib)) (servedConfig c) servers name) cfgs)"

definition releaseServer :: "serverReads \<Rightarrow> ConversionWebhookServer \<Rightarrow> serverOutcome" where
  "releaseServer view server =
     (case swAnswer view (RemoveServerFinalizer ConversionWebhookServerFinalizer) of
        Some e \<Rightarrow> ([], Inl e) | None \<Rightarrow> ([RemoveServerFinalizer ConversionWebhookServerFinalizer], Inr 0))"

definition deletionBlockedMessage :: "ConversionWebhookServer \<Rightarrow> string list \<Rightarrow> msg" where
  "deletionBlockedMessage server names =
     Fmt ''%d config(s) still resolve to this instance, or still have their target pointed at it%s: %v. Reassign them or add annotation %q=true to force.''
       [MInt (int (length names)),
        MStr (if wsDefault (soServer server) then '' (this is the DEFAULT instance -- configs with no explicit webhookServerRef depend on it too)'' else []),
        Fmt ''%v'' (map MStr (sort names)), MStr ''conversion.terasky.com/allow-force-delete'']"

definition cwsReconcileDelete :: "serverlib \<Rightarrow> serverReads \<Rightarrow> ConversionWebhookServer \<Rightarrow> serverOutcome" where
  "cwsReconcileDelete lib view server =
     (if ConversionWebhookServerFinalizer \<notin> set (cwFinalizers server) then ([], Inr 0)
      else if soForceDelete server = ''true'' then releaseServer view server
      else (case swXRDConfigs view of Inl e \<Rightarrow> ([], Inl e) | Inr xrds \<Rightarrow>
           (case swCRDConfigs view of Inl e \<Rightarrow> ([], Inl e) | Inr crds \<Rightarrow>
           (case swServers view of Inl e \<Rightarrow> ([], Inl e) | Inr servers \<Rightarrow>
              (let names = dependentNames lib xrds servers (cwName server) @ dependentNames lib crds servers (cwName server) in
               if names = [] then releaseServer view server
               else (let st = setServerCondition lib (swNow view) CWSConditionDeletionBlocked ''True'' ''ConfigsStillAssigned''
                                (deletionBlockedMessage server names) (cwStatus server)
                     in case swAnswer view (PatchServerStatus st) of
                          Some e \<Rightarrow> ([], Inl e) | None \<Rightarrow> ([PatchServerStatus st], Inr (30 * Handover.second))))))))"

definition cwsReconcile :: "serverlib \<Rightarrow> serverReconciler \<Rightarrow> serverReads \<Rightarrow> ConversionWebhookServer reading \<Rightarrow> serverOutcome" where
  "cwsReconcile lib r view fetched =
     (case fetched of
        NotFound \<Rightarrow> ([], Inr 0)
      | ReadError e \<Rightarrow> ([], Inl e)
      | Found server \<Rightarrow>
          (if cwDeleting server then cwsReconcileDelete lib view server
           else if ConversionWebhookServerFinalizer \<in> set (cwFinalizers server) then cwsReconcileNormal lib r view server
           else (case swAnswer view (AddServerFinalizer ConversionWebhookServerFinalizer) of
                   Some e \<Rightarrow> ([], Inl (Fmt ''adding finalizer: %w'' [e]))
                 | None \<Rightarrow> (case cwsReconcileNormal lib r view server of
                              (writes, result) \<Rightarrow> (AddServerFinalizer ConversionWebhookServerFinalizer # writes, result)))))"

subsection \<open>Events\<close>

definition enqueueServerForLease :: "Lease \<Rightarrow> string list" where
  "enqueueServerForLease l =
     (case lsLabels l WebhookServerLabel of None \<Rightarrow> [] | Some name \<Rightarrow> (if name = [] then [] else [name]))"

definition servedTargetsChanged :: "Lease option \<Rightarrow> Lease option \<Rightarrow> bool" where
  "servedTargetsChanged old updated =
     (case (old, updated) of
        (Some l, Some l') \<Rightarrow> annotationOf l TargetsAnnotation \<noteq> annotationOf l' TargetsAnnotation
            \<or> annotationOf l TruncatedAnnotation \<noteq> annotationOf l' TruncatedAnnotation
      | _ \<Rightarrow> True)"

definition enqueueAllServers :: "gerr + WebhookServer list \<Rightarrow> string list" where
  "enqueueAllServers listed = (case listed of Inl _ \<Rightarrow> [] | Inr items \<Rightarrow> map wsName items)"

subsection \<open>What a reconcile applies\<close>

lemma applyChild_Inr: "applyChild view what built = Inr w \<longleftrightarrow> built = Inr w \<and> swAnswer view w = None"
  by (auto simp: applyChild_def split: sum.splits option.splits)

lemma applyChildren_built:
  "w \<in> set (fst (applyChildren view steps)) \<Longrightarrow> \<exists>what. (what, Inr w) \<in> set steps \<and> swAnswer view w = None"
  by (induction view steps rule: applyChildren.induct) (auto simp: applyChild_Inr split: sum.splits prod.splits)

lemma applyChildren_all:
  "applyChildren view steps = (writes, None) \<longleftrightarrow> map snd steps = map Inr writes \<and> (\<forall>w\<in>set writes. swAnswer view w = None)"
proof (induction steps arbitrary: writes)
  case (Cons s steps)
  obtain what built where s: "s = (what, built)" by fastforce
  show ?case
  proof (cases "applyChild view what built")
    case (Inl e)
    then have "\<not> (built = Inr w \<and> swAnswer view w = None)" for w using applyChild_Inr[of view what built w] by auto
    then show ?thesis using Inl s by (cases writes) auto
  next
    case (Inr w)
    obtain ws e where r: "applyChildren view steps = (ws, e)" by fastforce
    have "built = Inr w" "swAnswer view w = None" using Inr applyChild_Inr by metis+
    then show ?thesis using s Inr r Cons.IH[of "tl writes"] by (cases writes) auto
  qed
qed auto

lemma applyChild_same: "w \<in> set (fst (applyChildren view (childSteps lib r server namespace))) \<Longrightarrow>
   reconcileCertificate lib server namespace = Inr w \<or> reconcileService server namespace = Inr w
   \<or> reconcileDeployment lib r server namespace = Inr w \<or> reconcileHPA server namespace = Inr w \<or> reconcilePDB server namespace = Inr w"
  using applyChildren_built by (fastforce simp: childSteps_def)

lemma normal_deployment:
  assumes "ApplyDeployment d \<in> set (fst (cwsReconcileNormal lib r view server))"
  shows "deploymentObject lib r server (orString (cwNamespace server) (srDefaultNamespace r)) = Inr d"
proof -
  let ?ns = "orString (cwNamespace server) (srDefaultNamespace r)"
  have "ApplyDeployment d \<in> set (fst (applyChildren view (childSteps lib r server ?ns)))"
    using assms by (auto simp: cwsReconcileNormal_def Let_def split: sum.splits prod.splits option.splits)
  from applyChild_same[OF this] show ?thesis
    by (auto simp: reconcileCertificate_def reconcileService_def reconcileDeployment_def reconcileHPA_def reconcilePDB_def bindR_Inr_iff split: option.splits)
qed

lemma reconcile_deployment:
  assumes "ApplyDeployment d \<in> set (fst (cwsReconcile lib r view (Found server)))"
  shows "deploymentObject lib r server (orString (cwNamespace server) (srDefaultNamespace r)) = Inr d"
proof -
  have "ApplyDeployment d \<notin> set (fst (cwsReconcileDelete lib view server))"
    by (auto simp: cwsReconcileDelete_def releaseServer_def Let_def split: sum.splits option.splits)
  then have "ApplyDeployment d \<in> set (fst (cwsReconcileNormal lib r view server))"
    using assms by (auto simp: cwsReconcile_def split: if_splits option.splits prod.splits)
  then show ?thesis by (rule normal_deployment)
qed

text \<open>A reconcile that succeeds has applied every child, in order, and the status last.\<close>

lemma normal_writes:
  assumes "cwsReconcileNormal lib r view server = (writes, Inr wait)"
  shows "\<exists>cert dep st st'. certificateObject lib server (orString (cwNamespace server) (srDefaultNamespace r)) = Inr cert
    \<and> deploymentObject lib r server (orString (cwNamespace server) (srDefaultNamespace r)) = Inr dep
    \<and> checkDefaultConflict lib view server = Inr st
    \<and> updateStatus lib r view server (orString (cwNamespace server) (srDefaultNamespace r)) st = Inr st'
    \<and> writes = [ApplyCertificate cert, ApplyService (serviceObject server (orString (cwNamespace server) (srDefaultNamespace r))), ApplyDeployment dep,
        (case hpaObject server (orString (cwNamespace server) (srDefaultNamespace r)) of
           None \<Rightarrow> DeleteHPA (cwsHPAName (cwName server)) (orString (cwNamespace server) (srDefaultNamespace r)) | Some hpa \<Rightarrow> ApplyHPA hpa),
        (case pdbObject server (orString (cwNamespace server) (srDefaultNamespace r)) of
           None \<Rightarrow> DeletePDB (cwsPDBName (cwName server)) (orString (cwNamespace server) (srDefaultNamespace r)) | Some pdb \<Rightarrow> ApplyPDB pdb),
        PatchServerStatus st']"
proof -
  let ?ns = "orString (cwNamespace server) (srDefaultNamespace r)"
  obtain st where st: "checkDefaultConflict lib view server = Inr st" using assms by (auto simp: cwsReconcileNormal_def Let_def split: sum.splits)
  obtain ws where ws: "applyChildren view (childSteps lib r server ?ns) = (ws, None)"
    using assms st by (auto simp: cwsReconcileNormal_def Let_def split: prod.splits option.splits)
  obtain st' where st': "updateStatus lib r view server ?ns st = Inr st'" "writes = ws @ [PatchServerStatus st']"
    using assms st ws by (auto simp: cwsReconcileNormal_def Let_def split: sum.splits option.splits)
  have "map snd (childSteps lib r server ?ns) = map Inr ws" using ws applyChildren_all by metis
  then obtain a b c d e where w: "ws = [a, b, c, d, e]" "reconcileCertificate lib server ?ns = Inr a" "reconcileService server ?ns = Inr b"
    "reconcileDeployment lib r server ?ns = Inr c" "reconcileHPA server ?ns = Inr d" "reconcilePDB server ?ns = Inr e"
    by (auto simp: childSteps_def map_eq_Cons_conv Cons_eq_map_conv)
  then show ?thesis using st st' 
    by (auto simp: reconcileCertificate_def reconcileService_def reconcileDeployment_def reconcileHPA_def reconcilePDB_def bindR_Inr_iff)
qed

subsection \<open>Arguments of the container\<close>

definition flagArg :: "string \<times> string \<Rightarrow> string" where
  "flagArg nv = ''--'' @ fst nv @ ''='' @ snd nv"

definition flagName :: "string \<Rightarrow> bool" where
  "flagName n \<longleftrightarrow> CHR ''='' \<notin> set n \<and> n \<noteq> [] \<and> hd n \<noteq> CHR ''-''"

lemma goFlag_flagArg:
  assumes "flagName (fst nv)"
  shows "goFlag (flagArg nv) = Some (fst nv, Some (snd nv))"
proof -
  have n: "CHR ''='' \<notin> set (fst nv)" "fst nv \<noteq> []" "hd (fst nv) \<noteq> CHR ''-''" using assms by (auto simp: flagName_def)
  have "beforeEq (fst nv @ ''='' @ snd nv) = fst nv" "afterEq (fst nv @ ''='' @ snd nv) = snd nv"
    using n(1) by (auto simp: beforeEq_def afterEq_def takeWhile_append dropWhile_append)
  moreover have "hd (fst nv) \<noteq> CHR ''=''" using n(1,2) by (cases "fst nv") auto
  ultimately show ?thesis using n by (simp add: goFlag_def hasPrefix_def flagArg_def)
qed

lemma goParseFlags_flagArgs:
  "\<forall>nv\<in>set nvs. flagName (fst nv) \<Longrightarrow> goParseFlags isBool (map flagArg nvs @ rest) = nvs @ goParseFlags isBool rest"
  by (induction nvs) (simp_all add: goFlag_flagArg)

lemma extraArgs_assign_unmanaged:
  assumes "ValidateWebhookServerExtraArgs args = Inr ()" and "\<forall>a\<in>set args. hasPrefix a ''-'' \<longrightarrow> hasPrefix a ''--''"
    and "n \<in> set operatorManagedWebhookServerFlagNames"
  shows "map_of (rev (goParseFlags isBool args)) n = None"
proof -
  have "(n, v) \<notin> set (goParseFlags isBool args)" for v
  proof
    assume "(n, v) \<in> set (goParseFlags isBool args)"
    from goParseFlags_arg[OF this] obtain a w where a: "a \<in> set args" "goFlag a = Some (n, w)" by blast
    then have "hasPrefix a ''-''" by (intro goFlag_dash) auto
    then have "longFlagName a = Some n" using a assms(2) goFlag_longFlagName by blast
    then show False using extraArgs_unmanaged[OF assms(1) a(1)] assms(3) by blast
  qed
  then show ?thesis by (auto simp: map_of_eq_None_iff)
qed

definition selectorFlag :: "serverlib \<Rightarrow> LabelSelector option \<Rightarrow> string option" where
  "selectorFlag lib selector =
     (case selector of None \<Rightarrow> None
      | Some sel \<Rightarrow> (if lsMatchLabels sel = [] \<and> lsMatchExpressions sel = [] then None
                    else (case sv_MarshalSelector lib sel of Inl _ \<Rightarrow> None | Inr raw \<Rightarrow> Some raw)))"

definition managedFlags :: "serverlib \<Rightarrow> serverReconciler \<Rightarrow> ConversionWebhookServer \<Rightarrow> (string \<times> string) list" where
  "managedFlags lib r server =
     [(''webhook-server-name'', cwName server), (''tls-cert-dir'', ''/tls''),
      (''conversion-bind-address'', '':9443''), (''metrics-bind-address'', '':8443''),
      (''enable-xrd-support'', showBool (srEnableXRDSupport r)), (''enable-crd-support'', showBool (srEnableCRDSupport r))]
     @ (case selectorFlag lib (cwCacheSelector server) of None \<Rightarrow> [] | Some raw \<Rightarrow> [(''cache-label-selector'', raw)])"

lemma serverArgs_flags:
  assumes "serverArgs lib r server = Inr args"
  shows "args = map flagArg (managedFlags lib r server) @ soExtraArgs server"
    and "ValidateWebhookServerExtraArgs (soExtraArgs server) = Inr ()"
proof -
  obtain arg where arg: "cacheSelectorArg lib (cwCacheSelector server) = Inr arg"
    and args: "args = managedArgs r (cwName server) @ (if arg \<noteq> [] then [arg] else []) @ soExtraArgs server"
    using assms by (auto simp: serverArgs_def bindR_Inr_iff)
  have sel: "(if arg \<noteq> [] then [arg] else []) = (case selectorFlag lib (cwCacheSelector server) of None \<Rightarrow> [] | Some raw \<Rightarrow> [flagArg (''cache-label-selector'', raw)])"
    using arg by (auto simp: cacheSelectorArg_def selectorFlag_def flagArg_def split: option.splits if_splits sum.splits)
  have "showInt (sint webhookServerConversionPort) = ''9443''"
    by (simp add: webhookServerConversionPort_def showInt_def showNat.simps) code_simp
  moreover have "showInt (sint webhookServerMetricsPort) = ''8443''"
    by (simp add: webhookServerMetricsPort_def showInt_def showNat.simps) code_simp
  ultimately show "args = map flagArg (managedFlags lib r server) @ soExtraArgs server"
    unfolding args sel by (simp add: managedArgs_def managedFlags_def flagArg_def split: option.split)
  show "ValidateWebhookServerExtraArgs (soExtraArgs server) = Inr ()" using assms by (auto simp: serverArgs_def bindR_Inr_iff)
qed

lemma operatorManaged_flags: "distinct operatorManagedWebhookServerFlagNames" "\<forall>n\<in>set operatorManagedWebhookServerFlagNames. flagName n"
  by (code_simp, code_simp)

lemma managedFlags_names:
  "map fst (managedFlags lib r server) = (if selectorFlag lib (cwCacheSelector server) = None
     then butlast operatorManagedWebhookServerFlagNames else operatorManagedWebhookServerFlagNames)"
  by (auto simp: managedFlags_def operatorManagedWebhookServerFlagNames_def)

lemma managedFlags_wf: "distinct (map fst (managedFlags lib r server))" "\<forall>nv\<in>set (managedFlags lib r server). flagName (fst nv)"
proof -
  show "distinct (map fst (managedFlags lib r server))" unfolding managedFlags_names using operatorManaged_flags(1) distinct_butlast by auto
  have "set (map fst (managedFlags lib r server)) \<subseteq> set operatorManagedWebhookServerFlagNames"
    unfolding managedFlags_names by (auto dest: in_set_butlastD)
  then show "\<forall>nv\<in>set (managedFlags lib r server). flagName (fst nv)" using operatorManaged_flags(2) by auto
qed

lemma serverArgs_hold:
  assumes "serverArgs lib r server = Inr args" and "\<forall>a\<in>set (soExtraArgs server). hasPrefix a ''-'' \<longrightarrow> hasPrefix a ''--''"
    and "n \<in> set operatorManagedWebhookServerFlagNames"
  shows "map_of (rev (goParseFlags isBool args)) n = map_of (managedFlags lib r server) n"
proof -
  have "goParseFlags isBool args = managedFlags lib r server @ goParseFlags isBool (soExtraArgs server)"
    using serverArgs_flags(1)[OF assms(1)] goParseFlags_flagArgs[OF managedFlags_wf(2)] by simp
  moreover have "map_of (rev (managedFlags lib r server)) = map_of (managedFlags lib r server)"
    using managedFlags_wf(1)[of lib r server] by (subst map_of_inject_set) (simp_all flip: rev_map)
  ultimately show ?thesis
    using extraArgs_assign_unmanaged[OF serverArgs_flags(2)[OF assms(1)] assms(2,3)] by (simp add: map_add_def)
qed

lemma deploymentObject_args: "deploymentObject lib r server ns = Inr d \<Longrightarrow> serverArgs lib r server = Inr (knArgs (psContainer (dpPodSpec d)))"
  by (auto simp: deploymentObject_def podSpecObject_def containerObject_def Let_def bindR_Inr_iff)

lemma deploymentObject_shape:
  assumes "deploymentObject lib r server ns = Inr d"
  shows "dpName d = cwsDeploymentName (cwName server)" "dpNamespace d = ns" "dpSelector d = podLabels (cwName server)"
    "dpTemplateLabels d = templateLabels (cwName server) (cwPodLabels server)" "dpReplicas d = serverReplicas server"
    "psTerminationGracePeriodSeconds (dpPodSpec d) = rolloutGracePeriod (soRollout server)"
    "knPreStopSleep (psContainer (dpPodSpec d)) =
       (if sint (rolloutPreStopSeconds (soRollout server)) > 0 then Some (scast (rolloutPreStopSeconds (soRollout server))) else None)"
    "SecretVolume ''tls'' (cwsCertificateSecretName (cwName server)) \<in> set (psVolumes (dpPodSpec d))"
    "knPorts (psContainer (dpPodSpec d)) = [(''conversion'', webhookServerConversionPort), (''metrics'', webhookServerMetricsPort)]"
  using assms by (auto simp: deploymentObject_def podSpecObject_def containerObject_def Let_def bindR_Inr_iff)

subsection \<open>The time of a terminating replica\<close>

lemma rollout_as_admitted: "rolloutPreStopSeconds ro = preStopOf ro" "rolloutGracePeriod ro = graceOf ro"
  by (simp_all add: rolloutPreStopSeconds_def preStopOf_def rolloutGracePeriod_def graceOf_def split: option.split)

definition sleepSeconds :: "ContainerApply \<Rightarrow> int" where
  "sleepSeconds c = (case knPreStopSleep c of None \<Rightarrow> 0 | Some s \<Rightarrow> sint s)"

lemma sleepSeconds_rendered:
  assumes "deploymentObject lib r server ns = Inr d" and "0 \<le> sint (preStopOf (soRollout server))"
  shows "sleepSeconds (psContainer (dpPodSpec d)) = sint (preStopOf (soRollout server))"
proof -
  have "sint (scast p :: int64) = sint p" for p :: int32 by (rule sint_up_scast) (simp add: is_up)
  then show ?thesis using assms(2) by (simp add: sleepSeconds_def deploymentObject_shape(7)[OF assms(1)] rollout_as_admitted)
qed

text \<open>
  The shutdown timeout of the process: what \<open>flag.DurationVar\<close> of \<open>cmd/webhook-server/main.go\<close> is left
  with after \<open>flag.Parse\<close>, or its default, which is the constant the validation uses.
\<close>

definition shutdownInForce :: "golib \<Rightarrow> (string \<Rightarrow> bool) \<Rightarrow> string list \<Rightarrow> gerr + int64" where
  "shutdownInForce lib isBool args =
     (case map_of (rev (goParseFlags isBool args)) ''shutdown-timeout'' of
        None \<Rightarrow> Inr DefaultWebhookServerShutdownTimeout
      | Some raw \<Rightarrow> lib_ParseDuration lib raw)"

definition assignsFlag :: "string \<Rightarrow> bool" where
  "assignsFlag a \<longleftrightarrow> (\<exists>n v. flagName n \<and> a = ''--'' @ n @ ''='' @ v)"

lemma longFlagName_flagArg:
  assumes "flagName (fst nv)"
  shows "longFlagName (flagArg nv) = Some (fst nv)" and "afterEq (flagArg nv) = snd nv" and "CHR ''='' \<in> set (flagArg nv)"
proof -
  have n: "CHR ''='' \<notin> set (fst nv)" "fst nv \<noteq> []" using assms by (auto simp: flagName_def)
  show "longFlagName (flagArg nv) = Some (fst nv)"
    using goFlag_longFlagName[OF goFlag_flagArg[OF assms]] by (simp add: flagArg_def hasPrefix_def)
  show "afterEq (flagArg nv) = snd nv" "CHR ''='' \<in> set (flagArg nv)"
    using n(1) by (auto simp: afterEq_def flagArg_def dropWhile_append)
qed

lemma shutdownFrom_flagArgs:
  assumes "\<forall>nv\<in>set nvs. flagName (fst nv)" and "shutdownFrom lib eff (map flagArg nvs) = Inr d"
  shows "(case map_of (rev nvs) ''shutdown-timeout'' of None \<Rightarrow> Inr eff | Some raw \<Rightarrow> lib_ParseDuration lib raw) = Inr d
    \<and> (0 < sint eff \<longrightarrow> 0 < sint d)"
  using assms
proof (induction nvs arbitrary: eff)
  case (Cons nv nvs)
  have wf: "flagName (fst nv)" "\<forall>nv\<in>set nvs. flagName (fst nv)" using Cons.prems(1) by auto
  note arg = longFlagName_flagArg[OF wf(1)]
  show ?case
  proof (cases "fst nv = ''shutdown-timeout''")
    case True
    then obtain e where e: "lib_ParseDuration lib (snd nv) = Inr e" "0 < sint e" "shutdownFrom lib e (map flagArg nvs) = Inr d"
      using Cons.prems(2) arg by (auto simp: Let_def split: sum.splits if_splits)
    then show ?thesis using Cons.IH[OF wf(2) e(3)] True by (auto simp: map_add_def split: option.splits)
  next
    case False
    then have "shutdownFrom lib eff (map flagArg nvs) = Inr d" using Cons.prems(2) arg by (simp add: skipValue_eq)
    then show ?thesis using Cons.IH[OF wf(2)] False by (auto simp: map_add_def split: option.splits)
  qed
qed simp

lemma shutdown_as_validated:
  assumes "serverArgs lib r server = Inr args" and "\<forall>a\<in>set (soExtraArgs server). assignsFlag a"
    and "shutdownTimeoutFromArgs golib (soExtraArgs server) = Inr d"
  shows "shutdownInForce golib isBool args = Inr d" and "0 < sint d"
proof -
  have "\<exists>nv. flagName (fst nv) \<and> a = flagArg nv" if a: "a \<in> set (soExtraArgs server)" for a
  proof -
    obtain n v where "flagName n" "a = ''--'' @ n @ ''='' @ v"
      using bspec[OF assms(2) a] unfolding assignsFlag_def by blast
    then show ?thesis by (intro exI[of _ "(n, v)"]) (simp add: flagArg_def)
  qed
  then obtain f where f: "\<forall>a\<in>set (soExtraArgs server). flagName (fst (f a)) \<and> a = flagArg (f a)" by metis
  define nvs where "nvs = map f (soExtraArgs server)"
  have nvs: "soExtraArgs server = map flagArg nvs" "\<forall>nv\<in>set nvs. flagName (fst nv)"
  proof -
    have "map (\<lambda>a. flagArg (f a)) (soExtraArgs server) = soExtraArgs server" by (rule map_idI) (use f in metis)
    then show "soExtraArgs server = map flagArg nvs" by (simp add: nvs_def comp_def)
    show "\<forall>nv\<in>set nvs. flagName (fst nv)" using f by (auto simp: nvs_def)
  qed
  have "0 < sint DefaultWebhookServerShutdownTimeout" by (simp add: DefaultWebhookServerShutdownTimeout_def Fleet.second_def)
  then show "0 < sint d" using shutdownFrom_flagArgs[OF nvs(2)] assms(3) nvs(1) by (simp add: shutdownTimeoutFromArgs_def)
  have "''shutdown-timeout'' \<notin> set (map fst (managedFlags lib r server))"
    unfolding managedFlags_names by (auto simp: operatorManagedWebhookServerFlagNames_def)
  then have "map_of (rev (managedFlags lib r server)) ''shutdown-timeout'' = None" by (simp add: map_of_eq_None_iff)
  moreover have "goParseFlags isBool args = managedFlags lib r server @ nvs"
    using serverArgs_flags(1)[OF assms(1)] goParseFlags_flagArgs[OF managedFlags_wf(2), of isBool] goParseFlags_flagArgs[OF nvs(2), of isBool "[]"] nvs(1) by simp
  ultimately have "map_of (rev (goParseFlags isBool args)) ''shutdown-timeout'' = map_of (rev nvs) ''shutdown-timeout''"
    by (simp add: map_add_def split: option.split)
  then show "shutdownInForce golib isBool args = Inr d"
    using shutdownFrom_flagArgs[OF nvs(2)] assms(3) nvs(1) by (simp add: shutdownTimeoutFromArgs_def shutdownInForce_def)
qed

subsection \<open>Labels\<close>

lemma addLabel_keeps: "map_of out k = Some v \<Longrightarrow> map_of (addLabel kv out) k = Some v"
  by (metis addLabel_def domI dom_map_of_conv_image_fst fun_upd_apply list.set_map update_conv')

lemma templateLabels_selected: "map_of (podLabels n) k = Some v \<Longrightarrow> map_of (templateLabels n extra) k = Some v"
  unfolding templateLabels_def
proof (induction extra arbitrary: n rule: rev_induct)
  case (snoc kv extra)
  then show ?case by (simp add: addLabel_keeps)
qed simp

subsection \<open>The memory limit\<close>

lemma memory_limit_bounds:
  assumes "webhookServerMemoryLimitBytes lib server = Some n" and "map_of (cwLimits server) ''memory'' = Some limit"
  shows "0 < sint n" and "sint n = 90 * (sint (sv_QuantityValue lib limit) div 100)"
proof -
  let ?b = "sint (sv_QuantityValue lib limit)"
  have b: "0 < ?b" and n: "n = word_of_int (?b div 100) * 90" and pos: "0 < sint n"
    using assms by (auto simp: webhookServerMemoryLimitBytes_def goMemLimitFraction_def Let_def split: if_splits)
  have small: "?b < 2 ^ 63" using sint_range_size[of "sv_QuantityValue lib limit"] by (simp add: word_size)
  have "signed_take_bit 63 (?b div 100) = ?b div 100"
    by (rule signed_take_bit_int_eq_self) (use b small in auto)
  then have "sint n = signed_take_bit 63 (90 * (?b div 100))"
    unfolding n by (simp add: sint_word_ariths sint_sbintrunc' mult.commute)
  also have "\<dots> = 90 * (?b div 100)"
    by (rule signed_take_bit_int_eq_self) (use b small in auto)
  finally show "sint n = 90 * (?b div 100)" .
  show "0 < sint n" by (rule pos)
qed

subsection \<open>Readiness\<close>

definition serverTrue :: "serverlib \<Rightarrow> serverStatus \<Rightarrow> string \<Rightarrow> bool" where
  "serverTrue lib st t = isConditionTrue (ct_cond (sv_ctrl lib)) (ssConditions st) t"

lemma serverTrue_set:
  assumes "condLaws (ct_cond (sv_ctrl lib))"
  shows "serverTrue lib (setServerCondition lib now t s reason m st) t' \<longleftrightarrow> (if t' = t then s = ''True'' else serverTrue lib st t')"
  using assms by (simp add: serverTrue_def isConditionTrue_def setServerCondition_def condLaws_def stamped_def)

lemma serverTrue_update [simp]:
  "serverTrue lib (st\<lparr>ssEndpoint := e\<rparr>) t = serverTrue lib st t" "serverTrue lib (st\<lparr>ssReplicas := a\<rparr>) t = serverTrue lib st t"
  "serverTrue lib (st\<lparr>ssReadyReplicas := b\<rparr>) t = serverTrue lib st t" "serverTrue lib (st\<lparr>ssObservedGeneration := g\<rparr>) t = serverTrue lib st t"
  "serverTrue lib (st\<lparr>ssAssignedConfigs := x\<rparr>) t = serverTrue lib st t" "serverTrue lib (st\<lparr>ssServedTargets := y\<rparr>) t = serverTrue lib st t"
  "serverTrue lib (st\<lparr>ssReportingReplicas := z\<rparr>) t = serverTrue lib st t"
  by (simp_all add: serverTrue_def)

lemma boolStatus_True [simp]: "boolStatus b = ''True'' \<longleftrightarrow> b"
  by (simp add: boolStatus_def)

lemma updateStatus_conditions:
  assumes "condLaws (ct_cond (sv_ctrl lib))" and "updateStatus lib r view server ns st = Inr st'"
  shows "serverTrue lib st' CWSConditionAvailable \<longleftrightarrow> (\<exists>dep. swDeployment view = Inr dep \<and> deploymentAvailable dep)"
    and "serverTrue lib st' CWSConditionServiceReady \<longleftrightarrow> swService view = None"
    and "serverTrue lib st' CWSConditionCertificateReady \<longleftrightarrow> (\<exists>d v. swSecret view = Inr d \<and> d ''tls.crt'' = Some v \<and> v \<noteq> [])"
    and "swDeployment view = Inr dep \<Longrightarrow> ssReadyReplicas st' = dvReadyReplicas dep"
proof -
  obtain xs ys z where st': "st' = (setCertificateReady lib view (setServiceReady lib view server ns
      (setAvailable lib view (st\<lparr>ssObservedGeneration := cwGeneration server\<rparr>))))\<lparr>ssAssignedConfigs := xs, ssServedTargets := ys, ssReportingReplicas := z\<rparr>"
    using assms(2) by (auto simp: updateStatus_def Let_def split: sum.splits prod.splits)
  note defs = st' setCertificateReady_def setServiceReady_def setAvailable_def Let_def serverTrue_set[OF assms(1)]
  show "serverTrue lib st' CWSConditionAvailable \<longleftrightarrow> (\<exists>dep. swDeployment view = Inr dep \<and> deploymentAvailable dep)"
    by (simp add: defs split: sum.split)
  show "serverTrue lib st' CWSConditionServiceReady \<longleftrightarrow> swService view = None" by (simp add: defs)
  show "serverTrue lib st' CWSConditionCertificateReady \<longleftrightarrow> (\<exists>d v. swSecret view = Inr d \<and> d ''tls.crt'' = Some v \<and> v \<noteq> [])"
    by (simp add: defs split: sum.split option.split)
  show "swDeployment view = Inr dep \<Longrightarrow> ssReadyReplicas st' = dvReadyReplicas dep"
    by (simp add: defs setServerCondition_def)
qed

lemma updateStatus_ready:
  assumes "condLaws (ct_cond (sv_ctrl lib))" and "updateStatus lib r view server ns st = Inr st'"
  shows "isServerReady (sv_ctrl lib) (liveOf (server\<lparr>cwStatus := st'\<rparr>)) \<longleftrightarrow>
    (\<exists>dep d v. swDeployment view = Inr dep \<and> deploymentAvailable dep \<and> dvReadyReplicas dep \<noteq> 0 \<and> swService view = None
       \<and> swSecret view = Inr d \<and> d ''tls.crt'' = Some v \<and> v \<noteq> [])"
proof -
  have "isServerReady (sv_ctrl lib) (liveOf (server\<lparr>cwStatus := st'\<rparr>)) \<longleftrightarrow> ssReadyReplicas st' \<noteq> 0
     \<and> serverTrue lib st' CWSConditionAvailable \<and> serverTrue lib st' CWSConditionCertificateReady \<and> serverTrue lib st' CWSConditionServiceReady"
    by (auto simp: isServerReady_def liveOf_def serverTrue_def)
  then show ?thesis using updateStatus_conditions[OF assms] by auto
qed

subsection \<open>Deletion and events\<close>

definition namedConfigs :: "gerr + configObject list \<Rightarrow> gerr + (string \<times> Config) list" where
  "namedConfigs listed = (case listed of Inl e \<Rightarrow> Inl e | Inr items \<Rightarrow> Inr (map (\<lambda>c. (ccName (coConfig c), servedConfig c)) items))"

lemma dependentNames_alt:
  "dependentNames lib cfgs servers name =
     map fst (filter (\<lambda>nc. ServedBy (ct_log (sv_ctrl lib)) (snd nc) servers name) (map (\<lambda>c. (ccName (coConfig c), servedConfig c)) cfgs))"
  by (simp add: dependentNames_def filter_map comp_def)

lemma release_as_admitted:
  "RemoveServerFinalizer f \<in> set (fst (cwsReconcileDelete lib view server)) \<longleftrightarrow>
     f = ConversionWebhookServerFinalizer \<and> f \<in> set (cwFinalizers server) \<and> swAnswer view (RemoveServerFinalizer f) = None
     \<and> validateServerDelete (ct_log (sv_ctrl lib)) (namedConfigs (swXRDConfigs view)) (namedConfigs (swCRDConfigs view)) (swServers view)
          (ServerObject.truncate server) = Inr ()"
  by (auto simp: cwsReconcileDelete_def releaseServer_def validateServerDelete_def namedConfigs_def dependentNames_alt Let_def
        ServerObject.truncate_def split: sum.splits option.splits if_splits)

lemma aggregateLease_cong:
  assumes "\<not> servedTargetsChanged (Some l) (Some l')" and "isLive now l = isLive now l'"
  shows "aggregateLease z now l = aggregateLease z now l'"
  using assms by (auto simp: fun_eq_iff aggregateLease_def servedTargetsChanged_def Let_def)

lemma heartbeats_change_nothing:
  assumes "\<not> servedTargetsChanged (Some l) (Some l')" and "isLive now l = isLive now l'"
  shows "Aggregate z (ls @ l # ls') now = Aggregate z (ls @ l' # ls') now"
  using aggregateLease_cong[OF assms] by (simp add: Aggregate_def)

end
