(* ===== verification/MigrateStorage.thy ===== *)
theory MigrateStorage
  imports Propagation
begin

text \<open>
  Migration of stored objects (\<open>internal/cli/migratestorage.go\<close>, \<open>live.go\<close>): every instance of a target is
  written with an identity-only patch, so that it is stored at the current storage version, and then the
  other stored versions can be dropped from the CRDs. The cluster is a record of answers
  (\<open>migrateCluster\<close>); a run results in the writes that were sent and accepted, in order, and the report or
  the error. Listing follows continue tokens and may not end, so a run is an option. The pool of workers
  is a step relation; the tables written to the terminal and the progress line are left out. The text of an
  error is never empty, so an entry without an error is one that succeeded.
\<close>

subsection \<open>Options, targets and reports\<close>

record MigrateStorageOptions =
  moXRDName :: string
  moCRDName :: string
  moNamespace :: string
  moDryRun :: bool
  moConcurrency :: int
  moFieldManager :: string
  moPruneStoredVersions :: bool

definition defaultMigrateFieldManager :: string where "defaultMigrateFieldManager = ''convctl''"

definition fieldManager :: "MigrateStorageOptions \<Rightarrow> string" where
  "fieldManager opts = (if moFieldManager opts = [] then defaultMigrateFieldManager else moFieldManager opts)"

definition effectiveConcurrency :: "MigrateStorageOptions \<Rightarrow> int \<Rightarrow> int" where
  "effectiveConcurrency opts n =
     (let c = moConcurrency opts;
          c = (if c \<le> 0 then 1 else c);
          c = (if c > n then n else c)
      in if c < 1 then 1 else c)"

record MigrateObjectResult =
  mrNamespace :: string
  mrName :: string
  mrError :: "gerr option"
  mrCRD :: string

record MigrateCRDReport =
  mcCRD :: string
  mcRole :: string
  mcKind :: string
  mcPlural :: string
  mcNamespaced :: bool
  mcStorageVersion :: string
  mcStoredVersions :: "string list"
  mcObjects :: "MigrateObjectResult list"
  mcSucceeded :: nat
  mcFailed :: nat
  mcPruned :: bool
  mcPruneError :: "gerr option"

record MigrateStorageReport =
  msResourceKind :: string
  msResource :: string
  msCRD :: string
  msGroup :: string
  msKind :: string
  msPlural :: string
  msStorageVersion :: string
  msStoredVersions :: "string list"
  msNamespaced :: bool
  msDryRun :: bool
  msFieldManager :: string
  msObjects :: "MigrateObjectResult list"
  msSucceeded :: nat
  msFailed :: nat
  msPruned :: bool
  msPruneError :: "gerr option"
  msWarnings :: "msg list"
  msCRDs :: "MigrateCRDReport list"

definition HasFailures :: "MigrateStorageReport \<Rightarrow> bool" where
  "HasFailures r = (if msFailed r > 0 \<or> msPruneError r \<noteq> None then True
     else list_ex (\<lambda>c. mcFailed c > 0 \<or> mcPruneError c \<noteq> None) (msCRDs r))"

record migrateTarget =
  mtResourceKind :: string
  mtResource :: string
  mtCRDName :: string
  mtRole :: string
  mtGroup :: string
  mtKind :: string
  mtPlural :: string
  mtStorageVersion :: string
  mtStoredVersions :: "string list"
  mtNamespaced :: bool

text \<open>The fields of a CRD that the conversion patches do not read.\<close>

record migratedCRD = CustomResourceDefinition +
  mgGroup :: string
  mgPlural :: string
  mgKind :: string
  mgScope :: string
  mgStoredVersions :: "string list"

record GroupVersionResource =
  gvrGroup :: string
  gvrVersion :: string
  gvrResource :: string

text \<open>An accepted write: an apply (with its field manager and whether it is a dry run) or a status update.\<close>

datatype migrateWrite =
    ApplyIdentity GroupVersionResource string string jobj string bool
  | UpdateStoredVersions string jobj

record migrateCluster =
  mkK8s :: k8slib
  mkXRD :: "string \<Rightarrow> gerr + jobj"
  mkCRD :: "string \<Rightarrow> gerr + migratedCRD"
  mkPage :: "GroupVersionResource \<Rightarrow> string \<Rightarrow> string \<Rightarrow> gerr + (jobj list \<times> string)"
  mkApply :: "GroupVersionResource \<Rightarrow> string \<Rightarrow> string \<Rightarrow> jobj \<Rightarrow> gerr option"
  mkCRDObject :: "string \<Rightarrow> gerr + jobj"
  mkSetStored :: "jobj \<Rightarrow> string list \<Rightarrow> gerr + jobj"
  mkUpdateStatus :: "jobj \<Rightarrow> gerr option"

subsection \<open>Resolving the targets\<close>

definition crdStorageVersion :: "migratedCRD \<Rightarrow> gerr + string" where
  "crdStorageVersion crd =
     (case map cvName (filter cvStorage (crdVersions crd)) of
        [v] \<Rightarrow> Inr v
      | [] \<Rightarrow> Inl (Fmt ''crd %q has no storage version'' [MStr (crdName crd)])
      | vs \<Rightarrow> Inl (Fmt ''crd %q has multiple storage versions: %s'' [MStr (crdName crd), MStr (joinStr vs '', '')]))"

text \<open>The name of one version block where it is referenceable.\<close>

definition referenceableName :: "k8slib \<Rightarrow> string \<Rightarrow> nat \<Rightarrow> jval \<Rightarrow> gerr + string option" where
  "referenceableName k xrdName i raw =
     (case raw of
        JObj vm \<Rightarrow>
          (case k8_NestedBool k vm [''referenceable''] of
             Inl e \<Rightarrow> Inl (Fmt ''xrd %q spec.versions[%d].referenceable: %w'' [MStr xrdName, MInt (int i), e])
           | Inr r \<Rightarrow>
               (if r \<noteq> Some True then Inr None
                else (case k8_NestedString k vm [''name''] of
                        Inr (Some n) \<Rightarrow> (if n = [] then Inl (Fmt ''xrd %q spec.versions[%d] is referenceable but missing name'' [MStr xrdName, MInt (int i)]) else Inr (Some n))
                      | _ \<Rightarrow> Inl (Fmt ''xrd %q spec.versions[%d] is referenceable but missing name'' [MStr xrdName, MInt (int i)]))))
      | _ \<Rightarrow> Inl (Fmt ''xrd %q spec.versions[%d] is not an object'' [MStr xrdName, MInt (int i)]))"

fun referenceableNames :: "k8slib \<Rightarrow> string \<Rightarrow> nat \<Rightarrow> jval list \<Rightarrow> gerr + string list" where
  "referenceableNames k xrdName i [] = Inr []"
| "referenceableNames k xrdName i (raw # rest) =
     bindR (referenceableName k xrdName i raw) (\<lambda>n.
     bindR (referenceableNames k xrdName (Suc i) rest) (\<lambda>ns.
     Inr (case n of None \<Rightarrow> ns | Some v \<Rightarrow> v # ns)))"

definition xrdReferenceableVersion :: "k8slib \<Rightarrow> jobj \<Rightarrow> gerr + string" where
  "xrdReferenceableVersion k xrd =
     (let name = k8_GetName k xrd in
      case k8_NestedSlice k xrd [''spec'', ''versions''] of
        Inl e \<Rightarrow> Inl (Fmt ''xrd %q spec.versions: %w'' [MStr name, e])
      | Inr None \<Rightarrow> Inl (Fmt ''xrd %q has no spec.versions'' [MStr name])
      | Inr (Some versions) \<Rightarrow>
          bindR (referenceableNames k name 0 versions) (\<lambda>refs.
          case refs of
            [v] \<Rightarrow> Inr v
          | [] \<Rightarrow> Inl (Fmt ''xrd %q has no referenceable version'' [MStr name])
          | vs \<Rightarrow> Inl (Fmt ''xrd %q has multiple referenceable versions: %s'' [MStr name, MStr (joinStr vs '', '')])))"

definition targetFromCRD :: "string \<Rightarrow> string \<Rightarrow> migratedCRD \<Rightarrow> gerr + migrateTarget" where
  "targetFromCRD resourceKind resourceName crd =
     (if mgGroup crd = [] then Inl (Fmt ''crd %q is missing spec.group'' [MStr (crdName crd)])
      else if mgPlural crd = [] then Inl (Fmt ''crd %q is missing spec.names.plural'' [MStr (crdName crd)])
      else if mgKind crd = [] then Inl (Fmt ''crd %q is missing spec.names.kind'' [MStr (crdName crd)])
      else bindR (crdStorageVersion crd) (\<lambda>storage.
        Inr \<lparr>mtResourceKind = resourceKind, mtResource = resourceName, mtCRDName = crdName crd, mtRole = [],
             mtGroup = mgGroup crd, mtKind = mgKind crd, mtPlural = mgPlural crd, mtStorageVersion = storage,
             mtStoredVersions = mgStoredVersions crd, mtNamespaced = (mgScope crd = ''Namespaced'')\<rparr>))"

definition generatedTarget :: "migrateCluster \<Rightarrow> string \<Rightarrow> string \<Rightarrow> GeneratedCRD \<Rightarrow> gerr + (migrateTarget \<times> msg list)" where
  "generatedTarget c xrdName refVersion g =
     (case mkCRD c (gcName g) of
        Inl e \<Rightarrow> Inl (Fmt ''getting generated %s CRD %q for XRD %q: %w'' [MStr (gcRole g), MStr (gcName g), MStr xrdName, e])
      | Inr crd \<Rightarrow>
          bindR (crdStorageVersion crd) (\<lambda>storage.
          Inr (\<lparr>mtResourceKind = ''XRD'', mtResource = xrdName, mtCRDName = gcName g, mtRole = gcRole g, mtGroup = gcGroup g,
                 mtKind = gcKind g, mtPlural = gcPlural g, mtStorageVersion = storage, mtStoredVersions = mgStoredVersions crd,
                 mtNamespaced = (mgScope crd = ''Namespaced'')\<rparr>,
               if refVersion \<noteq> storage
               then [Fmt ''XRD %q referenceable version %q differs from generated CRD %q storage version %q; using the CRD (that is what etcd stores)''
                       [MStr xrdName, MStr refVersion, MStr (gcName g), MStr storage]]
               else [])))"

definition resolveMigrateTargets :: "migrateCluster \<Rightarrow> MigrateStorageOptions \<Rightarrow> gerr + (migrateTarget list \<times> msg list)" where
  "resolveMigrateTargets c opts =
     (if moCRDName opts \<noteq> []
      then bindR (mkCRD c (moCRDName opts)) (\<lambda>crd.
           bindR (targetFromCRD ''CRD'' (crdName crd) crd) (\<lambda>t.
           Inr ([t\<lparr>mtRole := RoleComposite\<rparr>], [])))
      else bindR (mkXRD c (moXRDName opts)) (\<lambda>xrd.
           bindR (GeneratedCRDNames (mkK8s c) (Some xrd)) (\<lambda>generated.
           bindR (xrdReferenceableVersion (mkK8s c) xrd) (\<lambda>refVersion.
           bindR (mapR (generatedTarget c (k8_GetName (mkK8s c) xrd) refVersion) generated) (\<lambda>found.
           Inr (map fst found, concat (map snd found)))))))"

subsection \<open>Listing\<close>

partial_function (option) listFrom :: "migrateCluster \<Rightarrow> GroupVersionResource \<Rightarrow> string \<Rightarrow> string \<Rightarrow> jobj list \<Rightarrow> (gerr + jobj list) option" where
  "listFrom c gvr namespace token acc =
     (case mkPage c gvr namespace token of
        Inl e \<Rightarrow> Some (Inl e)
      | Inr (page, next_token) \<Rightarrow>
          (if next_token = [] then Some (Inr (acc @ page)) else listFrom c gvr namespace next_token (acc @ page)))"

definition listAllByGVR :: "migrateCluster \<Rightarrow> GroupVersionResource \<Rightarrow> string \<Rightarrow> (gerr + jobj list) option" where
  "listAllByGVR c gvr namespace = listFrom c gvr namespace [] []"

subsection \<open>Rewriting the objects\<close>

definition migrateEmptyPatch :: "string \<Rightarrow> string \<Rightarrow> string \<Rightarrow> string \<Rightarrow> string \<Rightarrow> jobj" where
  "migrateEmptyPatch grp version kind name namespace =
     [(''apiVersion'', JStr (if grp = [] then version else grp @ ''/'' @ version)), (''kind'', JStr kind),
      (''metadata'', JObj ((''name'', JStr name) # (if namespace = [] then [] else [(''namespace'', JStr namespace)])))]"

definition itemNamespace :: "k8slib \<Rightarrow> jobj \<Rightarrow> string" where
  "itemNamespace k item = stringOr (k8_NestedString k item [''metadata'', ''namespace''])"

definition targetGVR :: "migrateTarget \<Rightarrow> GroupVersionResource" where
  "targetGVR t = \<lparr>gvrGroup = mtGroup t, gvrVersion = mtStorageVersion t, gvrResource = mtPlural t\<rparr>"

text \<open>The result for one object, and the write it made.\<close>

definition migrateOne :: "migrateCluster \<Rightarrow> MigrateStorageOptions \<Rightarrow> migrateTarget \<Rightarrow> jobj \<Rightarrow> MigrateObjectResult \<times> migrateWrite list" where
  "migrateOne c opts target item =
     (let name = k8_GetName (mkK8s c) item; ns = itemNamespace (mkK8s c) item;
          res = \<lparr>mrNamespace = ns, mrName = name, mrError = None, mrCRD = []\<rparr> in
      if mtNamespaced target \<and> ns = [] then (res\<lparr>mrError := Some (MStr ''namespaced object is missing metadata.namespace'')\<rparr>, [])
      else (let patch = migrateEmptyPatch (mtGroup target) (mtStorageVersion target) (mtKind target) name ns;
                into = (if mtNamespaced target then ns else []) in
            case mkApply c (targetGVR target) into name patch of
              Some e \<Rightarrow> (res\<lparr>mrError := Some e\<rparr>, [])
            | None \<Rightarrow> (res, [ApplyIdentity (targetGVR target) into name patch (fieldManager opts) (moDryRun opts)])))"

definition taggedResult :: "bool \<Rightarrow> migrateTarget \<Rightarrow> MigrateObjectResult \<Rightarrow> MigrateObjectResult" where
  "taggedResult tagCRD target res = (if tagCRD then res\<lparr>mrCRD := mtCRDName target\<rparr> else res)"

text \<open>What the pool leaves in \<open>results\<close>: one entry per object, in the order of the list.\<close>

definition migrateAll :: "migrateCluster \<Rightarrow> MigrateStorageOptions \<Rightarrow> migrateTarget \<Rightarrow> jobj list \<Rightarrow> bool \<Rightarrow> MigrateObjectResult list" where
  "migrateAll c opts target items tagCRD = map (\<lambda>item. taggedResult tagCRD target (fst (migrateOne c opts target item))) items"

definition migrateWrites :: "migrateCluster \<Rightarrow> MigrateStorageOptions \<Rightarrow> migrateTarget \<Rightarrow> jobj list \<Rightarrow> migrateWrite list" where
  "migrateWrites c opts target items = concat (map (\<lambda>item. snd (migrateOne c opts target item)) items)"

text \<open>
  The pool itself: a producer hands out the indices in order, at most \<open>workers\<close> of them are in progress,
  and finishing one writes its entry of \<open>results\<close> under the mutex.
\<close>

record pool =
  plNext :: nat
  plBusy :: "nat list"
  plResults :: "MigrateObjectResult option list"
  plWrites :: "migrateWrite list"

definition poolStart :: "jobj list \<Rightarrow> pool" where
  "poolStart items = \<lparr>plNext = 0, plBusy = [], plResults = replicate (length items) None, plWrites = []\<rparr>"

inductive pool_step ::
    "migrateCluster \<Rightarrow> MigrateStorageOptions \<Rightarrow> migrateTarget \<Rightarrow> jobj list \<Rightarrow> bool \<Rightarrow> nat \<Rightarrow> pool \<Rightarrow> pool \<Rightarrow> bool"
  for c opts target items tagCRD workers where
  take_next: "plNext p < length items \<Longrightarrow> length (plBusy p) < workers \<Longrightarrow>
    pool_step c opts target items tagCRD workers p (p\<lparr>plNext := Suc (plNext p), plBusy := plNext p # plBusy p\<rparr>)"
| finish: "i \<in> set (plBusy p) \<Longrightarrow> migrateOne c opts target (items ! i) = (res, writes) \<Longrightarrow>
    pool_step c opts target items tagCRD workers p
      (p\<lparr>plBusy := remove1 i (plBusy p), plResults := (plResults p)[i := Some (taggedResult tagCRD target res)], plWrites := plWrites p @ writes\<rparr>)"

subsection \<open>The run\<close>

definition crdReport :: "migrateTarget \<Rightarrow> MigrateObjectResult list \<Rightarrow> MigrateCRDReport" where
  "crdReport t results =
     \<lparr>mcCRD = mtCRDName t, mcRole = mtRole t, mcKind = mtKind t, mcPlural = mtPlural t, mcNamespaced = mtNamespaced t,
      mcStorageVersion = mtStorageVersion t, mcStoredVersions = mtStoredVersions t, mcObjects = results,
      mcSucceeded = length (filter (\<lambda>r. mrError r = None) results), mcFailed = length (filter (\<lambda>r. mrError r \<noteq> None) results),
      mcPruned = False, mcPruneError = None\<rparr>"

definition listNamespace :: "MigrateStorageOptions \<Rightarrow> migrateTarget \<Rightarrow> string" where
  "listNamespace opts t = (if mtNamespaced t then moNamespace opts else [])"

definition scopeWarning :: "MigrateStorageOptions \<Rightarrow> migrateTarget \<Rightarrow> msg list" where
  "scopeWarning opts t =
     (if \<not> mtNamespaced t \<and> moNamespace opts \<noteq> []
      then [Fmt ''--namespace %q ignored for %s: it is cluster-scoped'' [MStr (moNamespace opts), MStr (mtCRDName t)]] else [])"

text \<open>The loop over the targets: writes, per-CRD reports and warnings, or the first listing error.\<close>

fun migrateTargets ::
    "migrateCluster \<Rightarrow> MigrateStorageOptions \<Rightarrow> bool \<Rightarrow> migrateTarget list \<Rightarrow> (migrateWrite list \<times> (gerr + MigrateCRDReport list \<times> msg list)) option" where
  "migrateTargets c opts multi [] = Some ([], Inr ([], []))"
| "migrateTargets c opts multi (t # ts) =
     (case listAllByGVR c (targetGVR t) (listNamespace opts t) of
        None \<Rightarrow> None
      | Some (Inl e) \<Rightarrow> Some ([], Inl (Fmt ''listing %s: %w'' [MStr (mtGroup t @ ''/'' @ mtStorageVersion t @ '', Resource='' @ mtPlural t), e]))
      | Some (Inr items) \<Rightarrow>
          (case migrateTargets c opts multi ts of
             None \<Rightarrow> None
           | Some (writes, rest) \<Rightarrow>
               Some (migrateWrites c opts t items @ writes,
                 bindR rest (\<lambda>(reports, warnings). Inr (crdReport t (migrateAll c opts t items multi) # reports, scopeWarning opts t @ warnings)))))"

definition pruneStoredVersions :: "migrateCluster \<Rightarrow> string \<Rightarrow> string \<Rightarrow> gerr + migrateWrite" where
  "pruneStoredVersions c name storageVersion =
     (case mkCRDObject c name of
        Inl e \<Rightarrow> Inl (Fmt ''getting CRD %q to prune storedVersions: %w'' [MStr name, e])
      | Inr ob \<Rightarrow>
          (case mkSetStored c ob [storageVersion] of
             Inl e \<Rightarrow> Inl (Fmt ''setting status.storedVersions on CRD %q: %w'' [MStr name, e])
           | Inr ob' \<Rightarrow>
               (case mkUpdateStatus c ob' of
                  Some e \<Rightarrow> Inl (Fmt ''updating CRD %q status.storedVersions: %w'' [MStr name, e])
                | None \<Rightarrow> Inr (UpdateStoredVersions name ob'))))"

definition pruneReport :: "migrateCluster \<Rightarrow> MigrateCRDReport \<Rightarrow> MigrateCRDReport" where
  "pruneReport c r =
     (case pruneStoredVersions c (mcCRD r) (mcStorageVersion r) of
        Inl e \<Rightarrow> r\<lparr>mcPruneError := Some e\<rparr>
      | Inr _ \<Rightarrow> r\<lparr>mcPruned := True, mcStoredVersions := [mcStorageVersion r]\<rparr>)"

definition pruneWrites :: "migrateCluster \<Rightarrow> MigrateCRDReport list \<Rightarrow> migrateWrite list" where
  "pruneWrites c reports =
     concat (map (\<lambda>r. case pruneStoredVersions c (mcCRD r) (mcStorageVersion r) of Inl _ \<Rightarrow> [] | Inr w \<Rightarrow> [w]) reports)"

definition failedCRDNote :: "MigrateCRDReport list \<Rightarrow> msg" where
  "failedCRDNote reports =
     (let names = map (\<lambda>r. Fmt ''%s (%s): %d'' [MStr (mcCRD r), MStr (mcRole r), MInt (int (mcFailed r))]) (filter (\<lambda>r. mcFailed r > 0) reports)
      in if names = [] then MStr [] else Fmt '' -- %s'' names)"

definition baseReport :: "MigrateStorageOptions \<Rightarrow> migrateTarget \<Rightarrow> MigrateCRDReport list \<Rightarrow> msg list \<Rightarrow> bool \<Rightarrow> MigrateStorageReport" where
  "baseReport opts primary reports warnings multi =
     \<lparr>msResourceKind = mtResourceKind primary, msResource = mtResource primary, msCRD = mtCRDName primary, msGroup = mtGroup primary,
      msKind = mtKind primary, msPlural = mtPlural primary, msStorageVersion = mtStorageVersion primary, msStoredVersions = mtStoredVersions primary,
      msNamespaced = mtNamespaced primary, msDryRun = moDryRun opts, msFieldManager = fieldManager opts,
      msObjects = concat (map mcObjects reports), msSucceeded = sum_list (map mcSucceeded reports), msFailed = sum_list (map mcFailed reports),
      msPruned = False, msPruneError = None, msWarnings = warnings, msCRDs = (if multi then reports else [])\<rparr>"

text \<open>
  Pruning, after every object was written: the CRDs of the report one by one, or the single CRD of a run
  that keeps no breakdown; the fields at the top describe the first.
\<close>

definition pruneAll :: "migrateCluster \<Rightarrow> MigrateStorageReport \<Rightarrow> migrateTarget \<Rightarrow> bool \<Rightarrow> migrateWrite list \<times> MigrateStorageReport" where
  "pruneAll c rep primary multi =
     (if \<not> multi
      then (case pruneStoredVersions c (mtCRDName primary) (mtStorageVersion primary) of
              Inl e \<Rightarrow> ([], rep\<lparr>msPruneError := Some e\<rparr>)
            | Inr w \<Rightarrow> ([w], rep\<lparr>msPruned := True, msStoredVersions := [mtStorageVersion primary]\<rparr>))
      else (let reports = map (pruneReport c) (msCRDs rep) in
            (pruneWrites c (msCRDs rep),
             rep\<lparr>msCRDs := reports, msPruned := mcPruned (hd reports), msPruneError := mcPruneError (hd reports), msStoredVersions := mcStoredVersions (hd reports)\<rparr>)))"

definition finishMigration :: "migrateCluster \<Rightarrow> MigrateStorageOptions \<Rightarrow> MigrateStorageReport \<Rightarrow> migrateTarget \<Rightarrow> bool \<Rightarrow> migrateWrite list \<times> MigrateStorageReport" where
  "finishMigration c opts rep primary multi =
     (if \<not> moPruneStoredVersions opts then ([], rep)
      else if moDryRun opts then ([], rep\<lparr>msWarnings := msWarnings rep @ [MStr ''--prune-stored-versions is ignored with --dry-run'']\<rparr>)
      else if msFailed rep > 0
      then ([], rep\<lparr>msWarnings := msWarnings rep @ [Fmt ''skipping --prune-stored-versions: %d object(s) failed%s'' [MInt (int (msFailed rep)), failedCRDNote (msCRDs rep)]]\<rparr>)
      else pruneAll c rep primary multi)"

definition RunMigrateStorage :: "migrateCluster \<Rightarrow> MigrateStorageOptions \<Rightarrow> (migrateWrite list \<times> (gerr + MigrateStorageReport)) option" where
  "RunMigrateStorage c opts =
     (if (moXRDName opts = []) = (moCRDName opts = []) then Some ([], Inl (MStr ''exactly one of --xrd or --crd is required''))
      else (case resolveMigrateTargets c opts of
              Inl e \<Rightarrow> Some ([], Inl e)
            | Inr (targets, warnings) \<Rightarrow>
                (if moPruneStoredVersions opts \<and> moNamespace opts \<noteq> [] \<and> list_ex mtNamespaced targets
                 then Some ([], Inl (MStr ''--prune-stored-versions cannot be combined with --namespace: objects in other namespaces may still be stored at an older version''))
                 else (let primary = hd targets; multi = length targets > 1 in
                       case migrateTargets c opts multi targets of
                         None \<Rightarrow> None
                       | Some (writes, Inl e) \<Rightarrow> Some (writes, Inl e)
                       | Some (writes, Inr (reports, scoped)) \<Rightarrow>
                           (case finishMigration c opts (baseReport opts primary reports (warnings @ scoped) multi) primary multi of
                              (pruned, rep) \<Rightarrow> Some (writes @ pruned, Inr rep))))))"

subsection \<open>The pool of workers\<close>

lemma effectiveConcurrency_bounds: "1 \<le> effectiveConcurrency opts n" "n \<ge> 1 \<Longrightarrow> effectiveConcurrency opts n \<le> n"
  by (auto simp: effectiveConcurrency_def Let_def)

definition poolOk :: "migrateCluster \<Rightarrow> MigrateStorageOptions \<Rightarrow> migrateTarget \<Rightarrow> jobj list \<Rightarrow> bool \<Rightarrow> pool \<Rightarrow> bool" where
  "poolOk c opts target items tagCRD p \<longleftrightarrow>
     plNext p \<le> length items \<and> distinct (plBusy p) \<and> (\<forall>i\<in>set (plBusy p). i < plNext p) \<and> length (plResults p) = length items
   \<and> (\<forall>i<length items. plResults p ! i =
        (if i < plNext p \<and> i \<notin> set (plBusy p) then Some (migrateAll c opts target items tagCRD ! i) else None))
   \<and> mset (plWrites p) = (\<Sum>i\<in>{i. i < plNext p \<and> i \<notin> set (plBusy p)}. mset (snd (migrateOne c opts target (items ! i))))"

lemma poolOk_start: "poolOk c opts target items tagCRD (poolStart items)"
  by (simp add: poolOk_def poolStart_def)

lemma poolOk_step:
  assumes "pool_step c opts target items tagCRD workers p p'" and ok: "poolOk c opts target items tagCRD p"
  shows "poolOk c opts target items tagCRD p'"
  using assms(1)
proof cases
  case take_next
  then have "{i. i < Suc (plNext p) \<and> i \<noteq> plNext p \<and> i \<notin> set (plBusy p)} = {i. i < plNext p \<and> i \<notin> set (plBusy p)}" by auto
  then show ?thesis using take_next ok by (auto simp: poolOk_def less_Suc_eq)
next
  case (finish i res writes)
  let ?done = "{j. j < plNext p \<and> j \<notin> set (plBusy p)}"
  have i: "i < plNext p" "i < length items" "i \<notin> ?done" using ok finish(2) by (auto simp: poolOk_def)
  have "{j. j < plNext p \<and> j \<notin> set (remove1 i (plBusy p))} = insert i ?done"
    using ok i by (auto simp: poolOk_def)
  moreover have "taggedResult tagCRD target res = migrateAll c opts target items tagCRD ! i"
    using i finish(3) by (simp add: migrateAll_def)
  moreover have "finite ?done" by simp
  ultimately show ?thesis using ok finish i by (auto simp: poolOk_def nth_list_update)
qed

lemma poolOk_run: "(pool_step c opts target items tagCRD workers)\<^sup>*\<^sup>* (poolStart items) p \<Longrightarrow> poolOk c opts target items tagCRD p"
  by (induction rule: rtranclp_induct) (auto intro: poolOk_start poolOk_step)

lemma pool_stuck:
  assumes "\<nexists>p'. pool_step c opts target items tagCRD workers p p'" and "poolOk c opts target items tagCRD p" and "0 < workers"
  shows "plNext p = length items" "plBusy p = []"
proof -
  show busy: "plBusy p = []"
  proof (rule ccontr)
    assume "plBusy p \<noteq> []"
    then have "hd (plBusy p) \<in> set (plBusy p)" by simp
    from pool_step.finish[OF this] show False using assms(1) by (metis surj_pair)
  qed
  show "plNext p = length items"
    using assms pool_step.take_next[of p items workers c opts target tagCRD] busy by (fastforce simp: poolOk_def)
qed

text \<open>Every schedule ends: each step takes an index or finishes one.\<close>

lemma pool_decreases:
  assumes "pool_step c opts target items tagCRD workers p p'"
  shows "2 * (length items - plNext p') + length (plBusy p') < 2 * (length items - plNext p) + length (plBusy p)"
  using assms by cases (auto simp: length_remove1 dest: length_pos_if_in_set)

lemma pool_done:
  assumes "(pool_step c opts target items tagCRD workers)\<^sup>*\<^sup>* (poolStart items) p"
    and "\<nexists>p'. pool_step c opts target items tagCRD workers p p'" and "0 < workers"
  shows "plResults p = map Some (migrateAll c opts target items tagCRD)" "mset (plWrites p) = mset (migrateWrites c opts target items)"
proof -
  note ok = poolOk_run[OF assms(1)]
  note stuck = pool_stuck[OF assms(2) ok assms(3)]
  show "plResults p = map Some (migrateAll c opts target items tagCRD)"
    by (rule nth_equalityI) (use ok stuck in \<open>auto simp: poolOk_def migrateAll_def\<close>)
  have "mset (plWrites p) = (\<Sum>i\<in>{i. i < length items}. mset (snd (migrateOne c opts target (items ! i))))"
    using ok stuck by (simp add: poolOk_def)
  also have "\<dots> = (\<Sum>i\<leftarrow>[0..<length items]. mset (snd (migrateOne c opts target (items ! i))))"
    by (simp add: sum_list_distinct_conv_sum_set atLeast0LessThan lessThan_def)
  also have "map (\<lambda>i. mset (snd (migrateOne c opts target (items ! i)))) [0..<length items] = map (\<lambda>item. mset (snd (migrateOne c opts target item))) items"
    by (rule nth_equalityI) simp_all
  also have "sum_list (map (\<lambda>item. mset (snd (migrateOne c opts target item))) items) = mset (migrateWrites c opts target items)"
    by (simp add: migrateWrites_def mset_concat comp_def)
  finally show "mset (plWrites p) = mset (migrateWrites c opts target items)" .
qed

lemma pool_terminates: "wfP (\<lambda>p' p. pool_step c opts target items tagCRD workers p p')"
  by (rule wfp_if_convertible_to_nat[where f = "\<lambda>p. 2 * (length items - plNext p) + length (plBusy p)"]) (rule pool_decreases)

subsection \<open>What a run writes\<close>

definition isApply :: "migrateWrite \<Rightarrow> bool" where
  "isApply w = (case w of ApplyIdentity _ _ _ _ _ _ \<Rightarrow> True | _ \<Rightarrow> False)"

lemma migrateOne_cases:
  "migrateOne c opts t item = (res, ws) \<Longrightarrow>
     (mrError res = None \<and> ws = [ApplyIdentity (targetGVR t) (if mtNamespaced t then itemNamespace (mkK8s c) item else []) (k8_GetName (mkK8s c) item)
        (migrateEmptyPatch (mtGroup t) (mtStorageVersion t) (mtKind t) (k8_GetName (mkK8s c) item) (itemNamespace (mkK8s c) item)) (fieldManager opts) (moDryRun opts)])
   \<or> (mrError res \<noteq> None \<and> ws = [])"
  by (auto simp: migrateOne_def Let_def split: if_splits option.splits)

lemma migrateWrites_apply: "w \<in> set (migrateWrites c opts t items) \<Longrightarrow> isApply w"
proof -
  assume "w \<in> set (migrateWrites c opts t items)"
  then obtain item where "w \<in> set (snd (migrateOne c opts t item))" by (auto simp: migrateWrites_def)
  then show ?thesis using migrateOne_cases[of c opts t item "fst (migrateOne c opts t item)" "snd (migrateOne c opts t item)"] by (auto simp: isApply_def)
qed

lemma migrateAll_clean:
  assumes "mcFailed (crdReport t (migrateAll c opts t items multi)) = 0" and "item \<in> set items"
  shows "snd (migrateOne c opts t item) = [ApplyIdentity (targetGVR t) (if mtNamespaced t then itemNamespace (mkK8s c) item else []) (k8_GetName (mkK8s c) item)
        (migrateEmptyPatch (mtGroup t) (mtStorageVersion t) (mtKind t) (k8_GetName (mkK8s c) item) (itemNamespace (mkK8s c) item)) (fieldManager opts) (moDryRun opts)]"
proof -
  obtain res ws where r: "migrateOne c opts t item = (res, ws)" by fastforce
  have "mrError (taggedResult multi t res) = None" using assms r by (auto simp: crdReport_def migrateAll_def filter_empty_conv)
  then show ?thesis using r migrateOne_cases[OF r] by (auto simp: taggedResult_def split: if_splits)
qed

definition rewrittenAs :: "migrateCluster \<Rightarrow> MigrateStorageOptions \<Rightarrow> bool \<Rightarrow> migrateWrite list \<Rightarrow> migrateTarget \<Rightarrow> MigrateCRDReport \<Rightarrow> bool" where
  "rewrittenAs c opts multi writes t r \<longleftrightarrow>
     (\<exists>items. listAllByGVR c (targetGVR t) (listNamespace opts t) = Some (Inr items)
        \<and> r = crdReport t (migrateAll c opts t items multi) \<and> set (migrateWrites c opts t items) \<subseteq> set writes)"

lemma rewrittenAs_mono: "rewrittenAs c opts multi writes t r \<Longrightarrow> set writes \<subseteq> set writes' \<Longrightarrow> rewrittenAs c opts multi writes' t r"
  by (auto simp: rewrittenAs_def)

lemma migrateTargets_applies:
  "migrateTargets c opts multi ts = Some (writes, res) \<Longrightarrow> w \<in> set writes \<Longrightarrow> isApply w"
proof (induction ts arbitrary: writes res)
  case (Cons t ts)
  then consider "writes = []"
    | items ws res' where "migrateTargets c opts multi ts = Some (ws, res')" "writes = migrateWrites c opts t items @ ws"
    by (auto split: option.splits sum.splits)
  then show ?case using Cons migrateWrites_apply by cases auto
qed simp

lemma migrateTargets_ok:
  assumes "migrateTargets c opts multi ts = Some (writes, Inr (reports, scoped))"
  shows "list_all2 (rewrittenAs c opts multi writes) ts reports"
  using assms
proof (induction ts arbitrary: writes reports scoped)
  case (Cons t ts)
  then obtain items ws rs sc where l: "listAllByGVR c (targetGVR t) (listNamespace opts t) = Some (Inr items)"
    and m: "migrateTargets c opts multi ts = Some (ws, Inr (rs, sc))"
    and w: "writes = migrateWrites c opts t items @ ws" "reports = crdReport t (migrateAll c opts t items multi) # rs"
    by (auto simp: bindR_Inr_iff split: option.splits sum.splits)
  have "list_all2 (rewrittenAs c opts multi writes) ts rs"
    using Cons.IH[OF m] by (rule list_all2_mono) (use w in \<open>auto intro: rewrittenAs_mono\<close>)
  moreover have "rewrittenAs c opts multi writes t (crdReport t (migrateAll c opts t items multi))" using l w by (auto simp: rewrittenAs_def)
  ultimately show ?case using w by simp
qed simp

text \<open>Every object of a target was applied at its storage version.\<close>

definition allApplied :: "migrateCluster \<Rightarrow> MigrateStorageOptions \<Rightarrow> migrateWrite list \<Rightarrow> migrateTarget \<Rightarrow> jobj list \<Rightarrow> bool" where
  "allApplied c opts writes t items \<longleftrightarrow>
     (\<forall>item\<in>set items. ApplyIdentity (targetGVR t) (if mtNamespaced t then itemNamespace (mkK8s c) item else []) (k8_GetName (mkK8s c) item)
        (migrateEmptyPatch (mtGroup t) (mtStorageVersion t) (mtKind t) (k8_GetName (mkK8s c) item) (itemNamespace (mkK8s c) item))
        (fieldManager opts) (moDryRun opts) \<in> set writes)"

lemma rewrittenAs_applied:
  assumes "rewrittenAs c opts multi writes t r" and "mcFailed r = 0"
  shows "\<exists>items. listAllByGVR c (targetGVR t) (listNamespace opts t) = Some (Inr items) \<and> allApplied c opts writes t items"
proof -
  obtain items where l: "listAllByGVR c (targetGVR t) (listNamespace opts t) = Some (Inr items)"
    and r: "r = crdReport t (migrateAll c opts t items multi)" and w: "set (migrateWrites c opts t items) \<subseteq> set writes"
    using assms(1) by (auto simp: rewrittenAs_def)
  have "set (snd (migrateOne c opts t item)) \<subseteq> set writes" if "item \<in> set items" for item
    using w that by (auto simp: migrateWrites_def)
  then have "allApplied c opts writes t items"
    using migrateAll_clean[of t c opts items multi] assms(2) r by (auto simp: allApplied_def)
  with l show ?thesis by blast
qed

lemma pruneStoredVersions_Inr:
  "pruneStoredVersions c n v = Inr w \<longleftrightarrow> (\<exists>ob ob'. mkCRDObject c n = Inr ob \<and> mkSetStored c ob [v] = Inr ob' \<and> mkUpdateStatus c ob' = None \<and> w = UpdateStoredVersions n ob')"
  by (auto simp: pruneStoredVersions_def split: sum.splits option.splits)

lemma pruned_target:
  assumes "UpdateStoredVersions n ob' \<in> set (fst (pruneAll c (baseReport opts (hd targets) reports warnings multi) (hd targets) multi))"
    and "list_all2 (rewrittenAs c opts multi writes) targets reports" and "targets \<noteq> []"
  shows "\<exists>t\<in>set targets. mtCRDName t = n \<and> (\<exists>ob. mkCRDObject c n = Inr ob \<and> mkSetStored c ob [mtStorageVersion t] = Inr ob')"
proof (cases multi)
  case True
  then obtain r where r: "r \<in> set reports" "pruneStoredVersions c (mcCRD r) (mcStorageVersion r) = Inr (UpdateStoredVersions n ob')"
    using assms(1) by (auto simp: pruneAll_def baseReport_def pruneWrites_def Let_def split: sum.splits)
  then obtain t where "t \<in> set targets" "rewrittenAs c opts multi writes t r" using assms(2) by (metis in_set_conv_nth list_all2_conv_all_nth)
  then have "t \<in> set targets" "mcCRD r = mtCRDName t" "mcStorageVersion r = mtStorageVersion t" by (auto simp: rewrittenAs_def crdReport_def)
  with r show ?thesis by (auto simp: pruneStoredVersions_Inr)
next
  case False
  then have "pruneStoredVersions c (mtCRDName (hd targets)) (mtStorageVersion (hd targets)) = Inr (UpdateStoredVersions n ob')"
    using assms(1) by (auto simp: pruneAll_def split: sum.splits)
  then show ?thesis using assms(3) by (auto simp: pruneStoredVersions_Inr)
qed

lemma pruneStoredVersions_update: "pruneStoredVersions c n v = Inr w \<Longrightarrow> \<not> isApply w"
  by (auto simp: pruneStoredVersions_Inr isApply_def)

lemma pruneAll_updates: "w \<in> set (fst (pruneAll c rep primary multi)) \<Longrightarrow> \<not> isApply w"
  by (auto simp: pruneAll_def pruneWrites_def Let_def pruneStoredVersions_update split: sum.splits if_splits)

text \<open>A run that drops stored versions, taken apart.\<close>

lemma RunMigrateStorage_pruned:
  assumes "RunMigrateStorage c opts = Some (writes, res)" and "w \<in> set writes" and "\<not> isApply w"
  obtains targets warnings applies reports scoped multi where "resolveMigrateTargets c opts = Inr (targets, warnings)"
    "migrateTargets c opts multi targets = Some (applies, Inr (reports, scoped))" "\<not> moDryRun opts"
    "moNamespace opts \<noteq> [] \<longrightarrow> \<not> list_ex mtNamespaced targets" "sum_list (map mcFailed reports) = 0"
    "writes = applies @ fst (pruneAll c (baseReport opts (hd targets) reports (warnings @ scoped) multi) (hd targets) multi)"
proof -
  obtain targets warnings where t: "resolveMigrateTargets c opts = Inr (targets, warnings)"
    and ns: "\<not> (moPruneStoredVersions opts \<and> moNamespace opts \<noteq> [] \<and> list_ex mtNamespaced targets)"
    using assms by (auto simp: RunMigrateStorage_def Let_def split: if_splits sum.splits)
  let ?multi = "length targets > 1"
  obtain applies inner where m: "migrateTargets c opts ?multi targets = Some (applies, inner)"
    using assms t ns by (auto simp: RunMigrateStorage_def Let_def split: if_splits option.splits)
  show thesis
  proof (cases inner)
    case (Inl e)
    then have "writes = applies" using assms(1,2) t ns m by (auto simp: RunMigrateStorage_def Let_def split: if_splits)
    then show ?thesis using assms(2,3) migrateTargets_applies[OF m] by blast
  next
    case (Inr rs)
    obtain reports scoped where rs: "rs = (reports, scoped)" by fastforce
    let ?base = "baseReport opts (hd targets) reports (warnings @ scoped) ?multi"
    have writes: "writes = applies @ fst (finishMigration c opts ?base (hd targets) ?multi)"
      using assms(1,2) t ns m Inr rs by (auto simp: RunMigrateStorage_def Let_def split: if_splits prod.splits)
    have "w \<in> set (fst (finishMigration c opts ?base (hd targets) ?multi))"
      using assms(2,3) writes migrateTargets_applies[OF m] by auto
    then have fin: "moPruneStoredVersions opts" "\<not> moDryRun opts" "msFailed ?base = 0"
      "fst (finishMigration c opts ?base (hd targets) ?multi) = fst (pruneAll c ?base (hd targets) ?multi)"
      by (auto simp: finishMigration_def split: if_splits)
    show ?thesis
    proof (rule that[OF t])
      show "migrateTargets c opts ?multi targets = Some (applies, Inr (reports, scoped))" using m Inr rs by simp
      show "writes = applies @ fst (pruneAll c ?base (hd targets) ?multi)" using writes fin(4) by simp
    qed (use fin ns in \<open>auto simp: baseReport_def\<close>)
  qed
qed

subsection \<open>Listing and resolving\<close>

text \<open>A listing the server completes: each page names the next, the last names none.\<close>

inductive pages :: "migrateCluster \<Rightarrow> GroupVersionResource \<Rightarrow> string \<Rightarrow> string \<Rightarrow> jobj list \<Rightarrow> bool" for c gvr namespace where
  last_page: "mkPage c gvr namespace token = Inr (page, []) \<Longrightarrow> pages c gvr namespace token page"
| next_page: "mkPage c gvr namespace token = Inr (page, token') \<Longrightarrow> token' \<noteq> [] \<Longrightarrow> pages c gvr namespace token' rest
    \<Longrightarrow> pages c gvr namespace token (page @ rest)"

lemma listFrom_pages: "pages c gvr namespace token items \<Longrightarrow> listFrom c gvr namespace token acc = Some (Inr (acc @ items))"
proof (induction arbitrary: acc rule: pages.induct)
  case (last_page token page)
  then show ?case by (subst listFrom.simps) simp
next
  case (next_page token page token' rest)
  then show ?case by (subst listFrom.simps) simp
qed

lemma listAllByGVR_pages: "pages c gvr namespace [] items \<Longrightarrow> listAllByGVR c gvr namespace = Some (Inr items)"
  by (simp add: listAllByGVR_def listFrom_pages)

lemma resolveMigrateTargets_nonempty: "resolveMigrateTargets c opts = Inr (targets, warnings) \<Longrightarrow> targets \<noteq> []"
  by (auto simp: resolveMigrateTargets_def bindR_Inr_iff GeneratedCRDNames_def mapR_Inr_iff split: if_splits)

end
