(* ===== verification/Compat.thy ===== *)
theory Compat
  imports Replica Handover
begin

text \<open>
  The compatibility gate of the command line tool (\<open>internal/cli/compat.go\<close>, \<open>engine_run.go\<close>): schema and
  configuration at two revisions are analysed, and every difference is classified as breaking, to be
  reviewed, or safe. What \<open>git show\<close> and the parsers give for a revision is a parameter; a Go map is the
  list of its keys or a map, and \<open>sprint\<close> renders a message. The rendering of the report is left out.
\<close>

abbreviation ClassLosslessToLossy :: string where "ClassLosslessToLossy \<equiv> ''LosslessToLossy''"
abbreviation ClassCoverageLost :: string where "ClassCoverageLost \<equiv> ''CoverageLost''"
abbreviation ClassServedVersionRemove :: string where "ClassServedVersionRemove \<equiv> ''ServedVersionRemoved''"
abbreviation ClassRuleRemoved :: string where "ClassRuleRemoved \<equiv> ''RuleRemoved''"
abbreviation ClassHubChanged :: string where "ClassHubChanged \<equiv> ''HubChanged''"
abbreviation ClassStrategyChanged :: string where "ClassStrategyChanged \<equiv> ''StrategyChanged''"
abbreviation ClassMappingChanged :: string where "ClassMappingChanged \<equiv> ''MappingChanged''"
abbreviation ClassCoverageGained :: string where "ClassCoverageGained \<equiv> ''CoverageGained''"
abbreviation ClassNewVersion :: string where "ClassNewVersion \<equiv> ''NewVersion''"

definition severityOf :: "string \<Rightarrow> string" where
  "severityOf class =
     (if class \<in> {ClassLosslessToLossy, ClassCoverageLost, ClassServedVersionRemove, ClassRuleRemoved, ClassHubChanged} then ''breaking''
      else if class \<in> {ClassStrategyChanged, ClassMappingChanged} then ''review'' else ''safe'')"

definition severityRank :: "string \<Rightarrow> nat" where
  "severityRank s = (if s = ''breaking'' then 0 else if s = ''review'' then 1 else 2)"

record CompatChange =
  chClass :: string
  chSeverity :: string
  chSpoke :: string
  chDetail :: string
  chAcknowledged :: bool

record CompatReport =
  cpBase :: string
  cpHead :: string
  cpConfig :: string
  cpChanges :: "CompatChange list"
  cpAllowed :: "string list"
  cpNotes :: "msg list"

definition Breaking :: "CompatReport \<Rightarrow> bool" where
  "Breaking r = list_ex (\<lambda>c. chSeverity c = ''breaking'' \<and> \<not> chAcknowledged c) (cpChanges r)"

record CompatOptions =
  coBase :: string
  coHead :: string
  coConfigPath :: string
  coXRDPath :: string
  coCRDPath :: string
  coAllow :: "string list"

record analysisAt =
  anHub :: string
  anReport :: AnalyzeReport
  anVersions :: "VersionSchema list"

definition change :: "(msg \<Rightarrow> string) \<Rightarrow> string \<Rightarrow> string \<Rightarrow> msg \<Rightarrow> CompatChange" where
  "change sprint class spoke detail =
     \<lparr>chClass = class, chSeverity = severityOf class, chSpoke = spoke, chDetail = sprint detail, chAcknowledged = False\<rparr>"

subsection \<open>Indexes of a report\<close>

definition sortedKeys :: "string list \<Rightarrow> string list" where "sortedKeys keys = sort (remdups keys)"
definition sortedInts :: "int list \<Rightarrow> int list" where "sortedInts keys = sort (remdups keys)"

definition rulePaths :: "RuleResult \<Rightarrow> string list" where "rulePaths rr = rrHubPaths rr @ rrSpokePaths rr"

definition claimedPaths :: "SpokeReport \<Rightarrow> string list" where
  "claimedPaths sr = concat (map rulePaths (srRuleResults sr))"

definition strategyByPath :: "SpokeReport \<Rightarrow> string \<Rightarrow> Strategy option" where
  "strategyByPath sr = map_of (rev (concat (map (\<lambda>rr. map (\<lambda>p. (p, rrStrategy rr)) (rulePaths rr)) (srRuleResults sr))))"

definition ruleIndexSet :: "SpokeReport \<Rightarrow> int \<Rightarrow> RuleResult option" where
  "ruleIndexSet sr = map_of (rev (map (\<lambda>rr. (rrIndex rr, rr)) (srRuleResults sr)))"

definition spokeIndex :: "AnalyzeReport \<Rightarrow> string \<Rightarrow> SpokeReport option" where
  "spokeIndex r = map_of (rev (map (\<lambda>sr. (srVersion sr, sr)) (arSpokeReports r)))"

definition servedSet :: "VersionSchema list \<Rightarrow> string list" where
  "servedSet versions = map vsName (filter vsServed versions)"

definition ruleSignature :: "RuleResult \<Rightarrow> string" where
  "ruleSignature rr = rrStrategy rr @ ''(hub:'' @ joinStr (sort (rrHubPaths rr)) '','' @ '' -> spoke:'' @ joinStr (sort (rrSpokePaths rr)) '','' @ '')''"

definition ruleSignatures :: "SpokeReport \<Rightarrow> string list" where
  "ruleSignatures sr = sort (map ruleSignature (srRuleResults sr))"

text \<open>The zero value, which a lookup of a missing spoke gives.\<close>

definition zeroSpokeReport :: SpokeReport where
  "zeroSpokeReport = \<lparr>srVersion = [], srLossless = verdict False False, srUncovered = \<lparr>UncoveredHub = [], UncoveredSpoke = []\<rparr>,
     srRuleResults = [], srErrors = [], srWarnings = [], srCompiledPlan = None\<rparr>"

subsection \<open>Comparing two reports of a spoke\<close>

definition comparePaths :: "(msg \<Rightarrow> string) \<Rightarrow> string \<Rightarrow> SpokeReport \<Rightarrow> SpokeReport \<Rightarrow> CompatChange list" where
  "comparePaths sprint spoke b h =
     map (\<lambda>p. change sprint ClassCoverageLost spoke (Fmt ''spoke %s: %q had a rule and no longer does'' [MStr spoke, MStr p]))
       (filter (\<lambda>p. p \<notin> set (claimedPaths h)) (sortedKeys (claimedPaths b)))
   @ map (\<lambda>p. change sprint ClassCoverageGained spoke (Fmt ''spoke %s: %q is newly covered by a rule'' [MStr spoke, MStr p]))
       (filter (\<lambda>p. p \<notin> set (claimedPaths b)) (sortedKeys (claimedPaths h)))"

definition strategyChange :: "(msg \<Rightarrow> string) \<Rightarrow> string \<Rightarrow> SpokeReport \<Rightarrow> SpokeReport \<Rightarrow> string \<Rightarrow> CompatChange list" where
  "strategyChange sprint spoke b h p =
     (case (strategyByPath b p, strategyByPath h p) of
        (Some bs, Some hs) \<Rightarrow>
          (if bs \<noteq> hs then [change sprint ClassStrategyChanged spoke (Fmt ''spoke %s: %q changed strategy from %s to %s'' [MStr spoke, MStr p, MStr bs, MStr hs])] else [])
      | _ \<Rightarrow> [])"

definition removedRule :: "(msg \<Rightarrow> string) \<Rightarrow> string \<Rightarrow> SpokeReport \<Rightarrow> SpokeReport \<Rightarrow> int \<Rightarrow> CompatChange list" where
  "removedRule sprint spoke b h idx =
     (case ruleIndexSet h idx of
        Some _ \<Rightarrow> []
      | None \<Rightarrow>
          (case ruleIndexSet b idx of
             None \<Rightarrow> []
           | Some rr \<Rightarrow>
               (if list_ex (\<lambda>p. strategyByPath h p = None) (rulePaths rr)
                then [change sprint ClassRuleRemoved spoke (Fmt ''spoke %s: rule %d (%s) was removed and no replacement claims its paths''
                        [MStr spoke, MInt (rrIndex rr), MStr (rrStrategy rr)])]
                else [])))"

definition compareStrategies :: "(msg \<Rightarrow> string) \<Rightarrow> string \<Rightarrow> SpokeReport \<Rightarrow> SpokeReport \<Rightarrow> CompatChange list" where
  "compareStrategies sprint spoke b h =
     concat (map (strategyChange sprint spoke b h) (sortedKeys (claimedPaths b)))
   @ concat (map (removedRule sprint spoke b h) (sortedInts (map rrIndex (srRuleResults b))))"

fun goneSignatures :: "string list \<Rightarrow> string list \<Rightarrow> string list" where
  "goneSignatures [] inHead = []"
| "goneSignatures (sig # rest) inHead =
     (if sig \<in> set inHead then goneSignatures rest (remove1 sig inHead) else sig # goneSignatures rest inHead)"

definition sameKeys :: "string list \<Rightarrow> string list \<Rightarrow> bool" where
  "sameKeys a b \<longleftrightarrow> length (remdups a) = length (remdups b) \<and> set a \<subseteq> set b"

definition compareAssociations :: "(msg \<Rightarrow> string) \<Rightarrow> string \<Rightarrow> SpokeReport \<Rightarrow> SpokeReport \<Rightarrow> CompatChange list" where
  "compareAssociations sprint spoke b h =
     (if \<not> sameKeys (claimedPaths b) (claimedPaths h) then []
      else if joinStr (ruleSignatures b) newline = joinStr (ruleSignatures h) newline then []
      else (let gone = goneSignatures (ruleSignatures b) (ruleSignatures h) in
            if gone = [] then []
            else [change sprint ClassMappingChanged spoke
                    (Fmt ''spoke %s: the same paths are claimed by the same strategies, but wired differently -- %s no longer describes any rule''
                       [MStr spoke, MStr (joinStr gone ''; '')])]))"

definition lossyNow :: "(msg \<Rightarrow> string) \<Rightarrow> string \<Rightarrow> SpokeReport \<Rightarrow> SpokeReport \<Rightarrow> CompatChange list" where
  "lossyNow sprint spoke b h =
     concat (map (\<lambda>(direction, base, head). if base \<and> \<not> head
         then [change sprint ClassLosslessToLossy spoke (Fmt ''spoke %s: %s used to round-trip losslessly and no longer does'' [MStr spoke, MStr direction])] else [])
       [(''hub->spoke'', lossH2S (srLossless b), lossH2S (srLossless h)), (''spoke->hub'', lossS2H (srLossless b), lossS2H (srLossless h))])"

definition compareSpoke :: "(msg \<Rightarrow> string) \<Rightarrow> analysisAt \<Rightarrow> analysisAt \<Rightarrow> string \<Rightarrow> CompatChange list" where
  "compareSpoke sprint base head name =
     (let b = (case spokeIndex (anReport base) name of None \<Rightarrow> zeroSpokeReport | Some sr \<Rightarrow> sr) in
      case spokeIndex (anReport head) name of
        None \<Rightarrow>
          (if name \<in> set (servedSet (anVersions head))
           then [change sprint ClassCoverageLost name (Fmt ''spoke %s no longer has a rule set, but the version is still served'' [MStr name])] else [])
      | Some h \<Rightarrow> lossyNow sprint name b h @ comparePaths sprint name b h @ compareStrategies sprint name b h @ compareAssociations sprint name b h)"

text \<open>\<open>sort.SliceStable\<close> by severity, class and detail: stable sorts by the parts, the last part first.\<close>

definition classifyRevisions :: "(msg \<Rightarrow> string) \<Rightarrow> analysisAt \<Rightarrow> analysisAt \<Rightarrow> CompatChange list" where
  "classifyRevisions sprint base head =
     (let baseServed = servedSet (anVersions base); headServed = servedSet (anVersions head);
          out = (if anHub base \<noteq> anHub head
                 then [change sprint ClassHubChanged [] (Fmt ''hub version moved from %s to %s; every stored object converts through a different pivot, so this must be deliberate''
                         [MStr (anHub base), MStr (anHub head)])] else [])
              @ map (\<lambda>v. change sprint ClassServedVersionRemove [] (Fmt ''version %s is no longer served; objects still stored at it become unreadable. Check with `convctl versions --check-unserve %s` first'' [MStr v, MStr v]))
                  (filter (\<lambda>v. v \<notin> set headServed) (sortedKeys baseServed))
              @ map (\<lambda>v. change sprint ClassNewVersion [] (Fmt ''version %s is newly served'' [MStr v]))
                  (filter (\<lambda>v. v \<notin> set baseServed) (sortedKeys headServed))
              @ concat (map (compareSpoke sprint base head)
                  (sortedKeys (map srVersion (arSpokeReports (anReport base)) @ map srVersion (arSpokeReports (anReport head)))))
      in sort_key (\<lambda>c. severityRank (chSeverity c)) (sort_key chClass (sort_key chDetail out)))"

subsection \<open>The gate\<close>

definition runAnalyze :: "golib \<Rightarrow> configKind \<Rightarrow> schemaSource \<Rightarrow> conversionConfig \<Rightarrow> gerr + (AnalyzeReport \<times> VersionSchema list)" where
  "runAnalyze lib k src cfg =
     (case bindR (ssVersions src) (NormalizedVersions lib) of
        Inl e \<Rightarrow> Inl (Fmt (''reading '' @ kindName k @ '' versions: %w'') [e])
      | Inr versions \<Rightarrow>
          (case ToRuleSets lib cfg of
             Inl e \<Rightarrow> Inl (Fmt ''invalid rule configuration: %w'' [e])
           | Inr ruleSets \<Rightarrow>
               (case analyzeTarget lib cfg src ruleSets of
                  Inl e \<Rightarrow> Inl (Fmt ''analysis failed: %w'' [e])
                | Inr report \<Rightarrow> Inr (report, versions))))"

text \<open>The files at a revision, read and parsed.\<close>

record revision =
  rvConfigData :: "gerr + string"
  rvSource :: "configKind \<Rightarrow> gerr + schemaSource"
  rvParseConfig :: "configKind \<Rightarrow> string \<Rightarrow> gerr + conversionConfig"

definition analyzeKindAt :: "golib \<Rightarrow> revision \<Rightarrow> configKind \<Rightarrow> string \<Rightarrow> gerr + analysisAt" where
  "analyzeKindAt lib rv k cfgData =
     bindR (rvSource rv k) (\<lambda>src. bindR (rvParseConfig rv k cfgData) (\<lambda>cfg.
     bindR (runAnalyze lib k src cfg) (\<lambda>(report, versions). Inr \<lparr>anHub = ccHubVersion cfg, anReport = report, anVersions = versions\<rparr>)))"

definition analyzeAtRef :: "golib \<Rightarrow> (string \<Rightarrow> revision) \<Rightarrow> string \<Rightarrow> CompatOptions \<Rightarrow> gerr + analysisAt" where
  "analyzeAtRef lib read_at ref opts =
     bindR (rvConfigData (read_at ref)) (\<lambda>cfgData.
     if coXRDPath opts \<noteq> [] then analyzeKindAt lib (read_at ref) XRDKind cfgData
     else if coCRDPath opts \<noteq> [] then analyzeKindAt lib (read_at ref) CRDKind cfgData
     else Inl (MStr ''one of --xrd or --crd is required''))"

definition analysisNote :: "string \<Rightarrow> AnalyzeReport \<Rightarrow> msg list" where
  "analysisNote ref report =
     (if \<not> HasErrors report then []
      else (let errors = concat (map (\<lambda>sr. map (\<lambda>d. Fmt ''spoke %s: %s'' [MStr (srVersion sr), dMessage d]) (srErrors sr)) (arSpokeReports report)) in
            [Fmt ''the config at %s does not analyze cleanly (%d error(s), first: %s) -- run `convctl validate` there; the comparison below is between what each revision declares, not between two working configs''
               [MStr ref, MInt (int (length errors)), hd errors]]))"

definition analysisNotes :: "string \<Rightarrow> AnalyzeReport \<Rightarrow> string \<Rightarrow> AnalyzeReport \<Rightarrow> msg list" where
  "analysisNotes baseRef base headRef head = analysisNote baseRef base @ analysisNote headRef head"

definition RunCompat :: "golib \<Rightarrow> (msg \<Rightarrow> string) \<Rightarrow> (string \<Rightarrow> revision) \<Rightarrow> CompatOptions \<Rightarrow> gerr + CompatReport" where
  "RunCompat lib sprint read_at opts =
     (if coBase opts = [] \<or> coHead opts = [] then Inl (MStr ''--base and --head are both required'')
      else if coConfigPath opts = [] then Inl (MStr ''--config is required'')
      else (case analyzeAtRef lib read_at (coBase opts) opts of
              Inl e \<Rightarrow> Inl (Fmt ''resolving %s: %w'' [MStr (coBase opts), e])
            | Inr base \<Rightarrow>
                (case analyzeAtRef lib read_at (coHead opts) opts of
                   Inl e \<Rightarrow> Inl (Fmt ''resolving %s: %w'' [MStr (coHead opts), e])
                 | Inr head \<Rightarrow>
                     Inr \<lparr>cpBase = coBase opts, cpHead = coHead opts, cpConfig = coConfigPath opts,
                          cpChanges = map (\<lambda>c. if chClass c \<in> set (coAllow opts) then c\<lparr>chAcknowledged := True\<rparr> else c) (classifyRevisions sprint base head),
                          cpAllowed = coAllow opts, cpNotes = analysisNotes (coBase opts) (anReport base) (coHead opts) (anReport head)\<rparr>)))"

subsection \<open>What the gate guarantees\<close>

lemma change_simps [simp]: "chClass (change sprint class spoke m) = class" "chSeverity (change sprint class spoke m) = severityOf class"
  "chAcknowledged (change sprint class spoke m) = False"
  by (simp_all add: change_def)

lemma set_sortedKeys [simp]: "set (sortedKeys ks) = set ks" "set (sortedInts is) = set is"
  by (simp_all add: sortedKeys_def sortedInts_def)

lemma severityOf_breaking:
  "severityOf ClassLosslessToLossy = ''breaking''" "severityOf ClassCoverageLost = ''breaking''" "severityOf ClassServedVersionRemove = ''breaking''"
  "severityOf ClassRuleRemoved = ''breaking''" "severityOf ClassHubChanged = ''breaking''"
  by (simp_all add: severityOf_def)

lemma classifyRevisions_mem:
  "c \<in> set (classifyRevisions sprint base head) \<longleftrightarrow>
     (anHub base \<noteq> anHub head \<and> c = change sprint ClassHubChanged [] (Fmt ''hub version moved from %s to %s; every stored object converts through a different pivot, so this must be deliberate'' [MStr (anHub base), MStr (anHub head)]))
   \<or> (\<exists>v. v \<in> set (servedSet (anVersions base)) - set (servedSet (anVersions head)) \<and> c = change sprint ClassServedVersionRemove []
        (Fmt ''version %s is no longer served; objects still stored at it become unreadable. Check with `convctl versions --check-unserve %s` first'' [MStr v, MStr v]))
   \<or> (\<exists>v. v \<in> set (servedSet (anVersions head)) - set (servedSet (anVersions base)) \<and> c = change sprint ClassNewVersion [] (Fmt ''version %s is newly served'' [MStr v]))
   \<or> (\<exists>name \<in> srVersion ` set (arSpokeReports (anReport base)) \<union> srVersion ` set (arSpokeReports (anReport head)). c \<in> set (compareSpoke sprint base head name))"
  by (auto simp: classifyRevisions_def Let_def)

lemma spoke_changes_plain:
  "c \<in> set (comparePaths sprint spoke b h) \<Longrightarrow> \<not> chAcknowledged c"
  "c \<in> set (strategyChange sprint spoke b h p) \<Longrightarrow> \<not> chAcknowledged c"
  "c \<in> set (removedRule sprint spoke b h i) \<Longrightarrow> \<not> chAcknowledged c"
  "c \<in> set (compareAssociations sprint spoke b h) \<Longrightarrow> \<not> chAcknowledged c"
  "c \<in> set (lossyNow sprint spoke b h) \<Longrightarrow> \<not> chAcknowledged c"
proof -
  show "c \<in> set (comparePaths sprint spoke b h) \<Longrightarrow> \<not> chAcknowledged c" by (auto simp: comparePaths_def)
  show "c \<in> set (strategyChange sprint spoke b h p) \<Longrightarrow> \<not> chAcknowledged c" by (auto simp: strategyChange_def split: option.splits if_splits)
  show "c \<in> set (removedRule sprint spoke b h i) \<Longrightarrow> \<not> chAcknowledged c" by (auto simp: removedRule_def split: option.splits if_splits)
  show "c \<in> set (compareAssociations sprint spoke b h) \<Longrightarrow> \<not> chAcknowledged c" by (auto simp: compareAssociations_def Let_def split: if_splits)
  show "c \<in> set (lossyNow sprint spoke b h) \<Longrightarrow> \<not> chAcknowledged c" by (auto simp: lossyNow_def split: if_splits)
qed

lemma compareSpoke_plain: "c \<in> set (compareSpoke sprint base head name) \<Longrightarrow> \<not> chAcknowledged c"
  unfolding compareSpoke_def compareStrategies_def Let_def
  by (auto split: option.splits if_splits dest: spoke_changes_plain)

lemma classifyRevisions_plain: "c \<in> set (classifyRevisions sprint base head) \<Longrightarrow> \<not> chAcknowledged c"
  unfolding classifyRevisions_mem by (elim disjE exE bexE conjE) (simp_all add: compareSpoke_plain)

text \<open>A class that breaks is acknowledged, or the gate closes on any change of it.\<close>

lemma gate_open:
  assumes "RunCompat lib sprint read_at opts = Inr rep" and "\<not> Breaking rep"
  obtains base head where "analyzeAtRef lib read_at (coBase opts) opts = Inr base" "analyzeAtRef lib read_at (coHead opts) opts = Inr head"
    "\<And>c. c \<in> set (classifyRevisions sprint base head) \<Longrightarrow> chSeverity c = ''breaking'' \<Longrightarrow> chClass c \<in> set (coAllow opts)"
proof -
  obtain base head where b: "analyzeAtRef lib read_at (coBase opts) opts = Inr base" "analyzeAtRef lib read_at (coHead opts) opts = Inr head"
    and ch: "cpChanges rep = map (\<lambda>c. if chClass c \<in> set (coAllow opts) then c\<lparr>chAcknowledged := True\<rparr> else c) (classifyRevisions sprint base head)"
    using assms(1) by (auto simp: RunCompat_def split: if_splits sum.splits)
  let ?ack = "\<lambda>c. if chClass c \<in> set (coAllow opts) then c\<lparr>chAcknowledged := True\<rparr> else c"
  have "\<forall>c\<in>set (classifyRevisions sprint base head). \<not> (chSeverity (?ack c) = ''breaking'' \<and> \<not> chAcknowledged (?ack c))"
    using assms(2) unfolding Breaking_def ch list_ex_iff set_map bex_simps(7) by blast
  then have acked: "chClass c \<in> set (coAllow opts)" if "c \<in> set (classifyRevisions sprint base head)" "chSeverity c = ''breaking''" for c
    using that classifyRevisions_plain[OF that(1)] by (cases "chClass c \<in> set (coAllow opts)") auto
  show thesis by (rule that[OF b]) (rule acked)
qed

lemma spokeIndex_dom: "spokeIndex r name = Some sr \<Longrightarrow> name \<in> srVersion ` set (arSpokeReports r)"
  by (auto simp: spokeIndex_def dest!: map_of_SomeD)

lemma spokeIndex_None: "spokeIndex r name = None \<longleftrightarrow> name \<notin> srVersion ` set (arSpokeReports r)"
  by (simp add: spokeIndex_def map_of_eq_None_iff image_image)

lemma strategyByPath_claimed: "strategyByPath sr p = None \<longleftrightarrow> p \<notin> set (claimedPaths sr)"
  by (force simp: strategyByPath_def map_of_eq_None_iff claimedPaths_def)

lemma ruleIndexSet_dom: "ruleIndexSet sr i = Some rr \<Longrightarrow> rr \<in> set (srRuleResults sr) \<and> rrIndex rr = i"
  by (auto simp: ruleIndexSet_def dest!: map_of_SomeD)

text \<open>
  The rules of a spoke that claim a field, each side by itself. The gate keeps both sides in one map.
\<close>

definition hubClaimed :: "SpokeReport \<Rightarrow> string \<Rightarrow> bool" where
  "hubClaimed sr p \<longleftrightarrow> (\<exists>rr\<in>set (srRuleResults sr). p \<in> set (rrHubPaths rr))"

definition spokeClaimed :: "SpokeReport \<Rightarrow> string \<Rightarrow> bool" where
  "spokeClaimed sr p \<longleftrightarrow> (\<exists>rr\<in>set (srRuleResults sr). p \<in> set (rrSpokePaths rr))"

lemma claimedPaths_sides: "p \<in> set (claimedPaths sr) \<longleftrightarrow> hubClaimed sr p \<or> spokeClaimed sr p"
  by (auto simp: claimedPaths_def rulePaths_def hubClaimed_def spokeClaimed_def)

text \<open>
  What a spoke keeps from one revision to the next, up to the acknowledged classes. A field that had a
  rule has one, or its name is one that a rule claims on the other side.
\<close>

definition keepsSpoke :: "string list \<Rightarrow> analysisAt \<Rightarrow> string \<Rightarrow> SpokeReport \<Rightarrow> bool" where
  "keepsSpoke allow head name b \<longleftrightarrow>
     (case spokeIndex (anReport head) name of
        None \<Rightarrow> ClassCoverageLost \<in> set allow \<or> name \<notin> set (servedSet (anVersions head))
      | Some h \<Rightarrow>
          (ClassLosslessToLossy \<in> set allow \<or> ((lossH2S (srLossless b) \<longrightarrow> lossH2S (srLossless h)) \<and> (lossS2H (srLossless b) \<longrightarrow> lossS2H (srLossless h))))
        \<and> (ClassCoverageLost \<in> set allow \<or> (\<forall>p. (hubClaimed b p \<and> \<not> spokeClaimed h p \<longrightarrow> hubClaimed h p) \<and> (spokeClaimed b p \<and> \<not> hubClaimed h p \<longrightarrow> spokeClaimed h p)))
        \<and> (ClassRuleRemoved \<in> set allow \<or> (\<forall>i rr. ruleIndexSet b i = Some rr \<longrightarrow> ruleIndexSet h i = None \<longrightarrow>
             (\<forall>p\<in>set (rrHubPaths rr) \<union> set (rrSpokePaths rr). hubClaimed h p \<or> spokeClaimed h p))))"

lemma lossyNow_reports:
  "lossH2S (srLossless b) \<and> \<not> lossH2S (srLossless h) \<or> lossS2H (srLossless b) \<and> \<not> lossS2H (srLossless h) \<Longrightarrow>
     \<exists>c\<in>set (lossyNow sprint spoke b h). chClass c = ClassLosslessToLossy \<and> chSeverity c = ''breaking''"
  by (auto simp: lossyNow_def severityOf_breaking)

lemma comparePaths_reports:
  "p \<in> set (claimedPaths b) \<Longrightarrow> p \<notin> set (claimedPaths h) \<Longrightarrow>
     \<exists>c\<in>set (comparePaths sprint spoke b h). chClass c = ClassCoverageLost \<and> chSeverity c = ''breaking''"
  by (auto simp: comparePaths_def severityOf_breaking bex_Un)

lemma removedRule_reports:
  assumes "ruleIndexSet b i = Some rr" and "ruleIndexSet h i = None" and "p \<in> set (rulePaths rr)" and "p \<notin> set (claimedPaths h)"
  shows "\<exists>c\<in>set (compareStrategies sprint spoke b h). chClass c = ClassRuleRemoved \<and> chSeverity c = ''breaking''"
proof -
  have "i \<in> set (sortedInts (map rrIndex (srRuleResults b)))" using ruleIndexSet_dom[OF assms(1)] by auto
  moreover have "strategyByPath h p = None" using assms(4) strategyByPath_claimed by blast
  then have "\<exists>c\<in>set (removedRule sprint spoke b h i). chClass c = ClassRuleRemoved \<and> chSeverity c = ''breaking''"
    using assms(1-3) by (auto simp: removedRule_def list_ex_iff severityOf_breaking)
  ultimately show ?thesis unfolding compareStrategies_def by fastforce
qed

lemma gate_keepsSpoke:
  assumes "\<And>c. c \<in> set (classifyRevisions sprint base head) \<Longrightarrow> chSeverity c = ''breaking'' \<Longrightarrow> chClass c \<in> set allow"
    and "spokeIndex (anReport base) name = Some b"
  shows "keepsSpoke allow head name b"
proof -
  have spoke: "chClass c \<in> set allow" if "c \<in> set (compareSpoke sprint base head name)" "chSeverity c = ''breaking''" for c
    using assms(1)[of c] that spokeIndex_dom[OF assms(2)] unfolding classifyRevisions_mem by blast
  show ?thesis
  proof (cases "spokeIndex (anReport head) name")
    case None
    then show ?thesis using spoke by (auto simp: keepsSpoke_def compareSpoke_def severityOf_breaking)
  next
    case (Some h)
    then have parts: "chClass c \<in> set allow" if "c \<in> set (lossyNow sprint name b h) \<union> set (comparePaths sprint name b h) \<union> set (compareStrategies sprint name b h)"
      "chSeverity c = ''breaking''" for c
      using spoke[of c] that assms(2) by (auto simp: compareSpoke_def)
    have loss: "ClassLosslessToLossy \<in> set allow \<or> ((lossH2S (srLossless b) \<longrightarrow> lossH2S (srLossless h)) \<and> (lossS2H (srLossless b) \<longrightarrow> lossS2H (srLossless h)))"
      using lossyNow_reports[of b h sprint name] parts by (metis UnI1)
    have paths: "ClassCoverageLost \<in> set allow \<or> set (claimedPaths b) \<subseteq> set (claimedPaths h)"
      using comparePaths_reports[of _ b h sprint name] parts by (metis UnI1 UnI2 subsetI)
    have removed: "ClassRuleRemoved \<in> set allow \<or> (\<forall>i rr. ruleIndexSet b i = Some rr \<longrightarrow> ruleIndexSet h i = None \<longrightarrow> set (rulePaths rr) \<subseteq> set (claimedPaths h))"
      using removedRule_reports[of b _ _ h _ sprint name] parts by (metis UnI2 subsetI)
    show ?thesis unfolding keepsSpoke_def Some option.case
      using loss paths[unfolded subset_iff claimedPaths_sides] removed[unfolded subset_iff claimedPaths_sides rulePaths_def set_append] by blast
  qed
qed

lemma gate_keepsVersions:
  assumes "\<And>c. c \<in> set (classifyRevisions sprint base head) \<Longrightarrow> chSeverity c = ''breaking'' \<Longrightarrow> chClass c \<in> set allow"
  shows "ClassHubChanged \<in> set allow \<or> anHub head = anHub base"
    and "ClassServedVersionRemove \<in> set allow \<or> set (servedSet (anVersions base)) \<subseteq> set (servedSet (anVersions head))"
proof -
  show "ClassHubChanged \<in> set allow \<or> anHub head = anHub base"
    using assms[unfolded classifyRevisions_mem] severityOf_breaking(5) by (metis change_simps(1,2))
  show "ClassServedVersionRemove \<in> set allow \<or> set (servedSet (anVersions base)) \<subseteq> set (servedSet (anVersions head))"
    using assms[unfolded classifyRevisions_mem] severityOf_breaking(3) by (metis DiffI change_simps(1,2) subsetI)
qed

text \<open>
  Conversely, two revisions with the same hub and served versions, whose spokes keep their lossless
  directions and the names claimed on either side, differ in nothing that breaks.
\<close>

definition keepsNames :: "SpokeReport \<Rightarrow> SpokeReport \<Rightarrow> bool" where
  "keepsNames b h \<longleftrightarrow> (\<forall>p. hubClaimed b p \<or> spokeClaimed b p \<longrightarrow> hubClaimed h p \<or> spokeClaimed h p)"

definition keepsLossless :: "SpokeReport \<Rightarrow> SpokeReport \<Rightarrow> bool" where
  "keepsLossless b h \<longleftrightarrow> (lossH2S (srLossless b) \<longrightarrow> lossH2S (srLossless h)) \<and> (lossS2H (srLossless b) \<longrightarrow> lossS2H (srLossless h))"

lemma severityOf_other:
  "severityOf ClassStrategyChanged = ''review''" "severityOf ClassMappingChanged = ''review''"
  "severityOf ClassCoverageGained = ''safe''" "severityOf ClassNewVersion = ''safe''"
  by (simp_all add: severityOf_def)

lemma kept_not_breaking:
  assumes "keepsNames b h" and "keepsLossless b h"
    and "c \<in> set (lossyNow sprint name b h @ comparePaths sprint name b h @ compareStrategies sprint name b h @ compareAssociations sprint name b h)"
  shows "chSeverity c \<noteq> ''breaking''"
proof -
  have names: "p \<in> set (claimedPaths b) \<Longrightarrow> p \<in> set (claimedPaths h)" for p using assms(1) unfolding keepsNames_def claimedPaths_sides by blast
  have "lossyNow sprint name b h = []" using assms(2) by (auto simp: lossyNow_def keepsLossless_def)
  moreover have "removedRule sprint name b h i = []" for i
  proof -
    have "strategyByPath h p \<noteq> None" if "ruleIndexSet b i = Some rr" "p \<in> set (rulePaths rr)" for rr p
      using that names[of p] ruleIndexSet_dom[OF that(1)] strategyByPath_claimed[of h p] by (auto simp: claimedPaths_def)
    then show ?thesis by (auto simp: removedRule_def list_ex_iff split: option.split)
  qed
  ultimately show ?thesis using assms(3) names
    by (auto simp: comparePaths_def compareStrategies_def compareAssociations_def strategyChange_def Let_def severityOf_other split: option.splits if_splits)
qed

lemma classify_not_breaking:
  assumes "anHub head = anHub base" and "set (servedSet (anVersions base)) \<subseteq> set (servedSet (anVersions head))"
    and "\<forall>name b. spokeIndex (anReport base) name = Some b \<longrightarrow> (\<exists>h. spokeIndex (anReport head) name = Some h \<and> keepsNames b h \<and> keepsLossless b h)"
    and "c \<in> set (classifyRevisions sprint base head)"
  shows "chSeverity c \<noteq> ''breaking''"
proof -
  have new: "keepsNames zeroSpokeReport h \<and> keepsLossless zeroSpokeReport h" for h
    by (simp add: keepsNames_def keepsLossless_def zeroSpokeReport_def hubClaimed_def spokeClaimed_def)
  have "chSeverity c \<noteq> ''breaking''" if "c \<in> set (compareSpoke sprint base head name)"
    "name \<in> srVersion ` set (arSpokeReports (anReport base)) \<union> srVersion ` set (arSpokeReports (anReport head))" for name
  proof -
    have "\<exists>h. spokeIndex (anReport head) name = Some h"
      using that(2) assms(3) spokeIndex_None[of "anReport base" name] spokeIndex_None[of "anReport head" name] by blast
    then obtain h where h: "spokeIndex (anReport head) name = Some h" ..
    define b where "b = (case spokeIndex (anReport base) name of None \<Rightarrow> zeroSpokeReport | Some sr \<Rightarrow> sr)"
    have "keepsNames b h" "keepsLossless b h"
      using h assms(3) new by (cases "spokeIndex (anReport base) name"; force simp: b_def)+
    moreover have "c \<in> set (lossyNow sprint name b h @ comparePaths sprint name b h @ compareStrategies sprint name b h @ compareAssociations sprint name b h)"
      using that(1) by (simp add: compareSpoke_def h b_def Let_def)
    ultimately show ?thesis by (rule kept_not_breaking)
  qed
  then show ?thesis using assms(1,2,4) unfolding classifyRevisions_mem by (auto simp: severityOf_other)
qed

text \<open>A revision compared with itself: nothing to report.\<close>

lemma compareSpoke_same: "name \<in> srVersion ` set (arSpokeReports (anReport a)) \<Longrightarrow> compareSpoke sprint a a name = []"
proof -
  assume "name \<in> srVersion ` set (arSpokeReports (anReport a))"
  then obtain b where b: "spokeIndex (anReport a) name = Some b"
    using spokeIndex_None by fastforce
  have "removedRule sprint name b b i = []" for i by (simp add: removedRule_def split: option.split)
  moreover have "strategyChange sprint name b b p = []" for p by (simp add: strategyChange_def split: option.split)
  ultimately show ?thesis using b by (simp add: compareSpoke_def lossyNow_def comparePaths_def compareStrategies_def compareAssociations_def)
qed

lemma classifyRevisions_same: "classifyRevisions sprint a a = []"
proof -
  have "c \<notin> set (classifyRevisions sprint a a)" for c unfolding classifyRevisions_mem using compareSpoke_same[of _ a sprint] by fastforce
  then show ?thesis by (metis list.set_intros(1) neq_Nil_conv)
qed

end
