(* ===== verification/ControlExamples.thy ===== *)
theory ControlExamples
  imports Examples ServerController MigrateStorage Compat
begin

text \<open>
  Libraries with the documented behaviour for the controllers, and a configuration with its target, server
  and leases that their theorems are applied to. The target is a native CRD; the configuration had been
  applied while server \<open>a\<close> served it and is assigned to server \<open>b\<close> now.
\<close>

definition exZip :: ziplib where
  "exZip = \<lparr>zl_gzip = (\<lambda>x. CHR 0x1F # x), zl_NewReader = (\<lambda>x. case x of [] \<Rightarrow> Inl (MStr ''unexpected EOF'') | c # cs \<Rightarrow> Inr (cs, None)),
     zl_EncodeToString = (\<lambda>x. x), zl_DecodeString = (\<lambda>x. Inr x)\<rparr>"

lemma exZip_laws: "zipLaws exZip"
  by (simp add: zipLaws_def exZip_def)

definition exCond :: condlib where
  "exCond = \<lparr>cl_set = (\<lambda>now cs c. (let t = cnType c in
       stamped now (List.find (\<lambda>d. cnType d = t) cs) c # filter (\<lambda>d. cnType d \<noteq> t) cs)),
     cl_remove = (\<lambda>cs t. filter (\<lambda>d. cnType d \<noteq> t) cs),
     cl_find = (\<lambda>cs t. List.find (\<lambda>d. cnType d = t) cs)\<rparr>"

lemma find_filter_other: "List.find (\<lambda>d. f d = t') (filter (\<lambda>d. f d \<noteq> t) cs) = (if t' = t then None else List.find (\<lambda>d. f d = t') cs)"
  by (induction cs) auto

lemma exCond_laws: "condLaws exCond"
  by (simp add: condLaws_def exCond_def Let_def find_filter_other)

definition exCtrl :: ctrllib where
  "exCtrl = \<lparr>ct_go = nolib, ct_k8s = exK8s, ct_cond = exCond, ct_zip = exZip, ct_sprint = exSprint, ct_log = exLog,
     ct_sum256 = (\<lambda>x. x), ct_hex = (\<lambda>x. x), ct_rawURL = (\<lambda>x. x)\<rparr>"

lemma exCtrl_simps [simp]:
  "ct_go exCtrl = nolib" "ct_cond exCtrl = exCond" "ct_zip exCtrl = exZip" "ct_log exCtrl = exLog"
  by (simp_all add: exCtrl_def)

definition exCRD :: CustomResourceDefinition where
  "exCRD = \<lparr>crdName = ''xwidgets'', crdGeneration = 1, crdVersions = [\<lparr>cvName = ''v2'', cvSchema = exHub, cvServed = True, cvStorage = True\<rparr>],
     crdConditions = [(''Established'', ''True'')], crdConversion = None\<rparr>"

definition exFetched :: fetchedTarget where
  "exFetched = \<lparr>ftObject = CRDObject exCRD, ftSource = exSource\<rparr>"

definition exTrue :: "string \<Rightarrow> condition" where
  "exTrue t = \<lparr>cnType = t, cnStatus = ''True'', cnReason = [], cnMessage = MStr [], cnTransition = Some 0\<rparr>"

definition exLiveServer :: "string \<Rightarrow> liveServer" where
  "exLiveServer n = \<lparr>lvServer = \<lparr>wsName = n, wsDefault = False, wsSharding = None\<rparr>, lvNamespace = ''dco'', lvPort = 0, lvReadyReplicas = 1,
     lvConditions = [exTrue ''Available'', exTrue ''CertificateReady'', exTrue ''ServiceReady'']\<rparr>"

definition exReads :: "int \<Rightarrow> Lease list \<Rightarrow> clusterReads" where
  "exReads now leases = \<lparr>crTarget = Found exFetched, crTargetAgain = Found exFetched, crServers = Inr exServers,
     crServer = (\<lambda>n. Inr (exLiveServer n)), crLeases = (\<lambda>ns n. Inr leases),
     crSecret = (\<lambda>ns n. Inr [''ca.crt'' \<mapsto> ''pem'']), crGeneratedCRD = (\<lambda>n. NotFound), crApply = None, crStatusPatch = None,
     crFinalizerPatch = None, crNow = now, crDefaultNamespace = ''dco''\<rparr>"

definition exAppliedStatus :: configStatus where
  "exAppliedStatus = freshStatus\<lparr>stPhase := PhaseApplied, stWebhookURL := ''https://a-webhook-server.dco.svc/convert/xwidgets'',
     stLastAppliedPlanHash := ''h'', stConditions := [exTrue ConditionApplied]\<rparr>"

definition exControlled :: "string \<Rightarrow> configStatus \<Rightarrow> configObject" where
  "exControlled n st = \<lparr>coConfig = exConfigObject\<lparr>ccWebhookServerRef := Some n\<rparr>, coReviewVersions = [], coDriftPolicy = ''KeepServingStale'',
     coGeneration = 1, coDeleting = False, coFinalizers = [finalizerOf CRDKind], coAnnotations = Map.empty, coStatus = st\<rparr>"

text \<open>A lease of a replica that serves the target, renewed at time \<open>now\<close>.\<close>

definition exPublisher :: TargetPublisher where
  "exPublisher = \<lparr>tpConnected = True, tpServerName = ''b'', tpNamespace = ''dco'', tpPodName = ''b-0'', tpPodUID = ''u''\<rparr>"

definition exLease :: "int \<Rightarrow> Lease" where
  "exLease now = the (fst (Publish exZip exPublisher [''xwidgets''] exRegistry now NoLease Written))"

lemma exLease_published: "publishedBy exZip (exLease now) exRegistry"
proof -
  have "Publish exZip exPublisher [''xwidgets''] exRegistry now NoLease Written = (Some (exLease now), None)"
    by (simp add: exLease_def Publish_def publisherEnabled_def exPublisher_def split: prod.split)
  moreover have "set [''xwidgets''] = dom exRegistry" by (simp add: exRegistry_def registrySet_def NewRegistry_def)
  ultimately show ?thesis unfolding publishedBy_def by (metis distinct_singleton)
qed

lemma exLease_live: "isLive now (exLease now)"
  by (simp add: isLive_def exLease_def Publish_def publisherEnabled_def exPublisher_def stamp_def StaleAfter_def Heartbeat_def MaxClockSkew_def
      split: prod.split)

lemma exAnalysis:
  "\<exists>ruleSets report. ToRuleSets nolib (exConfigObject\<lparr>ccWebhookServerRef := r\<rparr>) = Inr ruleSets
     \<and> analyzeTarget nolib (exConfigObject\<lparr>ccWebhookServerRef := r\<rparr>) exSource ruleSets = Inr report \<and> \<not> HasErrors report"
  using validateConfig_ok(4)[OF exConfigObject_admitted, of exSource]
  by (simp add: ToRuleSets_def analyzeTarget_def viewOf_def exCluster_def)

lemma exReads_reach:
  assumes "n = ''a'' \<or> n = ''b''"
  shows "reachesHandover exCtrl (exReads now leases) (exControlled n st) exFetched n (exLiveServer n)"
proof -
  have "ResolveAssignment exLog (assignConfig (exConfigObject\<lparr>ccWebhookServerRef := Some n\<rparr>)) exServers = Inr n"
    using assms by (auto simp: ResolveAssignment_def assignConfig_def exServers_def)
  moreover have "isServerReady exCtrl (exLiveServer n)"
    by (simp add: isServerReady_def exLiveServer_def isConditionTrue_def exCond_def exTrue_def)
  moreover have "targetEstablished exCtrl (CRDObject exCRD)" by (simp add: targetEstablished_def crdEstablished_def exCRD_def)
  ultimately show ?thesis using exAnalysis[of "Some n"]
    by (simp add: reachesHandover_def exReads_def exFetched_def exControlled_def)
qed

lemma exReads_patch: "canPatch exCtrl (exReads now leases) (exControlled n st) exFetched n (exLiveServer n)"
  by (simp add: canPatch_def exReads_def readCABundle_def Let_def exFetched_def exZip_def)

text \<open>The configuration settled on \<open>a\<close>, moving to \<open>b\<close> with and without a report, and drifting while it is stale.\<close>

lemma exStatus_points: "\<not> movingServers exAppliedStatus ''a''" "movingServers exAppliedStatus ''b''"
  by (simp_all add: movingServers_def wasApplied_def exAppliedStatus_def TargetPointsAt_def hasPrefix_def WebhookServerServiceName_def)

lemma exControlled_status [simp]: "coStatus (exControlled n st) = st" "(exControlled n st)\<lparr>coStatus := st'\<rparr> = exControlled n st'"
  by (simp_all add: exControlled_def)

lemma exSettled: "handoverApproved exCtrl (exReads now leases) (exControlled ''a'' exAppliedStatus) ''a'' (exLiveServer ''a'')"
  using exStatus_points by (simp add: handoverApproved_def)

lemma exServable: "servableTargets [''xwidgets''] exRegistry = [''xwidgets'']"
  by (simp add: servableTargets_def registrySnapshot_def exRegistry_def registrySet_def NewRegistry_def exEntry_def zeroEntry_def)

lemma exEncode: "Encode exZip [''xwidgets''] = (CHR 0x1F # ''xwidgets'', False)"
  by (simp add: Encode_def Let_def exZip_def MaxEncodedBytes_def MaxDecodedBytes_def)

lemma exDecode: "Decode exZip (CHR 0x1F # ''xwidgets'') = Inr [''xwidgets'']"
  by (simp add: Decode_def exZip_def readLimited_def MaxDecodedBytes_def splitStr_def newline_def hasPrefix_def)

lemma exLease_names: "leaseNames exZip (exLease now) = Some [''xwidgets'']"
  by (simp add: leaseNames_def exLease_def Publish_def publisherEnabled_def exPublisher_def stamp_def annotationOf_def exServable exEncode exDecode)

lemma exAggregate: "Aggregate exZip [exLease now] now = ([''xwidgets''], 1, False)"
  by (simp add: Aggregate_def aggregateLease_live exLease_live exLease_names countName_def)

lemma exReported:
  "handoverApproved exCtrl (exReads 0 [exLease 0]) (exControlled ''b'' exAppliedStatus) ''b'' (exLiveServer ''b'')"
  by (simp add: handoverApproved_def exReads_def targetName_def exControlled_def exConfigObject_def checkHandover_def readServedTargets_def
      exAggregate exLiveServer_def canServeTarget_def Contains_sorted)

lemma exUnreported:
  "\<exists>s. refused exCtrl CRDKind (exReads 0 []) (exControlled ''b'' exAppliedStatus) s"
proof -
  let ?check = "checkHandover exZip exCond (\<lambda>ns n. Inr []) ''dco'' (exLiveServer ''b'') ''xwidgets'' (stConditions exAppliedStatus) 0"
  have "blockedFor exCond (stConditions exAppliedStatus) 0 = 0"
    by (simp add: blockedFor_def exCond_def exAppliedStatus_def exTrue_def)
  then obtain v where v: "?check = Inr v" "\<not> hvOK v"
    by (simp add: checkHandover_def readServedTargets_def Aggregate_def exLiveServer_def canServeTarget_def UnreportedGracePeriod_def)
  show ?thesis
  proof (rule refused_move[OF _ exReads_reach])
    show "movingServers (coStatus (exControlled ''b'' exAppliedStatus)) ''b''" using exStatus_points by simp
    show "checkHandover (ct_zip exCtrl) (ct_cond exCtrl) (crLeases (exReads 0 [])) (crDefaultNamespace (exReads 0 [])) (exLiveServer ''b'')
        (targetName (exControlled ''b'' exAppliedStatus)) (stConditions (coStatus (exControlled ''b'' exAppliedStatus))) (crNow (exReads 0 [])) = Inr v"
      using v(1) by (simp add: exReads_def targetName_def exControlled_def exConfigObject_def)
  qed (use v exCond_laws in \<open>simp_all add: exReads_def\<close>)
qed

lemma exReads_status [simp]: "crStatusPatch (exReads now leases) = None" "crNow (exReads now leases) = now"
  "crLeases (exReads now leases) ns n = Inr leases" "crFinalizerPatch (exReads now leases) = None"
  by (simp_all add: exReads_def)

text \<open>Patches and statuses of reconciles that the gates let pass.\<close>

lemma exReads_patched:
  assumes "n = ''a'' \<or> n = ''b''" and "handoverApproved exCtrl (exReads now leases) (exControlled n st) n (exLiveServer n)"
  shows "\<exists>p. ApplyTarget p \<in> set (fst (reconcileNormal exCtrl CRDKind (exReads now leases) (exControlled n st)))"
    and "\<exists>s. PatchStatus s \<in> set (fst (reconcileNormal exCtrl CRDKind (exReads now leases) (exControlled n st))) \<and> stPhase s = PhaseApplied"
proof -
  have laws: "condLaws (ct_cond exCtrl)" using exCond_laws by simp
  note patched = approved_patches[OF laws exReads_reach[OF assms(1)] exReads_patch assms(2), where k = CRDKind]
  show "\<exists>p. ApplyTarget p \<in> set (fst (reconcileNormal exCtrl CRDKind (exReads now leases) (exControlled n st)))" by (rule patched(1))
  show "\<exists>s. PatchStatus s \<in> set (fst (reconcileNormal exCtrl CRDKind (exReads now leases) (exControlled n st))) \<and> stPhase s = PhaseApplied"
    by (rule patched(2)) simp
qed

lemma exReconcile: "fst (Reconcile exCtrl CRDKind view (Found (exControlled n st))) = fst (reconcileNormal exCtrl CRDKind view (exControlled n st))"
  by (simp add: Reconcile_def exControlled_def addFinalizer_def split: prod.split)

definition exAbandoned :: configStatus where
  "exAbandoned = exAppliedStatus\<lparr>stConditions := [exTrue ConditionApplied,
     \<lparr>cnType = ConditionHandoverReady, cnStatus = ''False'', cnReason = ''HandoverAwaitingReports'', cnMessage = MStr [], cnTransition = Some 0\<rparr>]\<rparr>"

definition exUncovered :: conversionConfig where
  "exUncovered = exConfigObject\<lparr>ccSpokes := [\<lparr>svVersion = ''v1'', svRules = []\<rparr>], ccWebhookServerRef := Some ''a''\<rparr>"

lemma exUncovered_drifts:
  "\<exists>ruleSets report. ToRuleSets nolib exUncovered = Inr ruleSets \<and> analyzeTarget nolib exUncovered exSource ruleSets = Inr report \<and> HasErrors report"
proof -
  have "case ToRuleSets nolib exUncovered of Inr ruleSets \<Rightarrow>
      (case analyzeTarget nolib exUncovered exSource ruleSets of Inr report \<Rightarrow> HasErrors report | Inl _ \<Rightarrow> False) | Inl _ \<Rightarrow> False" by code_simp
  then show ?thesis by (auto split: sum.splits)
qed

definition exDrifted :: configObject where
  "exDrifted = (exControlled ''a'' (exAppliedStatus\<lparr>stPhase := PhaseStale\<rparr>))\<lparr>coConfig := exUncovered, coDriftPolicy := DriftPolicyFailClosed\<rparr>"

definition exDeleting :: "string \<Rightarrow> configObject" where
  "exDeleting phase = (exControlled ''a'' (exAppliedStatus\<lparr>stPhase := phase\<rparr>))\<lparr>coDeleting := True\<rparr>"

text \<open>An XRD that generates one CRD, and that CRD with the webhook of the operator.\<close>

definition exNamedXRD :: jobj where
  "exNamedXRD = [(''spec'', JObj [(''group'', JStr ''example.org''), (''names'', JObj [(''plural'', JStr ''xwidgets''), (''kind'', JStr ''XWidget'')])])]"

definition exWant :: expectedConversion where
  "exWant = \<lparr>ecvServiceName = ''a-webhook-server'', ecvServiceNamespace = ''dco'', ecvPath = ''/convert/xwidgets'', ecvPort = 443,
     ecvCABundle = ''pem'', ecvReviewVersions = [''v1'', ''v1beta1'']\<rparr>"

definition exGenerated :: CustomResourceDefinition where
  "exGenerated = exCRD\<lparr>crdConversion := Some \<lparr>crcStrategy = ''Webhook'', crcWebhook = Some \<lparr>wcvClientConfig = Some \<lparr>
     wccService = Some \<lparr>srvNamespace = ''dco'', srvName = ''a-webhook-server'', srvPath = Some ''/convert/xwidgets'', srvPort = None\<rparr>,
     wccCABundle = ''pem''\<rparr>, wcvReviewVersions = [''v1beta1'', ''v1'']\<rparr>\<rparr>\<rparr>"

lemma exGenerated_carries: "carriesConversion exCtrl exWant exGenerated"
  by (simp add: carriesConversion_def exGenerated_def exWant_def exZip_def)

subsection \<open>A webhook server\<close>

definition exServerLib :: serverlib where
  "exServerLib = \<lparr>sv_ctrl = exCtrl, sv_UnmarshalAs = (\<lambda>_ _. Inl (MStr [])), sv_MarshalSelector = (\<lambda>_. Inl (MStr [])),
     sv_QuantityValue = (\<lambda>_. 0), sv_SetControllerReference = (\<lambda>_ _ ob. Inr ob)\<rparr>"

definition exServerReconciler :: serverReconciler where
  "exServerReconciler = \<lparr>srDefaultNamespace = ''system'', srDefaultImage = [], srEnableXRDSupport = True, srEnableCRDSupport = True\<rparr>"

definition exWebhookServer :: ConversionWebhookServer where
  "exWebhookServer = \<lparr>soServer = hd exServers, soExtraArgs = [''--request-timeout=10s''], soRollout = None, soForceDelete = [],
     cwNamespace = [], cwReplicas = None, cwAutoscaling = None, cwImage = None, cwRequests = [], cwLimits = [], cwNodeSelector = [],
     cwTolerations = [], cwAffinity = None, cwPriorityClassName = [], cwServiceAccountName = [], cwExtraEnv = [], cwExtraVolumes = [],
     cwExtraVolumeMounts = [], cwTopologySpreadConstraints = [], cwPodLabels = [(''team'', ''x'')], cwPodAnnotations = [], cwCacheSelector = None,
     cwStartupProbe = None,
     cwCertificate = \<lparr>ceIssuerName = ''ca'', ceIssuerKind = [], ceDNSNames = [], ceDuration = None, ceRenewBefore = None\<rparr>,
     cwService = \<lparr>svType = [], svPort = 0, svAnnotations = []\<rparr>, cwPodDisruptionBudget = None, cwUID = ''u'', cwGeneration = 1,
     cwDeleting = False, cwFinalizers = [ConversionWebhookServerFinalizer],
     cwStatus = \<lparr>ssObservedGeneration = 0, ssConditions = [], ssReplicas = 0, ssReadyReplicas = 0, ssEndpoint = [],
       ssAssignedConfigs = [], ssServedTargets = [], ssReportingReplicas = 0\<rparr>\<rparr>"

definition exServerReads :: serverReads where
  "exServerReads = \<lparr>swServers = Inr exServers, swXRDConfigs = Inr [], swCRDConfigs = Inr [],
     swDeployment = Inr \<lparr>dvReplicas = 2, dvReadyReplicas = 2, dvConditions = [(''Available'', ''True'')]\<rparr>, swService = None,
     swSecret = Inr [''tls.crt'' \<mapsto> ''pem''], swLeases = (\<lambda>_ _. Inr []), swAnswer = (\<lambda>_. None), swNow = 0\<rparr>"

lemma exServerArgs_valid: "ValidateWebhookServerExtraArgs [''--request-timeout=10s''] = Inr ()"
  by code_simp

lemma exWebhookServer_simps [simp]:
  "soExtraArgs exWebhookServer = [''--request-timeout=10s'']" "cwExtraEnv exWebhookServer = []" "cwExtraVolumes exWebhookServer = []"
  "cwExtraVolumeMounts exWebhookServer = []" "cwTopologySpreadConstraints exWebhookServer = []" "cwTolerations exWebhookServer = []"
  "cwAffinity exWebhookServer = None" "cwCacheSelector exWebhookServer = None" "soRollout exWebhookServer = None"
  "cwDeleting exWebhookServer = False" "cwFinalizers exWebhookServer = [ConversionWebhookServerFinalizer]" "soServer exWebhookServer = hd exServers"
  by (simp_all add: exWebhookServer_def)

lemma exDeployment: "\<exists>d. deploymentObject exServerLib exServerReconciler exWebhookServer ns = Inr d"
  by (simp add: deploymentObject_def podSpecObject_def containerObject_def serverArgs_def containerEnv_def convertAffinity_def Let_def
        cacheSelectorArg_def exServerArgs_valid bindR_Inr_iff del: ValidateWebhookServerExtraArgs.simps)

lemma exServer_reconciled:
  "\<exists>writes st. cwsReconcileNormal exServerLib exServerReconciler exServerReads exWebhookServer = (writes, Inr (300 * Handover.second))
     \<and> PatchServerStatus st \<in> set writes \<and> (\<exists>d. ApplyDeployment d \<in> set writes)"
proof -
  let ?ns = "orString (cwNamespace exWebhookServer) (srDefaultNamespace exServerReconciler)"
  obtain d where d: "deploymentObject exServerLib exServerReconciler exWebhookServer ?ns = Inr d" using exDeployment ..
  have answer: "swAnswer exServerReads w = None" for w by (simp add: exServerReads_def)
  have cert: "\<exists>c. certificateObject exServerLib exWebhookServer ?ns = Inr c" by (simp add: certificateObject_def exServerLib_def)
  have conflict: "\<exists>st. checkDefaultConflict exServerLib exServerReads exWebhookServer = Inr st"
    by (simp add: checkDefaultConflict_def exServers_def)
  have status: "\<exists>st'. updateStatus exServerLib exServerReconciler exServerReads exWebhookServer ?ns st = Inr st'" for st
    by (simp add: updateStatus_def Let_def exServerReads_def readServedTargets_def Aggregate_def)
  have "\<exists>ws. applyChildren exServerReads (childSteps exServerLib exServerReconciler exWebhookServer ?ns) = (ws, None) \<and> ApplyDeployment d \<in> set ws"
    using cert d by (auto simp: childSteps_def applyChild_def answer reconcileCertificate_def reconcileService_def reconcileDeployment_def
        reconcileHPA_def reconcilePDB_def)
  then obtain ws where ws: "applyChildren exServerReads (childSteps exServerLib exServerReconciler exWebhookServer ?ns) = (ws, None)"
    and dep: "ApplyDeployment d \<in> set ws" by blast
  obtain st where st: "checkDefaultConflict exServerLib exServerReads exWebhookServer = Inr st" using conflict ..
  obtain st' where "updateStatus exServerLib exServerReconciler exServerReads exWebhookServer ?ns st = Inr st'" using status ..
  then have "cwsReconcileNormal exServerLib exServerReconciler exServerReads exWebhookServer = (ws @ [PatchServerStatus st'], Inr (300 * Handover.second))"
    using ws st answer by (simp add: cwsReconcileNormal_def Let_def)
  then show ?thesis using dep by auto
qed

lemma exServer_reconcile:
  "cwsReconcile exServerLib exServerReconciler exServerReads (Found exWebhookServer)
     = cwsReconcileNormal exServerLib exServerReconciler exServerReads exWebhookServer"
  by (simp add: cwsReconcile_def)

subsection \<open>A migration\<close>

definition exMigrated :: migratedCRD where
  "exMigrated = \<lparr>crdName = ''widgets.ex.org'', crdGeneration = 1,
     crdVersions = [\<lparr>cvName = ''v2'', cvSchema = exHub, cvServed = True, cvStorage = True\<rparr>], crdConditions = [], crdConversion = None,
     mgGroup = ''ex.org'', mgPlural = ''widgets'', mgKind = ''Widget'', mgScope = ''Cluster'', mgStoredVersions = [''v1'', ''v2'']\<rparr>"

definition exMigration :: MigrateStorageOptions where
  "exMigration = \<lparr>moXRDName = [], moCRDName = ''widgets.ex.org'', moNamespace = [], moDryRun = False, moConcurrency = 4,
     moFieldManager = [], moPruneStoredVersions = True\<rparr>"

definition exMigrateCluster :: migrateCluster where
  "exMigrateCluster = \<lparr>mkK8s = exK8s, mkXRD = (\<lambda>_. Inl (MStr ''none'')), mkCRD = (\<lambda>_. Inr exMigrated),
     mkPage = (\<lambda>_ _ _. Inr ([[(''a'', JBool True)]], [])), mkApply = (\<lambda>_ _ _ _. None), mkCRDObject = (\<lambda>_. Inr []),
     mkSetStored = (\<lambda>ob vs. Inr [(''status'', JArr (map JStr vs))]), mkUpdateStatus = (\<lambda>_. None)\<rparr>"

definition exMigrateTarget :: migrateTarget where
  "exMigrateTarget = \<lparr>mtResourceKind = ''CRD'', mtResource = ''widgets.ex.org'', mtCRDName = ''widgets.ex.org'', mtRole = RoleComposite,
     mtGroup = ''ex.org'', mtKind = ''Widget'', mtPlural = ''widgets'', mtStorageVersion = ''v2'', mtStoredVersions = [''v1'', ''v2''], mtNamespaced = False\<rparr>"

lemma exMigrate_resolved: "resolveMigrateTargets exMigrateCluster exMigration = Inr ([exMigrateTarget], [])"
  by (simp add: resolveMigrateTargets_def exMigrateCluster_def exMigration_def exMigrated_def targetFromCRD_def crdStorageVersion_def exMigrateTarget_def)

lemma exMigrate_listed: "listAllByGVR exMigrateCluster gvr namespace = Some (Inr [[(''a'', JBool True)]])"
  by (rule listAllByGVR_pages) (rule last_page, simp add: exMigrateCluster_def)

lemma exMigrate_one:
  "\<exists>res w. migrateOne exMigrateCluster exMigration exMigrateTarget item = (res, [w]) \<and> mrError res = None"
  by (simp add: migrateOne_def Let_def exMigrateTarget_def exMigrateCluster_def)

lemma exMigrate_run:
  "\<exists>writes rep. RunMigrateStorage exMigrateCluster exMigration = Some (writes, Inr rep)
     \<and> UpdateStoredVersions ''widgets.ex.org'' [(''status'', JArr [JStr ''v2''])] \<in> set writes"
proof -
  obtain res w where m: "migrateOne exMigrateCluster exMigration exMigrateTarget [(''a'', JBool True)] = (res, [w])" "mrError res = None"
    using exMigrate_one by blast
  have "pruneStoredVersions exMigrateCluster ''widgets.ex.org'' ''v2'' = Inr (UpdateStoredVersions ''widgets.ex.org'' [(''status'', JArr [JStr ''v2''])])"
    by (simp add: pruneStoredVersions_def exMigrateCluster_def)
  then show ?thesis using m
    by (simp add: RunMigrateStorage_def exMigrate_resolved exMigrate_listed Let_def migrateAll_def crdReport_def taggedResult_def baseReport_def finishMigration_def
        pruneAll_def) (simp add: exMigration_def exMigrateTarget_def)
qed

subsection \<open>Two revisions\<close>

definition exRevision :: revision where
  "exRevision = \<lparr>rvConfigData = Inr [], rvSource = (\<lambda>_. Inr exSource), rvParseConfig = (\<lambda>_ _. Inr exConfigObject)\<rparr>"

definition exCompat :: CompatOptions where
  "exCompat = \<lparr>coBase = ''main'', coHead = ''HEAD'', coConfigPath = ''config.yaml'', coXRDPath = ''xrd.yaml'', coCRDPath = [], coAllow = []\<rparr>"

lemma exCompat_analysed: "\<exists>a b. analyzeAtRef nolib (\<lambda>_. exRevision) ref exCompat = Inr a \<and> spokeIndex (anReport a) ''v1'' = Some b"
proof -
  have "(case runAnalyze nolib XRDKind exSource exConfigObject of Inl _ \<Rightarrow> False | Inr (rep, _) \<Rightarrow> (''v1'' \<in> set (map srVersion (arSpokeReports rep))))" by code_simp
  then obtain rep vs where r: "runAnalyze nolib XRDKind exSource exConfigObject = Inr (rep, vs)" "''v1'' \<in> set (map srVersion (arSpokeReports rep))"
    by (auto split: sum.splits)
  then have "\<exists>b. spokeIndex rep ''v1'' = Some b" using spokeIndex_None[of rep "''v1''"] by fastforce
  with r show ?thesis by (auto simp: analyzeAtRef_def analyzeKindAt_def exRevision_def exCompat_def)
qed

text \<open>
  Two renames that exchange two fields, under the policy that only warns of unmapped fields; the later
  revision has the first of them only.
\<close>

definition exSwapSchema :: schema where
  "exSwapSchema = objectSchema [(''spec'', objectSchema [(''a'', leafSchema ''string''), (''b'', leafSchema ''string'')] [])] []"

definition exSwapSource :: schemaSource where
  "exSwapSource = \<lparr>ssVersions = Inr [\<lparr>vsName = ''v1'', vsSchema = exSwapSchema, vsServed = True, vsStorage = False\<rparr>,
     \<lparr>vsName = ''v2'', vsSchema = exSwapSchema, vsServed = True, vsStorage = True\<rparr>], ssGeneration = 1, ssInjected = None\<rparr>"

definition exSwapRules :: "string \<Rightarrow> conversionRule list" where
  "exSwapRules ref =
     (let first = ConversionRule ''FieldRename'' [AFieldRename ''spec.a'' ''spec.b''] False [] None;
          second = ConversionRule ''FieldRename'' [AFieldRename ''spec.b'' ''spec.a''] False [] None
      in if ref = ''main'' then [first, second] else [first])"

definition exSwapAt :: "string \<Rightarrow> revision" where
  "exSwapAt ref = \<lparr>rvConfigData = Inr [], rvSource = (\<lambda>_. Inr exSwapSource),
     rvParseConfig = (\<lambda>_ _. Inr (exConfigObject\<lparr>ccSpokes := [\<lparr>svVersion = ''v1'', svRules = exSwapRules ref\<rparr>],
       ccUnmappedFieldPolicy := UnmappedFieldPolicyWarn, ccUnmappedFieldReason := ''being migrated''\<rparr>))\<rparr>"

definition exSwapFound :: "analysisAt \<Rightarrow> analysisAt \<Rightarrow> bool" where
  "exSwapFound base head =
     (anHub base = ''v2'' \<and> anHub head = ''v2'' \<and> servedSet (anVersions base) = [''v1'', ''v2''] \<and> servedSet (anVersions head) = [''v1'', ''v2'']
      \<and> (case (arSpokeReports (anReport base), arSpokeReports (anReport head)) of
           ([b], [h]) \<Rightarrow>
             srVersion b = ''v1'' \<and> srVersion h = ''v1'' \<and> srLossless h = verdict True True \<and> srErrors h = []
             \<and> map rrHubPaths (srRuleResults b) = [[''spec.a''], [''spec.b'']] \<and> map rrSpokePaths (srRuleResults b) = [[''spec.b''], [''spec.a'']]
             \<and> map rrHubPaths (srRuleResults h) = [[''spec.a'']] \<and> map rrSpokePaths (srRuleResults h) = [[''spec.b'']]
             \<and> UncoveredHub (srUncovered h) = [''spec.b'']
         | _ \<Rightarrow> False))"

lemma exSwap_analysed:
  obtains base head b h where "analyzeAtRef nolib exSwapAt ''main'' exCompat = Inr base" "analyzeAtRef nolib exSwapAt ''HEAD'' exCompat = Inr head"
    "anHub head = anHub base" "servedSet (anVersions head) = servedSet (anVersions base)"
    "\<forall>name. spokeIndex (anReport base) name = (if name = ''v1'' then Some b else None)"
    "\<forall>name. spokeIndex (anReport head) name = (if name = ''v1'' then Some h else None)"
    "keepsNames b h" "keepsLossless b h" "srErrors h = []"
    "hubClaimed b ''spec.b''" "\<not> hubClaimed h ''spec.b''" "UncoveredHub (srUncovered h) = [''spec.b'']"
proof -
  have "case (analyzeAtRef nolib exSwapAt ''main'' exCompat, analyzeAtRef nolib exSwapAt ''HEAD'' exCompat) of
      (Inr base, Inr head) \<Rightarrow> exSwapFound base head | _ \<Rightarrow> False" by code_simp
  then obtain base head where at: "analyzeAtRef nolib exSwapAt ''main'' exCompat = Inr base" "analyzeAtRef nolib exSwapAt ''HEAD'' exCompat = Inr head"
    and found: "exSwapFound base head" by (auto split: sum.splits)
  then obtain b h where spokes: "arSpokeReports (anReport base) = [b]" "arSpokeReports (anReport head) = [h]"
    by (auto simp: exSwapFound_def split: list.splits)
  show thesis
  proof (rule that[OF at])
    show "anHub head = anHub base" "servedSet (anVersions head) = servedSet (anVersions base)" using found by (simp_all add: exSwapFound_def)
    show "\<forall>name. spokeIndex (anReport base) name = (if name = ''v1'' then Some b else None)"
      "\<forall>name. spokeIndex (anReport head) name = (if name = ''v1'' then Some h else None)"
      using found by (simp_all add: exSwapFound_def spokes spokeIndex_def)
    show "keepsNames b h" "hubClaimed b ''spec.b''" "\<not> hubClaimed h ''spec.b''"
      using found by (auto simp: exSwapFound_def spokes keepsNames_def hubClaimed_def spokeClaimed_def map_eq_Cons_conv)
    show "keepsLossless b h" "srErrors h = []" "UncoveredHub (srUncovered h) = [''spec.b'']"
      using found by (simp_all add: exSwapFound_def spokes keepsLossless_def)
  qed
qed

end
