(* ===== verification/Spec2Isabelle.thy ===== *)
theory Spec2Isabelle
  imports ControlExamples
begin

text \<open>
  This is a verification of the declarative conversion operator for Kubernetes. A user declares, per
  Crossplane composite resource or native custom resource, how objects of one API version (the hub)
  convert to the others (the spokes); the operator compiles the declaration into plans, refuses what
  it cannot carry out, and serves the plans behind conversion webhooks.

  \<^bold>\<open>The program and how its parts interact.\<close> The engine (\<open>src/pkg/engine\<close>) is pure: it normalises the
  OpenAPI schemas of the versions, resolves every rule against them, reports diagnostics, and builds
  two lists of operations per spoke, one per direction. The admission webhooks
  (\<open>src/internal/webhook\<close>) run the same analysis before a configuration is stored. The controllers
  (\<open>src/internal/controller\<close>) point the target at a webhook server; \<open>src/internal/assign\<close> says which one.
  Each replica of a server (\<open>src/internal/webhookserver\<close>) watches the configurations assigned to it,
  compiles them into a registry of routers, answers conversion reviews from it, and publishes the names it
  serves in a lease (\<open>src/internal/servedtargets\<close>), which the controllers read before they move a target
  from one server to another.

  \<^bold>\<open>The theories\<close>, in the order of their imports:

  \<^item> Prelude: errors as sums, Go maps as association lists, lemmas on lists and maps.
  \<^item> GoNum, GoLib: Go's numbers (\<open>float64\<close> with IEEE rounding, integers as words), and the record
    \<open>golib\<close> of the library functions the engine calls.
  \<^item> JsonValue, FieldPaths (\<open>path.go\<close>): decoded values, and an object as a store of paths. Locale
    \<open>path_store\<close> states the laws of reading, writing and deleting, proved for the model.
  \<^item> Coerce (\<open>coerce.go\<close>), SchemaModel (\<open>schema.go\<close>), Normalize (\<open>normalize.go\<close>), Passthrough
    (\<open>passthrough.go\<close>).
  \<^item> Ops (\<open>ops.go\<close>, \<open>mapkeyrename.go\<close>, \<open>k8sunits.go\<close>, \<open>cel.go\<close>): one constructor and one \<open>apply\<close> per operation.
    Codec: what one operation reads and writes, and locale \<open>codec\<close> for pairs of operations that undo
    each other.
  \<^item> Convert (\<open>plan.go\<close>, \<open>convert.go\<close>): plans, \<open>Convert\<close>, the hub-and-spoke router.
  \<^item> Rules, Diagnostics, Resolve, Compile (\<open>rules.go\<close>, \<open>diagnostics.go\<close>, \<open>compile.go\<close>): the rules, one resolver per
    strategy, and the loop over rules with its bookkeeping of claimed fields. Coverage: what a
    compilation without errors guarantees.
  \<^item> Platform (\<open>platform.go\<close>), Required (\<open>required.go\<close>), Analyze (\<open>analyze.go\<close>).
  \<^item> RoundTrip: values through a compiled plan and back.
  \<^item> ApiRules (\<open>api/v1alpha1/xrdconversionconfig_types.go\<close>, \<open>..._convert.go\<close>), Rehub (\<open>rehub.go\<close>): the rules as API
    objects, their translation, and the promotion of a spoke to hub.
  \<^item> Assign (\<open>internal/assign\<close>): the server of a configuration; locale \<open>rendezvous\<close>.
  \<^item> Admission, Fleet, XRDObjects (\<open>internal/webhook\<close>, \<open>api/v1alpha1/extra_args.go\<close>,
    \<open>rollout_validation.go\<close>, \<open>pkg/xrdadapter\<close>, \<open>internal/conversionpatch\<close>): the validators of configurations
    and of servers, the XRD adapter, the conversion patches and the guard that restores them.
  \<^item> Registry, Server, Replica (\<open>internal/webhookserver\<close>): the registry of plans, the conversion
    endpoint, and the reconcile loop of a replica with draining and the initial synchronisation.
  \<^item> Handover (\<open>internal/servedtargets\<close>, \<open>webhookserver/publisher.go\<close>, \<open>controller/servedtargets.go\<close>): the lease
    of a replica, the aggregate over live leases, and the verdict on moving a target.
  \<^item> Propagation (\<open>controller/propagation.go\<close>): the comparison of the CRDs an XRD generates with the
    conversion applied to it. ConfigController (\<open>xrdconversionconfig_controller.go\<close>,
    \<open>crdconversionconfig_controller.go\<close>, \<open>finalizers.go\<close>, \<open>cws_fanout.go\<close>): the reconcile of a configuration from its
    finalizer to its status, as a function from what it reads to the list of its writes.
  \<^item> ServerChildren, ServerController (\<open>conversionwebhookserver_types.go\<close>, \<open>conversionwebhookserver_controller.go\<close>,
    \<open>naming.go\<close>): the certificate, service, deployment, autoscaler and disruption budget of a server, the
    order in which they are applied, and the status and deletion of a server.
  \<^item> MigrateStorage (\<open>cli/migratestorage.go\<close>, \<open>live.go\<close>), Compat (\<open>cli/compat.go\<close>, \<open>engine_run.go\<close>): the two commands
    of \<open>convctl\<close> that decide something, the migration of stored objects with its pool of workers, and the
    gate that classifies the differences between two revisions.
  \<^item> Examples, ControlExamples: the concrete configurations, servers and objects that the theorems are
    applied to.

  A state is a record with the fields of the struct; an operation is a function of the same name
  from the state and its arguments to the new state and the result. \<open>registry_step\<close>, \<open>admit_step\<close>,
  \<open>fleet_step\<close>, \<open>config_step\<close>, \<open>pool_step\<close> are the step relations of the registry, the stored configurations,
  the fleet, the status of a configuration and the workers of a migration.

  \<^bold>\<open>What is shown.\<close> Compilation: no field has two rules, every declared field is accounted for, every
  lossy rule is acknowledged, nesting is bounded, and what makes sure that a required field is there.
  Conversion: a configuration of unconditional rules that move one field each, under a policy other than
  Warn, restores every object it converts and brings back; undeclared fields survive. Normalisation ends, removes what it is meant to remove, and keeps every
  declared field. Promotion there and back restores the rules, and inverting a rule exchanges its two
  operations, except for the strategies \<open>mirrorable\<close> leaves out. Assignment does not depend on the order of the servers; at most one default exists over
  every history of admitted writes, and a delete that is admitted without force moves no configuration. An admitted
  configuration compiles and is served by one reconcile of its replica; a replica never loses a router it is
  responsible for, and drops a handed-over one at the end of the drain period and not before. The
  endpoint answers every object in order or fails as a whole, and the guard writes what the
  controller would, the CA bundle apart, which it leaves as written. Controllers: a target is patched only when analysis, health, server and handover allow
  it; a move leads to replicas that serve the target, unless none reports and the refusal in the status is
  older than the grace period, and waits no longer than that for an instance that never reports; the status is consistent over every history; deletion reverts before it
  lets go; propagation is reported exactly when it has happened. Servers:
  the children a server is made of agree with one another and with what admission checked, readiness is
  reported exactly when it is the case, and a server is let go only when admission would allow it.
  Commands: stored versions are dropped only after every object was rewritten, whatever the schedule of
  the workers, and an open compatibility gate means that hub, versions, lossless directions and the names with a rule are kept. A section of its own holds the behaviours that
  differ from what comments and documentation promise.

  \<^bold>\<open>Code outside the repository\<close> is a parameter: JSON and number text, regular expressions,
  templates, CEL, JSON patch, quantities and durations are fields of \<open>golib\<close>; accessors of
  unstructured objects and \<open>url.Parse\<close> are fields of \<open>k8slib\<close>; the logarithm of the sharding score is
  the argument \<open>logf\<close>; compression and base64 are \<open>ziplib\<close>, the helpers on status conditions \<open>condlib\<close>, and
  all of them with \<open>fmt\<close> and the hash functions make up \<open>ctrllib\<close> of the controllers, and with what the
  server controller calls \<open>serverlib\<close>. What a theorem relies on about them is one of its hypotheses. What the
  code reads from the cluster, from the clock and from an HTTP request is an argument of the operation.

  \<^bold>\<open>Conventions.\<close> The order of an association list is the iteration order of a Go map, so a theorem over
  all lists holds for every order the runtime picks. A message is its format with its
  arguments, with a long dash written \<open>--\<close>; some long texts of the webhooks are cut. Integers are words
  where the code's arithmetic can wrap. Metrics are recorded without durations; logs and traces are left
  out. A version without a schema is not represented.

  \<^bold>\<open>Fuel.\<close> Everything is total but \<open>listFrom\<close>, which follows the continue tokens of the API server and is
  \<open>None\<close> where they never end (\<open>listFrom_pages\<close> shows that it returns when they do), and \<open>normalizeNode\<close>,
  which recurses into schemas it has just merged.
  \<open>normalizeFuel\<close> is the size of the document, once and once more per reference in it: a reference
  being resolved cannot be resolved again below itself, so no chain of calls is longer, and
  \<open>normalize_terminates\<close> shows that it suffices for every document.

  \<^bold>\<open>Not modelled.\<close> The timer loop of the publisher, informer caches, the wiring of watches, the
  other commands of the command line tool, process set-up, and generated deep copies: they are input
  and output around the decisions modelled here, on types of the client library.
\<close>

section \<open>Compilation\<close>

text \<open>
  C2: hub coverage. When compiling a rule list reports no error under any policy but Warn, every
  declared leaf of the hub schema is claimed by one of the rules, or both plans copy it unchanged
  and the spoke schema declares a leaf of the same path, kind, opacity and construct.
\<close>

theorem hub_leaves_covered:
  assumes "errorFree (bDiags (resolveAndBuildOps lib rules hub spoke policy depth))"
    and "policy \<noteq> UnmappedFieldPolicyWarn" and "l \<in> set (flattenSchema hub)"
  shows "(\<exists>i<length rules. (OnHub, leafKey l) \<in> set (claimedBy (rEffects (ruleResolved lib rules hub spoke policy depth i))))
    \<or> (\<exists>hl\<in>set (flattenSchema hub). \<exists>sl\<in>set (flattenSchema spoke).
          leafKey hl = leafKey l \<and> leafKey sl = leafKey l \<and> sameShape sl hl
        \<and> IdentityOp (lfPath hl) \<in> set (bH2s (resolveAndBuildOps lib rules hub spoke policy depth))
        \<and> IdentityOp (lfPath hl) \<in> set (bS2h (resolveAndBuildOps lib rules hub spoke policy depth)))"
  using clean_coverage(1)[OF assms(1,2)] assms(3) leavesByPath_Some
  by (fastforce simp: allClaims_def copiedBoth_def)

theorem hub_leaves_covered_witness:
  "(\<exists>i<length exRules. (OnHub, leafKey (hd (flattenSchema exHub))) \<in>
      set (claimedBy (rEffects (ruleResolved nolib exRules exHub exSpoke UnmappedFieldPolicyError 0 i))))
    \<or> (\<exists>hl\<in>set (flattenSchema exHub). \<exists>sl\<in>set (flattenSchema exSpoke).
          leafKey hl = leafKey (hd (flattenSchema exHub)) \<and> leafKey sl = leafKey (hd (flattenSchema exHub)) \<and> sameShape sl hl
        \<and> IdentityOp (lfPath hl) \<in> set (bH2s (resolveAndBuildOps nolib exRules exHub exSpoke UnmappedFieldPolicyError 0))
        \<and> IdentityOp (lfPath hl) \<in> set (bS2h (resolveAndBuildOps nolib exRules exHub exSpoke UnmappedFieldPolicyError 0)))"
proof (rule hub_leaves_covered[OF exRules_clean])
  show "hd (flattenSchema exHub) \<in> set (flattenSchema exHub)" by code_simp
qed simp

text \<open>
  Spoke coverage. Under the same conditions every declared leaf of the spoke schema is claimed
  by a rule on the spoke side or is the destination of a copy in both plans.
\<close>

theorem spoke_leaves_covered:
  assumes "errorFree (bDiags (resolveAndBuildOps lib rules hub spoke policy depth))"
    and "policy \<noteq> UnmappedFieldPolicyWarn" and "l \<in> set (flattenSchema spoke)"
  shows "(\<exists>i<length rules. (OnSpoke, leafKey l) \<in> set (claimedBy (rEffects (ruleResolved lib rules hub spoke policy depth i))))
    \<or> (\<exists>hl\<in>set (flattenSchema hub). leafKey hl = leafKey l
        \<and> IdentityOp (lfPath hl) \<in> set (bH2s (resolveAndBuildOps lib rules hub spoke policy depth))
        \<and> IdentityOp (lfPath hl) \<in> set (bS2h (resolveAndBuildOps lib rules hub spoke policy depth)))"
  using clean_coverage(2)[OF assms(1,2)] assms(3)
  by (fastforce simp: allClaims_def copiedBoth_def)

text \<open>
  C3: exclusive claims. In an error-free compilation two different rules never claim the same
  field on the same side, and no rule claims a field twice.
\<close>

theorem claims_are_exclusive:
  assumes "errorFree (bDiags (resolveAndBuildOps lib rules hub spoke policy depth))"
    and "i < j" and "j < length rules"
  shows "set (claimedBy (rEffects (ruleResolved lib rules hub spoke policy depth i)))
      \<inter> set (claimedBy (rEffects (ruleResolved lib rules hub spoke policy depth j))) = {}
    \<and> distinct (claimedBy (rEffects (ruleResolved lib rules hub spoke policy depth i)))"
proof -
  let ?c = "\<lambda>i. claimedBy (rEffects (ruleResolved lib rules hub spoke policy depth i))"
  have d: "distinct (concat (map ?c [0..<length rules]))"
    using clean_rules(2)[OF assms(1)] by (simp add: allClaims_def)
  have split: "[0..<length rules] = [0..<i] @ i # [Suc i..<j] @ j # [Suc j..<length rules]"
    using assms(2,3) by (metis append.assoc append_Cons le_add_diff_inverse less_imp_le_nat upt_add_eq_append upt_conv_Cons zero_le)
  from d show ?thesis unfolding split by auto
qed

theorem claims_are_exclusive_witness:
  "set (claimedBy (rEffects (ruleResolved nolib
        [hd exRules, Rule StrategyFieldRename (FieldRenameParams [''spec'', ''zone''] [''spec'', ''zone'']) False [] 1 None]
        exHub exSpoke UnmappedFieldPolicyError 0 0)))
      \<inter> set (claimedBy (rEffects (ruleResolved nolib
        [hd exRules, Rule StrategyFieldRename (FieldRenameParams [''spec'', ''zone''] [''spec'', ''zone'']) False [] 1 None]
        exHub exSpoke UnmappedFieldPolicyError 0 1))) = {}
    \<and> distinct (claimedBy (rEffects (ruleResolved nolib
        [hd exRules, Rule StrategyFieldRename (FieldRenameParams [''spec'', ''zone''] [''spec'', ''zone'']) False [] 1 None]
        exHub exSpoke UnmappedFieldPolicyError 0 0)))"
  by (rule claims_are_exclusive) code_simp+

text \<open>
  C4: acknowledged loss. In an error-free compilation every rule that is lossy in some direction
  carries \<open>acknowledgeLossy\<close>.
\<close>

theorem lossy_rules_acknowledged:
  assumes "errorFree (bDiags (resolveAndBuildOps lib rules hub spoke policy depth))" and "i < length rules"
    and "rVerdict (ruleResolved lib rules hub spoke policy depth i) \<noteq> verdict True True"
  shows "ruleAcknowledgeLossy (rules ! i)"
  using clean_rules(1)[OF assms(1)] assms(2,3)
  by (cases "rVerdict (ruleResolved lib rules hub spoke policy depth i)") (auto simp: ruleSound_def)

theorem lossy_rules_acknowledged_witness:
  "ruleAcknowledgeLossy ([hd exRules, Rule StrategyDelete (DeleteParams [''spec'', ''extra''] SideHub) True [] 1 None] ! 1)"
proof (rule lossy_rules_acknowledged)
  show "errorFree (bDiags (resolveAndBuildOps nolib
      [hd exRules, Rule StrategyDelete (DeleteParams [''spec'', ''extra''] SideHub) True [] 1 None]
      (objectSchema [(''spec'', objectSchema [(''size'', leafSchema ''integer''), (''extra'', leafSchema ''string'')] [])] [])
      (objectSchema [(''spec'', objectSchema [(''replicas'', leafSchema ''integer'')] [])] []) UnmappedFieldPolicyError 0))"
    by code_simp
  show "1 < length [hd exRules, Rule StrategyDelete (DeleteParams [''spec'', ''extra''] SideHub) True [] 1 None]" by simp
  show "rVerdict (ruleResolved nolib
      [hd exRules, Rule StrategyDelete (DeleteParams [''spec'', ''extra''] SideHub) True [] 1 None]
      (objectSchema [(''spec'', objectSchema [(''size'', leafSchema ''integer''), (''extra'', leafSchema ''string'')] [])] [])
      (objectSchema [(''spec'', objectSchema [(''replicas'', leafSchema ''integer'')] [])] []) UnmappedFieldPolicyError 0 1)
      \<noteq> verdict True True"
    by code_simp
qed

text \<open>
  The verdict of a clean compilation. A direction is reported lossless exactly when every rule
  is lossless in that direction; the leftover scan takes nothing away.
\<close>

theorem verdict_is_conjunction:
  assumes "errorFree (bDiags (resolveAndBuildOps lib rules hub spoke policy depth))"
    and "policy \<noteq> UnmappedFieldPolicyWarn"
  shows "(lossH2S (bVerdict (resolveAndBuildOps lib rules hub spoke policy depth)) \<longleftrightarrow>
      (\<forall>i<length rules. lossH2S (rVerdict (ruleResolved lib rules hub spoke policy depth i))))
    \<and> (lossS2H (bVerdict (resolveAndBuildOps lib rules hub spoke policy depth)) \<longleftrightarrow>
      (\<forall>i<length rules. lossS2H (rVerdict (ruleResolved lib rules hub spoke policy depth i))))"
  using clean_verdict[OF assms] by blast

text \<open>
  Nesting depth. Rules that compile without errors nest \<open>ForEach\<close> at most
  \<open>MaxForEachDepth\<close> deep, also through \<open>BranchMap\<close>, whose nested rules do not count as a level.
\<close>

theorem foreach_depth_bounded:
  assumes "errorFree (bDiags (resolveAndBuildOps lib rules hub spoke policy depth))" and "depth \<le> MaxForEachDepth"
  shows "forEachNesting rules + depth \<le> MaxForEachDepth"
  using clean_depth[OF assms] assms(2) by simp

section \<open>Conversion\<close>

text \<open>
  C1: round trip of a configuration. Let a rule set under an unmapped-field policy other than Warn and
  without conditional rules compile without errors, and let each of its rules move one declared leaf of
  the hub to one declared leaf of the spoke, outside the metadata, with value translations that return
  the value the object has there. The schemas are normalised, have distinct names without dots and do not
  declare the metadata as a leaf; the object is well-formed. Then converting the object to the spoke and
  back succeeds in both directions and restores every declared leaf of the hub, moved or copied, present
  or absent; and a field below the top level, in an object the two schemas describe and under a name
  neither of them declares there, arrives at the spoke and comes back unchanged.
\<close>

theorem config_roundtrip:
  assumes "errorFree (snd (compileNormalized lib rs hub spoke))"
    and "rsUnmappedFieldPolicy rs \<noteq> UnmappedFieldPolicyWarn" and "\<forall>r\<in>set (rsRules rs). ruleWhen r = None"
    and "plainSchema hub" and "plainSchema spoke" and "wf_obj obj"
    and "length ms = length (rsRules rs)"
    and "\<forall>i<length (rsRules rs). movesField lib
      (ruleResolved lib (rsRules rs) hub spoke (effectivePolicy (rsUnmappedFieldPolicy rs)) 0 i) (ms ! i)"
    and "\<forall>m\<in>set ms. leafMirror hub spoke m \<and> returns obj m"
  shows "\<exists>spokeObj hubObj. Convert lib (Some (fst (compileNormalized lib rs hub spoke))) HubToSpoke obj = Inr spokeObj
    \<and> Convert lib (Some (fst (compileNormalized lib rs hub spoke))) SpokeToHub spokeObj = Inr hubObj
    \<and> (\<forall>l\<in>set (flattenSchema hub). getValue hubObj (lfPath l) = getValue obj (lfPath l))
    \<and> (\<forall>p v. undeclaredAt (mergeKnownTrees (buildKnownTree hub) (buildKnownTree spoke)) p \<longrightarrow> getValue obj p = Some v
        \<longrightarrow> getValue spokeObj p = Some v \<and> getValue hubObj p = Some v)"
  by (rule compiled_roundtrip[OF assms])

theorem config_roundtrip_witness:
  "\<exists>spokeObj hubObj. Convert nolib (Some (fst (compileNormalized nolib exListSet exListHub exListSpoke))) HubToSpoke exListObject = Inr spokeObj
    \<and> Convert nolib (Some (fst (compileNormalized nolib exListSet exListHub exListSpoke))) SpokeToHub spokeObj = Inr hubObj
    \<and> (\<forall>l\<in>set (flattenSchema exListHub). getValue hubObj (lfPath l) = getValue exListObject (lfPath l))
    \<and> (\<forall>p v. undeclaredAt (mergeKnownTrees (buildKnownTree exListHub) (buildKnownTree exListSpoke)) p \<longrightarrow> getValue exListObject p = Some v
        \<longrightarrow> getValue spokeObj p = Some v \<and> getValue hubObj p = Some v)"
proof (rule config_roundtrip)
  let ?m = "\<lparr>mSrc = [''spec'', ''tags''], mDst = [''spec'', ''labels''],
    mEnc = encJoin nolib [''spec'', ''tags''] '','', mDec = encSplit nolib [''spec'', ''labels''] '','' FieldKindString\<rparr>"
  show "errorFree (snd (compileNormalized nolib exListSet exListHub exListSpoke))" by code_simp
  show "wf_obj exListObject" by code_simp
  show "plainSchema exListHub" "plainSchema exListSpoke" by code_simp+
  show "length [?m] = length (rsRules exListSet)" by code_simp
  show "\<forall>i<length (rsRules exListSet). movesField nolib
      (ruleResolved nolib (rsRules exListSet) exListHub exListSpoke (effectivePolicy (rsUnmappedFieldPolicy exListSet)) 0 i) ([?m] ! i)"
  proof -
    have "itemKindOf (lookupPath exListHub [''spec'', ''tags'']) = FieldKindString"
      "claimedBy (rEffects (resolveListJoin 0 [''spec'', ''tags''] [''spec'', ''labels''] '','' exListHub exListSpoke))
        = [(OnHub, ''spec.tags''), (OnSpoke, ''spec.labels'')]" "pathString [''spec'', ''tags''] = ''spec.tags''" "pathString [''spec'', ''labels''] = ''spec.labels''"
      by code_simp+
    then show ?thesis
      by (simp add: movesField_def ruleResolved_def resolveRule_def exListSet_def resolveListJoin_def Let_def
          opCodec_def forth_def backwards_def)
  qed
  show "\<forall>m\<in>set [?m]. leafMirror exListHub exListSpoke m \<and> returns exListObject m"
  proof -
    have "getValue exListObject [''spec'', ''tags''] = Some (JArr [JStr ''a'', JStr ''b''])"
      "encJoin nolib [''spec'', ''tags''] '','' (JArr [JStr ''a'', JStr ''b'']) = Inr (Some (JStr ''a,b''))"
      "encSplit nolib [''spec'', ''labels''] '','' FieldKindString (JStr ''a,b'') = Inr (Some (JArr [JStr ''a'', JStr ''b'']))"
      "[''spec'', ''tags''] \<in> lfPath ` set (flattenSchema exListHub)" "[''spec'', ''labels''] \<in> lfPath ` set (flattenSchema exListSpoke)"
      by code_simp+
    then show ?thesis by (simp add: leafMirror_def returns_def payloadPath_def)
  qed
qed (simp_all add: exListSet_def)

text \<open>
  Field renames. A configuration of renames between declared leaves that compiles without
  errors round-trips every well-formed object: all declared hub leaves and all undeclared fields
  come back.
\<close>

theorem rename_roundtrip:
  assumes "errorFree (snd (compileNormalized lib rs hub spoke))"
    and "rsUnmappedFieldPolicy rs \<noteq> UnmappedFieldPolicyWarn" and "\<forall>r\<in>set (rsRules rs). renamesLeaf hub spoke r"
    and "plainSchema hub" and "plainSchema spoke" and "wf_obj obj"
  shows "\<exists>spokeObj hubObj. Convert lib (Some (fst (compileNormalized lib rs hub spoke))) HubToSpoke obj = Inr spokeObj
    \<and> Convert lib (Some (fst (compileNormalized lib rs hub spoke))) SpokeToHub spokeObj = Inr hubObj
    \<and> (\<forall>l\<in>set (flattenSchema hub). getValue hubObj (lfPath l) = getValue obj (lfPath l))
    \<and> (\<forall>p v. undeclaredAt (mergeKnownTrees (buildKnownTree hub) (buildKnownTree spoke)) p \<longrightarrow> getValue obj p = Some v
        \<longrightarrow> getValue spokeObj p = Some v \<and> getValue hubObj p = Some v)"
proof (rule compiled_roundtrip[OF assms(1,2) _ assms(4-6), where ms = "map renameMirror (rsRules rs)"])
  show "\<forall>r\<in>set (rsRules rs). ruleWhen r = None" using assms(3) by (simp add: renamesLeaf_def)
  show "\<forall>i<length (rsRules rs). movesField lib
      (ruleResolved lib (rsRules rs) hub spoke (effectivePolicy (rsUnmappedFieldPolicy rs)) 0 i) (map renameMirror (rsRules rs) ! i)"
    using renamesLeaf_moves(1) assms(3) by (simp add: ruleResolved_def)
  show "\<forall>m\<in>set (map renameMirror (rsRules rs)). leafMirror hub spoke m \<and> returns obj m"
    using renamesLeaf_moves(2,3) assms(3,6) by auto
qed simp

text \<open>
  C5: undeclared fields. Compiling appends one passthrough to each direction, as its last
  operation. When a compiled direction converts a well-formed object, every field of the object
  that neither schema declares, below a node both describe, arrives unchanged.
\<close>

theorem undeclared_fields_survive:
  assumes "wf_obj obj"
    and "Convert lib (Some plan) dir obj = Inr out"
    and "planHubToSpoke plan = bH2s (resolveAndBuildOps lib rules hub spoke policy depth)"
    and "planSpokeToHub plan = bS2h (resolveAndBuildOps lib rules hub spoke policy depth)"
    and "undeclaredAt (mergeKnownTrees (buildKnownTree hub) (buildKnownTree spoke)) p"
    and "getValue obj p = Some v"
  shows "getValue out p = Some v"
proof -
  let ?t = "mergeKnownTrees (buildKnownTree hub) (buildKnownTree spoke)"
  obtain xs where "planOps plan dir = xs @ [PassthroughUnknownOp ?t]"
    using assms(3,4) by (cases dir) (auto simp: planOps_def resolveAndBuildOps_unfold addPassthrough_def Let_def)
  then obtain mid where "applyPassthrough ?t obj mid = Inr out"
    using assms(2) by (auto simp: Convert_Inr_iff applyOps_append bindR_Inr_iff)
  then show ?thesis using applyPassthrough_copies[OF assms(1)] assms(5,6) by blast
qed

theorem undeclared_fields_survive_witness:
  "getValue [(''kind'', JStr ''Widget''), (''metadata'', JObj [(''name'', JStr ''w'')]),
      (''spec'', JObj [(''replicas'', JInt64 3), (''zone'', JStr ''eu''), (''extra'', JBool True)])] [''spec'', ''extra'']
    = Some (JBool True)"
proof (rule undeclared_fields_survive)
  show "wf_obj exObject" by code_simp
  show "Convert nolib (Some (fst (compileNormalized nolib exRuleSet exHub exSpoke))) HubToSpoke exObject =
    Inr [(''kind'', JStr ''Widget''), (''metadata'', JObj [(''name'', JStr ''w'')]),
      (''spec'', JObj [(''replicas'', JInt64 3), (''zone'', JStr ''eu''), (''extra'', JBool True)])]"
    by code_simp
  show "planHubToSpoke (fst (compileNormalized nolib exRuleSet exHub exSpoke)) = bH2s (resolveAndBuildOps nolib exRules exHub exSpoke UnmappedFieldPolicyError 0)"
    "planSpokeToHub (fst (compileNormalized nolib exRuleSet exHub exSpoke)) = bS2h (resolveAndBuildOps nolib exRules exHub exSpoke UnmappedFieldPolicyError 0)"
    by (simp_all add: compileNormalized_def exRuleSet_def Let_def effectivePolicy_def)
  show "undeclaredAt (mergeKnownTrees (buildKnownTree exHub) (buildKnownTree exSpoke)) [''spec'', ''extra'']" by code_simp
  show "getValue exObject [''spec'', ''extra''] = Some (JBool True)" by code_simp
qed

text \<open>
  The router goes through the hub. Converting between two versions is converting to the hub
  and on from there, whatever the plans; equal versions return the object itself.
\<close>

theorem router_via_hub:
  "routerConvert lib r obj v w =
     (if v = w then Inr obj
      else bindR (routerConvert lib r obj v (routerHub r)) (\<lambda>h. routerConvert lib r h (routerHub r) w))"
  by (auto simp: routerConvert_def toHub_def bindR_def split: sum.splits option.splits)

section \<open>Strategies\<close>

text \<open>
  Metadata stash. A hub value stashed in an annotation or label on the way to the spoke is
  restored on the way back, and the stash key is gone; for JSON serialization this relies on
  \<open>json.Unmarshal\<close> inverting \<open>json.Marshal\<close> on the value.
\<close>

theorem stash_then_restore:
  assumes "getValue inp p = Some v"
    and "ser = ''String'' \<or> (\<forall>b. lib_Marshal lib v = Inr b \<longrightarrow> lib_Unmarshal lib b = Inr v)"
    and "applyStashAnnotation lib p f k ser inp out = Inr mid"
    and "getValue spoke [''metadata'', f, k] = getValue mid [''metadata'', f, k]"
    and "settable out2 p" and "parallel p [''metadata'', f, k]"
  shows "\<exists>res. applyRestoreAnnotation lib p f k ser spoke out2 = Inr res
    \<and> getValue res p = Some v \<and> getValue res [''metadata'', f, k] = None"
  using stash_restore[OF assms(1) _ assms(3)] assms(2,4-6) by (simp add: stashable_def metaPath_def)

text \<open>
  Fields in a map. Collapsing fields into a map and expanding the map again restores every
  field, present or absent, when the fields get different keys and lie at independent paths;
  also under the policy that rejects unknown keys.
\<close>

theorem collapse_then_expand:
  assumes "inj_on (mapKeyFor kn) (set fps)" and "sorted_wrt parallel fps"
    and "applyCollapseToMap fps q kn inp out = Inr mid" and "getValue out q = None"
    and "getValue spoke q = getValue mid q"
    and "\<forall>fp\<in>set fps. settable out2 fp \<and> getValue out2 fp = None"
  shows "\<exists>res. applyExpandFromMap q fps kn pol spoke out2 = Inr res
    \<and> (\<forall>fp\<in>set fps. getValue res fp = getValue inp fp)"
  using collapse_expand[OF assms] .

text \<open>
  Strings from lists. Joining a list of strings and splitting the result gives the list
  back when the separator is not empty, its first character occurs in no element, and the list
  is not the one that holds just the empty string.
\<close>

theorem join_split_roundtrip:
  assumes "sep \<noteq> []" and "ss \<noteq> [[]]" and "\<forall>s\<in>set ss. hd sep \<notin> set s"
    and "applyJoinList lib p q sep inp out = Inr mid" and "getValue inp p = Some (JArr (map JStr ss))"
    and "getValue spoke q = getValue mid q" and "applySplitList lib q p sep FieldKindString spoke out2 = Inr res"
  shows "getValue res p = Some (JArr (map JStr ss))"
proof (rule joined.field_roundtrip[OF assms(5) _ _ assms(4)[unfolded field_ops] assms(6) assms(7)[unfolded field_ops]])
  show "splittable sep (JArr (map JStr ss))" using assms(1-3) by (auto simp: splittable_def)
  show "encJoin lib p sep (JArr (map JStr ss)) \<noteq> Inr None" by (simp add: encJoin_def liftR_def)
qed

text \<open>
  Keyed arrays. A map of objects, none of which uses the key field, written out as an array
  and read back has the same entries, now in key order.
\<close>

theorem map_array_map_roundtrip:
  assumes "getValue inp p = Some (JObj m)" and "distinct (map fst m)"
    and "\<forall>kv\<in>set m. \<exists>vm. snd kv = JObj vm \<and> distinct (map fst vm) \<and> kf \<notin> set (map fst vm)"
    and "applyMapToArrayByKey p q kf inp out = Inr mid" and "getValue spoke q = getValue mid q"
    and "applyArrayToMapByKey q p kf spoke out2 = Inr res"
  shows "\<exists>m'. getValue res p = Some (JObj m') \<and> map_of m' = map_of m \<and> map fst m' = sort (map fst m)"
proof -
  have "keyable kf m" using assms(2,3) by (fastforce simp: keyable_def)
  then obtain w where w: "encUnkeyed p kf (JObj m) = Inr (Some w)" using encUnkeyed_ok by blast
  from keyed_roundtrip[OF \<open>keyable kf m\<close> w] obtain m' where
    m': "encKeyed q kf w = Inr (Some (JObj m'))" "map_of m' = map_of m" "map fst m' = sort (map fst m)" by blast
  have "getValue spoke q = Some w"
    using assms(1,4,5) w by (simp add: field_ops fieldOp_def getValue_setValue)
  then have "getValue res p = Some (JObj m')"
    using assms(6) m'(1) by (simp add: field_ops fieldOp_def getValue_setValue)
  then show ?thesis using m'(2,3) by blast
qed

text \<open>
  Enumerations. When \<open>EnumRemap\<close> reports spoke-to-hub as lossless, a hub value the mapping lists
  comes back from the spoke as a listed hub value with the same enum key.
\<close>

theorem enum_remap_roundtrip:
  assumes "lossS2H (rVerdict (resolveEnumRemap lib idx p ms onHub onSpoke hub spoke))"
    and "rH2s (resolveEnumRemap lib idx p ms onHub onSpoke hub spoke) = Some x"
    and "rS2h (resolveEnumRemap lib idx p ms onHub onSpoke hub spoke) = Some y"
    and "getValue inp p = Some v" and "m \<in> set ms" and "enumKey lib (evHub m) = enumKey lib v"
    and "applyOp lib x inp out = Inr mid" and "getValue spokeObj p = getValue mid p"
    and "applyOp lib y spokeObj out2 = Inr res"
  shows "\<exists>v'\<in>evHub ` set ms. getValue res p = Some v' \<and> enumKey lib v' = enumKey lib v"
proof -
  let ?h = "enumTable lib evHub evSpoke ms" and ?s = "enumTable lib evSpoke evHub ms"
  have inj: "distinct (map (\<lambda>m. enumKey lib (evSpoke m)) ms)" using assms(1) by (simp add: resolveEnumRemap_def Let_def)
  obtain w where w: "map_of ?h (enumKey lib v) = Some w" using enumTable_mem[OF assms(5), of lib evHub] assms(6) by auto
  then obtain m' where m': "m' \<in> set ms" "enumKey lib (evHub m') = enumKey lib v" "evSpoke m' = w"
    using enumTable_Some by blast
  have x: "x = RemapEnumOp p ?h (policyOr onHub)" and y: "y = RemapEnumOp p ?s (policyOr onSpoke)"
    using assms(2,3) by (simp_all add: resolveEnumRemap_def Let_def)
  have "setValue out p w = Inr mid" using assms(4,7) w by (simp add: x applyRemapEnum_def withSource_def)
  then have "getValue spokeObj p = Some (evSpoke m')" using assms(8) m'(3) by (simp add: getValue_setValue)
  moreover have "map_of ?s (enumKey lib (evSpoke m')) = Some (evHub m')" by (rule enumTable_injective[OF inj m'(1)])
  ultimately have "setValue out2 p (evHub m') = Inr res"
    using assms(9) by (simp add: y applyRemapEnum_def withSource_def)
  then show ?thesis using m' by (auto simp: getValue_setValue)
qed

text \<open>
  Map keys there and back. Renames that compile without a diagnostic from the inversion, with
  one rename per hub key, bring a map back unchanged, provided that no key of the map is the
  target of a rename without being renamed itself.
\<close>

theorem map_key_rename_roundtrip:
  assumes "invertRenames idx name renames = (invRenames, [])" and "distinct (map fst renames)"
    and "getValue inp p = Some (JObj m)" and "distinct (map fst m)"
    and "\<forall>k\<in>fst ` set m. k \<in> fst ` set renames \<or> k \<notin> snd ` set renames"
    and "applyMapKeyRename p q renames inp out = Inr mid" and "getValue spoke q = getValue mid q"
    and "applyMapKeyRename q p invRenames spoke out2 = Inr res"
  shows "getValue res p = Some (JObj m)"
proof (rule rekeyed.field_roundtrip[OF assms(3) _ _ assms(6)[unfolded field_ops] assms(7) assms(8)[unfolded field_ops]])
  have inv: "invertLoop idx name renames [] = (invRenames, [])"
    using assms(1) by (auto simp: invertRenames_def split: if_splits)
  note I = invertLoop_clean[OF inv, simplified]
  have "renamed invRenames (renamed renames k) = k" if k: "k \<in> fst ` set m" for k
  proof (cases "map_of renames k")
    case (Some s)
    then have "map_of invRenames s = Some k" using I by (force dest: map_of_SomeD)
    then show ?thesis using Some by (simp add: renamed_def)
  next
    case None
    then have "k \<notin> snd ` set renames" using assms(5) k by (auto simp: map_of_eq_None_iff)
    then have "map_of invRenames k = None" using I by (cases "map_of invRenames k") (force simp: image_iff)+
    then show ?thesis using None by (simp add: renamed_def)
  qed
  then show "keysReturn renames invRenames (JObj m)" using assms(4) by (simp add: keysReturn_def)
  show "encKeys renames p q (JObj m) \<noteq> Inr None"
    by (cases "renameKeys renames q m []") (simp_all add: encKeys_def liftR_def)
qed

text \<open>
  Branches. A \<open>BranchMap\<close> operation that succeeds on a present union found exactly one of its
  branches set; it wrote that branch's translated value under the other side's name and, if there
  is a discriminator, its value for that branch.
\<close>

theorem branch_map_one_branch:
  assumes "getValue inp src = Some v" and "applyOp lib (BranchMapOp src dst disc bs) inp out = Inr out'"
  shows "\<exists>obj b u w. v = JObj obj \<and> filter (\<lambda>b. map_of obj (srcBranch b) \<noteq> None) bs = [b]
    \<and> map_of obj (srcBranch b) = Some u \<and> branchValue (\<lambda>b m. applyOps lib (nestedOps b) m []) src b u = Inr w
    \<and> (dstBranch b \<noteq> disc \<longrightarrow> getValue out' (dst @ [dstBranch b]) = Some w)
    \<and> (disc \<noteq> [] \<longrightarrow> getValue out' (dst @ [disc]) = Some (JStr (dstDiscriminator b)))"
proof -
  let ?run = "\<lambda>b m. applyOps lib (nestedOps b) m []"
  from assms obtain obj where v: "v = JObj obj"
    by (cases v) (simp_all add: applyBranchMap_def withSource_def)
  from assms v obtain b where b: "filter (\<lambda>b. map_of obj (srcBranch b) \<noteq> None) bs = [b]"
    by (auto simp: applyBranchMap_def withSource_def split: list.splits)
  have "b \<in> set (filter (\<lambda>b. map_of obj (srcBranch b) \<noteq> None) bs)" by (subst b) simp
  then obtain u where u: "map_of obj (srcBranch b) = Some u" by auto
  have "applyBranchMap ?run src dst disc bs inp out = bindR (branchValue ?run src b u) (\<lambda>w.
      bindR (setValue out (dst @ [dstBranch b]) w) (\<lambda>o'.
        if disc \<noteq> [] then setValue o' (dst @ [disc]) (JStr (dstDiscriminator b)) else Inr o'))"
    using assms(1) by (simp add: applyBranchMap_def withSource_def v b[simplified] u)
  then obtain w o' where w: "branchValue ?run src b u = Inr w" and o': "setValue out (dst @ [dstBranch b]) w = Inr o'"
    and fin: "(if disc \<noteq> [] then setValue o' (dst @ [disc]) (JStr (dstDiscriminator b)) else Inr o') = Inr out'"
    using assms(2) by (auto simp: bindR_Inr_iff)
  have "getValue out' (dst @ [dstBranch b]) = Some w" if "dstBranch b \<noteq> disc"
    using fin getValue_setValue[OF o'] getValue_setValue_parallel[of o' "dst @ [disc]"]
      parallel_branch[of disc "dstBranch b" dst "[]" "[]"] that
    by (cases "disc = []") auto
  moreover have "disc \<noteq> [] \<longrightarrow> getValue out' (dst @ [disc]) = Some (JStr (dstDiscriminator b))"
    using fin by (simp add: getValue_setValue split: if_splits)
  ultimately show ?thesis using v b u w by blast
qed

text \<open>
  Elements. A \<open>ForEach\<close> operation that succeeds on a present array converted each element on
  its own, from an empty object, and wrote the results in order.
\<close>

theorem foreach_elementwise:
  assumes "getValue inp src = Some v" and "applyOp lib (ForEachOp src dst nested) inp out = Inr out'"
  shows "\<exists>arr es. v = JArr arr \<and> getValue out' dst = Some (JArr es) \<and> length es = length arr
    \<and> (\<forall>i<length arr. \<exists>m m'. arr ! i = JObj m \<and> applyOps lib nested m [] = Inr m' \<and> es ! i = JObj m')"
proof -
  obtain arr where v: "v = JArr arr" using assms by (cases v) (simp_all add: applyForEach_def)
  then obtain es where es: "forEachElems src (\<lambda>m. applyOps lib nested m []) 0 arr = Inr es" "setValue out dst (JArr es) = Inr out'"
    using assms by (auto simp: applyForEach_def bindR_Inr_iff split: option.splits jval.splits if_splits)
  show ?thesis using v es(2) forEachElems_nth[OF es(1)] by (auto simp: getValue_setValue)
qed

text \<open>
  Integers. A successful coercion to an integer field, under any policy, yields a finite whole
  number less than one away from the number the value denotes.
\<close>

theorem coerce_integer_whole:
  assumes "coerceScalarValueWithPolicy lib v FieldKindInteger pol = Inr w"
  shows "\<exists>q i. numericAsFloat64 lib v = Inr (Fin q) \<and> w = JFloat (Fin (of_int i)) \<and> \<bar>q - of_int i\<bar> < 1"
proof -
  from assms obtain f g where f: "numericAsFloat64 lib v = Inr f"
    and g: "applyFractionalInteger f (normalizeFractionalPolicy pol) = Inr g" and w: "w = JFloat g"
    by (auto simp: coerceScalarValueWithPolicy_def bindR_Inr_iff)
  then obtain q where "f = Fin q" using numericAsFloat64_finite by blast
  then show ?thesis using f g w applyFractionalInteger_whole by blast
qed

section \<open>Analysis, assignment and serving\<close>

text \<open>
  Plans of an analysis. When \<open>Analyze\<close> attaches a plan to a spoke, the spoke is served, the
  plan holds the operations of compiling its rules against the hub's schema, and neither the
  compilation nor the required-field checks of the two directions nor the check against injected
  paths reported an error.
\<close>

theorem plan_only_when_clean:
  assumes "srCompiledPlan (analyzeSpoke lib injected versions hub hv rs) = Some p"
  shows "\<exists>spoke b. byName versions (rsSpokeVersion rs) = Some spoke \<and> vsServed spoke
    \<and> b = resolveAndBuildOps lib (rsRules rs) (vsSchema hub) (vsSchema spoke) (effectivePolicy (rsUnmappedFieldPolicy rs)) 0
    \<and> planHubToSpoke p = bH2s b \<and> planSpokeToHub p = bS2h b \<and> errorFree (bDiags b)
    \<and> errorFree (analyzeRequiredFields (vsSchema spoke) (vsSchema hub) (rsRules rs) (bResults b) ''spoke'')
    \<and> errorFree (analyzeRequiredFields (vsSchema hub) (vsSchema spoke) (rsRules rs) (bResults b) ''hub'')
    \<and> errorFree (checkRuleTargets injected (bResults b))"
  using analyzeSpoke_plan[OF assms] by metis

text \<open>
  C9: required fields. Let the required-field check of a direction report no error, and let a required
  leaf of the destination have parents that are each required themselves or written, or written into, by
  a rule. Then the leaf has a default; or some rule writes it that carries no condition and either has
  one of the strategies CEL, JSONPatch, ScalarToFields, Constant and DefaultValue or reads only
  required leaves of the source; or no rule writes it, and it is a required leaf of the source under the
  same path or one of its parents is written by a rule as a whole.
\<close>

theorem required_fields_guaranteed:
  assumes "errorFree (analyzeRequiredFields dst src rules results ds)" and "wf_schema dst"
    and "l \<in> set (flattenSchema dst)" and "lfRequired l"
    and "parentsPresent dst (lfPath l) (concat (map (\<lambda>rr. if ds = ''hub'' then rrHubPaths rr else rrSpokePaths rr) results))"
  shows "sDefault (lfSchema l) \<noteq> None
    \<or> (\<exists>rr\<in>set results. leafKey l \<in> set (if ds = ''hub'' then rrHubPaths rr else rrSpokePaths rr)
        \<and> (\<forall>r. List.find (\<lambda>r. ruleSourceIndex r = rrIndex rr) rules = Some r \<longrightarrow> ruleWhen r = None)
        \<and> (rrStrategy rr \<in> {''CEL'', ''JSONPatch'', ''ScalarToFields'', ''Constant'', ''DefaultValue''}
           \<or> (\<forall>p\<in>set (if ds = ''hub'' then rrSpokePaths rr else rrHubPaths rr). requiredLeafOf src p)))
    \<or> (\<forall>rr\<in>set results. leafKey l \<notin> set (if ds = ''hub'' then rrHubPaths rr else rrSpokePaths rr))
        \<and> (requiredLeafOf src (leafKey l)
           \<or> parentWritten (lfPath l) (concat (map (\<lambda>rr. if ds = ''hub'' then rrHubPaths rr else rrSpokePaths rr) results)))"
proof -
  have paths: "(\<lambda>rr. if ds = ''hub'' then rrHubPaths rr else rrSpokePaths rr) = destOf ds" by (simp add: destOf_def fun_eq_iff)
  note spec = ancestors_spec[OF flattenSchema_lookup[OF assms(3,2)]]
  show ?thesis
  proof (cases "sDefault (lfSchema l)")
    case None
    from required_clean[OF assms(1,3,4) spec(1)[OF assms(5)[unfolded paths]] None]
    consider (written) i where "i \<in> set (writersOf ds results (leafKey l))"
        "fst (verdictForRule (ruleFor rules (results ! i)) (results ! i) (sourceRequired src) ds) \<le> satisfiedUnprovably"
      | (unwritten) "writersOf ds results (leafKey l) = []"
        "leafKey l \<in> set (sourceRequired src) \<or> snd (ancestorsPresent dst (lfPath l) (concat (map (destOf ds) results)))"
      by blast
    then show ?thesis
    proof cases
      case (written i)
      then have "results ! i \<in> set results" by (simp add: set_writersOf)
      then show ?thesis using written unfolding set_writersOf verdictForRule_strong sourceRequired_iff ruleFor_def by fastforce
    next
      case unwritten
      then have "\<forall>rr\<in>set results. leafKey l \<notin> set (if ds = ''hub'' then rrHubPaths rr else rrSpokePaths rr)"
        using set_writersOf[of _ ds results "leafKey l"] by (metis in_set_conv_nth empty_iff list.set(1))
      then show ?thesis unfolding paths using unwritten(2) spec(2) sourceRequired_iff by blast
    qed
  qed simp
qed

theorem required_fields_guaranteed_witness:
  "\<exists>rr\<in>set exNeededResults. ''spec.replicas'' \<in> set (rrSpokePaths rr)
     \<and> (\<forall>r. List.find (\<lambda>r. ruleSourceIndex r = rrIndex rr) exRules = Some r \<longrightarrow> ruleWhen r = None) \<and> (\<forall>p\<in>set (rrHubPaths rr). requiredLeafOf exNeededHub p)"
proof -
  let ?l = "flattenSchema exNeededSpoke ! 0"
  have l: "lfPath ?l = [''spec'', ''replicas'']" "leafKey ?l = ''spec.replicas''" "sDefault (lfSchema ?l) = None" by code_simp+
  have written: "concat (map (\<lambda>rr. if ''spoke'' = ''hub'' then rrHubPaths rr else rrSpokePaths rr) exNeededResults) = [''spec.replicas'']"
    using exNeeded_results(2) by simp
  have "sDefault (lfSchema ?l) \<noteq> None
    \<or> (\<exists>rr\<in>set exNeededResults. leafKey ?l \<in> set (if ''spoke'' = ''hub'' then rrHubPaths rr else rrSpokePaths rr)
        \<and> (\<forall>r. List.find (\<lambda>r. ruleSourceIndex r = rrIndex rr) exRules = Some r \<longrightarrow> ruleWhen r = None)
        \<and> (rrStrategy rr \<in> {''CEL'', ''JSONPatch'', ''ScalarToFields'', ''Constant'', ''DefaultValue''}
           \<or> (\<forall>p\<in>set (if ''spoke'' = ''hub'' then rrSpokePaths rr else rrHubPaths rr). requiredLeafOf exNeededHub p)))
    \<or> (\<forall>rr\<in>set exNeededResults. leafKey ?l \<notin> set (if ''spoke'' = ''hub'' then rrHubPaths rr else rrSpokePaths rr))
        \<and> (requiredLeafOf exNeededHub (leafKey ?l)
           \<or> parentWritten (lfPath ?l) (concat (map (\<lambda>rr. if ''spoke'' = ''hub'' then rrHubPaths rr else rrSpokePaths rr) exNeededResults)))"
  proof (rule required_fields_guaranteed)
    show "errorFree (analyzeRequiredFields exNeededSpoke exNeededHub exRules exNeededResults ''spoke'')" by code_simp
    show "wf_schema exNeededSpoke" by code_simp
    show "?l \<in> set (flattenSchema exNeededSpoke)" "lfRequired ?l" by code_simp+
    show "parentsPresent exNeededSpoke (lfPath ?l) (concat (map (\<lambda>rr. if ''spoke'' = ''hub'' then rrHubPaths rr else rrSpokePaths rr) exNeededResults))"
      unfolding written l(1) by (rule exNeeded_parents)
  qed
  then show ?thesis using l exNeeded_results by auto
qed

text \<open>
  C11: assignment. The server a configuration is assigned to, and the error when there is none,
  do not depend on the order in which the servers are listed, when the score of every server is a number
  other than negative infinity.
\<close>

theorem assignment_order_independent:
  assumes "mset servers = mset servers'" and "scored logf (cfgShardKey cfg) servers"
  shows "ResolveAssignment logf cfg servers = ResolveAssignment logf cfg servers'"
  using assms by (rule assignment_order)

theorem assignment_order_independent_witness:
  "ResolveAssignment exLog exConfig exServers
    = ResolveAssignment exLog exConfig (rev exServers)"
proof (rule assignment_order_independent)
  show "scored exLog (cfgShardKey exConfig) exServers" by (rule exServers_scored)
qed simp

text \<open>
  Minimal movement. Adding a server to the shard pool moves an unpinned configuration to the
  new server or not at all.
\<close>

theorem assignment_minimal_movement:
  assumes "unpinned cfg" and "ShardPool servers \<noteq> []" and "ShardingEnabled x"
    and "scored logf (cfgShardKey cfg) (x # servers)"
  shows "ResolveAssignment logf cfg (x # servers) = Inr (wsName x)
    \<or> ResolveAssignment logf cfg (x # servers) = ResolveAssignment logf cfg servers"
  using assms by (rule assignment_add)

text \<open>
  C12: the registry. After any history of atomic steps from an empty registry, a resource is served
  with the router of its last \<open>Set\<close>, unless it was removed since; recorded errors never change what
  is served.
\<close>

theorem registry_serves_last:
  assumes "registry_run NewRegistry evs r"
  shows "served r x = (case rev (filter (decides x) evs) of [] \<Rightarrow> None | ev # _ \<Rightarrow> decision ev)"
  using assms by (rule run_served)

theorem registry_serves_last_witness:
  "served (RecordError (registrySet NewRegistry ''x'' zeroEntry) ''x'' ''boom'' 7) ''x''
    = (case rev (filter (decides ''x'') [SetEvent ''x'' zeroEntry, ErrorEvent ''x'' ''boom'' 7]) of [] \<Rightarrow> None | ev # _ \<Rightarrow> decision ev)"
  by (rule registry_serves_last[OF run_step[OF step_set run_step[OF step_error run_nil]]])

text \<open>
  The unit a shard score is computed from. For every hash it is \<open>(h mod 2\<^sup>53 + 1) / 2\<^sup>53\<close>, exactly:
  positive and at most one. One itself is reached, because the divisor \<open>2\<^sup>53 + 1\<close> is not a float.
\<close>

theorem shard_unit_exact:
  "shardUnit h = Fin (of_int (int (unat h mod 2 ^ 53 + 1)) / 2 ^ 53)
   \<and> (0 :: rat) < of_int (int (unat h mod 2 ^ 53 + 1)) / 2 ^ 53 \<and> of_int (int (unat h mod 2 ^ 53 + 1)) / 2 ^ 53 \<le> (1 :: rat)
   \<and> shardUnit 9007199254740991 = Fin 1"
proof (intro conjI)
  show "shardUnit h = Fin (of_int (int (unat h mod 2 ^ 53 + 1)) / 2 ^ 53)" by (rule shardUnit_value)
  have "unat h mod 2 ^ 53 + 1 \<le> 2 ^ 53" using mod_less_divisor[of "2 ^ 53" "unat h"] by simp
  then have "of_nat (unat h mod 2 ^ 53 + 1) \<le> (of_nat (2 ^ 53) :: rat)" by (simp only: of_nat_le_iff)
  then show "of_int (int (unat h mod 2 ^ 53 + 1)) / 2 ^ 53 \<le> (1 :: rat)" by simp
  show "shardUnit 9007199254740991 = Fin 1" unfolding shardUnit_value by simp
qed simp

section \<open>Admission of configurations\<close>

text \<open>
  C13: a configuration that is admitted while its target exists is one the engine can serve. Its
  rules translate, the analysis against the live schema succeeds, the spokes of the report are the
  declared ones, pairwise different and none of them the hub, and each carries a compiled plan
  between the hub and its version.
\<close>

theorem admitted_config_compiles:
  assumes "validateConfig lib k enabled cl cfg = (ws, None)" and "clTarget cl (ccTarget cfg) = Some src"
  shows "\<exists>ruleSets report. ToRuleSets lib cfg = Inr ruleSets \<and> analyzeTarget lib cfg src ruleSets = Inr report
    \<and> map srVersion (arSpokeReports report) = map svVersion (ccSpokes cfg)
    \<and> distinct (map svVersion (ccSpokes cfg)) \<and> ccHubVersion cfg \<notin> set (map svVersion (ccSpokes cfg))
    \<and> (\<forall>sr\<in>set (arSpokeReports report). \<exists>p. srCompiledPlan sr = Some p \<and> HubVersion p = ccHubVersion cfg \<and> SpokeVersion p = srVersion sr)"
proof -
  obtain ruleSets report where tr: "ToRuleSets lib cfg = Inr ruleSets" and an: "analyzeTarget lib cfg src ruleSets = Inr report"
    and ok: "\<not> HasErrors report" using validateConfig_ok(4)[OF assms] by blast
  note clean = AnalyzeConfig_clean[OF an[unfolded analyzeTarget_def] ok]
  from clean ToRuleSets_versions[OF tr] ValidateStructure_spokes(2,3)[OF validateConfig_ok(2)[OF assms(1)]] tr an
  show ?thesis by auto
qed

theorem admitted_config_compiles_witness:
  "\<exists>ruleSets report. ToRuleSets nolib exConfigObject = Inr ruleSets \<and> analyzeTarget nolib exConfigObject exSource ruleSets = Inr report
    \<and> map srVersion (arSpokeReports report) = map svVersion (ccSpokes exConfigObject)
    \<and> distinct (map svVersion (ccSpokes exConfigObject)) \<and> ccHubVersion exConfigObject \<notin> set (map svVersion (ccSpokes exConfigObject))
    \<and> (\<forall>sr\<in>set (arSpokeReports report). \<exists>p. srCompiledPlan sr = Some p \<and> HubVersion p = ccHubVersion exConfigObject \<and> SpokeVersion p = srVersion sr)"
proof (rule admitted_config_compiles)
  show "validateConfig nolib XRDKind True (viewOf exCluster noConfigs) exConfigObject = ([], None)" by (rule exConfigObject_admitted)
  show "clTarget (viewOf exCluster noConfigs) (ccTarget exConfigObject) = Some exSource" by code_simp
qed

text \<open>
  C14: registry keys stay unique. In every cluster reached from an empty one by creating, updating
  and deleting configurations of both kinds, each write stored only when its validator admits it
  against the configurations present, at most one configuration has a given non-empty target.
\<close>

theorem registry_keys_unique:
  assumes "(admit_step lib)\<^sup>*\<^sup>* noConfigs st" and "t \<noteq> []"
  shows "length (filter (\<lambda>entry. snd entry = t) (stXRDs st @ stCRDs st)) \<le> 1"
proof -
  have "keysUnique st" using keysUnique_steps[OF assms(1)] by (simp add: keysUnique_def noConfigs_def targetsOf_def)
  then have "distinct (targetsOf (stXRDs st @ stCRDs st))" by (simp add: keysUnique_def targetsOf_def)
  then show ?thesis using assms(2) by (rule targetsOf_once)
qed

theorem registry_keys_unique_witness:
  "length (filter (\<lambda>entry. snd entry = ''xwidgets'')
     (stXRDs (storeConfig XRDKind ''widgets'' ''xwidgets'' noConfigs) @ stCRDs (storeConfig XRDKind ''widgets'' ''xwidgets'' noConfigs))) \<le> 1"
proof (rule registry_keys_unique)
  have "admit_step nolib noConfigs (storeConfig XRDKind (ccName exConfigObject) (ccTarget exConfigObject) noConfigs)"
    using exConfigObject_admitted by (rule admit_put)
  then show "(admit_step nolib)\<^sup>*\<^sup>* noConfigs (storeConfig XRDKind ''widgets'' ''xwidgets'' noConfigs)"
    by (simp add: exConfigObject_def r_into_rtranclp)
qed simp

section \<open>Serving conversions\<close>

text \<open>
  C18: a review within its time budget is answered object by object or fails as a whole. The reply to
  a POST for a registered target echoes the UID of the request; it delivers, in the order of the
  request, the answer to each object when every object has one, and a failure with no objects
  otherwise.
\<close>

theorem review_answered:
  assumes "registryGet reg (trimPrefix urlPath ''/convert/'') = Some entry" and "ceRouter entry = Some router"
    and "\<forall>i. \<not> expired i"
  shows "case those (map (objectAnswer lib router (rqDesiredAPIVersion rq)) (rqObjects rq)) of
      Some answers \<Rightarrow> fst (handleConvert lib s reg expired ''POST'' urlPath (BodyReview (Some rq))) = Review (rqUID rq) (Success answers)
    | None \<Rightarrow> (\<exists>m. fst (handleConvert lib s reg expired ''POST'' urlPath (BodyReview (Some rq))) = Review (rqUID rq) (Failure m))"
  using serveReview_answers[OF assms(3), where lib = lib and router = router and rq = rq and s = s and x = "trimPrefix urlPath ''/convert/''" and entry = entry] assms(1,2)
  by (auto simp: handleConvert_def answerReview_def split: option.splits)

theorem review_answered_witness:
  "fst (handleConvert exLib exServer exRegistry exNever ''POST'' ''/convert/xwidgets'' (BodyReview (Some exRequest)))
    = Review ''u-1'' (Success [''answered'', ''answered''])"
proof -
  have "those (map (objectAnswer exLib exRouter (rqDesiredAPIVersion exRequest)) (rqObjects exRequest)) = Some [''answered'', ''answered'']"
    by code_simp
  moreover have "registryGet exRegistry (trimPrefix ''/convert/xwidgets'' ''/convert/'') = Some exEntry"
    by (simp add: exRegistry_def registryGet_def registrySet_def trimPrefix_def hasPrefix_def)
  moreover have "ceRouter exEntry = Some exRouter" "\<forall>i. \<not> exNever i" "rqUID exRequest = ''u-1''"
    by (simp_all add: exEntry_def exNever_def exRequest_def)
  ultimately show ?thesis
    using review_answered[of exRegistry "''/convert/xwidgets''" exEntry exRouter exNever exLib exServer exRequest] by (simp only: option.case) simp
qed

text \<open>
  C19: what a review delivers is acceptable to the API server. Whatever the time budget, a successful
  reply carries the UID of the request and one object per object sent, in order; each is the
  router's conversion of the decoded object with the desired \<open>apiVersion\<close>, a metadata field that is
  not null, and no other field changed.
\<close>

theorem delivered_objects_valid:
  assumes "fst (handleConvert lib s reg expired httpMethod urlPath (BodyReview (Some rq))) = Review uid (Success outs)"
  shows "uid = rqUID rq \<and> (\<exists>entry router. registryGet reg (trimPrefix urlPath ''/convert/'') = Some entry \<and> ceRouter entry = Some router
    \<and> list_all2 (\<lambda>raw b. \<exists>d out res. decodeObject lib raw = Inr d
        \<and> routerConvert lib router (case d of None \<Rightarrow> [] | Some m \<Rightarrow> m) (objectVersion lib raw) (versionOf (rqDesiredAPIVersion rq)) = Inr out
        \<and> lib_Marshal lib (JObj res) = Inr b \<and> map_of res ''apiVersion'' = Some (JStr (rqDesiredAPIVersion rq))
        \<and> (\<exists>md. map_of res ''metadata'' = Some md \<and> md \<noteq> JNull)
        \<and> (\<forall>k. k \<noteq> ''apiVersion'' \<longrightarrow> k \<noteq> ''metadata'' \<longrightarrow> map_of res k = map_of out k)) (rqObjects rq) outs)"
proof -
  from assms obtain entry router st where uid: "uid = rqUID rq"
      and e: "registryGet reg (trimPrefix urlPath ''/convert/'') = Some entry" "ceRouter entry = Some router"
      and st: "serveReview lib s (trimPrefix urlPath ''/convert/'') entry router expired rq = Inr st" "outs = lsConverted st"
    by (auto simp: handleConvert_def answerReview_def notRegistered_def Let_def split: if_splits option.splits sum.splits)
  have "list_all2 (\<lambda>raw b. objectAnswer lib router (rqDesiredAPIVersion rq) raw = Some b) (rqObjects rq) outs"
    using serveReview_delivered[OF st(1)] st(2) by simp
  then have "list_all2 (\<lambda>raw b. \<exists>d out res. decodeObject lib raw = Inr d
        \<and> routerConvert lib router (case d of None \<Rightarrow> [] | Some m \<Rightarrow> m) (objectVersion lib raw) (versionOf (rqDesiredAPIVersion rq)) = Inr out
        \<and> lib_Marshal lib (JObj res) = Inr b \<and> map_of res ''apiVersion'' = Some (JStr (rqDesiredAPIVersion rq))
        \<and> (\<exists>md. map_of res ''metadata'' = Some md \<and> md \<noteq> JNull)
        \<and> (\<forall>k. k \<noteq> ''apiVersion'' \<longrightarrow> k \<noteq> ''metadata'' \<longrightarrow> map_of res k = map_of out k)) (rqObjects rq) outs"
    by (rule list_all2_mono) (rule objectAnswer_valid)
  with uid e show ?thesis by blast
qed

theorem delivered_objects_valid_witness:
  "''u-1'' = rqUID exRequest \<and> (\<exists>entry router. registryGet exRegistry (trimPrefix ''/convert/xwidgets'' ''/convert/'') = Some entry \<and> ceRouter entry = Some router
    \<and> list_all2 (\<lambda>raw b. \<exists>d out res. decodeObject exLib raw = Inr d
        \<and> routerConvert exLib router (case d of None \<Rightarrow> [] | Some m \<Rightarrow> m) (objectVersion exLib raw) (versionOf (rqDesiredAPIVersion exRequest)) = Inr out
        \<and> lib_Marshal exLib (JObj res) = Inr b \<and> map_of res ''apiVersion'' = Some (JStr (rqDesiredAPIVersion exRequest))
        \<and> (\<exists>md. map_of res ''metadata'' = Some md \<and> md \<noteq> JNull)
        \<and> (\<forall>k. k \<noteq> ''apiVersion'' \<longrightarrow> k \<noteq> ''metadata'' \<longrightarrow> map_of res k = map_of out k)) (rqObjects exRequest) [''answered'', ''answered''])"
proof (rule delivered_objects_valid)
  show "fst (handleConvert exLib exServer exRegistry exNever ''POST'' ''/convert/xwidgets'' (BodyReview (Some exRequest)))
      = Review ''u-1'' (Success [''answered'', ''answered''])" by code_simp
qed

text \<open>
  Lossy conversions are counted when they are delivered. With metrics on, the increments of the
  lossy counter that one review makes are those of the hops of all its objects when the review
  succeeds, and none when it fails, whichever object or check failed.
\<close>

theorem lossy_counted_when_delivered:
  assumes "registryGet reg (trimPrefix urlPath ''/convert/'') = Some entry" and "ceRouter entry = Some router" and "srvHasMetrics s"
  shows "filter isLossyEvent (snd (handleConvert lib s reg expired ''POST'' urlPath (BodyReview (Some rq)))) =
    (case fst (handleConvert lib s reg expired ''POST'' urlPath (BodyReview (Some rq))) of
       Review uid (Success outs) \<Rightarrow> concat (map (recordLossy entry (trimPrefix urlPath ''/convert/''))
         (concat (map (objectHops lib router (rqDesiredAPIVersion rq)) (rqObjects rq))))
     | _ \<Rightarrow> [])"
  using serveReview_lossy[where lib = lib and s = s and x = "trimPrefix urlPath ''/convert/''" and entry = entry and router = router
    and expired = expired and rq = rq] assms
  by (auto simp: handleConvert_def answerReview_def split: sum.splits)

text \<open>
  An oversized review is refused under its own UID. When the body is cut off at the limit and
  its bytes, however they were chunked, start as the API server writes a review, the refusal carries
  the UID of the request; the handler keeps the first 8 KiB only.
\<close>

theorem oversized_review_uid:
  assumes "concat chunks = reviewHeader @ uid @ CHR 0x22 # rest" and "CHR 0x22 \<notin> set uid"
    and "length reviewHeader + length uid < uidSniffBytes"
  shows "\<exists>m. fst (handleConvert lib s reg expired ''POST'' urlPath (BodyTooLarge limit chunks)) = Review uid (Failure m)"
proof -
  have "fold (recordPrefix uidSniffBytes) chunks [] = take uidSniffBytes (reviewHeader @ uid @ CHR 0x22 # rest)"
    using recordPrefix_fold[of "[]" uidSniffBytes chunks] assms(1) by simp
  also have "\<dots> = reviewHeader @ uid @ CHR 0x22 # take (uidSniffBytes - length reviewHeader - length uid - 1) rest"
    using assms(3) by (simp add: take_Cons')
  finally show ?thesis using sniff_reviewHeader[OF assms(2)] by (simp add: handleConvert_def Let_def)
qed

section \<open>The fleet of webhook servers\<close>

text \<open>
  C20: assignment is never ambiguous. In every fleet reached from an empty one by admitted creates
  and updates and by deletes, at most one server is the default, the default shards whenever any
  server does, and a configuration without an explicit reference resolves to a server unless the
  fleet has neither a default nor a shard.
\<close>

theorem fleet_unambiguous:
  assumes "(fleet_step lib)\<^sup>*\<^sup>* [] fleet"
  shows "length (filter wsDefault fleet) \<le> 1
    \<and> (ShardPool fleet \<noteq> [] \<longrightarrow> list_all ShardingEnabled (filter wsDefault fleet))
    \<and> (unpinned cfg \<longrightarrow> (\<exists>n. ResolveAssignment logf cfg fleet = Inr n) \<or> ShardPool fleet = [] \<and> filter wsDefault fleet = [])"
proof -
  have ok: "fleetOk fleet" using assms by (rule fleetOk_reachable)
  have "ShardPool fleet \<noteq> [] \<longrightarrow> list_all ShardingEnabled (filter wsDefault fleet)"
    using ok by (auto simp: fleetOk_def ShardPool_Nil_iff list_all_iff)
  with fleetOk_defaults[OF ok] show ?thesis by (auto simp: resolve_unpinned resolveUnpinned_def)
qed

theorem fleet_unambiguous_witness:
  "length (filter wsDefault [hd exServers]) \<le> 1
    \<and> (\<exists>n. ResolveAssignment exLog exConfig [hd exServers] = Inr n)"
proof -
  have "fleet_step nolib [] (fleetWith (soServer exServerObject) [])"
    using exServerObject_admitted by (rule fleet_put) code_simp
  then have "(fleet_step nolib)\<^sup>*\<^sup>* [] [hd exServers]" by (simp add: fleetWith_def exServerObject_def r_into_rtranclp)
  from fleet_unambiguous[OF this, of exConfig exLog] show ?thesis
    by (simp add: unpinned_def exConfig_def exServers_def ShardPool_Nil_iff ShardingEnabled_def)
qed

text \<open>
  C21: an admitted delete moves nothing. In a fleet that came about by admitted writes and by deletes, let
  the deletion of a member without the force annotation be admitted, all lists having been read. Then no
  configuration of those lists is served by it, and each of them that resolved to a server resolves to
  the same one afterwards, whether it was pinned, sharded or on the default, when the scores of the
  fleet for its key are numbers other than negative infinity. A delete with the force annotation is
  admitted whatever it moves.
\<close>

theorem delete_moves_nothing:
  assumes "validateServerDelete logf (Inr xrds) (Inr crds) (Inr fleet) server = Inr ()" and "soForceDelete server \<noteq> ''true''"
    and "(fleet_step lib)\<^sup>*\<^sup>* [] fleet" and "soServer server \<in> set fleet"
    and "(n, cfg) \<in> set xrds \<union> set crds" and "scored logf (cfgShardKey cfg) fleet"
  shows "\<not> ServedBy logf cfg fleet (wsName (soServer server))
    \<and> (ResolveAssignment logf cfg fleet = Inr m \<longrightarrow>
        ResolveAssignment logf cfg (withoutServer (wsName (soServer server)) fleet) = Inr m)"
proof -
  have unserved: "\<not> ServedBy logf cfg fleet (wsName (soServer server))"
    using assms(1,2,5) by (rule delete_admitted_unserved)
  then have "m \<noteq> wsName (soServer server)" if "ResolveAssignment logf cfg fleet = Inr m"
    using that by (auto simp: ServedBy_def IsAssignedTo_def)
  then show ?thesis using unserved delete_keeps_assignment[OF fleetOk_reachable[OF assms(3)] assms(4,6)] by blast
qed

theorem delete_moves_nothing_witness:
  "validateServerDelete exLog (Inr [(''c'', \<lparr>cfgRef = Some ''a'', cfgShardKey = ''k'', cfgAppliedURL = []\<rparr>)]) (Inr []) (Inr exServers) exSecondServer = Inr ()
    \<and> ResolveAssignment exLog \<lparr>cfgRef = Some ''a'', cfgShardKey = ''k'', cfgAppliedURL = []\<rparr> exServers = Inr ''a''
    \<and> ResolveAssignment exLog \<lparr>cfgRef = Some ''a'', cfgShardKey = ''k'', cfgAppliedURL = []\<rparr> (withoutServer ''b'' exServers) = Inr ''a''"
proof -
  let ?c = "\<lparr>cfgRef = Some ''a'', cfgShardKey = ''k'', cfgAppliedURL = []\<rparr>"
  have ok: "validateServerDelete exLog (Inr [(''c'', ?c)]) (Inr []) (Inr exServers) exSecondServer = Inr ()"
    by (simp add: validateServerDelete_def ServedBy_def IsAssignedTo_def ResolveAssignment_def TargetPointsAt_def exServers_def exSecondServer_def exServerObject_def)
  have before: "ResolveAssignment exLog ?c exServers = Inr ''a''" by (simp add: ResolveAssignment_def exServers_def)
  have b: "soServer exSecondServer = exServers ! 1" "wsName (exServers ! 1) = ''b''" by (simp_all add: exSecondServer_def exServers_def)
  have "ResolveAssignment exLog ?c (withoutServer (wsName (soServer exSecondServer)) exServers) = Inr ''a''"
    using delete_moves_nothing[OF ok _ exServers_reached, of "''c''" ?c "''a''"] before exServers_scored[of "''k''"] b
    by (simp add: exSecondServer_def exServerObject_def) (simp add: exServers_def)
  then show ?thesis using ok before b by simp
qed

text \<open>
  A replica drains before it is killed. When the rollout of a server is admitted, its sleep
  before the termination signal plus the effective shutdown timeout is less than the grace period,
  as numbers of nanoseconds, provided the sum itself is a duration.
\<close>

theorem rollout_drains_in_time:
  assumes "validateServer lib listed server = Inr ()"
    and "shutdownTimeoutFromArgs lib (soExtraArgs server) = Inr shutdown" and "0 \<le> sint shutdown"
    and "0 \<le> sint (preStopOf (soRollout server))" and "0 \<le> sint (graceOf (soRollout server))"
    and "sint (preStopOf (soRollout server)) * 1000000000 + sint shutdown < 2 ^ 63"
  shows "sint (preStopOf (soRollout server)) * 1000000000 + sint shutdown < sint (graceOf (soRollout server)) * 1000000000"
  using rollout_fits[OF _ assms(2,4,3,5,6)] assms(1) by (auto simp: validateServer_def bindR_Inr_iff)

text \<open>
  Extra arguments cannot override what the operator sets, as long as flags are written with two
  dashes. Of validated arguments none that \<open>flag.Parse\<close> reads assigns an operator-managed flag,
  whichever flags take a value.
\<close>

theorem extra_args_cannot_override:
  assumes "ValidateWebhookServerExtraArgs args = Inr ()" and "\<forall>a\<in>set args. hasPrefix a ''-'' \<longrightarrow> hasPrefix a ''--''"
    and "(name, v) \<in> set (goParseFlags isBool args)"
  shows "name \<notin> set operatorManagedWebhookServerFlagNames"
proof -
  from goParseFlags_arg[OF assms(3)] obtain a w where a: "a \<in> set args" "goFlag a = Some (name, w)" by blast
  then have "hasPrefix a ''-''" by (intro goFlag_dash) auto
  then have "longFlagName a = Some name" using a assms(2) goFlag_longFlagName by blast
  then show ?thesis using extraArgs_unmanaged[OF assms(1) a(1)] by blast
qed

section \<open>The guard of XRD writes\<close>

text \<open>
  C33: the guard restores, and does nothing else. When it patches a write to an XRD, exactly one
  configuration targets it, that configuration has been applied and is not being deleted, and a
  webhook in the written object is the operator's own; outside \<open>spec.conversion\<close> and the annotations
  the patched object is the written one.
\<close>

theorem guard_only_restores:
  assumes "k8sLaws k" and "getValue xrd [''metadata''] = Some (JObj md)" and "Handle lib k index name (Inr xrd) = Some patched"
  shows "\<exists>cfg. index name = Inr [cfg] \<and> acLastAppliedPlanHash cfg \<noteq> [] \<and> k8_IsStatusConditionTrue k (acConditions cfg) ''Applied''
    \<and> \<not> acDeleting cfg
    \<and> (stringOr (k8_NestedString k xrd [''spec'', ''conversion'', ''strategy'']) = ''Webhook'' \<longrightarrow> annotation k xrd ManagedByAnnotation = acName cfg)
    \<and> (\<forall>q. parallel [''spec'', ''conversion''] q \<longrightarrow> parallel [''metadata'', ''annotations''] q \<longrightarrow> getValue patched q = getValue xrd q)"
proof -
  obtain cfg where cfg: "index name = Inr [cfg]" "shouldRestoreConversion k xrd cfg = Inr ()" "applyConversionToXRD k xrd cfg = Inr patched"
    using assms(3) by (rule Handle_Some)
  have "\<forall>q. parallel [''spec'', ''conversion''] q \<longrightarrow> parallel [''metadata'', ''annotations''] q \<longrightarrow> getValue patched q = getValue xrd q"
    using applied_stanza[OF assms(1) cfg(3) assms(2)] by metis
  with cfg show ?thesis by (intro exI[of _ cfg]) (auto simp: shouldRestoreConversion_def Let_def split: if_splits sum.splits)
qed

theorem guard_only_restores_witness:
  "\<exists>cfg. exIndex ''xwidgets'' = Inr [cfg] \<and> acLastAppliedPlanHash cfg \<noteq> [] \<and> k8_IsStatusConditionTrue exK8s (acConditions cfg) ''Applied''
    \<and> \<not> acDeleting cfg
    \<and> (stringOr (k8_NestedString exK8s exXRD [''spec'', ''conversion'', ''strategy'']) = ''Webhook'' \<longrightarrow> annotation exK8s exXRD ManagedByAnnotation = acName cfg)
    \<and> (\<forall>q. parallel [''spec'', ''conversion''] q \<longrightarrow> parallel [''metadata'', ''annotations''] q \<longrightarrow> getValue exRestored q = getValue exXRD q)"
  by (rule guard_only_restores[OF exK8s_laws _ exXRD_restored]) (simp add: exXRD_def getValue_Cons)

text \<open>
  C34: restoring is stable and is what the controller applies, the CA bundle apart. For a written object
  with metadata, the object the guard has patched is not patched again. Every field of its
  \<open>spec.conversion\<close> other than the CA bundle is that of the controller's patch for the same coordinates
  and review versions. The CA bundle is the one the written object carried, and is missing when it
  carried none.
\<close>

theorem guard_restores_applied:
  assumes "k8sLaws k" and "getValue xrd [''metadata''] = Some (JObj md)" and "Handle lib k index name (Inr xrd) = Some patched"
  shows "Handle lib k index name (Inr patched) = None
    \<and> (\<exists>cfg svc. index name = Inr [cfg] \<and> guardWebhookService k cfg = Inr svc
      \<and> (pServiceName p = gsName svc \<longrightarrow> pServiceNamespace p = gsNamespace svc \<longrightarrow> pPath p = acWebhookPath cfg \<longrightarrow> pPort p = gsPort svc
          \<longrightarrow> pReviewVersions p = restoredVersions cfg
          \<longrightarrow> (\<forall>q. parallel caPath ([''spec'', ''conversion''] @ q)
                \<longrightarrow> getValue patched ([''spec'', ''conversion''] @ q) = getValue (BuildXRDConversionPatch p) ([''spec'', ''conversion''] @ q))))
    \<and> getValue patched caPath = (let ca = stringOr (k8_NestedString k xrd caPath) in if ca = [] then None else Some (JStr ca))"
proof -
  obtain cfg where cfg: "index name = Inr [cfg]" "name \<noteq> []" "applyConversionToXRD k xrd cfg = Inr patched"
    using assms(3) by (rule Handle_Some)
  obtain svc where svc: "guardWebhookService k cfg = Inr svc" using cfg(3) by (auto simp: applyConversionToXRD_def bindR_Inr_iff)
  have "Handle lib k index name (Inr patched) = None"
    using restored_is_stable[OF assms(1) cfg(3) assms(2)] cfg(1,2) by (auto simp: Handle_def lookupConfig_def)
  then show ?thesis using cfg(1) svc restored_fields[OF assms(1) cfg(3) assms(2) svc] by blast
qed

theorem guard_restores_applied_witness:
  "Handle exLib exK8s exIndex ''xwidgets'' (Inr exRestored) = None
    \<and> getValue exRestored caPath = (let ca = stringOr (k8_NestedString exK8s exXRD caPath) in if ca = [] then None else Some (JStr ca))"
  using guard_restores_applied[OF exK8s_laws _ exXRD_restored] by (simp add: exXRD_def getValue_Cons)

section \<open>Replicas\<close>

text \<open>
  C15: an admitted configuration is served by the replica it is assigned to. When a configuration was
  admitted against the schema its target has, one call of the reconciler of its replica leaves the
  target served by a router that has the hub version and a compiled plan for every declared spoke,
  and leaves every other target as it was.
\<close>

theorem admitted_config_served:
  assumes "validateConfig lib k enabled cl (lcConfig lc) = (ws, None)" and "clTarget cl (ccTarget (lcConfig lc)) = Some (ltSource t)"
    and "\<not> lcDeleting lc" and "isMine logf rc (lcConfig lc) items"
  shows "\<exists>router. served (rpRegistry (snd (reconcileOne lib logf sprint rc k name (Found lc) (Inr items) (Found t) now r)))
      = (served (rpRegistry r))(ccTarget (lcConfig lc) \<mapsto> router)
    \<and> routerHub router = ccHubVersion (lcConfig lc)
    \<and> list_all (\<lambda>v. \<exists>p. map_of (routerPlans router) v = Some (Some p) \<and> SpokeVersion p = v) (map svVersion (ccSpokes (lcConfig lc)))"
proof -
  obtain ruleSets report where tr: "ToRuleSets lib (lcConfig lc) = Inr ruleSets"
    and an: "analyzeTarget lib (lcConfig lc) (ltSource t) ruleSets = Inr report" and ok: "\<not> HasErrors report"
    using validateConfig_ok(4)[OF assms(1,2)] by blast
  note clean = AnalyzeConfig_clean[OF an[unfolded analyzeTarget_def] ok]
  have versions: "map srVersion (arSpokeReports report) = map svVersion (ccSpokes (lcConfig lc))"
    using clean(1) ToRuleSets_versions[OF tr] by simp
  have "cleanReport lib (lcConfig lc) (ltSource t) report" using tr an ok by (auto simp: cleanReport_def)
  from compileTarget_served(1)[OF this]
  have "served (rpRegistry (snd (reconcileOne lib logf sprint rc k name (Found lc) (Inr items) (Found t) now r)))
      = (served (rpRegistry r))(ccTarget (lcConfig lc) \<mapsto> reportRouter (ccHubVersion (lcConfig lc)) report)"
    using assms(3,4) by (simp add: reconcileOne_def reconcileTarget_def Let_def)
  moreover have "\<exists>p. map_of (routerPlans (reportRouter (ccHubVersion (lcConfig lc)) report)) v = Some (Some p) \<and> SpokeVersion p = v"
    if "v \<in> set (map svVersion (ccSpokes (lcConfig lc)))" for v
  proof -
    from that obtain sr where sr: "sr \<in> set (arSpokeReports report)" "srVersion sr = v"
      using arg_cong[OF versions, of set] by (metis imageE set_map)
    obtain p where p: "srCompiledPlan sr = Some p" "SpokeVersion p = v" using clean(2)[OF sr(1)] sr(2) by auto
    have "distinct (map srVersion (arSpokeReports report))"
      using versions ValidateStructure_spokes(2)[OF validateConfig_ok(2)[OF assms(1)]] by simp
    then have "map_of (routerPlans (reportRouter (ccHubVersion (lcConfig lc)) report)) v = Some (srCompiledPlan sr)"
      using sr by (intro map_of_is_SomeI) (auto simp: reportRouter_def comp_def rev_map[symmetric])
    then show ?thesis using p by simp
  qed
  ultimately show ?thesis by (intro exI[of _ "reportRouter (ccHubVersion (lcConfig lc)) report"]) (simp add: list_all_iff reportRouter_def)
qed

theorem admitted_config_served_witness:
  "\<exists>router. served (rpRegistry (snd (reconcileOne nolib exLog exSprint exReplica XRDKind ''widgets'' (Found exPinned) (Inr exServers) (Found exTarget) 5 exEmptyReplica)))
      = (served (rpRegistry exEmptyReplica))(ccTarget (lcConfig exPinned) \<mapsto> router)
    \<and> routerHub router = ccHubVersion (lcConfig exPinned)
    \<and> list_all (\<lambda>v. \<exists>p. map_of (routerPlans router) v = Some (Some p) \<and> SpokeVersion p = v) (map svVersion (ccSpokes (lcConfig exPinned)))"
proof (rule admitted_config_served)
  show "validateConfig nolib XRDKind True exCluster (lcConfig exPinned) = ([], None)" by code_simp
  show "clTarget exCluster (ccTarget (lcConfig exPinned)) = Some (ltSource exTarget)" by (simp add: exCluster_def exTarget_def)
qed (use exPinned_mine in \<open>simp_all add: exPinned_def\<close>)

text \<open>
  C16: a replica does not lose what it has to serve. As long as a configuration is assigned to the
  replica, or its target still names the replica's service, a call of the reconciler, whatever it
  reads of the target and whatever the analysis says, leaves every target with the router it had, or
  with the router of a clean analysis.
\<close>

theorem replica_keeps_serving:
  assumes "\<not> lcDeleting lc" and "responsible logf rc (lcConfig lc) items target" and "served (rpRegistry r) x = Some router"
  shows "\<exists>router'. served (rpRegistry (snd (reconcileOne lib logf sprint rc k name (Found lc) (Inr items) target now r))) x = Some router'
    \<and> (router' = router \<or> (\<exists>t report. target = Found t \<and> x = ccTarget (lcConfig lc)
        \<and> cleanReport lib (lcConfig lc) (ltSource t) report \<and> router' = reportRouter (ccHubVersion (lcConfig lc)) report))"
  using responsible_served[OF assms(1,2), of lib sprint k name now r] assms(3) by (cases "x = ccTarget (lcConfig lc)") auto

theorem replica_keeps_serving_witness:
  "\<exists>router'. served (rpRegistry (snd (reconcileOne nolib exLog exSprint exReplica XRDKind ''widgets'' (Found exPinned) (Inr exServers) NotFound 5 exServingReplica))) ''xwidgets'' = Some router'
    \<and> (router' = exRouter \<or> (\<exists>t report. (NotFound :: liveTarget reading) = Found t \<and> ''xwidgets'' = ccTarget (lcConfig exPinned)
        \<and> cleanReport nolib (lcConfig exPinned) (ltSource t) report \<and> router' = reportRouter (ccHubVersion (lcConfig exPinned)) report))"
proof (rule replica_keeps_serving)
  show "served (rpRegistry exServingReplica) ''xwidgets'' = Some exRouter"
    by (simp add: exServingReplica_def exRegistry_def exEntry_def)
qed (use exPinned_mine in \<open>simp_all add: responsible_def exPinned_def\<close>)

text \<open>
  C17: a handed-over target is drained and then dropped. From the first call that finds the target
  handed over, the replica keeps its entry through every call before the drain period has passed, in
  whatever order they run, and the first call at or after that moment removes it.
\<close>

theorem drained_then_dropped:
  assumes "0 < drainPeriod rc" and "rpRegistry r tn = Some e" and "rpDrain r (configKey k name) = None"
    and "\<forall>u\<in>set (first # us @ [final]). drainingUnit logf rc k name tn u"
    and "\<forall>u\<in>set us. wuNow u < wuNow first + drainPeriod rc" and "wuNow first + drainPeriod rc \<le> wuNow final"
  shows "rpRegistry (after lib logf sprint rc (first # us) r) tn = Some e
    \<and> rpRegistry (after lib logf sprint rc (first # us @ [final]) r) tn = None"
proof -
  let ?d = "wuNow first + drainPeriod rc" and ?r = "snd (runUnit lib logf sprint rc first r)"
  have "runUnit lib logf sprint rc first r =
      (Inr (?d - wuNow first), r\<lparr>rpTargets := (rpTargets r)(configKey k name \<mapsto> tn), rpDrain := (rpDrain r)(configKey k name \<mapsto> ?d)\<rparr>)"
    using assms by (intro drain_unit(1)) auto
  then have "rpRegistry ?r tn = Some e" "rpDrain ?r (configKey k name) = Some ?d" using assms(2) by simp_all
  then have kept: "rpRegistry (after lib logf sprint rc us ?r) tn = Some e" "rpDrain (after lib logf sprint rc us ?r) (configKey k name) = Some ?d"
    using drain_keeps[OF assms(1), of us logf k name tn ?d ?r e lib sprint] assms(4,5) by auto
  have "rpRegistry (snd (runUnit lib logf sprint rc final (after lib logf sprint rc us ?r))) tn = None"
    by (rule drain_unit(2)[OF _ assms(1) kept(1) refl]) (use assms(4,6) kept(2) in auto)
  then show ?thesis using kept(1) by (simp add: after_def)
qed

theorem drained_then_dropped_witness:
  "rpRegistry (after nolib exLog exSprint exReplica [exUnit ''widgets'' exMoved 0, exUnit ''widgets'' exMoved 10] exServingReplica) ''xwidgets'' = Some exEntry
    \<and> rpRegistry (after nolib exLog exSprint exReplica (exUnit ''widgets'' exMoved 0 # [exUnit ''widgets'' exMoved 10] @ [exUnit ''widgets'' exMoved 30000000000]) exServingReplica) ''xwidgets'' = None"
proof (rule drained_then_dropped)
  show "rpRegistry exServingReplica ''xwidgets'' = Some exEntry" by (simp add: exServingReplica_def exRegistry_def registrySet_def)
  show "\<forall>u\<in>set (exUnit ''widgets'' exMoved 0 # [exUnit ''widgets'' exMoved 10] @ [exUnit ''widgets'' exMoved 30000000000]).
      drainingUnit exLog exReplica XRDKind ''widgets'' ''xwidgets'' u" by (simp add: exMoved_draining)
qed (simp_all add: drainPeriod_def exReplica_def DefaultTargetDrainPeriod_def exServingReplica_def exUnit_def)

text \<open>
  The parallel start of a replica is a serial one. When the units of the initial synchronisation
  are for different configurations and different targets, running them in any other order on a
  fresh replica gives the same registry and the same bookkeeping.
\<close>

theorem initial_sync_order:
  assumes "mset units = mset units'" and "distinct (map unitKey units)" and "rpTargets r = Map.empty"
    and "\<forall>u\<in>set units. \<forall>v\<in>set units. u \<noteq> v \<longrightarrow> unitTarget u \<noteq> None \<longrightarrow> unitTarget u \<noteq> unitTarget v"
  shows "snd (runInitialSyncWork lib logf sprint rc units ([], r)) = snd (runInitialSyncWork lib logf sprint rc units' ([], r))"
  using initial_order[OF assms(1,2) _ assms(4)] assms(3) by (simp add: runInitialSyncWork_state)

section \<open>Controllers\<close>

text \<open>
  C6: a target is written only when it is safe. Every patch a reconcile of a live configuration applies
  to its target is the conversion patch of an analysis without errors, towards the assigned server,
  with the target established, the server ready and, when the target moves between servers, the handover
  approved; or it is the revert of a configuration that fails closed on drift.
\<close>

theorem patches_pass_every_gate:
  assumes "\<not> coDeleting cfg" and "ApplyTarget p \<in> set (fst (Reconcile lib k view (Found cfg)))"
  shows "\<exists>t ruleSets report. crTarget view = Found t \<and> ToRuleSets (ct_go lib) (coConfig cfg) = Inr ruleSets
    \<and> analyzeTarget (ct_go lib) (coConfig cfg) (ftSource t) ruleSets = Inr report
    \<and> ((\<not> HasErrors report \<and> (\<exists>serverName server. gatesOpen lib view cfg (ftObject t) serverName server
            \<and> patchFor lib view cfg (ftObject t) serverName server p))
       \<or> (HasErrors report \<and> coDriftPolicy cfg = DriftPolicyFailClosed
          \<and> (\<exists>ws. revertTarget lib k view (crTargetAgain view) (targetName cfg) = Inr ws \<and> ApplyTarget p \<in> set ws)))"
proof -
  obtain added where "addFinalizer k view cfg = Inr added" and "ApplyTarget p \<in> set (added @ fst (reconcileNormal lib k view cfg))"
    using assms by (auto simp: Reconcile_def split: sum.splits prod.splits)
  then have "ApplyTarget p \<in> set (fst (reconcileNormal lib k view cfg))" by (auto simp: addFinalizer_def split: if_splits option.splits)
  then show ?thesis by (rule reconcileNormal_apply) blast
qed

theorem patches_pass_every_gate_witness:
  "\<exists>p t ruleSets report. ApplyTarget p \<in> set (fst (Reconcile exCtrl CRDKind (exReads 0 []) (Found (exControlled ''a'' exAppliedStatus))))
    \<and> crTarget (exReads 0 []) = Found t \<and> ToRuleSets nolib (coConfig (exControlled ''a'' exAppliedStatus)) = Inr ruleSets
    \<and> analyzeTarget nolib (coConfig (exControlled ''a'' exAppliedStatus)) (ftSource t) ruleSets = Inr report \<and> \<not> HasErrors report"
proof -
  obtain p where "ApplyTarget p \<in> set (fst (reconcileNormal exCtrl CRDKind (exReads 0 []) (exControlled ''a'' exAppliedStatus)))"
    using exReads_patched(1)[OF _ exSettled] by blast
  then have p: "ApplyTarget p \<in> set (fst (Reconcile exCtrl CRDKind (exReads 0 []) (Found (exControlled ''a'' exAppliedStatus))))"
    by (simp add: exReconcile)
  have "\<not> coDeleting (exControlled ''a'' exAppliedStatus)" "coDriftPolicy (exControlled ''a'' exAppliedStatus) \<noteq> DriftPolicyFailClosed"
    by (simp_all add: exControlled_def)
  with patches_pass_every_gate[OF _ p] p show ?thesis by fastforce
qed

text \<open>
  C7: a move waits for the replicas it leads to. When a reconcile points an applied target at a webhook
  and that is a move from one server to another, and the leases it read were written by the replicas of
  the server it moves to, then every replica whose lease is live had a router for the target, and there
  are at least as many of them as ready replicas; or no lease is live and the condition HandoverReady
  of the status has been False for at least the grace period. The
  condition does not tell which move was refused, so it may stem from an earlier one.
\<close>

theorem moves_lead_to_serving_replicas:
  assumes "zipLaws (ct_zip lib)" and "ApplyTarget p \<in> set (fst (reconcileNormal lib k view cfg))" and "webhookPatch p"
    and "crServers view = Inr servers" and "ResolveAssignment (ct_log lib) (assignConfig (coConfig cfg)) servers = Inr n"
    and "movingServers (coStatus cfg) n" and "crServer view n = Inr server"
    and "crLeases view (serverNamespace (crDefaultNamespace view) server) (wsName (lvServer server)) = Inr leases"
    and "list_all2 (publishedBy (ct_zip lib)) leases regs" and "\<forall>r\<in>set regs. \<forall>x\<in>dom r. nameOk x"
  shows "(filter (isLive (crNow view)) leases = []
        \<and> (\<exists>c t. cl_find (ct_cond lib) (stConditions (coStatus cfg)) ''HandoverReady'' = Some c \<and> cnStatus c = ''False''
             \<and> cnTransition c = Some t \<and> crNow view - t \<ge> UnreportedGracePeriod))
    \<or> (filter (isLive (crNow view)) leases \<noteq> [] \<and> int (length (filter (isLive (crNow view)) leases)) \<ge> lvReadyReplicas server
       \<and> (\<forall>i<length leases. isLive (crNow view) (leases ! i) \<longrightarrow> served (regs ! i) (targetName cfg) \<noteq> None))"
proof -
  obtain ob m sv where "gatesOpen lib view cfg ob m sv" using webhook_gatesOpen(2)[OF assms(2,3)] by blast
  then have "handoverApproved lib view cfg n server" using assms(4,5,7) by (auto simp: gatesOpen_def)
  then obtain v where v: "checkHandover (ct_zip lib) (ct_cond lib) (crLeases view) (crDefaultNamespace view) server (targetName cfg)
      (stConditions (coStatus cfg)) (crNow view) = Inr v" and "hvOK v"
    using assms(6) by (auto simp: handoverApproved_def)
  then show ?thesis using checkHandover_ok(2)[where list = "crLeases view", OF assms(1,8-10)] unfolding blockedFor_grace by blast
qed

theorem moves_lead_to_serving_replicas_witness:
  "1 \<ge> lvReadyReplicas (exLiveServer ''b'') \<and> isLive 0 (exLease 0) \<and> served exRegistry (targetName (exControlled ''b'' exAppliedStatus)) \<noteq> None"
proof -
  let ?cfg = "exControlled ''b'' exAppliedStatus" and ?view = "exReads 0 [exLease 0]"
  obtain p where p: "ApplyTarget p \<in> set (fst (reconcileNormal exCtrl CRDKind ?view ?cfg))"
    using exReads_patched(1)[OF _ exReported] by blast
  have w: "webhookPatch p" by (rule webhook_gatesOpen(1)[OF p]) (simp add: exControlled_def)
  have n: "ResolveAssignment (ct_log exCtrl) (assignConfig (coConfig ?cfg)) exServers = Inr ''b''"
    by (simp add: ResolveAssignment_def assignConfig_def exServers_def exControlled_def)
  have "(filter (isLive (crNow ?view)) [exLease 0] = []
      \<and> (\<exists>c t. cl_find (ct_cond exCtrl) (stConditions (coStatus ?cfg)) ''HandoverReady'' = Some c \<and> cnStatus c = ''False''
           \<and> cnTransition c = Some t \<and> crNow ?view - t \<ge> UnreportedGracePeriod))
    \<or> (filter (isLive (crNow ?view)) [exLease 0] \<noteq> [] \<and> int (length (filter (isLive (crNow ?view)) [exLease 0])) \<ge> lvReadyReplicas (exLiveServer ''b'')
      \<and> (\<forall>i<length [exLease 0]. isLive (crNow ?view) ([exLease 0] ! i) \<longrightarrow> served ([exRegistry] ! i) (targetName ?cfg) \<noteq> None))"
  proof (rule moves_lead_to_serving_replicas[OF _ p w _ n])
    show "list_all2 (publishedBy (ct_zip exCtrl)) [exLease 0] [exRegistry]" using exLease_published by simp
    show "\<forall>r\<in>set [exRegistry]. \<forall>x\<in>dom r. nameOk x" by (simp add: exRegistry_def registrySet_def NewRegistry_def nameOk_def)
    show "movingServers (coStatus ?cfg) ''b''" using exStatus_points by simp
  qed (use exZip_laws in \<open>simp_all add: exReads_def exControlled_def\<close>)
  then show ?thesis using exLease_live[of 0] by simp
qed

text \<open>
  C8: the status tells the truth. Over any history of reconciles and edits of a configuration that
  started with an empty status, the phase is one of those the API allows, the Stale condition is there
  exactly in phase Stale, and in phases Applied and Stale the webhook coordinates, the plan hash and the
  Applied condition of a successful apply are there.
\<close>

theorem status_well_typed:
  assumes "condLaws (ct_cond lib)" and "coStatus cfg = freshStatus" and "(config_step lib k)\<^sup>*\<^sup>* cfg cfg'"
  shows "statusOk lib (coStatus cfg')"
  by (rule config_run_ok[OF assms(1,3)]) (simp add: assms(2) freshStatus_ok[OF assms(1)])

theorem status_well_typed_witness:
  "\<exists>s. config_step exCtrl CRDKind (exControlled ''a'' freshStatus) (exControlled ''a'' s) \<and> stPhase s = PhaseApplied \<and> statusOk exCtrl s"
proof -
  have "handoverApproved exCtrl (exReads 0 []) (exControlled ''a'' freshStatus) ''a'' (exLiveServer ''a'')"
    by (simp add: handoverApproved_def movingServers_def wasApplied_def freshStatus_def)
  then obtain s where "PatchStatus s \<in> set (fst (reconcileNormal exCtrl CRDKind (exReads 0 []) (exControlled ''a'' freshStatus)))"
    and ph: "stPhase s = PhaseApplied"
    using exReads_patched(2) by blast
  then have "PatchStatus s \<in> set (fst (Reconcile exCtrl CRDKind (exReads 0 []) (Found (exControlled ''a'' freshStatus))))"
    by (simp add: exReconcile)
  then have step: "config_step exCtrl CRDKind (exControlled ''a'' freshStatus) (exControlled ''a'' s)"
    using config_step.reconciled by fastforce
  have "statusOk exCtrl (coStatus (exControlled ''a'' s))"
    using status_well_typed[OF _ _ r_into_rtranclp[of "config_step exCtrl CRDKind", OF step]] exCond_laws by simp
  with step ph show ?thesis by auto
qed

text \<open>
  C22: no move is stuck on an instance that never reports. A move that was first refused at some time
  goes through at the first reconcile that is at least the grace period later and still sees no
  report, if the target can be patched at all; refusals in between do not restart the clock.
\<close>

theorem silent_instance_only_delays:
  assumes "condLaws (ct_cond lib)" and "refusals lib k since cfg cfg'"
    and "\<forall>c. handoverCondition lib (coStatus cfg) = Some c \<longrightarrow> cnStatus c \<noteq> ''False''"
    and "reachesHandover lib view cfg' t n server" and "canPatch lib view cfg' t n server"
    and "since + UnreportedGracePeriod \<le> crNow view"
    and "crLeases view (serverNamespace (crDefaultNamespace view) server) (wsName (lvServer server)) = Inr leases"
    and "filter (isLive (crNow view)) leases = []"
  shows "\<exists>p. ApplyTarget p \<in> set (fst (reconcileNormal lib k view cfg')) \<and> patchFor lib view cfg' (ftObject t) n server p"
proof -
  obtain c where "handoverCondition lib (coStatus cfg') = Some c" "cnStatus c = ''False''" "cnTransition c = Some since"
    using refusals_condition[OF assms(2,1,3)] by blast
  then show ?thesis using waited_move_patches[OF assms(1,4,5)] assms(6-8) by blast
qed

theorem silent_instance_only_delays_witness:
  "\<exists>s p. refusals exCtrl CRDKind 0 (exControlled ''b'' exAppliedStatus) (exControlled ''b'' s)
    \<and> ApplyTarget p \<in> set (fst (reconcileNormal exCtrl CRDKind (exReads (30 * second) []) (exControlled ''b'' s)))"
proof -
  obtain s where "refused exCtrl CRDKind (exReads 0 []) (exControlled ''b'' exAppliedStatus) s" using exUnreported ..
  from refusals.first_refusal[OF this]
  have r: "refusals exCtrl CRDKind 0 (exControlled ''b'' exAppliedStatus) (exControlled ''b'' s)" by (simp add: exReads_def)
  have "\<exists>p. ApplyTarget p \<in> set (fst (reconcileNormal exCtrl CRDKind (exReads (30 * second) []) (exControlled ''b'' s)))
      \<and> patchFor exCtrl (exReads (30 * second) []) (exControlled ''b'' s) (ftObject exFetched) ''b'' (exLiveServer ''b'') p"
  proof (rule silent_instance_only_delays[OF _ r _ exReads_reach exReads_patch, where leases = "[]"])
    show "\<forall>c. handoverCondition exCtrl (coStatus (exControlled ''b'' exAppliedStatus)) = Some c \<longrightarrow> cnStatus c \<noteq> ''False''"
      by (simp add: statusCondition_def exCond_def exAppliedStatus_def exTrue_def)
  qed (use exCond_laws in \<open>simp_all add: exReads_def UnreportedGracePeriod_def\<close>)
  with r show ?thesis by blast
qed

text \<open>
  C23: a configuration lets go of its target last. When deleting a configuration that counts as applied
  removes its finalizer, the target is gone, or it serves at most one version or the break-glass
  annotation is set, and its conversion was reverted before.
\<close>

theorem delete_reverts_first:
  assumes "coDeleting cfg" and "wasApplied (coStatus cfg)" and "RemoveFinalizer f \<in> set (fst (Reconcile lib k view (Found cfg)))"
  shows "crTarget view = NotFound
    \<or> (\<exists>t ws. crTarget view = Found t
         \<and> (countServedVersions lib (ftObject t) \<le> 1 \<or> coAnnotations cfg AllowUnsafeDeleteAnnotation = Some ''true'')
         \<and> revertTarget lib k view (crTargetAgain view) (targetName cfg) = Inr ws
         \<and> fst (Reconcile lib k view (Found cfg)) = ws @ [RemoveFinalizer (finalizerOf k)])"
proof -
  have "Reconcile lib k view (Found cfg) = reconcileDelete lib k view cfg" using assms(1) by (simp add: Reconcile_def)
  then show ?thesis using reconcileDelete_release[of f lib k view cfg] assms(2,3) by metis
qed

theorem delete_reverts_first_witness:
  "\<exists>ws. fst (Reconcile exCtrl CRDKind (exReads 0 []) (Found (exDeleting PhaseApplied))) = ws @ [RemoveFinalizer (finalizerOf CRDKind)] \<and> ws \<noteq> []"
proof -
  have rev: "revertTarget exCtrl CRDKind (exReads 0 []) again name = Inr [ApplyTarget (CRDPatch (BuildCRDRevertPatch name))]" for again name
    by (simp add: revertTarget_def applyPatch_def exReads_def)
  have cfg: "coDeleting (exDeleting PhaseApplied)" "stPhase (coStatus (exDeleting PhaseApplied)) = PhaseApplied"
    "coFinalizers (exDeleting PhaseApplied) = [finalizerOf CRDKind]"
    by (simp_all add: exDeleting_def exControlled_def)
  have t: "crTarget (exReads 0 []) = Found exFetched" "countServedVersions exCtrl (ftObject exFetched) = 1"
    by (simp_all add: exReads_def countServedVersions_def exFetched_def exCRD_def)
  have "RemoveFinalizer (finalizerOf CRDKind) \<in> set (fst (Reconcile exCtrl CRDKind (exReads 0 []) (Found (exDeleting PhaseApplied))))"
    using cfg t rev by (simp add: Reconcile_def reconcileDelete_def removeFinalizer_def)
  from delete_reverts_first[OF cfg(1) _ this] obtain ws where
    "revertTarget exCtrl CRDKind (exReads 0 []) (crTargetAgain (exReads 0 [])) (targetName (exDeleting PhaseApplied)) = Inr ws"
    "fst (Reconcile exCtrl CRDKind (exReads 0 []) (Found (exDeleting PhaseApplied))) = ws @ [RemoveFinalizer (finalizerOf CRDKind)]"
    using cfg(2) t(1) by (auto simp: wasApplied_def)
  then show ?thesis by (auto simp: rev)
qed

text \<open>
  C24: the ConversionPropagated condition is what it says. It is true after a verification exactly when
  the CRDs the XRD generates are known and each of them was read and carries the applied webhook:
  strategy, service, path, port, review versions in any order and CA bundle.
\<close>

theorem propagated_iff_all_carry:
  assumes "condLaws (ct_cond lib)"
  shows "statusTrue lib (verifyPropagation lib now getCRD xrd want st) ConditionConversionPropagated \<longleftrightarrow>
     (\<exists>generated. GeneratedCRDNames (ct_k8s lib) (Some xrd) = Inr generated
        \<and> (\<forall>g\<in>set generated. \<exists>crd. getCRD (gcName g) = Found crd \<and> carriesConversion lib want crd))"
  by (rule verifyPropagation_true[OF assms])

theorem propagated_iff_all_carry_witness:
  "statusTrue exCtrl (verifyPropagation exCtrl 0 (\<lambda>n. Found exGenerated) exNamedXRD exWant freshStatus) ConditionConversionPropagated"
proof -
  have "\<exists>generated. GeneratedCRDNames (ct_k8s exCtrl) (Some exNamedXRD) = Inr generated"
    by (simp add: GeneratedCRDNames_def requiredString_def generatedClaim_def exCtrl_def exK8s_def exNamedXRD_def getValue_Cons)
  with exGenerated_carries propagated_iff_all_carry[of exCtrl 0 "\<lambda>n. Found exGenerated" exNamedXRD exWant freshStatus] exCond_laws
  show ?thesis by auto
qed

text \<open>
  An instance serves what all its live replicas serve. When no live lease is truncated or
  unreadable, the aggregate counts the live leases and, if there are any, holds exactly the names all of
  them list, sorted.
\<close>

theorem aggregate_is_intersection:
  assumes "Aggregate z leases now = (names, reporting, False)"
    and "\<forall>l\<in>set leases. \<forall>ns. leaseNames z l = Some ns \<longrightarrow> distinct ns"
  shows "reporting = int (length (filter (isLive now) leases)) \<and> sorted names
    \<and> (reporting > 0 \<longrightarrow> (\<forall>n. Contains names n \<longleftrightarrow>
          (\<forall>l\<in>set leases. isLive now l \<longrightarrow> (\<exists>ns. leaseNames z l = Some ns \<and> n \<in> set ns))))"
  using Aggregate_intersection[OF assms] Contains_sorted by auto

text \<open>
  What a replica publishes is what a reader decodes. A set of names without line breaks that
  encodes without truncation decodes to itself, sorted.
\<close>

theorem served_targets_roundtrip:
  assumes "zipLaws z" and "publishable ts" and "Encode z ts = (v, False)"
  shows "Decode z v = Inr (sort ts)"
  by (rule Decode_Encode[OF assms])

section \<open>Deployed servers\<close>

text \<open>
  C27: a replica runs with the identity the operator gave it. In every Deployment a reconcile applies, the
  value \<open>flag.Parse\<close> ends up with for an operator-managed flag is the operator's: the server's name, the
  certificate directory, the ports, the enabled kinds and the cache selector, as long as the extra
  arguments of the server write flags with two dashes.
\<close>

theorem container_flags_hold:
  assumes "ApplyDeployment d \<in> set (fst (cwsReconcile lib r view (Found server)))"
    and "\<forall>a\<in>set (soExtraArgs server). hasPrefix a ''-'' \<longrightarrow> hasPrefix a ''--''"
    and "n \<in> set operatorManagedWebhookServerFlagNames"
  shows "map_of (rev (goParseFlags isBool (knArgs (psContainer (dpPodSpec d))))) n = map_of (managedFlags lib r server) n"
  by (rule serverArgs_hold[OF deploymentObject_args[OF reconcile_deployment[OF assms(1)]] assms(2,3)])

theorem container_flags_hold_witness:
  "\<exists>d. ApplyDeployment d \<in> set (fst (cwsReconcile exServerLib exServerReconciler exServerReads (Found exWebhookServer)))
    \<and> map_of (rev (goParseFlags (\<lambda>_. False) (knArgs (psContainer (dpPodSpec d))))) ''webhook-server-name'' = Some ''a''"
proof -
  obtain d where d: "ApplyDeployment d \<in> set (fst (cwsReconcile exServerLib exServerReconciler exServerReads (Found exWebhookServer)))"
    using exServer_reconciled exServer_reconcile by fastforce
  have "map_of (rev (goParseFlags (\<lambda>_. False) (knArgs (psContainer (dpPodSpec d))))) ''webhook-server-name''
      = map_of (managedFlags exServerLib exServerReconciler exWebhookServer) ''webhook-server-name''"
    by (rule container_flags_hold[OF d]) (simp_all add: exWebhookServer_def hasPrefix_def operatorManagedWebhookServerFlagNames_def)
  moreover have "map_of (managedFlags exServerLib exServerReconciler exWebhookServer) ''webhook-server-name'' = Some ''a''"
    by (simp add: managedFlags_def exWebhookServer_def exServers_def)
  ultimately show ?thesis using d by auto
qed

text \<open>
  C28: a terminating replica has the time to drain. Let admission accept a server whose extra arguments are
  all written \<open>--name=value\<close> and whose sleep and grace period are not negative. In the Deployment applied
  for it, \<open>flag.Parse\<close> of the container's arguments leaves a positive shutdown timeout in force, and the
  sleep of the \<open>preStop\<close> hook and this timeout together are less than the grace period of the pod,
  provided their sum in nanoseconds is below \<open>2\<^sup>63\<close>. Beyond that the validation compares a sum that has
  wrapped around (\<open>shutdown_overflow_admitted\<close>), and an argument with one dash escapes it
  (\<open>single_dash_overrides\<close>).
\<close>

theorem container_drains_in_time:
  assumes "validateServer golib listed (ServerObject.truncate server) = Inr ()"
    and "ApplyDeployment d \<in> set (fst (cwsReconcile lib r view (Found server)))"
    and "\<forall>a\<in>set (soExtraArgs server). assignsFlag a"
    and "0 \<le> sint (preStopOf (soRollout server))" and "0 \<le> sint (graceOf (soRollout server))"
  shows "\<exists>shutdown. shutdownInForce golib isBool (knArgs (psContainer (dpPodSpec d))) = Inr shutdown \<and> 0 < sint shutdown
    \<and> (sint (preStopOf (soRollout server)) * 1000000000 + sint shutdown < 2 ^ 63
        \<longrightarrow> sleepSeconds (psContainer (dpPodSpec d)) * 1000000000 + sint shutdown
          < sint (psTerminationGracePeriodSeconds (dpPodSpec d)) * 1000000000)"
proof -
  note d = reconcile_deployment[OF assms(2)]
  have roll: "ValidateWebhookServerRollout golib (soRollout server) (soExtraArgs server) = Inr ()"
    using assms(1) by (auto simp: validateServer_def bindR_Inr_iff ServerObject.truncate_def)
  then obtain shutdown where sh: "shutdownTimeoutFromArgs golib (soExtraArgs server) = Inr shutdown"
    by (auto simp: ValidateWebhookServerRollout_def bindR_Inr_iff)
  note force = shutdown_as_validated[OF deploymentObject_args[OF d] assms(3) sh]
  have "sleepSeconds (psContainer (dpPodSpec d)) * 1000000000 + sint shutdown < sint (psTerminationGracePeriodSeconds (dpPodSpec d)) * 1000000000"
    if "sint (preStopOf (soRollout server)) * 1000000000 + sint shutdown < 2 ^ 63"
    using rollout_fits[OF roll sh assms(4) less_imp_le[OF force(2)] assms(5) that]
    by (simp add: sleepSeconds_rendered[OF d assms(4)] deploymentObject_shape(6)[OF d] rollout_as_admitted)
  then show ?thesis using force by blast
qed

theorem container_drains_in_time_witness:
  "\<exists>d shutdown. ApplyDeployment d \<in> set (fst (cwsReconcile exServerLib exServerReconciler exServerReads (Found exWebhookServer)))
    \<and> shutdownInForce nolib (\<lambda>_. False) (knArgs (psContainer (dpPodSpec d))) = Inr shutdown
    \<and> (sint (preStopOf None) * 1000000000 + sint shutdown < 2 ^ 63
        \<longrightarrow> sleepSeconds (psContainer (dpPodSpec d)) * 1000000000 + sint shutdown
          < sint (psTerminationGracePeriodSeconds (dpPodSpec d)) * 1000000000)"
proof -
  obtain d where d: "ApplyDeployment d \<in> set (fst (cwsReconcile exServerLib exServerReconciler exServerReads (Found exWebhookServer)))"
    using exServer_reconciled exServer_reconcile by fastforce
  have "ServerObject.truncate exWebhookServer = exServerObject" by (simp add: ServerObject.truncate_def exWebhookServer_def exServerObject_def)
  then have ok: "validateServer nolib (Inr []) (ServerObject.truncate exWebhookServer) = Inr ()" using exServerObject_admitted by simp
  have roll: "soRollout exWebhookServer = None" by (simp add: exWebhookServer_def)
  have args: "\<forall>a\<in>set (soExtraArgs exWebhookServer). assignsFlag a"
  proof -
    have "assignsFlag (''--'' @ ''request-timeout'' @ ''='' @ ''10s'')" unfolding assignsFlag_def by (rule exI, rule exI, rule conjI[OF _ refl]) (simp add: flagName_def)
    then show ?thesis by (simp add: exWebhookServer_def)
  qed
  show ?thesis
    using container_drains_in_time[OF ok d args, where isBool = "\<lambda>_. False"] d
    by (auto simp: roll preStopOf_def graceOf_def DefaultPreStopSleepSeconds_def DefaultGracePeriodSeconds_def)
qed

text \<open>
  C25: the children of a server fit together. A reconcile that succeeds writes certificate, service,
  deployment, autoscaler, disruption budget and status, in this order; the pods carry the labels that
  deployment, service and budget select by, whatever labels the specification adds; the service leads to
  a port of the container; the pods mount the secret the certificate is issued into; and the
  deployment leaves its replica count open exactly when an autoscaler for it is applied.
\<close>

theorem children_fit_together:
  assumes "cwsReconcileNormal lib r view server = (writes, Inr wait)"
  shows "\<exists>cert svc dep hpa pdb st. writes = [ApplyCertificate cert, ApplyService svc, ApplyDeployment dep, hpa, pdb, PatchServerStatus st]
    \<and> dpSelector dep = saSelector svc \<and> (\<forall>k v. map_of (dpSelector dep) k = Some v \<longrightarrow> map_of (dpTemplateLabels dep) k = Some v)
    \<and> (\<forall>b. pdb = ApplyPDB b \<longrightarrow> pbSelector b = dpSelector dep)
    \<and> (\<exists>p\<in>set (saPorts svc). spPort p = servicePort server \<and> (\<exists>q\<in>set (knPorts (psContainer (dpPodSpec dep))). spTargetPort p = IntVal (snd q)))
    \<and> (\<exists>s. map_of (certificateSpec lib server (dpNamespace dep)) ''secretName'' = Some (JStr s) \<and> SecretVolume ''tls'' s \<in> set (psVolumes (dpPodSpec dep)))
    \<and> (dpReplicas dep = None \<longleftrightarrow> (\<exists>h. hpa = ApplyHPA h)) \<and> (\<forall>h. hpa = ApplyHPA h \<longrightarrow> hpTarget h = (''apps/v1'', ''Deployment'', dpName dep))"
proof -
  from normal_writes[OF assms] obtain cert dep st where w: "writes = [ApplyCertificate cert,
      ApplyService (serviceObject server (orString (cwNamespace server) (srDefaultNamespace r))), ApplyDeployment dep,
      (case hpaObject server (orString (cwNamespace server) (srDefaultNamespace r)) of
           None \<Rightarrow> DeleteHPA (cwsHPAName (cwName server)) (orString (cwNamespace server) (srDefaultNamespace r)) | Some hpa \<Rightarrow> ApplyHPA hpa),
      (case pdbObject server (orString (cwNamespace server) (srDefaultNamespace r)) of
           None \<Rightarrow> DeletePDB (cwsPDBName (cwName server)) (orString (cwNamespace server) (srDefaultNamespace r)) | Some pdb \<Rightarrow> ApplyPDB pdb),
      PatchServerStatus st]"
    and d: "deploymentObject lib r server (orString (cwNamespace server) (srDefaultNamespace r)) = Inr dep" by blast
  show ?thesis unfolding w
    by (intro exI conjI, rule refl)
       (auto simp: deploymentObject_shape[OF d] serviceObject_def pdbObject_def hpaObject_def serverReplicas_def certificateSpec_def Let_def
          templateLabels_selected split: option.splits)
qed

theorem children_fit_together_witness:
  "\<exists>dep svc writes. cwsReconcileNormal exServerLib exServerReconciler exServerReads exWebhookServer = (writes, Inr (300 * Handover.second))
     \<and> writes ! 2 = ApplyDeployment dep \<and> writes ! 1 = ApplyService svc \<and> dpSelector dep = saSelector svc \<and> dpReplicas dep = serverReplicas exWebhookServer"
proof -
  obtain writes where w: "cwsReconcileNormal exServerLib exServerReconciler exServerReads exWebhookServer = (writes, Inr (300 * Handover.second))"
    using exServer_reconciled by blast
  from children_fit_together[OF w] obtain cert svc dep hpa pdb st where
    s: "writes = [ApplyCertificate cert, ApplyService svc, ApplyDeployment dep, hpa, pdb, PatchServerStatus st]" "dpSelector dep = saSelector svc" by blast
  have "ApplyDeployment dep \<in> set (fst (cwsReconcileNormal exServerLib exServerReconciler exServerReads exWebhookServer))" using w s by simp
  from deploymentObject_shape(5)[OF normal_deployment[OF this]] show ?thesis using w s by auto
qed

text \<open>
  C26: a server counts as ready exactly when it is. After a reconcile has written the status, the gate of
  the configuration controllers is open if and only if the deployment was read, is available and has a
  ready replica, the service was read, and the secret holds a certificate.
\<close>

theorem server_ready_iff:
  assumes "condLaws (ct_cond (sv_ctrl lib))" and "cwsReconcileNormal lib r view server = (writes, Inr wait)" and "PatchServerStatus st \<in> set writes"
  shows "isServerReady (sv_ctrl lib) (liveOf (server\<lparr>cwStatus := st\<rparr>)) \<longleftrightarrow>
    (\<exists>dep d v. swDeployment view = Inr dep \<and> deploymentAvailable dep \<and> dvReadyReplicas dep \<noteq> 0 \<and> swService view = None
       \<and> swSecret view = Inr d \<and> d ''tls.crt'' = Some v \<and> v \<noteq> [])"
proof -
  obtain ns st0 where "updateStatus lib r view server ns st0 = Inr st"
    using normal_writes[OF assms(2)] assms(3) by (fastforce split: option.splits)
  from updateStatus_ready[OF assms(1) this] show ?thesis .
qed

theorem server_ready_iff_witness:
  "\<exists>st. PatchServerStatus st \<in> set (fst (cwsReconcileNormal exServerLib exServerReconciler exServerReads exWebhookServer))
     \<and> isServerReady exCtrl (liveOf (exWebhookServer\<lparr>cwStatus := st\<rparr>))"
proof -
  obtain writes st where w: "cwsReconcileNormal exServerLib exServerReconciler exServerReads exWebhookServer = (writes, Inr (300 * Handover.second))"
    and st: "PatchServerStatus st \<in> set writes" using exServer_reconciled by blast
  have "condLaws (ct_cond (sv_ctrl exServerLib))" using exCond_laws by (simp add: exServerLib_def)
  from server_ready_iff[OF this w st] have "isServerReady (sv_ctrl exServerLib) (liveOf (exWebhookServer\<lparr>cwStatus := st\<rparr>))"
    by (simp add: exServerReads_def deploymentAvailable_def)
  then show ?thesis using w st by (auto simp: exServerLib_def)
qed

text \<open>
  C29: a server is let go exactly when admission would let it be deleted. The controller removes the
  finalizer of a deleted server if and only if the validating webhook, asked about the same configurations
  and servers, admits the deletion; so a deletion that bypassed the webhook waits for the same
  configurations.
\<close>

theorem server_released_as_admitted:
  "RemoveServerFinalizer f \<in> set (fst (cwsReconcileDelete lib view server)) \<longleftrightarrow>
     f = ConversionWebhookServerFinalizer \<and> f \<in> set (cwFinalizers server) \<and> swAnswer view (RemoveServerFinalizer f) = None
     \<and> validateServerDelete (ct_log (sv_ctrl lib)) (namedConfigs (swXRDConfigs view)) (namedConfigs (swCRDConfigs view)) (swServers view)
          (ServerObject.truncate server) = Inr ()"
  by (rule release_as_admitted)

text \<open>
  The memory limit of the runtime is nine tenths of the container's, rounded down to a multiple of 90, and
  does not overflow.
\<close>

theorem go_memory_limit:
  assumes "webhookServerMemoryLimitBytes lib server = Some n" and "map_of (cwLimits server) ''memory'' = Some limit"
  shows "0 < sint n \<and> sint n * 100 \<le> 90 * sint (sv_QuantityValue lib limit) \<and> 90 * sint (sv_QuantityValue lib limit) < sint n * 100 + 9000"
  using memory_limit_bounds[OF assms] by auto

section \<open>The command line tool\<close>

text \<open>
  C30: a stored version is dropped only when nothing is stored at it. When a migration updates the stored
  versions of a CRD, it was no dry run, it listed the objects of every target in all namespaces, each of
  them was written at the storage version before, and the version that is kept is that storage
  version; one failure anywhere and no CRD is touched.
\<close>

theorem prune_after_rewrite:
  assumes "RunMigrateStorage c opts = Some (writes, res)" and "UpdateStoredVersions n ob' \<in> set writes"
  shows "\<exists>targets warnings applies prunes. resolveMigrateTargets c opts = Inr (targets, warnings) \<and> writes = applies @ prunes
    \<and> (\<forall>w\<in>set prunes. \<not> isApply w) \<and> \<not> moDryRun opts
    \<and> (\<forall>t\<in>set targets. \<exists>items. listAllByGVR c (targetGVR t) [] = Some (Inr items) \<and> allApplied c opts applies t items)
    \<and> (\<exists>t\<in>set targets. mtCRDName t = n \<and> (\<exists>ob. mkCRDObject c n = Inr ob \<and> mkSetStored c ob [mtStorageVersion t] = Inr ob'))"
proof -
  have upd: "\<not> isApply (UpdateStoredVersions n ob')" by (simp add: isApply_def)
  obtain targets warnings applies reports scoped multi where
    t: "resolveMigrateTargets c opts = Inr (targets, warnings)" and m: "migrateTargets c opts multi targets = Some (applies, Inr (reports, scoped))"
    and dry: "\<not> moDryRun opts" and ns: "moNamespace opts \<noteq> [] \<longrightarrow> \<not> list_ex mtNamespaced targets" and ok: "sum_list (map mcFailed reports) = 0"
    and w: "writes = applies @ fst (pruneAll c (baseReport opts (hd targets) reports (warnings @ scoped) multi) (hd targets) multi)"
    by (rule RunMigrateStorage_pruned[OF assms upd])
  note rew = migrateTargets_ok[OF m]
  have listed: "\<exists>items. listAllByGVR c (targetGVR t) [] = Some (Inr items) \<and> allApplied c opts applies t items" if "t \<in> set targets" for t
  proof -
    obtain i where i: "i < length targets" "targets ! i = t" using \<open>t \<in> set targets\<close> by (auto simp: in_set_conv_nth)
    then have "rewrittenAs c opts multi applies t (reports ! i)" "reports ! i \<in> set reports"
      using list_all2_nthD[OF rew i(1)] list_all2_lengthD[OF rew] by auto
    moreover have "listNamespace opts t = []" using ns that by (auto simp: listNamespace_def list_ex_iff)
    ultimately show ?thesis using rewrittenAs_applied[of c opts multi applies t "reports ! i"] ok by simp
  qed
  have "UpdateStoredVersions n ob' \<in> set (fst (pruneAll c (baseReport opts (hd targets) reports (warnings @ scoped) multi) (hd targets) multi))"
    using assms(2) w upd migrateTargets_applies[OF m, of "UpdateStoredVersions n ob'"] by auto
  note pruned = pruned_target[OF this rew resolveMigrateTargets_nonempty[OF t]]
  show ?thesis using t w dry listed pruned pruneAll_updates by blast
qed

theorem prune_after_rewrite_witness:
  "\<exists>writes res items. RunMigrateStorage exMigrateCluster exMigration = Some (writes, res)
     \<and> listAllByGVR exMigrateCluster (targetGVR exMigrateTarget) [] = Some (Inr items) \<and> items \<noteq> [] \<and> allApplied exMigrateCluster exMigration writes exMigrateTarget items"
proof -
  obtain writes rep where r: "RunMigrateStorage exMigrateCluster exMigration = Some (writes, Inr rep)"
    and u: "UpdateStoredVersions ''widgets.ex.org'' [(''status'', JArr [JStr ''v2''])] \<in> set writes" using exMigrate_run by blast
  from prune_after_rewrite[OF r u] obtain targets applies prunes where
    "targets = [exMigrateTarget]" "writes = applies @ prunes"
    "\<forall>t\<in>set targets. \<exists>items. listAllByGVR exMigrateCluster (targetGVR t) [] = Some (Inr items) \<and> allApplied exMigrateCluster exMigration applies t items"
    using exMigrate_resolved by force
  then show ?thesis using r exMigrate_listed by (auto simp: allApplied_def)
qed

text \<open>
  C31: how many workers a migration runs, and in which order they finish, does not matter. The pool cannot
  run forever, and when it can do no further step the results are those of migrating the objects one by
  one, in the order of the list, and every object was written exactly as often as that does.
\<close>

theorem pool_schedule_independent:
  assumes "(pool_step c opts target items tagCRD (nat (effectiveConcurrency opts (int (length items)))))\<^sup>*\<^sup>* (poolStart items) p"
    and "\<nexists>p'. pool_step c opts target items tagCRD (nat (effectiveConcurrency opts (int (length items)))) p p'"
  shows "plResults p = map Some (migrateAll c opts target items tagCRD) \<and> mset (plWrites p) = mset (migrateWrites c opts target items)
    \<and> wfP (\<lambda>p' p. pool_step c opts target items tagCRD (nat (effectiveConcurrency opts (int (length items)))) p p')"
proof -
  have "0 < nat (effectiveConcurrency opts (int (length items)))" using effectiveConcurrency_bounds(1)[of opts "int (length items)"] by linarith
  from pool_done[OF assms this] show ?thesis using pool_terminates by blast
qed

theorem pool_schedule_independent_witness:
  "\<exists>p. (pool_step exMigrateCluster exMigration exMigrateTarget [[]] False 1)\<^sup>*\<^sup>* (poolStart [[]]) p
     \<and> plResults p = map Some (migrateAll exMigrateCluster exMigration exMigrateTarget [[]] False)"
proof -
  let ?step = "pool_step exMigrateCluster exMigration exMigrateTarget [[]] False 1"
  obtain res ws where m: "migrateOne exMigrateCluster exMigration exMigrateTarget [] = (res, ws)" by fastforce
  define p where "p = \<lparr>plNext = 1, plBusy = [], plResults = [Some (taggedResult False exMigrateTarget res)], plWrites = ws\<rparr>"
  have "?step (poolStart [[]]) \<lparr>plNext = 1, plBusy = [0], plResults = [None], plWrites = []\<rparr>"
    using pool_step.take_next[of "poolStart [[]]" "[[]]" 1] by (simp add: poolStart_def)
  moreover have "?step \<lparr>plNext = 1, plBusy = [0], plResults = [None], plWrites = []\<rparr> p"
    using pool_step.finish[of 0 "\<lparr>plNext = 1, plBusy = [0], plResults = [None], plWrites = []\<rparr>" exMigrateCluster exMigration exMigrateTarget "[[]]" res ws] m
    by (simp add: p_def)
  ultimately have run: "?step\<^sup>*\<^sup>* (poolStart [[]]) p" by (meson converse_rtranclp_into_rtranclp r_into_rtranclp)
  have stuck: "\<nexists>p'. ?step p p'" by (auto simp: p_def elim: pool_step.cases)
  have one: "nat (effectiveConcurrency exMigration (int (length [[]::jobj]))) = 1" by (simp add: effectiveConcurrency_def exMigration_def)
  have "plResults p = map Some (migrateAll exMigrateCluster exMigration exMigrateTarget [[]] False)"
    using pool_schedule_independent[of exMigrateCluster exMigration exMigrateTarget "[[]]" False p] run stuck unfolding one by blast
  with run show ?thesis by blast
qed

text \<open>
  C32: what an open compatibility gate guarantees. When it is open between two revisions, then, up to
  the classes of change that were acknowledged, the hub is the same, every version that was served still
  is, and every spoke keeps its rule set while its version is served and its lossless directions; a hub
  field that had a rule has one, unless a rule claims a spoke field of the same name, and likewise with
  the sides exchanged; and the paths of a removed rule are each claimed on one of the two sides. The
  exception is where the gate falls short of its documentation, which calls every field that lost its
  rule breaking; the section on departures of the code shows a field that is lost this way.
\<close>

theorem compat_gate_sound:
  assumes "RunCompat lib sprint read_at opts = Inr rep" and "\<not> Breaking rep"
  shows "\<exists>base head. analyzeAtRef lib read_at (coBase opts) opts = Inr base \<and> analyzeAtRef lib read_at (coHead opts) opts = Inr head
    \<and> (ClassHubChanged \<in> set (coAllow opts) \<or> anHub head = anHub base)
    \<and> (ClassServedVersionRemove \<in> set (coAllow opts) \<or> set (servedSet (anVersions base)) \<subseteq> set (servedSet (anVersions head)))
    \<and> (\<forall>name b. spokeIndex (anReport base) name = Some b \<longrightarrow> keepsSpoke (coAllow opts) head name b)"
proof -
  obtain base head where at: "analyzeAtRef lib read_at (coBase opts) opts = Inr base" "analyzeAtRef lib read_at (coHead opts) opts = Inr head"
    and acked: "\<And>c. c \<in> set (classifyRevisions sprint base head) \<Longrightarrow> chSeverity c = ''breaking'' \<Longrightarrow> chClass c \<in> set (coAllow opts)"
    by (rule gate_open[OF assms]) blast
  show ?thesis using at gate_keepsVersions[OF acked] gate_keepsSpoke[OF acked] by blast
qed

theorem compat_gate_sound_witness:
  "\<exists>rep head b. RunCompat nolib (\<lambda>_. []) (\<lambda>_. exRevision) exCompat = Inr rep \<and> \<not> Breaking rep
     \<and> spokeIndex (anReport head) ''v1'' = Some b \<and> keepsSpoke [] head ''v1'' b"
proof -
  obtain a b where a: "analyzeAtRef nolib (\<lambda>_. exRevision) ref exCompat = Inr a" and b: "spokeIndex (anReport a) ''v1'' = Some b" for ref
    using exCompat_analysed[of "''main''"] by (auto simp: analyzeAtRef_def)
  then obtain rep where r: "RunCompat nolib (\<lambda>_. []) (\<lambda>_. exRevision) exCompat = Inr rep" "\<not> Breaking rep"
    by (auto simp: RunCompat_def classifyRevisions_same Breaking_def exCompat_def)
  from compat_gate_sound[OF r] have "keepsSpoke [] a ''v1'' b" using a b by (auto simp: exCompat_def)
  with r b show ?thesis by blast
qed

section \<open>Where the code departs from what it says\<close>

text \<open>
  Key renames are not lossless. A \<open>MapKeyRename\<close> of key \<open>a\<close> to \<open>b\<close> compiles without any
  diagnostic and is reported lossless in both directions, but a hub map that has the key \<open>b\<close>
  comes back from the spoke with the key \<open>a\<close> instead.
\<close>

theorem map_key_rename_not_lossless:
  "snd (compileNormalized nolib exKeySet exKeyHub exKeyHub) = []
   \<and> bVerdict (resolveAndBuildOps nolib (rsRules exKeySet) exKeyHub exKeyHub UnmappedFieldPolicyError 0) = verdict True True
   \<and> Convert nolib (Some (fst (compileNormalized nolib exKeySet exKeyHub exKeyHub))) HubToSpoke
       [(''metadata'', JObj []), (''spec'', JObj [(''m'', JObj [(''b'', JBool True)])])]
     = Inr [(''metadata'', JObj []), (''spec'', JObj [(''m'', JObj [(''b'', JBool True)])])]
   \<and> Convert nolib (Some (fst (compileNormalized nolib exKeySet exKeyHub exKeyHub))) SpokeToHub
       [(''metadata'', JObj []), (''spec'', JObj [(''m'', JObj [(''b'', JBool True)])])]
     = Inr [(''metadata'', JObj []), (''spec'', JObj [(''m'', JObj [(''a'', JBool True)])])]"
proof (intro conjI)
qed code_simp+

text \<open>
  Enum mappings are not lossless. An \<open>EnumRemap\<close> that lists one hub value twice, with two spoke
  values, compiles without any diagnostic and is reported lossless in both directions, but the
  first of the spoke values comes back from the hub as the second.
\<close>

theorem enum_remap_not_lossless:
  "snd (compileNormalized nolib exDupSet exDupHub exDupHub) = []
   \<and> bVerdict (resolveAndBuildOps nolib (rsRules exDupSet) exDupHub exDupHub UnmappedFieldPolicyError 0) = verdict True True
   \<and> Convert nolib (Some (fst (compileNormalized nolib exDupSet exDupHub exDupHub))) SpokeToHub
       [(''metadata'', JObj []), (''spec'', JObj [(''tier'', JStr ''s1'')])]
     = Inr [(''metadata'', JObj []), (''spec'', JObj [(''tier'', JStr ''h'')])]
   \<and> Convert nolib (Some (fst (compileNormalized nolib exDupSet exDupHub exDupHub))) HubToSpoke
       [(''metadata'', JObj []), (''spec'', JObj [(''tier'', JStr ''h'')])]
     = Inr [(''metadata'', JObj []), (''spec'', JObj [(''tier'', JStr ''s2'')])]"
proof (intro conjI)
qed code_simp+

text \<open>
  Metadata can be missing. Restoring a field from the only annotation of an object that has
  nothing else in its metadata removes the metadata from the converted object.
\<close>

theorem metadata_can_vanish:
  "snd (compileNormalized nolib exStashSet exStashHub (objectSchema [] [])) = []
   \<and> Convert nolib (Some (fst (compileNormalized nolib exStashSet exStashHub (objectSchema [] [])))) SpokeToHub
       [(''metadata'', JObj [(''annotations'', JObj [(''x/size'', JStr ''big'')])])]
     = Inr [(''spec'', JObj [(''size'', JStr ''big'')])]"
proof (intro conjI)
qed code_simp+

text \<open>
  A strategy with the parameters of another one is admitted. The structural validator counts
  the parameter blocks that are set and does not compare them with the strategy, so a rule
  \<open>ScalarToObject\<close> with the parameters of \<open>FieldRename\<close> passes; with the target absent the
  configuration is stored, although its rules do not translate.
\<close>

theorem params_mismatch_admitted:
  "ValidateStructure nolib exMismatch = Inr () \<and> isl (ToRuleSets nolib exMismatch)
    \<and> snd (validateConfig nolib XRDKind True (exCluster\<lparr>clTarget := \<lambda>_. None\<rparr>) exMismatch) = None"
  by code_simp

text \<open>
  Large integers are rounded. \<open>encoding/json\<close> stores every number of a \<open>map[string]any\<close> as a
  float64. With such a codec the endpoint gives the same reply for an object that holds 9007199254740993 and
  for one that holds 9007199254740992, in any field and for any plan, so one of the two does not survive a
  conversion that succeeds.
\<close>

theorem large_integers_rounded:
  assumes "\<And>k. k \<in> {9007199254740992, 9007199254740993} \<Longrightarrow> lib_Unmarshal lib (raw k) = Inr (JObj (obj (JFloat (round64 (of_int k)))))"
  shows "handleConvert lib s reg expired httpMethod urlPath (BodyReview (Some (rq\<lparr>rqObjects := [raw 9007199254740993]\<rparr>)))
    = handleConvert lib s reg expired httpMethod urlPath (BodyReview (Some (rq\<lparr>rqObjects := [raw 9007199254740992]\<rparr>)))"
proof -
  have "lib_Unmarshal lib (raw 9007199254740993) = lib_Unmarshal lib (raw 9007199254740992)"
    using assms[of 9007199254740993] assms[of 9007199254740992] round64_pow2_53 by simp
  then have "decodeObject lib (raw 9007199254740993) = decodeObject lib (raw 9007199254740992)" by (simp add: decodeObject_def)
  then have "serveReview lib s x entry router expired (rq\<lparr>rqObjects := [raw 9007199254740993]\<rparr>)
      = serveReview lib s x entry router expired (rq\<lparr>rqObjects := [raw 9007199254740992]\<rparr>)" for x entry router
    by (simp add: serveReview_def convertTurn_def convertObject_def)
  then have "answerReview lib s reg x expired (rq\<lparr>rqObjects := [raw 9007199254740993]\<rparr>)
      = answerReview lib s reg x expired (rq\<lparr>rqObjects := [raw 9007199254740992]\<rparr>)" for x
    unfolding answerReview_def notRegistered_def by (simp split: option.split sum.split)
  then show ?thesis unfolding handleConvert_def by (cases "httpMethod = ''POST''") (simp_all add: Let_def)
qed

text \<open>
  One dash is enough to override a managed flag. \<open>flag.Parse\<close> takes \<open>-name\<close> for \<open>--name\<close>, the
  validator looks at arguments with two dashes only: an argument that renames the instance is
  admitted, and being appended after the operator's own it is the assignment that counts.
\<close>

theorem single_dash_overrides:
  "ValidateWebhookServerExtraArgs [''-webhook-server-name=other''] = Inr ()
    \<and> last (goParseFlags (\<lambda>_. False) ([''--webhook-server-name=mine''] @ [''-webhook-server-name=other''])) = (''webhook-server-name'', ''other'')"
  by code_simp

text \<open>
  A drain of centuries is admitted. The sum of the sleep and the shutdown timeout is computed in
  64 bits; with a timeout of 2562047h47m16s and the default sleep it is negative, so the rollout
  passes although the grace period is 45 seconds.
\<close>

theorem shutdown_overflow_admitted:
  "ValidateWebhookServerRollout exDurationLib None [''--shutdown-timeout=2562047h47m16s''] = Inr ()
    \<and> sint (graceOf None) * 1000000000 < (9223372036000000000 :: int)"
  by code_simp

text \<open>
  A plan outlives its configuration. When a configuration changes its target, the reconciler
  notes the new one and never again touches the entry of the old one: also after the configuration
  has been deleted the replica still holds it, whatever the calls read.
\<close>

theorem retargeting_leaks_plan:
  assumes "rpTargets r (configKey k name) = Some old" and "rpRegistry r old = Some e"
    and "\<not> lcDeleting lc" and "ccTarget (lcConfig lc) \<noteq> old"
  shows "rpRegistry (snd (reconcileOne lib logf sprint rc k name NotFound servers' target' now'
      (snd (reconcileOne lib logf sprint rc k name (Found lc) servers target now r)))) old = Some e"
proof -
  let ?r = "snd (reconcileOne lib logf sprint rc k name (Found lc) servers target now r)"
  have "rpRegistry ?r old = Some e" using reconcileOne_other_target[OF assms(3)] assms(2,4) by metis
  moreover have "rpTargets ?r (configKey k name) = Some (ccTarget (lcConfig lc))" using assms(3) by (rule reconcileOne_remembers)
  ultimately show ?thesis using assms(4) by (simp add: reconcileOne_def[of _ _ _ _ _ _ NotFound] forgetConfig_def registryRemove_def Let_def)
qed

text \<open>
  C38: a move given up without success disarms the grace period of the next one. Its refusal stays in the
  status through every reconcile that is no move; the first reconcile of a later move then finds the
  grace period over and repoints the target at an instance that has not reported at all.
\<close>

theorem abandoned_move_skips_grace:
  assumes "condLaws (ct_cond lib)"
    and "handoverCondition lib (coStatus cfg) = Some c" and "cnStatus c = ''False''" and "cnTransition c = Some since"
    and "reachesHandover lib view cfg t n server" and "\<not> movingServers (coStatus cfg) n"
    and "PatchStatus s \<in> set (fst (reconcileNormal lib k view cfg))"
    and "coStatus cfg' = s" and "reachesHandover lib view' cfg' t' n' server'" and "canPatch lib view' cfg' t' n' server'"
    and "since + UnreportedGracePeriod \<le> crNow view'"
    and "crLeases view' (serverNamespace (crDefaultNamespace view') server') (wsName (lvServer server')) = Inr leases"
    and "filter (isLive (crNow view')) leases = []"
  shows "\<exists>p. ApplyTarget p \<in> set (fst (reconcileNormal lib k view' cfg')) \<and> patchFor lib view' cfg' (ftObject t') n' server' p"
proof -
  have "handoverCondition lib (coStatus cfg') = Some c"
    using settled_reconcile_keeps_verdict[OF assms(1,5-7)] assms(2,8) by simp
  then show ?thesis by (rule waited_move_patches[OF assms(1,9,10) _ assms(3,4,11-13)])
qed

theorem abandoned_move_skips_grace_witness:
  "\<exists>s p. PatchStatus s \<in> set (fst (reconcileNormal exCtrl CRDKind (exReads 1 []) (exControlled ''a'' exAbandoned)))
    \<and> ApplyTarget p \<in> set (fst (reconcileNormal exCtrl CRDKind (exReads (30 * second) []) (exControlled ''b'' s)))"
proof -
  have settled: "\<not> movingServers exAbandoned ''a''"
    using exStatus_points(1) by (simp add: exAbandoned_def movingServers_def wasApplied_def)
  then have "handoverApproved exCtrl (exReads 1 []) (exControlled ''a'' exAbandoned) ''a'' (exLiveServer ''a'')" by (simp add: handoverApproved_def)
  then obtain s where s: "PatchStatus s \<in> set (fst (reconcileNormal exCtrl CRDKind (exReads 1 []) (exControlled ''a'' exAbandoned)))"
    using exReads_patched(2) by blast
  obtain c where c: "handoverCondition exCtrl exAbandoned = Some c" "cnStatus c = ''False''" "cnTransition c = Some 0"
    by (simp add: statusCondition_def exCond_def exAbandoned_def exTrue_def)
  have "\<exists>p. ApplyTarget p \<in> set (fst (reconcileNormal exCtrl CRDKind (exReads (30 * second) []) (exControlled ''b'' s)))
      \<and> patchFor exCtrl (exReads (30 * second) []) (exControlled ''b'' s) (ftObject exFetched) ''b'' (exLiveServer ''b'') p"
  proof (rule abandoned_move_skips_grace[OF _ _ c(2,3) exReads_reach _ s _ exReads_reach exReads_patch, where leases = "[]"])
    show "handoverCondition exCtrl (coStatus (exControlled ''a'' exAbandoned)) = Some c" using c(1) by simp
  qed (use exCond_laws settled in \<open>simp_all add: exReads_def UnreportedGracePeriod_def\<close>)
  with s show ?thesis by blast
qed

text \<open>
  C39: failing closed does not work on a configuration that is already stale. A configuration with policy
  FailClosed in phase Stale, for instance because its server was briefly not ready, that no longer
  validates leaves its target untouched and reports that its policy is KeepServingStale.
\<close>

theorem fail_closed_ignored_when_stale:
  assumes "coDriftPolicy cfg = DriftPolicyFailClosed" and "stPhase (coStatus cfg) = PhaseStale" and "crStatusPatch view = None"
    and "crTarget view = Found t" and "ToRuleSets (ct_go lib) (coConfig cfg) = Inr ruleSets"
    and "analyzeTarget (ct_go lib) (coConfig cfg) (ftSource t) ruleSets = Inr report" and "HasErrors report"
  shows "(\<forall>p. ApplyTarget p \<notin> set (fst (reconcileNormal lib k view cfg)))
    \<and> (\<exists>s. PatchStatus s \<in> set (fst (reconcileNormal lib k view cfg)) \<and> stPhase s = PhaseStale
         \<and> stMessage s = staleDriftMessage k)"
proof -
  obtain st writes where ob: "observeTarget lib view cfg t = (st, writes)" by fastforce
  have quiet: "ApplyTarget p \<notin> set writes" for p using observeTarget_quiet(1)[of p lib view cfg t] ob by simp
  have phase: "stPhase st = PhaseStale" using observeTarget_phase[of lib view cfg t] ob assms(2) by simp
  have step: "reconcileNormal lib k view cfg = driftStep lib k view cfg (analyzedStatus lib cfg report st) writes"
    using assms(4-7) ob by (simp add: reconcileNormal_def)
  then show ?thesis using stale_drift[of "analyzedStatus lib cfg report st" cfg view lib k writes] phase quiet assms(1-3) by simp
qed

theorem fail_closed_ignored_when_stale_witness:
  "\<exists>s. PatchStatus s \<in> set (fst (reconcileNormal exCtrl CRDKind (exReads 0 []) exDrifted)) \<and> stPhase s = PhaseStale
     \<and> stMessage s = staleDriftMessage CRDKind"
proof -
  obtain ruleSets report where "ToRuleSets nolib exUncovered = Inr ruleSets" "analyzeTarget nolib exUncovered exSource ruleSets = Inr report" "HasErrors report"
    using exUncovered_drifts by blast
  with fail_closed_ignored_when_stale[of exDrifted "exReads 0 []" exFetched exCtrl ruleSets report CRDKind]
  show ?thesis by (simp add: exDrifted_def exReads_def exFetched_def exControlled_def)
qed

text \<open>
  Deleting a configuration whose revert failed leaves the webhook behind. The phase of a failed
  revert is Failed, and deletion reverts in phases Applied and Stale only: the finalizer goes and the
  target keeps the conversion webhook.
\<close>

theorem delete_forgets_failed_revert:
  assumes "coDeleting cfg" and "stPhase (coStatus cfg) = PhaseFailed" and "finalizerOf k \<in> set (coFinalizers cfg)"
    and "crFinalizerPatch view = None"
  shows "Reconcile lib k view (Found cfg) = ([RemoveFinalizer (finalizerOf k)], Inr 0)"
  using assms by (simp add: Reconcile_def reconcileDelete_def removeFinalizer_def)

text \<open>
  C37: the gate does not tell the sides of a field apart. It is open between any two revisions with the same
  hub that keep the served versions, the spokes and their lossless directions, when every name that a
  rule claimed is still claimed by a rule on one of the two sides, also when a field has lost its only rule on
  its own side. In the witness the second of two renames that exchange two fields is deleted under the
  policy Warn: the head analyses without errors, no rule claims the hub field any more, and the
  gate is open.
\<close>

theorem compat_gate_mixes_sides:
  assumes "RunCompat lib sprint read_at opts = Inr rep"
    and "analyzeAtRef lib read_at (coBase opts) opts = Inr base" and "analyzeAtRef lib read_at (coHead opts) opts = Inr head"
    and "anHub head = anHub base" and "set (servedSet (anVersions base)) \<subseteq> set (servedSet (anVersions head))"
    and "\<forall>name b. spokeIndex (anReport base) name = Some b \<longrightarrow> (\<exists>h. spokeIndex (anReport head) name = Some h \<and> keepsNames b h \<and> keepsLossless b h)"
  shows "\<not> Breaking rep"
proof -
  have "cpChanges rep = map (\<lambda>c. if chClass c \<in> set (coAllow opts) then c\<lparr>chAcknowledged := True\<rparr> else c) (classifyRevisions sprint base head)"
    using assms(1-3) by (auto simp: RunCompat_def split: if_splits)
  then show ?thesis using classify_not_breaking[OF assms(4-6), of _ sprint] by (auto simp: Breaking_def list_ex_iff)
qed

theorem compat_gate_mixes_sides_witness:
  "\<exists>rep base head b h. RunCompat nolib (\<lambda>_. []) exSwapAt exCompat = Inr rep \<and> \<not> Breaking rep
     \<and> analyzeAtRef nolib exSwapAt ''main'' exCompat = Inr base \<and> spokeIndex (anReport base) ''v1'' = Some b \<and> hubClaimed b ''spec.b''
     \<and> analyzeAtRef nolib exSwapAt ''HEAD'' exCompat = Inr head \<and> spokeIndex (anReport head) ''v1'' = Some h \<and> srErrors h = []
     \<and> \<not> hubClaimed h ''spec.b'' \<and> UncoveredHub (srUncovered h) = [''spec.b'']"
proof -
  have refs: "coBase exCompat = ''main''" "coHead exCompat = ''HEAD''" "coConfigPath exCompat \<noteq> []" by (simp_all add: exCompat_def)
  obtain base head b h where at: "analyzeAtRef nolib exSwapAt ''main'' exCompat = Inr base" "analyzeAtRef nolib exSwapAt ''HEAD'' exCompat = Inr head"
    and same: "anHub head = anHub base" "servedSet (anVersions head) = servedSet (anVersions base)"
    and spokes: "\<forall>name. spokeIndex (anReport base) name = (if name = ''v1'' then Some b else None)"
      "\<forall>name. spokeIndex (anReport head) name = (if name = ''v1'' then Some h else None)"
    and kept: "keepsNames b h" "keepsLossless b h" and lost: "srErrors h = []" "hubClaimed b ''spec.b''" "\<not> hubClaimed h ''spec.b''"
      "UncoveredHub (srUncovered h) = [''spec.b'']"
    by (rule exSwap_analysed)
  obtain rep where rep: "RunCompat nolib (\<lambda>_. []) exSwapAt exCompat = Inr rep" using at refs by (simp add: RunCompat_def)
  have "\<not> Breaking rep"
    by (rule compat_gate_mixes_sides[OF rep, of base head]) (use at refs same spokes kept in \<open>auto split: if_splits\<close>)
  then show ?thesis using rep at spokes lost by fastforce
qed

section \<open>Normalisation of schemas\<close>

text \<open>
  C10: normalisation terminates. With the fuel of the document, or any more, the walk over a schema
  ends with the result of \<open>NormalizeSchema\<close>, whatever references it contains, cyclic ones included.
\<close>

theorem normalize_terminates:
  "normalizeNode (normalizeFuel s + k) lib s {} s [] = Some (NormalizeSchema lib s)"
  by (rule normalizeNode_more[OF NormalizeSchema_node]) simp

text \<open>
  Normalised schemas are free of references and \<open>allOf\<close>. No leaf of a normalised schema stands
  for an unresolved construct, and normalising again changes nothing.
\<close>

theorem normalize_removes_junctors:
  assumes "NormalizeSchema lib s = Inr s'"
  shows "(\<forall>l\<in>set (flattenSchema s'). unresolvedConstruct (lfSchema l) = [] \<and> lfConstruct l \<in> {[], ''oneOf'', ''anyOf''})
    \<and> NormalizeSchema lib s' = Inr s'"
proof -
  have "junctorFree s'" by (rule NormalizeSchema_junctorFree[OF assms])
  then show ?thesis using junctorFree_leaves NormalizeSchema_same unfolding flattenSchema_def by blast
qed

text \<open>
  Normalisation loses no declared field. A path found in a schema is found in what it
  normalises to.
\<close>

theorem normalize_keeps_fields:
  assumes "NormalizeSchema lib s = Inr s'" and "lookupPath s p = Inr t"
  shows "\<exists>t'. lookupPath s' p = Inr t'"
proof -
  have "normalizeNode (normalizeFuel s) lib s {} s [] = Some (Inr s')" using NormalizeSchema_node[of s lib] assms(1) by simp
  moreover have "declares s p" using assms(2) declares_lookup by blast
  ultimately show ?thesis using normalizeNode_declares declares_lookup by blast
qed

section \<open>Promotion of a version\<close>

text \<open>
  C35: promotion and back. Promoting a spoke whose rules set exactly the params of their strategy
  and lose nothing when inverted, and then promoting the old hub again, gives back that spoke with
  the rules it had.
\<close>

theorem rehub_there_and_back:
  assumes "distinct (map svVersion spokes)" and "s \<in> set spokes" and "list_all canonicalRule (svRules s)"
    and "RehubSpokes oldHub (svVersion s) spokes leaves = Inr (hub, out)"
    and "RehubSpokes hub oldHub out leaves' = Inr (hub', out')"
  shows "hub' = oldHub \<and> hd out' = s"
proof -
  obtain pr inverted rest where 1: "hub = svVersion s" "pr \<in> set spokes" "svVersion pr = svVersion s"
    "InvertRules (svRules pr) = Inr inverted" "out = \<lparr>svVersion = oldHub, svRules = inverted\<rparr> # rest"
    "map svVersion rest = filter (\<lambda>v. v \<noteq> svVersion s) (map svVersion spokes)" "oldHub \<notin> set (map svVersion spokes)"
    by (rule RehubSpokes_Inr[OF assms(4)])
  have pr: "pr = s" using assms(1,2) 1(2,3) by (auto simp: distinct_map dest: inj_onD)
  obtain pr' inverted' rest' where 2: "hub' = oldHub" "pr' \<in> set out" "svVersion pr' = oldHub"
    "InvertRules (svRules pr') = Inr inverted'" "out' = \<lparr>svVersion = hub, svRules = inverted'\<rparr> # rest'"
    by (rule RehubSpokes_Inr[OF assms(5)])
  have "svVersion x \<noteq> oldHub" if "x \<in> set rest" for x
  proof -
    have "svVersion x \<in> set (map svVersion rest)" using that by simp
    then show ?thesis using 1(6,7) by auto
  qed
  then have "pr' = \<lparr>svVersion = oldHub, svRules = inverted\<rparr>" using 2(2,3) 1(5) by auto
  then have "inverted' = svRules s" using InvertRules_back[OF assms(3)] 1(4) 2(4) by (simp add: pr)
  then show ?thesis using 2(1,5) 1(1) by simp
qed

theorem rehub_there_and_back_witness:
  "''v2'' = ''v2'' \<and> hd exDemoted = exSpokes ! 0"
proof (rule rehub_there_and_back)
  show "distinct (map svVersion exSpokes)" by code_simp
  show "exSpokes ! 0 \<in> set exSpokes" by (simp add: exSpokes_def)
  show "list_all canonicalRule (svRules (exSpokes ! 0))" by code_simp
  show "RehubSpokes ''v2'' (svVersion (exSpokes ! 0)) exSpokes exLeaves = Inr (''v1'', exPromoted)" by code_simp
  show "RehubSpokes ''v1'' ''v2'' exPromoted exLeaves = Inr (''v2'', exDemoted)" by code_simp
qed

text \<open>
  C36: the inverse of a rule compiles to the same operations, for the params that are mirrorable: all
  but \<open>NumericScale\<close> (whose inverse is wrong, see the end), \<open>ForEach\<close> and a metadata stash that is not
  restored; key names, sides and serialisations have to be given as the inverse gives them, and the
  renames of a \<open>MapKeyRename\<close> to be injective and not empty. Translated and resolved against the two
  schemas in exchanged roles, the inverse of such a rule has the operations of the rule with the
  directions exchanged.
\<close>

theorem inverse_exchanges_operations:
  assumes "InvertRule r = Inr r'" and "apiParam r = Some p" and "mirrorable p"
    and "convertRules lib [r] = Inr [e]"
  shows "\<exists>e'. convertRules lib [r'] = Inr [e']
    \<and> rH2s (resolveRule lib nested idx e' spoke hub policy depth) = rS2h (resolveRule lib nested idx e hub spoke policy depth)
    \<and> rS2h (resolveRule lib nested idx e' spoke hub policy depth) = rH2s (resolveRule lib nested idx e hub spoke policy depth)"
  using inverse_exchanged[OF assms(1-3), of lib "convertRules lib" 0 e nested idx spoke hub policy depth] assms(4)
  by (auto simp: convertRules.simps[of lib "[_]"] bindR_Inr_iff exchanged_def)

theorem inverse_exchanges_operations_witness:
  "\<exists>e'. convertRules nolib [ConversionRule ''FieldRename'' [AFieldRename ''spec.replicas'' ''spec.size''] False [] None] = Inr [e']
    \<and> rH2s (resolveRule nolib (resolveAndBuildOps nolib) 0 e' exSpoke exHub [] 0) = rS2h (resolveRule nolib (resolveAndBuildOps nolib) 0 (exRules ! 0) exHub exSpoke [] 0)
    \<and> rS2h (resolveRule nolib (resolveAndBuildOps nolib) 0 e' exSpoke exHub [] 0) = rH2s (resolveRule nolib (resolveAndBuildOps nolib) 0 (exRules ! 0) exHub exSpoke [] 0)"
proof (rule inverse_exchanges_operations)
  show "InvertRule exApiRename = Inr (ConversionRule ''FieldRename'' [AFieldRename ''spec.replicas'' ''spec.size''] False [] None)" by code_simp
  show "apiParam exApiRename = Some (AFieldRename ''spec.size'' ''spec.replicas'')" by code_simp
  show "mirrorable (AFieldRename ''spec.size'' ''spec.replicas'')" by code_simp
  show "convertRules nolib [exApiRename] = Inr [exRules ! 0]" by code_simp
qed

text \<open>
  Promotion keeps the versions. When promoting a version to hub succeeds, the result names it
  as hub; it was a spoke and the old hub was not; the old hub comes first among the new spokes,
  followed by the other versions in their order; and the new hub is not among them.
\<close>

theorem rehub_versions:
  assumes "RehubSpokes oldHub newHub spokes leaves = Inr (hub, out)"
  shows "hub = newHub \<and> newHub \<in> set (map svVersion spokes) \<and> oldHub \<notin> set (map svVersion spokes)
    \<and> map svVersion out = oldHub # filter (\<lambda>v. v \<noteq> newHub) (map svVersion spokes) \<and> newHub \<notin> set (map svVersion out)"
  using assms by (rule RehubSpokes_Inr) auto

text \<open>
  Composition of a spoke. The composed rules are the old ones with their hub paths
  rewritten, followed by one rename for exactly those leaves of the spoke that the promotion maps
  to another path and no rewritten rule fills, each once.
\<close>

theorem compose_lifts_exactly:
  assumes "PathMapFromPromoteRules promote = Inr pathMap" and "ComposeSpokeRules rules pathMap leaves = Inr out"
  shows "\<exists>rewritten lifted. out = rewritten @ map (\<lambda>q. liftedRename (the (map_of pathMap q)) q) lifted
    \<and> list_all2 (\<lambda>r rw. RewriteHubPaths r pathMap = Inr rw) rules rewritten \<and> distinct lifted
    \<and> set lifted = {q \<in> leaves. (\<exists>n. map_of pathMap q = Some n \<and> n \<noteq> q) \<and> q \<notin> set (concat (map spokePathsOf rewritten))}"
proof -
  have keys: "distinct (map fst pathMap)" by (rule PathMapFromPromoteRules_Inr(1)[OF assms(1)])
  obtain rewritten where rw: "list_all2 (\<lambda>r rw. RewriteHubPaths r pathMap = Inr rw) rules rewritten"
    and out: "out = rewritten @ map (\<lambda>q. liftedRename (the (map_of pathMap q)) q)
      (filter (lifts pathMap leaves (set (concat (map spokePathsOf rewritten)))) (sort (map fst pathMap)))"
    by (rule ComposeSpokeRules_Inr[OF assms(2) keys])
  let ?lifted = "filter (lifts pathMap leaves (set (concat (map spokePathsOf rewritten)))) (sort (map fst pathMap))"
  have "set ?lifted = {q \<in> leaves. (\<exists>n. map_of pathMap q = Some n \<and> n \<noteq> q) \<and> q \<notin> set (concat (map spokePathsOf rewritten))}"
    by (auto simp: lifts_def dom_map_of_conv_image_fst[symmetric] split: option.splits simp del: set_concat)
  then show ?thesis using rw out keys by (intro exI[of _ rewritten] exI[of _ ?lifted]) simp
qed

text \<open>
  C40: the inverse of a \<open>NumericScale\<close> rule rescales the wrong way. Let the factor \<open>k\<close> be a whole number
  other than 0, 1 and -1, and let an object hold \<open>n * k\<close> at the hub path, \<open>n\<close> not zero and \<open>n * k * k\<close> an
  integer that \<open>float64\<close> represents. The rule writes \<open>n\<close> to the spoke path; its inverse, on the
  same way with the roles exchanged, writes \<open>n * k * k\<close> there, which is another number.
\<close>

theorem numeric_scale_inverse_wrong:
  assumes "InvertRule r = Inr r'" and "apiParam r = Some (ANumericScale hp sp (Fin (of_int k)))" and "convertRules lib [r] = Inr [e]"
    and "1 < \<bar>k\<bar>" and "n \<noteq> 0" and "\<bar>n * k * k\<bar> < 2 ^ 53"
    and "getValue inp (ParsePath hp) = Some (JFloat (Fin (of_int (n * k))))"
  shows "n * k * k \<noteq> n \<and> (\<exists>e' x y. convertRules lib [r'] = Inr [e']
    \<and> rH2s (resolveRule lib c idx e hub spoke policy depth) = Some x \<and> rS2h (resolveRule lib c idx e' spoke hub policy depth) = Some y
    \<and> applyOp lib x inp out = setValue out (ParsePath sp) (JFloat (Fin (of_int n)))
    \<and> applyOp lib y inp out = setValue out (ParsePath sp) (JFloat (Fin (of_int (n * k * k)))))"
proof -
  have "1 < \<bar>k\<bar> * \<bar>k\<bar>" using assms(4) by (smt (verit) mult_le_cancel_left1)
  then have "1 < k * k" by simp
  then have "n * k * k \<noteq> n" using assms(5) by (simp add: mult.assoc)
  have "\<bar>n\<bar> \<le> \<bar>n * k * k\<bar>" using \<open>1 < k * k\<close> by (simp add: abs_mult mult.assoc)  (smt (verit) mult_le_cancel_left1)
  then have "\<bar>n\<bar> < 2 ^ 53" using assms(6) by linarith
  then have exact: "div64 (Fin (of_int (n * k))) (Fin (of_int k)) = Fin (of_int n)"
      "mul64 (Fin (of_int (n * k))) (Fin (of_int k)) = Fin (of_int (n * k * k))"
    using scale_exact[of k n] assms(4,6) by auto
  have ops: "applyOp lib (NumericScaleOp (ParsePath hp) (ParsePath sp) (Fin (of_int k)) False rnd) inp out = setValue out (ParsePath sp) (JFloat (Fin (of_int n)))"
    "applyOp lib (NumericScaleOp (ParsePath hp) (ParsePath sp) (Fin (of_int k)) True rnd) inp out = setValue out (ParsePath sp) (JFloat (Fin (of_int (n * k * k))))" for rnd
    unfolding applyOp_simps by (rule scale_value[OF assms(7)], simp only: if_True if_False exact)+
  obtain e' where "convertRules lib [r'] = Inr [e']"
    "rH2s (resolveRule lib c idx e hub spoke policy depth) = Some (NumericScaleOp (ParsePath hp) (ParsePath sp) (Fin (of_int k)) False
       (nodeKind (lookupPath spoke (ParsePath sp)) = FieldKindInteger))"
    "rS2h (resolveRule lib c idx e' spoke hub policy depth) = Some (NumericScaleOp (ParsePath hp) (ParsePath sp) (Fin (of_int k)) True
       (nodeKind (lookupPath spoke (ParsePath sp)) = FieldKindInteger))"
    by (rule numericScale_compiled[OF assms(1-3)])
  then show ?thesis using \<open>n * k * k \<noteq> n\<close> ops by blast
qed

theorem numeric_scale_inverse_wrong_witness:
  "\<exists>e e' x y. convertRules nolib [exApiScale] = Inr [e] \<and> (\<exists>r'. InvertRule exApiScale = Inr r' \<and> convertRules nolib [r'] = Inr [e'])
    \<and> rH2s (resolveRule nolib (resolveAndBuildOps nolib) 0 e exScaleHub exScaleSpoke [] 0) = Some x
    \<and> rS2h (resolveRule nolib (resolveAndBuildOps nolib) 0 e' exScaleSpoke exScaleHub [] 0) = Some y
    \<and> applyOp nolib x exScaleValue [] = setValue [] [''spec'', ''memoryGB''] (JFloat (Fin 2))
    \<and> applyOp nolib y exScaleValue [] = setValue [] [''spec'', ''memoryGB''] (JFloat (Fin 2097152))"
proof -
  have "isRight (InvertRule exApiScale)" "isRight (convertRules nolib [exApiScale])" by code_simp+
  then obtain r' es where r': "InvertRule exApiScale = Inr r'" and es: "convertRules nolib [exApiScale] = Inr es" by (auto simp: isRight_def split: sum.splits)
  then obtain e where e: "convertRules nolib [exApiScale] = Inr [e]"
    by (auto simp: convertRules.simps[of nolib "[_]"] bindR_Inr_iff)
  have param: "apiParam exApiScale = Some (ANumericScale ''spec.memoryMB'' ''spec.memoryGB'' (Fin (of_int 1024)))" by code_simp
  have at: "getValue exScaleValue (ParsePath ''spec.memoryMB'') = Some (JFloat (Fin (of_int (2 * 1024))))" by code_simp
  have path: "ParsePath ''spec.memoryGB'' = [''spec'', ''memoryGB'']" by code_simp
  from numeric_scale_inverse_wrong[OF r' param e _ _ _ at, where c = "resolveAndBuildOps nolib" and idx = 0 and hub = exScaleHub
      and spoke = exScaleSpoke and policy = "[]" and depth = 0 and out = "[]"]
  show ?thesis using e r' path by auto
qed

end
